(* ===== verification/Iam_Prelude.thy ===== *)
theory Iam_Prelude
  imports Main "HOL-Library.AList" "HOL-Library.Sublist"
begin

text \<open>
  Shared ground of the development: the effect combinators every service function is
  written in (a state that is threaded through, and an exception that stops the rest of the
  function but keeps the writes made so far, as an autocommitting database connection does),
  the Python string and dictionary operations the sources use, JSON values, SQL statements
  over a table kept as a list of rows, and the page arithmetic all listings share.
\<close>

named_theorems eff_simps \<open>unfolding of the effect combinators\<close>
named_theorems keeps_intros \<open>rules for state predicates an effect preserves\<close>

section \<open>Effects\<close>

type_synonym ('e, 's, 'a) eff = "'s \<Rightarrow> ('e + 'a) \<times> 's"

definition eret :: "'a \<Rightarrow> ('e, 's, 'a) eff" where
  "eret x = (\<lambda>s. (Inr x, s))"

definition eraise :: "'e \<Rightarrow> ('e, 's, 'a) eff" where
  "eraise e = (\<lambda>s. (Inl e, s))"

definition ebind :: "('e, 's, 'a) eff \<Rightarrow> ('a \<Rightarrow> ('e, 's, 'b) eff) \<Rightarrow> ('e, 's, 'b) eff" where
  "ebind m k = (\<lambda>s. case m s of (Inl e, s') \<Rightarrow> (Inl e, s') | (Inr x, s') \<Rightarrow> k x s')"

definition ethen :: "('e, 's, 'a) eff \<Rightarrow> ('e, 's, 'b) eff \<Rightarrow> ('e, 's, 'b) eff" where
  "ethen m k = ebind m (\<lambda>_. k)"

definition etry :: "('e, 's, 'a) eff \<Rightarrow> ('e \<Rightarrow> ('e, 's, 'a) eff) \<Rightarrow> ('e, 's, 'a) eff" where
  "etry m h = (\<lambda>s. case m s of (Inl e, s') \<Rightarrow> h e s' | (Inr x, s') \<Rightarrow> (Inr x, s'))"

definition emod :: "('s \<Rightarrow> 's) \<Rightarrow> ('e, 's, unit) eff" where
  "emod f = (\<lambda>s. (Inr (), f s))"

definition eget :: "('s \<Rightarrow> 'a) \<Rightarrow> ('e, 's, 'a) eff" where
  "eget f = (\<lambda>s. (Inr (f s), s))"

definition elift :: "'e + 'a \<Rightarrow> ('e, 's, 'a) eff" where
  "elift r = (\<lambda>s. (r, s))"

fun eiter :: "('a \<Rightarrow> ('e, 's, unit) eff) \<Rightarrow> 'a list \<Rightarrow> ('e, 's, unit) eff" where
  "eiter f [] = eret ()"
| "eiter f (x # xs) = ethen (f x) (eiter f xs)"

lemmas eff_defs = eret_def eraise_def ebind_def ethen_def etry_def emod_def eget_def elift_def

lemma eret_run [simp, eff_simps]: "eret x s = (Inr x, s)"
  and eraise_run [simp, eff_simps]: "eraise e s = (Inl e, s)"
  and emod_run [simp, eff_simps]: "emod f s = (Inr (), f s)"
  and eget_run [simp, eff_simps]: "eget g s = (Inr (g s), s)"
  and elift_run [simp, eff_simps]: "elift r s = (r, s)"
  by (simp_all add: eff_defs)

lemma ebind_run [eff_simps]:
  "ebind m k s = (case m s of (Inl e, s') \<Rightarrow> (Inl e, s') | (Inr x, s') \<Rightarrow> k x s')"
  by (simp add: ebind_def)

lemma ethen_run [eff_simps]:
  "ethen m k s = (case m s of (Inl e, s') \<Rightarrow> (Inl e, s') | (Inr x, s') \<Rightarrow> k s')"
  by (simp add: ethen_def ebind_def)

lemma etry_run [eff_simps]:
  "etry m h s = (case m s of (Inl e, s') \<Rightarrow> h e s' | (Inr x, s') \<Rightarrow> (Inr x, s'))"
  by (simp add: etry_def)

text \<open>A sequence that returns: every part of it did.\<close>

lemma ebind_ok: "ebind m k w = (Inr y, w') \<longleftrightarrow> (\<exists>x w1. m w = (Inr x, w1) \<and> k x w1 = (Inr y, w'))"
  by (auto simp: ebind_run split: prod.splits sum.splits)

lemma ethen_ok: "ethen m k w = (Inr y, w') \<longleftrightarrow> (\<exists>x w1. m w = (Inr x, w1) \<and> k w1 = (Inr y, w'))"
  by (auto simp: ethen_run split: prod.splits sum.splits)

text \<open>An effect keeps a predicate when every run of it, raising or not, does.\<close>

definition keeps :: "('s \<Rightarrow> bool) \<Rightarrow> ('e, 's, 'a) eff \<Rightarrow> bool" where
  "keeps P m \<longleftrightarrow> (\<forall>s. P s \<longrightarrow> P (snd (m s)))"

lemma keepsI: "(\<And>s. P s \<Longrightarrow> P (snd (m s))) \<Longrightarrow> keeps P m"
  by (simp add: keeps_def)

lemma keepsD: "keeps P m \<Longrightarrow> P s \<Longrightarrow> P (snd (m s))"
  by (simp add: keeps_def)

lemma keeps_run: "keeps P m \<Longrightarrow> m s = (r, s') \<Longrightarrow> P s \<Longrightarrow> P s'"
  by (auto dest: keepsD)

lemma keeps_eret [keeps_intros, simp]: "keeps P (eret x)"
  and keeps_eraise [keeps_intros, simp]: "keeps P (eraise e)"
  and keeps_eget [keeps_intros, simp]: "keeps P (eget g)"
  and keeps_elift [keeps_intros, simp]: "keeps P (elift r)"
  by (simp_all add: keeps_def)

lemma keeps_emod [keeps_intros]: "(\<And>s. P s \<Longrightarrow> P (f s)) \<Longrightarrow> keeps P (emod f)"
  by (simp add: keeps_def)

lemma keeps_ebind [keeps_intros]:
  "keeps P m \<Longrightarrow> (\<And>x. keeps P (k x)) \<Longrightarrow> keeps P (ebind m k)"
  by (auto simp: keeps_def ebind_def split: prod.splits sum.splits)

lemma keeps_ethen [keeps_intros]: "keeps P m \<Longrightarrow> keeps P k \<Longrightarrow> keeps P (ethen m k)"
  by (simp add: ethen_def keeps_ebind)

lemma keeps_etry [keeps_intros]:
  "keeps P m \<Longrightarrow> (\<And>e. keeps P (h e)) \<Longrightarrow> keeps P (etry m h)"
  by (auto simp: keeps_def etry_def split: prod.splits sum.splits)

lemma keeps_if [keeps_intros]:
  "(b \<Longrightarrow> keeps P m) \<Longrightarrow> (\<not> b \<Longrightarrow> keeps P m') \<Longrightarrow> keeps P (if b then m else m')"
  by simp

lemma keeps_option [keeps_intros]:
  "keeps P m \<Longrightarrow> (\<And>x. keeps P (k x)) \<Longrightarrow> keeps P (case v of None \<Rightarrow> m | Some x \<Rightarrow> k x)"
  by (cases v) auto

lemma keeps_sum [keeps_intros]:
  "(\<And>e. keeps P (m e)) \<Longrightarrow> (\<And>x. keeps P (k x)) \<Longrightarrow> keeps P (case v of Inl e \<Rightarrow> m e | Inr x \<Rightarrow> k x)"
  by (cases v) auto

lemma keeps_prod [keeps_intros]:
  "(\<And>x y. keeps P (k x y)) \<Longrightarrow> keeps P (case v of (x, y) \<Rightarrow> k x y)"
  by (cases v) auto

lemma keeps_eiter [keeps_intros]: "(\<And>x. keeps P (f x)) \<Longrightarrow> keeps P (eiter f xs)"
  by (induction xs) (auto intro: keeps_intros)

text \<open>An effect commutes with a change of the state it does not look at.\<close>

named_theorems commutes_intros \<open>rules for effects that commute with a state change\<close>

definition commutes :: "('s \<Rightarrow> 's) \<Rightarrow> ('e, 's, 'a) eff \<Rightarrow> bool" where
  "commutes g m \<longleftrightarrow> (\<forall>s. m (g s) = (fst (m s), g (snd (m s))))"

lemma commutes_run: "commutes g m \<Longrightarrow> m (g s) = (fst (m s), g (snd (m s)))"
  by (simp add: commutes_def)

lemma commutes_basic [commutes_intros]:
  "commutes g (eret x)" "commutes g (eraise e)" "commutes g (elift r)"
  by (simp_all add: commutes_def)

lemma commutes_eget [commutes_intros]: "(\<And>s. f (g s) = f s) \<Longrightarrow> commutes g (eget f)"
  by (simp add: commutes_def)

lemma commutes_emod [commutes_intros]: "(\<And>s. f (g s) = g (f s)) \<Longrightarrow> commutes g (emod f)"
  by (simp add: commutes_def)

lemma commutes_ebind [commutes_intros]:
  "commutes g m \<Longrightarrow> (\<And>x. commutes g (k x)) \<Longrightarrow> commutes g (ebind m k)"
  unfolding commutes_def ebind_run by (auto split: prod.split sum.split)

lemma commutes_ethen [commutes_intros]: "commutes g m \<Longrightarrow> commutes g k \<Longrightarrow> commutes g (ethen m k)"
  by (simp add: ethen_def commutes_ebind)

lemma commutes_etry [commutes_intros]:
  "commutes g m \<Longrightarrow> (\<And>e. commutes g (h e)) \<Longrightarrow> commutes g (etry m h)"
  unfolding commutes_def etry_run by (auto split: prod.split sum.split)

lemma commutes_if [commutes_intros]: "commutes g m \<Longrightarrow> commutes g m' \<Longrightarrow> commutes g (if b then m else m')"
  by simp

lemma commutes_option [commutes_intros]:
  "commutes g m \<Longrightarrow> (\<And>x. commutes g (k x)) \<Longrightarrow> commutes g (case v of None \<Rightarrow> m | Some x \<Rightarrow> k x)"
  by (cases v) auto

section \<open>Python strings\<close>

definition lower_char :: "char \<Rightarrow> char" where
  "lower_char c =
     (if 65 \<le> (of_char c :: nat) \<and> (of_char c :: nat) \<le> 90 then char_of ((of_char c :: nat) + 32) else c)"

definition upper_char :: "char \<Rightarrow> char" where
  "upper_char c =
     (if 97 \<le> (of_char c :: nat) \<and> (of_char c :: nat) \<le> 122 then char_of ((of_char c :: nat) - 32) else c)"

definition py_lower :: "string \<Rightarrow> string" where
  "py_lower s = map lower_char s"

definition py_upper :: "string \<Rightarrow> string" where
  "py_upper s = map upper_char s"

definition starts_with :: "string \<Rightarrow> string \<Rightarrow> bool" where
  "starts_with s p = prefix p s"

definition ends_with :: "string \<Rightarrow> string \<Rightarrow> bool" where
  "ends_with s p = suffix p s"

fun contains_sub :: "string \<Rightarrow> string \<Rightarrow> bool" where
  "contains_sub p [] = (p = [])"
| "contains_sub p (c # s) = (prefix p (c # s) \<or> contains_sub p s)"

text \<open>
  \<open>s.split(c, 1)\<close> is \<open>split1\<close>: \<open>None\<close> when the separator does not occur, where the sources'
  two-name unpacking raises \<open>ValueError\<close>; \<open>split_all\<close> is \<open>s.split(c)\<close> with a separator.
\<close>

fun split1 :: "char \<Rightarrow> string \<Rightarrow> (string \<times> string) option" where
  "split1 c [] = None"
| "split1 c (x # xs) =
     (if x = c then Some ([], xs)
      else (case split1 c xs of None \<Rightarrow> None | Some (a, b) \<Rightarrow> Some (x # a, b)))"

fun split_all :: "char \<Rightarrow> string \<Rightarrow> string list" where
  "split_all c [] = [[]]"
| "split_all c (x # xs) =
     (if x = c then [] # split_all c xs
      else (case split_all c xs of [] \<Rightarrow> [[x]] | y # ys \<Rightarrow> (x # y) # ys))"

lemma split1_join: "split1 c s = Some (a, b) \<Longrightarrow> s = a @ c # b \<and> c \<notin> set a"
  by (induction s arbitrary: a) (auto split: if_splits option.splits)

lemma split1_append: "c \<notin> set a \<Longrightarrow> split1 c (a @ c # b) = Some (a, b)"
  by (induction a) auto

lemma split_all_nonempty [simp]: "split_all c s \<noteq> []"
  by (induction s) (auto split: list.splits)

lemma split_all_no_sep: "c \<notin> set s \<Longrightarrow> split_all c s = [s]"
  by (induction s) auto

text \<open>\<open>sep.join(xs)\<close>.\<close>

fun py_join :: "string \<Rightarrow> string list \<Rightarrow> string" where
  "py_join sep [] = []"
| "py_join sep [x] = x"
| "py_join sep (x # y # r) = x @ sep @ py_join sep (y # r)"

lemma py_join_Cons: "py_join sep ((x # a) # r) = x # py_join sep (a # r)"
  by (cases r) simp_all

lemma py_join_split: "py_join [c] (split_all c s) = s"
proof (induction s)
  case (Cons x s)
  then show ?case by (cases "split_all c s") (auto simp: py_join_Cons)
qed simp

lemma split_all_append: "c \<notin> set x \<Longrightarrow> split_all c (x @ c # s) = x # split_all c s"
  by (induction x) auto

lemma split_join:
  assumes "xs \<noteq> []" "\<forall>x \<in> set xs. c \<notin> set x"
  shows "split_all c (py_join [c] xs) = xs"
  using assms by (induction "[c]" xs rule: py_join.induct) (auto simp: split_all_no_sep split_all_append)

definition rstrip_char :: "char \<Rightarrow> string \<Rightarrow> string" where
  "rstrip_char c s = rev (dropWhile (\<lambda>x. x = c) (rev s))"

text \<open>\<open>s.strip()\<close> and \<open>s.split()\<close>, for ASCII white space.\<close>

definition space_char :: "char \<Rightarrow> bool" where
  "space_char c \<longleftrightarrow> (of_char c :: nat) \<in> {9, 10, 11, 12, 13, 28, 29, 30, 31, 32}"

definition py_strip :: "string \<Rightarrow> string" where
  "py_strip s = rev (dropWhile space_char (rev (dropWhile space_char s)))"

definition split_words :: "string \<Rightarrow> string list" where
  "split_words s = filter (\<lambda>x. x \<noteq> []) (split_all (CHR '' '') (map (\<lambda>c. if space_char c then CHR '' '' else c) s))"

fun digits_of :: "nat \<Rightarrow> string" where
  "digits_of n = (if n < 10 then [char_of (48 + n)] else digits_of (n div 10) @ [char_of (48 + n mod 10)])"

declare digits_of.simps [simp del]

definition quoted :: "string \<Rightarrow> string" where
  "quoted s = CHR 0x27 # s @ [CHR 0x27]"

text \<open>Truth value of an optional string: \<open>None\<close> and the empty string are false.\<close>

definition ostr_true :: "string option \<Rightarrow> bool" where
  "ostr_true v = (case v of None \<Rightarrow> False | Some s \<Rightarrow> s \<noteq> [])"

lemma ostr_true_simps [simp]:
  "\<not> ostr_true None" "ostr_true (Some s) = (s \<noteq> [])"
  by (simp_all add: ostr_true_def)

text \<open>\<open>a or b\<close> on optional strings.\<close>

definition ostr_or :: "string option \<Rightarrow> string option \<Rightarrow> string option" where
  "ostr_or a b = (if ostr_true a then a else b)"

definition none_if_empty :: "string \<Rightarrow> string option" where
  "none_if_empty s = (if s = [] then None else Some s)"

section \<open>JSON values and dictionaries\<close>

datatype json =
    JNull
  | JBool bool
  | JInt int
  | JStr string
  | JArr "json list"
  | JObj "(string \<times> json) list"

text \<open>
  A dictionary is an association list in insertion order; \<open>AList.update\<close> overwrites in place
  or appends, \<open>AList.delete\<close> removes, as \<open>d[k] = v\<close> and \<open>d.pop(k, None)\<close> do.
\<close>

type_synonym 'v dict = "(string \<times> 'v) list"

definition dget :: "'v dict \<Rightarrow> string \<Rightarrow> 'v option" where
  "dget d k = map_of d k"

definition dset :: "string \<Rightarrow> 'v \<Rightarrow> 'v dict \<Rightarrow> 'v dict" where
  "dset k v d = AList.update k v d"

definition ddel :: "string \<Rightarrow> 'v dict \<Rightarrow> 'v dict" where
  "ddel k d = AList.delete k d"

lemma dget_dset: "dget (dset k v d) k' = (if k' = k then Some v else dget d k')"
  by (simp add: dget_def dset_def update_conv)

lemma dget_ddel: "dget (ddel k d) k' = (if k' = k then None else dget d k')"
  by (simp add: dget_def ddel_def delete_conv)

lemma dget_Nil [simp]: "dget [] k = None"
  by (simp add: dget_def)

section \<open>SQL statements over a list of rows\<close>

definition sql_select :: "('r \<Rightarrow> bool) \<Rightarrow> 'r list \<Rightarrow> 'r list" where
  "sql_select p t = filter p t"

definition sql_row :: "('r \<Rightarrow> bool) \<Rightarrow> 'r list \<Rightarrow> 'r option" where
  "sql_row p t = find p t"

definition sql_count :: "('r \<Rightarrow> bool) \<Rightarrow> 'r list \<Rightarrow> nat" where
  "sql_count p t = length (filter p t)"

definition sql_update :: "('r \<Rightarrow> bool) \<Rightarrow> ('r \<Rightarrow> 'r) \<Rightarrow> 'r list \<Rightarrow> 'r list" where
  "sql_update p f t = map (\<lambda>r. if p r then f r else r) t"

definition sql_delete :: "('r \<Rightarrow> bool) \<Rightarrow> 'r list \<Rightarrow> 'r list" where
  "sql_delete p t = filter (\<lambda>r. \<not> p r) t"

text \<open>\<open>LIMIT l OFFSET o\<close>.\<close>

definition sql_page :: "nat \<Rightarrow> nat \<Rightarrow> 'r list \<Rightarrow> 'r list" where
  "sql_page l off t = take l (drop off t)"

lemma sql_row_Some: "sql_row p t = Some r \<Longrightarrow> r \<in> set t \<and> p r"
  by (auto simp: sql_row_def find_Some_iff)

lemma sql_row_None: "sql_row p t = None \<longleftrightarrow> (\<forall>r \<in> set t. \<not> p r)"
  by (auto simp: sql_row_def find_None_iff)

lemma sql_row_append: "sql_row p (t @ u) = (case sql_row p t of None \<Rightarrow> sql_row p u | Some r \<Rightarrow> Some r)"
  by (induction t) (auto simp: sql_row_def)

lemma sql_row_update_keep:
  "(\<And>r. q (f r) = q r) \<Longrightarrow>
   sql_row q (sql_update p f t) = map_option (\<lambda>r. if p r then f r else r) (sql_row q t)"
  by (induction t) (auto simp: sql_row_def sql_update_def)

lemma set_sql_update:
  "r \<in> set (sql_update p f t) \<longleftrightarrow> (\<exists>x \<in> set t. r = (if p x then f x else x))"
  by (auto simp: sql_update_def)

lemma all_sql_update:
  "(\<And>r. r \<in> set t \<Longrightarrow> p r \<Longrightarrow> q (f r)) \<Longrightarrow> (\<And>r. r \<in> set t \<Longrightarrow> \<not> p r \<Longrightarrow> q r) \<Longrightarrow>
   \<forall>r \<in> set (sql_update p f t). q r"
  by (auto simp: sql_update_def)

lemma set_sql_delete: "r \<in> set (sql_delete p t) \<longleftrightarrow> r \<in> set t \<and> \<not> p r"
  by (auto simp: sql_delete_def)

lemma set_sql_select: "r \<in> set (sql_select p t) \<longleftrightarrow> r \<in> set t \<and> p r"
  by (auto simp: sql_select_def)

lemma sql_count_zero: "sql_count p t = 0 \<longleftrightarrow> (\<forall>r \<in> set t. \<not> p r)"
  by (auto simp: sql_count_def filter_empty_conv)

lemma map_key_sql_update [simp]:
  "(\<And>r. key (f r) = key r) \<Longrightarrow> map key (sql_update p f t) = map key t"
  by (simp add: sql_update_def)

lemma distinct_key_delete: "distinct (map key t) \<Longrightarrow> distinct (map key (sql_delete p t))"
  unfolding sql_delete_def by (rule distinct_map_filter)

lemma length_sql_update [simp]: "length (sql_update p f t) = length t"
  by (simp add: sql_update_def)

section \<open>Entries with a time to live\<close>

text \<open>Redis keys with an expiry: \<open>GET\<close>, \<open>SETEX\<close> and \<open>DEL\<close>.\<close>

type_synonym 'v ttl_cache = "(string \<times> 'v \<times> int) list"

definition cache_get :: "int \<Rightarrow> 'v ttl_cache \<Rightarrow> string \<Rightarrow> 'v option" where
  "cache_get now c k =
     (case map_of c k of None \<Rightarrow> None | Some (v, until) \<Rightarrow> if now < until then Some v else None)"

definition cache_setex :: "int \<Rightarrow> string \<Rightarrow> int \<Rightarrow> 'v \<Rightarrow> 'v ttl_cache \<Rightarrow> 'v ttl_cache" where
  "cache_setex now k ttl v c = AList.update k (v, now + ttl) c"

definition cache_del :: "string \<Rightarrow> 'v ttl_cache \<Rightarrow> 'v ttl_cache" where
  "cache_del k c = AList.delete k c"

lemma cache_get_setex:
  "cache_get now' (cache_setex now k ttl v c) k' =
     (if k' = k then (if now' < now + ttl then Some v else None) else cache_get now' c k')"
  by (simp add: cache_get_def cache_setex_def update_conv)

lemma cache_get_del: "cache_get now (cache_del k c) k' = (if k' = k then None else cache_get now c k')"
  by (simp add: cache_get_def cache_del_def delete_conv)

lemma cache_get_later: "cache_get now' c k = Some v \<Longrightarrow> now \<le> now' \<Longrightarrow> cache_get now c k = Some v"
  by (auto simp: cache_get_def split: option.splits if_splits)

lemma cache_get_Nil [simp]: "cache_get now [] k = None"
  by (simp add: cache_get_def)

lemmas cache_simps = cache_get_setex cache_get_del

section \<open>Cached readings\<close>

text \<open>
  A cache whose entries expire after a fixed time, and whose every new entry is the source's value
  at the step that made it: whatever happens in between, an entry that is still valid is a value
  the source had within that time. Nothing is asked of the steps that change the source.
\<close>

fun trail :: "('e \<Rightarrow> 'w \<Rightarrow> 'w) \<Rightarrow> 'e list \<Rightarrow> 'w \<Rightarrow> 'w list" where
  "trail step [] w = [w]"
| "trail step (e # es) w = w # trail step es (step e w)"

lemma trail_nonempty [simp]: "trail step es w \<noteq> []"
  by (cases es) simp_all

lemma trail_last: "last (trail step es w) = fold step es w"
  by (induction es arbitrary: w) simp_all

locale timed_reads =
  fixes src :: "'w \<Rightarrow> 'k \<Rightarrow> 'v" and cell :: "'w \<Rightarrow> 'k \<Rightarrow> ('v \<times> int) option"
    and now :: "'w \<Rightarrow> int" and ttl :: int and step :: "'e \<Rightarrow> 'w \<Rightarrow> 'w"
  assumes cell_step: "cell (step e w) k = Some x \<Longrightarrow> cell w k = Some x \<or> x = (src w k, now w + ttl)"
begin

lemma cell_history:
  "cell (last (trail step es w)) k = Some (v, until) \<Longrightarrow>
   cell w k = Some (v, until) \<or> (\<exists>h \<in> set (trail step es w). v = src h k \<and> until = now h + ttl)"
proof (induction es arbitrary: w)
  case (Cons e es)
  then consider "cell (step e w) k = Some (v, until)"
    | "\<exists>h \<in> set (trail step es (step e w)). v = src h k \<and> until = now h + ttl" by auto
  then show ?case by cases (auto dest: cell_step)
qed simp

lemma bounded_staleness:
  assumes "cell w k = None" "cell (last (trail step es w)) k = Some (v, until)"
    "now (last (trail step es w)) < until"
  shows "\<exists>h \<in> set (trail step es w). v = src h k \<and> now (last (trail step es w)) < now h + ttl"
  using cell_history [OF assms(2)] assms(1,3) by auto

end

section \<open>One-time credentials\<close>

text \<open>
  Events that present a credential and may win with it. A win spends the credential, a spent
  credential never wins, and no event gives a spent credential back. Then of all the events of a
  sequence, whatever comes between them, at most one wins with a given credential.
\<close>

fun winners :: "('e \<Rightarrow> 's \<Rightarrow> 's) \<Rightarrow> ('e \<Rightarrow> 's \<Rightarrow> bool) \<Rightarrow> 'e list \<Rightarrow> 's \<Rightarrow> 'e list" where
  "winners run wins [] s = []"
| "winners run wins (e # es) s = (if wins e s then [e] else []) @ winners run wins es (run e s)"

locale one_time =
  fixes run :: "'e \<Rightarrow> 's \<Rightarrow> 's" and wins :: "'e \<Rightarrow> 's \<Rightarrow> bool"
    and spent :: "'s \<Rightarrow> 'c \<Rightarrow> bool" and cred :: "'e \<Rightarrow> 'c"
  assumes win_spends: "wins e s \<Longrightarrow> spent (run e s) (cred e)"
    and spent_loses: "spent s (cred e) \<Longrightarrow> \<not> wins e s"
    and spent_stays: "spent s c \<Longrightarrow> spent (run e s) c"
begin

lemma spent_never: "spent s c \<Longrightarrow> filter (\<lambda>e. cred e = c) (winners run wins es s) = []"
  by (induction es arbitrary: s) (auto dest: spent_loses spent_stays)

lemma at_most_once: "length (filter (\<lambda>e. cred e = c) (winners run wins es s)) \<le> 1"
  by (induction es arbitrary: s) (auto dest: win_spends simp: spent_never)

end

text \<open>A credential kept as a row of a table is spent when it has a row and its rows carry the mark.\<close>

definition spent_in :: "('r \<Rightarrow> string) \<Rightarrow> ('r \<Rightarrow> bool) \<Rightarrow> 'r list \<Rightarrow> string option \<Rightarrow> bool" where
  "spent_in key mark t c \<longleftrightarrow>
     (\<exists>r \<in> set t. Some (key r) = c) \<and> (\<forall>r \<in> set t. Some (key r) = c \<longrightarrow> mark r)"

lemma key_image_update: "(\<And>r. key (f r) = key r) \<Longrightarrow> key ` set (sql_update p f t) = key ` set t"
  by (metis list.set_map map_key_sql_update)

lemma spent_in_alt:
  "spent_in key mark t c \<longleftrightarrow> c \<in> Some ` key ` set t \<and> (\<forall>r \<in> set t. Some (key r) = c \<longrightarrow> mark r)"
  by (auto simp: spent_in_def)

lemma spent_in_update:
  assumes "\<And>r. key (f r) = key r" "\<And>r. mark r \<Longrightarrow> mark (f r)" "spent_in key mark t c"
  shows "spent_in key mark (sql_update p f t) c"
proof -
  have "mark x" if x: "x \<in> set (sql_update p f t)" "Some (key x) = c" for x
  proof -
    from x(1) obtain y where y: "y \<in> set t" "x = (if p y then f y else y)" by (auto simp: set_sql_update)
    with x(2) assms(1) have "Some (key y) = c" by (simp split: if_splits)
    with y assms(2,3) show ?thesis by (simp add: spent_in_def)
  qed
  with assms(3) show ?thesis unfolding spent_in_alt key_image_update [of key f, OF assms(1)] by simp
qed

lemma spent_in_mark:
  assumes "\<And>r. key (f r) = key r" "\<And>r. mark (f r)" "r \<in> set t" "key r = k"
  shows "spent_in key mark (sql_update (\<lambda>r. key r = k) f t) (Some k)"
proof -
  have "mark x" if x: "x \<in> set (sql_update (\<lambda>r. key r = k) f t)" "key x = k" for x
  proof -
    from x(1) obtain y where "y \<in> set t" "x = (if key y = k then f y else y)" by (auto simp: set_sql_update)
    with x(2) assms(1,2) show ?thesis by (cases "key y = k") auto
  qed
  with assms(3,4) show ?thesis unfolding spent_in_alt key_image_update [of key f, OF assms(1)] by auto
qed

lemma spent_in_append: "spent_in key mark t c \<Longrightarrow> key r \<notin> key ` set t \<Longrightarrow> spent_in key mark (t @ [r]) c"
  by (auto simp: spent_in_def)

section \<open>Pages\<close>

text \<open>
  \<open>(total + page_size - 1) // page_size if page_size > 0 else 0\<close>, the page count of
  every listing, and \<open>offset = (page - 1) * page_size\<close>.
\<close>

definition total_pages :: "int \<Rightarrow> int \<Rightarrow> int" where
  "total_pages cnt page_size = (if page_size > 0 then (cnt + page_size - 1) div page_size else 0)"

definition page_offset :: "int \<Rightarrow> int \<Rightarrow> int" where
  "page_offset page page_size = (page - 1) * page_size"

record pagination =
  pg_page :: int
  pg_page_size :: int
  pg_total_items :: int
  pg_total_pages :: int

definition pagination_info :: "int \<Rightarrow> int \<Rightarrow> int \<Rightarrow> pagination" where
  "pagination_info page page_size cnt =
     \<lparr>pg_page = page, pg_page_size = page_size, pg_total_items = cnt,
      pg_total_pages = total_pages cnt page_size\<rparr>"

text \<open>The pages of a listing, put side by side, are the listing: no row is lost or repeated.\<close>

lemma total_pages_cover:
  assumes "0 < n" "0 \<le> cnt"
  shows "cnt \<le> total_pages cnt n * n" and "(total_pages cnt n - 1) * n < cnt \<or> cnt = 0"
proof -
  have *: "(cnt + n - 1) div n * n + (cnt + n - 1) mod n = cnt + n - 1" by simp
  have m: "0 \<le> (cnt + n - 1) mod n" "(cnt + n - 1) mod n < n" using assms by auto
  show "cnt \<le> total_pages cnt n * n"
    using * m assms by (simp only: total_pages_def if_True)
  have "(total_pages cnt n - 1) * n = (cnt + n - 1) div n * n - n"
    using assms by (simp add: total_pages_def left_diff_distrib)
  with * m show "(total_pages cnt n - 1) * n < cnt \<or> cnt = 0" by linarith
qed

lemma pages_concat:
  "concat (map (\<lambda>i. sql_page n (i * n) t) [0..<k]) = take (k * n) t"
proof (induction k)
  case 0
  then show ?case by simp
next
  case (Suc k)
  have "take (k * n) t @ take n (drop (k * n) t) = take (k * n + n) t"
    by (simp add: take_add)
  with Suc show ?case by (simp add: sql_page_def add.commute)
qed

text \<open>The pages of a listing, one after the other up to the announced last one, are the listing.\<close>

lemma pages_cover:
  assumes "0 < n"
  shows "concat (map (\<lambda>i. sql_page n (i * n) t) [0..<nat (total_pages (int (length t)) (int n))]) = t"
proof -
  have "int (length t) \<le> total_pages (int (length t)) (int n) * int n"
    using assms by (intro total_pages_cover(1)) auto
  moreover have "0 \<le> total_pages (int (length t)) (int n)"
    using assms by (simp add: total_pages_def pos_imp_zdiv_nonneg_iff)
  ultimately have "length t \<le> nat (total_pages (int (length t)) (int n)) * n"
    by (metis nat_0_le of_nat_le_iff of_nat_mult)
  then show ?thesis by (simp add: pages_concat)
qed

section \<open>Encodings\<close>

text \<open>
  A text encoding and its inverse on the values that are \<open>ok\<close>. Encodings that avoid a separator give
  an encoding of lists: the encoded values joined by it.
\<close>

locale text_codec =
  fixes enc :: "'a \<Rightarrow> string" and dec :: "string \<Rightarrow> 'b" and val_of :: "'a \<Rightarrow> 'b" and ok :: "'a \<Rightarrow> bool"
  assumes decodes: "ok x \<Longrightarrow> dec (enc x) = val_of x"
begin

lemma enc_separates: "ok x \<Longrightarrow> ok y \<Longrightarrow> enc x = enc y \<Longrightarrow> val_of x = val_of y"
  by (metis decodes)

lemma joined_decodes:
  assumes "\<forall>x \<in> set xs. ok x \<and> c \<notin> set (enc x) \<and> enc x \<noteq> []"
  shows "map dec (filter (\<lambda>s. s \<noteq> []) (split_all c (py_join [c] (map enc xs)))) = map val_of xs"
proof (cases "xs = []")
  case False
  then have "split_all c (py_join [c] (map enc xs)) = map enc xs" using assms by (intro split_join) auto
  with assms show ?thesis by (auto simp: decodes)
qed simp

end

end
