(* ===== verification/Iam_Errors.thy ===== *)
theory Iam_Errors
  imports Iam_Prelude
begin

text \<open>
  The error taxonomy of the service: the domain exceptions of app/exceptions/domain.py, the
  exceptions of the libraries the handlers of app/exceptions/handlers.py know, the mapping of
  each of them to a response, and the response envelopes of app/core/responses.py.
\<close>

section \<open>Domain exceptions (app/exceptions/domain.py)\<close>

record error_detail =
  ed_code :: string
  ed_message :: string
  ed_field :: "string option"

datatype app_error =
    BusinessValidationError string "error_detail list"
  | AuthenticationError string
  | AuthorizationError string
  | NotFoundError string
  | ConflictError string
  | RateLimitError string
  | UpstreamError string int
  | InternalAppError string
  | OtherAppError string string int

fun ae_message :: "app_error \<Rightarrow> string" where
  "ae_message (BusinessValidationError m _) = m"
| "ae_message (AuthenticationError m) = m"
| "ae_message (AuthorizationError m) = m"
| "ae_message (NotFoundError m) = m"
| "ae_message (ConflictError m) = m"
| "ae_message (RateLimitError m) = m"
| "ae_message (UpstreamError m _) = m"
| "ae_message (InternalAppError m) = m"
| "ae_message (OtherAppError m _ _) = m"

fun ae_code :: "app_error \<Rightarrow> string" where
  "ae_code (BusinessValidationError _ _) = ''BUSINESS_VALIDATION_ERROR''"
| "ae_code (AuthenticationError _) = ''UNAUTHORIZED''"
| "ae_code (AuthorizationError _) = ''FORBIDDEN''"
| "ae_code (NotFoundError _) = ''NOT_FOUND''"
| "ae_code (ConflictError _) = ''CONFLICT''"
| "ae_code (RateLimitError _) = ''RATE_LIMITED''"
| "ae_code (UpstreamError _ _) = ''UPSTREAM_ERROR''"
| "ae_code (InternalAppError _) = ''INTERNAL_ERROR''"
| "ae_code (OtherAppError _ c _) = c"

fun ae_status :: "app_error \<Rightarrow> int" where
  "ae_status (BusinessValidationError _ _) = 400"
| "ae_status (AuthenticationError _) = 401"
| "ae_status (AuthorizationError _) = 403"
| "ae_status (NotFoundError _) = 404"
| "ae_status (ConflictError _) = 409"
| "ae_status (RateLimitError _) = 429"
| "ae_status (UpstreamError _ s) = s"
| "ae_status (InternalAppError _) = 500"
| "ae_status (OtherAppError _ _ s) = s"

fun ae_details :: "app_error \<Rightarrow> error_detail list option" where
  "ae_details (BusinessValidationError _ ds) = (if ds = [] then None else Some ds)"
| "ae_details _ = None"

section \<open>Exceptions that reach the handlers\<close>

text \<open>
  asyncpg, httpx and PyJWT are libraries: their exception classes appear as constructors, and
  every other Python exception a source line raises is named by its class.
\<close>

datatype db_error =
    UniqueViolationError | ForeignKeyViolationError | NotNullViolationError | DataError
  | InterfaceError | InsufficientPrivilegeError | OtherPostgresError

datatype jwt_error =
    ExpiredSignatureError | InvalidSignatureError | DecodeError | OtherInvalidTokenError | InvalidKeyError

datatype py_error =
    KeyError | ValueError string | TypeError | AttributeError | JSONDecodeError | OtherError

datatype exn =
    AppErr app_error
  | HttpException int "string option"
  | ValidationErr "(string \<times> string list \<times> string) list"
  | DbErr db_error
  | HttpxTimeout
  | HttpxRequestError
  | HttpxStatus int
  | JwtErr jwt_error
  | PyErr py_error

section \<open>Coercions (app/exceptions/handlers.py)\<close>

fun coerce_http_exception :: "int \<Rightarrow> string option \<Rightarrow> app_error" where
  "coerce_http_exception st d =
     (let detail = (case d of Some m \<Rightarrow> m | None \<Rightarrow> ''Request failed'') in
      if st = 400 then BusinessValidationError detail []
      else if st = 401 then AuthenticationError detail
      else if st = 403 then AuthorizationError detail
      else if st = 404 then NotFoundError detail
      else if st = 409 then ConflictError detail
      else if st = 429 then RateLimitError detail
      else if 400 \<le> st \<and> st < 500 then OtherAppError detail ''CLIENT_ERROR'' st
      else InternalAppError ''Internal server error'')"

fun coerce_database_exception :: "db_error \<Rightarrow> app_error" where
  "coerce_database_exception UniqueViolationError =
     ConflictError ''A record with these values already exists.''"
| "coerce_database_exception ForeignKeyViolationError =
     ConflictError ''The request references a record that does not exist.''"
| "coerce_database_exception NotNullViolationError =
     BusinessValidationError ''The request contains invalid data.'' []"
| "coerce_database_exception DataError =
     BusinessValidationError ''The request contains invalid data.'' []"
| "coerce_database_exception InterfaceError =
     BusinessValidationError ''The request contains invalid data.'' []"
| "coerce_database_exception InsufficientPrivilegeError =
     AuthorizationError ''Database operation is not permitted.''"
| "coerce_database_exception OtherPostgresError =
     InternalAppError ''An error occurred while processing your request. Please try again later.''"

fun coerce_httpx_status_error :: "int \<Rightarrow> app_error" where
  "coerce_httpx_status_error st =
     (if st = 401 then AuthenticationError ''Authentication required''
      else if st = 403 then AuthorizationError ''Access forbidden''
      else if st = 404 then NotFoundError ''Upstream resource not found''
      else if st = 409 then ConflictError ''Upstream service reported a conflict''
      else if st = 429 then RateLimitError ''Rate limit exceeded''
      else if 400 \<le> st \<and> st < 500
      then BusinessValidationError ''Upstream service rejected the request.'' []
      else UpstreamError ''Upstream service error'' st)"

section \<open>Responses (app/core/responses.py, app/core/error_pages.py)\<close>

text \<open>
  A response is what a client observes of it: the rendering (a themed HTML page or the JSON
  error envelope), the status, the error code and message, the details and the
  \<open>WWW-Authenticate\<close> header. Time stamps are left out.
\<close>

record error_out =
  eo_html :: bool
  eo_status :: int
  eo_code :: string
  eo_message :: string
  eo_details :: "error_detail list option"
  eo_www_auth :: "string option"

record req_headers =
  rh_accept :: string
  rh_fetch_dest :: string
  rh_fetch_mode :: string

definition wants_html :: "req_headers \<Rightarrow> bool" where
  "wants_html h =
     (if contains_sub ''text/html'' (rh_accept h) then True
      else if rh_fetch_dest h = ''document'' \<or> rh_fetch_mode h = ''navigate'' then True
      else False)"

definition error_response ::
    "string \<Rightarrow> string \<Rightarrow> int \<Rightarrow> error_detail list option \<Rightarrow> string option \<Rightarrow> error_out" where
  "error_response code msg st ds hdr =
     \<lparr>eo_html = False, eo_status = st, eo_code = code, eo_message = msg,
      eo_details = ds, eo_www_auth = hdr\<rparr>"

definition html_error_response :: "string \<Rightarrow> string \<Rightarrow> int \<Rightarrow> error_out" where
  "html_error_response code msg st =
     \<lparr>eo_html = True, eo_status = st, eo_code = code, eo_message = msg,
      eo_details = None, eo_www_auth = None\<rparr>"

definition render_error_response ::
    "req_headers \<Rightarrow> string \<Rightarrow> string \<Rightarrow> int \<Rightarrow> error_detail list option \<Rightarrow> string option \<Rightarrow> error_out" where
  "render_error_response h code msg st ds hdr =
     (if wants_html h then html_error_response code msg st
      else error_response code msg st ds hdr)"

text \<open>\<open>".".join(str(part) for part in error["loc"] if part != "body") or None\<close>.\<close>

fun join_dots :: "string list \<Rightarrow> string" where
  "join_dots [] = []"
| "join_dots [x] = x"
| "join_dots (x # y # r) = x @ ''.'' @ join_dots (y # r)"

definition validation_detail :: "string \<times> string list \<times> string \<Rightarrow> error_detail" where
  "validation_detail e =
     (case e of (ty, loc, msg) \<Rightarrow>
        \<lparr>ed_code = ty, ed_message = msg,
         ed_field = none_if_empty (join_dots (filter (\<lambda>p. p \<noteq> ''body'') loc))\<rparr>)"

fun handle_exception :: "req_headers \<Rightarrow> exn \<Rightarrow> error_out" where
  "handle_exception h (AppErr e) =
     render_error_response h (ae_code e) (ae_message e) (ae_status e) (ae_details e) None"
| "handle_exception h (HttpException st d) =
     (let e = coerce_http_exception st d in
      render_error_response h (ae_code e) (ae_message e) (ae_status e) (ae_details e)
        (if st = 401 then Some ''Bearer'' else None))"
| "handle_exception h (ValidationErr errs) =
     render_error_response h ''REQUEST_VALIDATION_ERROR'' ''Request validation failed'' 422
       (Some (map validation_detail errs)) None"
| "handle_exception h (DbErr d) =
     (let e = coerce_database_exception d in
      render_error_response h (ae_code e) (ae_message e) (ae_status e) (ae_details e) None)"
| "handle_exception h HttpxTimeout =
     (let e = UpstreamError ''Failed to communicate with an upstream service.'' 504 in
      render_error_response h (ae_code e) (ae_message e) (ae_status e) None None)"
| "handle_exception h HttpxRequestError =
     (let e = UpstreamError ''Failed to communicate with an upstream service.'' 503 in
      render_error_response h (ae_code e) (ae_message e) (ae_status e) None None)"
| "handle_exception h (HttpxStatus st) =
     (let e = coerce_httpx_status_error st in
      render_error_response h (ae_code e) (ae_message e) (ae_status e) None None)"
| "handle_exception h (JwtErr _) =
     render_error_response h ''INTERNAL_ERROR'' ''Internal server error'' 500 None None"
| "handle_exception h (PyErr _) =
     render_error_response h ''INTERNAL_ERROR'' ''Internal server error'' 500 None None"

section \<open>Replies of the endpoints (app/core/responses.py)\<close>

text \<open>
  What an endpoint returns: a success envelope (data, message, status) or one of the error
  envelopes it builds itself instead of raising.
\<close>

datatype 'a reply =
    Success (reply_data: "'a option") (reply_message: "string option") (reply_status: int)
  | Failure (reply_error: error_out)

definition success_response :: "'a \<Rightarrow> string \<Rightarrow> 'a reply" where
  "success_response d msg = Success (Some d) (Some msg) 200"

definition created_response :: "'a \<Rightarrow> string \<Rightarrow> 'a reply" where
  "created_response d msg = Success (Some d) (Some msg) 201"

definition no_content_response :: "'a reply" where
  "no_content_response = Success None None 204"

definition not_found_response :: "string \<Rightarrow> 'a reply" where
  "not_found_response resource =
     Failure (error_response ''NOT_FOUND'' (resource @ '' not found'') 404 None None)"

lemmas reply_defs =
  success_response_def created_response_def no_content_response_def not_found_response_def

section \<open>What the handlers guarantee\<close>

text \<open>
  Exceptions raised by the program itself: an \<open>HTTPException\<close> carries a 4xx status and an
  upstream error a 5xx status. Under that, every response of a handler is an error response.
\<close>

fun well_formed_exn :: "exn \<Rightarrow> bool" where
  "well_formed_exn (AppErr (UpstreamError _ s)) = (400 \<le> s \<and> s < 600)"
| "well_formed_exn (AppErr (OtherAppError _ _ s)) = (400 \<le> s \<and> s < 600)"
| "well_formed_exn (HttpxStatus s) = (400 \<le> s \<and> s < 600)"
| "well_formed_exn _ = True"

lemma render_status [simp]: "eo_status (render_error_response h c m st ds hdr) = st"
  by (simp add: render_error_response_def html_error_response_def error_response_def)

lemma render_code [simp]: "eo_code (render_error_response h c m st ds hdr) = c"
  by (simp add: render_error_response_def html_error_response_def error_response_def)

lemma render_message [simp]: "eo_message (render_error_response h c m st ds hdr) = m"
  by (simp add: render_error_response_def html_error_response_def error_response_def)

lemma render_html [simp]: "eo_html (render_error_response h c m st ds hdr) = wants_html h"
  by (simp add: render_error_response_def html_error_response_def error_response_def)

lemma coerce_http_status:
  "ae_status (coerce_http_exception st d) = (if 400 \<le> st \<and> st < 500 then st else 500)"
  by (auto simp: Let_def split: option.splits)

lemma coerce_database_status:
  "ae_status (coerce_database_exception e) \<in> {400, 403, 409, 500}"
  by (cases e) auto

lemma coerce_httpx_status:
  "ae_status (coerce_httpx_status_error st) = (if 400 \<le> st \<and> st < 500 \<and> st \<notin> {401, 403, 404, 409, 429} then 400 else st)"
  by auto

lemmas handler_simps = coerce_http_status coerce_database_status coerce_httpx_status

text \<open>
  No internal exception leaks its message: what a database, token or Python error carries is
  never part of the response.
\<close>

definition internal_exn :: "exn \<Rightarrow> bool" where
  "internal_exn e = (case e of JwtErr _ \<Rightarrow> True | PyErr _ \<Rightarrow> True | _ \<Rightarrow> False)"

text \<open>Every exception a request can end in is answered with an error status in the 4xx or
  5xx range, whatever the client accepts, and the page is HTML exactly for a browser.\<close>

theorem handler_total_error_status:
  assumes "well_formed_exn e"
  shows "400 \<le> eo_status (handle_exception h e) \<and> eo_status (handle_exception h e) < 600
         \<and> eo_html (handle_exception h e) = wants_html h"
proof (cases e)
  case (AppErr a)
  with assms show ?thesis by (cases a) auto
next
  case (DbErr d)
  then show ?thesis by (cases d) auto
qed (use assms in \<open>auto simp: Let_def coerce_http_status coerce_httpx_status
       simp del: coerce_http_exception.simps coerce_httpx_status_error.simps\<close>)

theorem handler_total_error_status_witness:
  "eo_status (handle_exception \<lparr>rh_accept = ''application/json'', rh_fetch_dest = [], rh_fetch_mode = []\<rparr>
     (HttpxStatus 503)) = 503
   \<and> 400 \<le> eo_status (handle_exception \<lparr>rh_accept = [], rh_fetch_dest = [], rh_fetch_mode = []\<rparr> (HttpxStatus 503))"
  using handler_total_error_status [of "HttpxStatus 503" "\<lparr>rh_accept = [], rh_fetch_dest = [], rh_fetch_mode = []\<rparr>"]
  by (simp add: Let_def)

end
