(* ===== verification/Iam_Store.thy ===== *)
theory Iam_Store
  imports Iam_Errors
begin

text \<open>
  The data the service keeps: one record per table of app/database/migrations, the world of a
  request (tables, caches, revocation channels, audit entries, clock), the two kinds of
  database connection of app/database/__init__.py, and the row level security policies of
  migrations 0006, 0012, 0013 and 0016 that decide which rows each of them reaches.
  Instants are integers; SQL's \<open>NOW()\<close> and Python's \<open>datetime.now\<close> read the same clock.
\<close>

section \<open>Rows\<close>

record tenant_row =
  tn_id :: string
  tn_name :: string
  tn_domain :: string
  tn_root :: string
  tn_settings :: "json option"
  tn_is_active :: bool
  tn_created :: int

record user_row =
  us_id :: string
  us_tenant :: string
  us_email :: string
  us_password :: string
  us_first :: string
  us_last :: string
  us_role :: "string option"
  us_is_active :: bool
  us_email_verified :: bool
  us_created :: int
  us_modified :: int

text \<open>
  A policy document: every writer of \<open>user_policies\<close> stores the object with the three keys
  \<open>resource\<close>, \<open>actions\<close>, \<open>conditions\<close>.
\<close>

record policy_doc =
  pd_resource :: string
  pd_actions :: "string list"
  pd_conditions :: "json dict"

record user_policy_row =
  up_tenant :: string
  up_user :: string
  up_policy_id :: string
  up_policy :: policy_doc
  up_created :: int
  up_modified :: int

record session_row =
  ss_jti :: string
  ss_user :: string
  ss_tenant :: string
  ss_device :: "json option"
  ss_ip :: "string option"
  ss_created :: int
  ss_expires :: int
  ss_revoked_at :: "int option"
  ss_reason :: "string option"

record refresh_row =
  rt_jti :: string
  rt_user :: string
  rt_tenant :: string
  rt_client :: string
  rt_expires :: int
  rt_revoked :: bool
  rt_created :: int

record template_row =
  tp_id :: string
  tp_tenant :: string
  tp_policies :: "json dict"
  tp_roles :: "string list"
  tp_created :: int
  tp_modified :: int

record client_row =
  oc_id :: string
  oc_tenant :: string
  oc_secret :: string
  oc_name :: string
  oc_redirect_uris :: "string list"
  oc_scopes :: "string list"
  oc_is_active :: bool
  oc_created :: int
  oc_modified :: int

record code_row =
  ac_id :: string
  ac_code :: string
  ac_client :: string
  ac_user :: string
  ac_tenant :: string
  ac_redirect_uri :: string
  ac_scope :: string
  ac_challenge :: "string option"
  ac_method :: "string option"
  ac_nonce :: "string option"
  ac_used :: bool
  ac_expires :: int

record invitation_row =
  iv_id :: string
  iv_tenant :: string
  iv_client :: "string option"
  iv_email :: string
  iv_role :: "string option"
  iv_invited_by :: string
  iv_expires :: int
  iv_accepted :: "int option"
  iv_created :: int

record provider_row =
  ip_id :: string
  ip_tenant :: string
  ip_name :: string
  ip_protocol :: string
  ip_issuer :: string
  ip_client_id :: "string option"
  ip_client_secret :: "string option"
  ip_discovery_url :: "string option"
  ip_authorization_endpoint :: "string option"
  ip_token_endpoint :: "string option"
  ip_userinfo_endpoint :: "string option"
  ip_jwks_uri :: "string option"
  ip_jwt_secret :: "string option"
  ip_enabled :: bool
  ip_auto_link :: bool
  ip_scopes :: "string option"
  ip_auth_method :: "string option"
  ip_claims_source :: "string option"
  ip_link_verified_only :: bool
  ip_default_role :: string
  ip_created :: int

record link_row =
  fi_id :: string
  fi_tenant :: string
  fi_provider :: string
  fi_user :: string
  fi_subject :: string
  fi_email :: "string option"
  fi_created :: int

record fed_txn_row =
  ft_id :: string
  ft_tenant :: string
  ft_provider :: string
  ft_client :: string
  ft_redirect_uri :: string
  ft_scope :: string
  ft_state :: "string option"
  ft_nonce :: "string option"
  ft_challenge :: "string option"
  ft_method :: "string option"
  ft_upstream_state :: string
  ft_upstream_nonce :: "string option"
  ft_expires :: int
  ft_consumed :: "int option"

record otp_row =
  ot_tenant :: string
  ot_email :: string
  ot_issuer :: string
  ot_secret :: string
  ot_backups :: "string list"
  ot_is_active :: bool
  ot_updated :: "int option"
  ot_last_used :: "int option"

section \<open>Revocation channels and audit entries\<close>

record rev_event =
  re_jti :: string
  re_user :: string
  re_tenant :: string
  re_reason :: string

record log_entry =
  le_level :: string
  le_message :: string
  le_extra :: "json dict"
  le_immediate :: bool

section \<open>Verified claims\<close>

text \<open>The verified claims of a bearer token (\<open>VerifiedTokenData\<close> of app/core/jwt_utils.py).\<close>

record token_data =
  td_email :: string
  td_tenant :: string
  td_policy :: "int dict option"
  td_role :: "string option"
  td_user :: string
  td_exp :: "int option"
  td_iat :: "int option"
  td_aud :: "string option"

section \<open>The world of a request\<close>

record world =
  w_now :: int
  w_tenants :: "tenant_row list"
  w_users :: "user_row list"
  w_policies :: "user_policy_row list"
  w_sessions :: "session_row list"
  w_refresh :: "refresh_row list"
  w_templates :: "template_row list"
  w_clients :: "client_row list"
  w_codes :: "code_row list"
  w_invites :: "invitation_row list"
  w_providers :: "provider_row list"
  w_links :: "link_row list"
  w_txns :: "fed_txn_row list"
  w_totp_secrets :: "otp_row list"
  w_otp_secrets :: "otp_row list option"
  w_bloom :: "string list"
  w_stream :: "rev_event list"
  w_published :: "(string \<times> string \<times> string) list"
  w_stream_up :: bool
  w_pubsub_up :: bool
  w_template_cache :: "template_row list ttl_cache"
  w_settings_cache :: "json dict ttl_cache"
  w_provider_cache :: "provider_row list ttl_cache"
  w_verified :: "(string \<times> token_data) list"
  w_default_settings :: "json dict"
  w_discovery :: "json dict dict"
  w_jwk_clients :: "string list"
  w_log :: "log_entry list"

text \<open>
  \<open>w_bloom\<close> is the history of additions to this process's Bloom filter (rbloom), \<open>w_stream\<close> the
  Redis stream \<open>token:revocations\<close>, \<open>w_published\<close> what was published on the Pub/Sub channel;
  \<open>w_stream_up\<close> and \<open>w_pubsub_up\<close> say whether the two Redis calls succeed. \<open>w_otp_secrets\<close> is
  \<open>None\<close> for the shipped schema, which creates no table of that name. The three caches are the
  Redis keys \<open>policy_templates:\<close>, \<open>tenant_settings:\<close> and \<open>fed_providers:\<close>; \<open>w_verified\<close> is the
  process's memo of verified tokens, \<open>w_default_settings\<close> its \<open>DEFAULT_SETTINGS\<close> object, and
  \<open>w_discovery\<close> and \<open>w_jwk_clients\<close> its \<open>_DISCOVERY_CACHE\<close> and the keys of its \<open>_JWK_CLIENTS\<close>.
\<close>

definition empty_world :: world where
  "empty_world =
     \<lparr>w_now = 0, w_tenants = [], w_users = [], w_policies = [], w_sessions = [], w_refresh = [],
      w_templates = [], w_clients = [], w_codes = [], w_invites = [], w_providers = [],
      w_links = [], w_txns = [], w_totp_secrets = [], w_otp_secrets = None, w_bloom = [],
      w_stream = [], w_published = [], w_stream_up = True, w_pubsub_up = True,
      w_template_cache = [], w_settings_cache = [], w_provider_cache = [], w_verified = [],
      w_default_settings = [], w_discovery = [], w_jwk_clients = [], w_log = []\<rparr>"

lemmas world_fields = empty_world_def

type_synonym 'a svc = "(exn, world, 'a) eff"

section \<open>Connections and row level security\<close>

text \<open>
  \<open>TenantConn t\<close> is a connection of \<open>db_pool\<close> with \<open>app.tenant_id\<close> set to \<open>t\<close>;
  \<open>OwnerConn\<close> is one of \<open>db_owner_pool\<close>, whose role \<open>postgres\<close> is a superuser and bypasses the
  policies. Row level security is enabled and forced on \<open>users\<close>, \<open>user_policies\<close>, \<open>tenants\<close> and
  \<open>tenant_policies\<close> only.
\<close>

datatype conn = OwnerConn | TenantConn string

fun rls_visible :: "conn \<Rightarrow> string \<Rightarrow> bool" where
  "rls_visible OwnerConn t = True"
| "rls_visible (TenantConn c) t = (t = c)"

fun rls_insert_ok :: "conn \<Rightarrow> string \<Rightarrow> bool" where
  "rls_insert_ok OwnerConn t = True"
| "rls_insert_ok (TenantConn c) t = (c = [] \<or> t = c)"

fun rls_insert_strict :: "conn \<Rightarrow> string \<Rightarrow> bool" where
  "rls_insert_strict OwnerConn t = True"
| "rls_insert_strict (TenantConn c) t = (t = c)"

definition users_of :: "conn \<Rightarrow> world \<Rightarrow> user_row list" where
  "users_of c w = filter (\<lambda>u. rls_visible c (us_tenant u)) (w_users w)"

definition policies_of :: "conn \<Rightarrow> world \<Rightarrow> user_policy_row list" where
  "policies_of c w = filter (\<lambda>p. rls_visible c (up_tenant p)) (w_policies w)"

definition tenants_of :: "conn \<Rightarrow> world \<Rightarrow> tenant_row list" where
  "tenants_of c w = filter (\<lambda>t. rls_visible c (tn_id t)) (w_tenants w)"

definition templates_of :: "conn \<Rightarrow> world \<Rightarrow> template_row list" where
  "templates_of c w = filter (\<lambda>t. rls_visible c (tp_tenant t)) (w_templates w)"

lemma users_of_tenant: "u \<in> set (users_of (TenantConn t) w) \<Longrightarrow> us_tenant u = t"
  by (simp add: users_of_def)

lemma policies_of_tenant: "p \<in> set (policies_of (TenantConn t) w) \<Longrightarrow> up_tenant p = t"
  by (simp add: policies_of_def)

lemma templates_of_tenant: "p \<in> set (templates_of (TenantConn t) w) \<Longrightarrow> tp_tenant p = t"
  by (simp add: templates_of_def)

lemma users_of_subset: "set (users_of c w) \<subseteq> set (w_users w)"
  by (auto simp: users_of_def)

lemmas rls_tenant = users_of_tenant policies_of_tenant templates_of_tenant

section \<open>The tenant context (get_database_pool)\<close>

text \<open>
  The \<open>X-TENANT-ID\<close> header wins; otherwise the \<open>client_id\<close> of the query, or of the form,
  selects the tenant of that client. Without a tenant the request is rejected.
\<close>

record req_context =
  rc_tenant_header :: "string option"
  rc_query_client :: "string option"
  rc_form_client :: "string option"

definition get_database_pool :: "req_context \<Rightarrow> world \<Rightarrow> exn + conn" where
  "get_database_pool rq w =
     (let tenant =
        (if ostr_true (rc_tenant_header rq) then rc_tenant_header rq
         else
           (let client = (if ostr_true (rc_query_client rq) then rc_query_client rq else rc_form_client rq) in
            if ostr_true client
            then map_option oc_tenant (sql_row (\<lambda>c. Some (oc_id c) = client) (w_clients w))
            else rc_tenant_header rq))
      in if ostr_true tenant then Inr (TenantConn (the tenant))
         else Inl (AppErr (BusinessValidationError ''Tenant ID or valid client_id required'' [])))"

lemma get_database_pool_header:
  "rc_tenant_header rq = Some t \<Longrightarrow> t \<noteq> [] \<Longrightarrow> get_database_pool rq w = Inr (TenantConn t)"
  by (simp add: get_database_pool_def)

lemma get_database_pool_nonempty:
  "get_database_pool rq w = Inr c \<Longrightarrow> \<exists>t. c = TenantConn t \<and> t \<noteq> []"
  by (auto simp: get_database_pool_def ostr_true_def Let_def split: if_splits option.splits)

section \<open>Logging as an effect\<close>

text \<open>
  \<open>logger.audit\<close> drops the arguments that are \<open>None\<close> and logs at level INFO through the buffer;
  \<open>logger.info\<close>, \<open>warning\<close>, \<open>error\<close> go through the buffer; the \<open>force_\<close> variants are written at
  once. Time stamps and process data of an entry are left out.
\<close>

definition some_items :: "(string \<times> json option) list \<Rightarrow> json dict" where
  "some_items kvs = List.map_filter (\<lambda>(k, v). map_option (\<lambda>x. (k, x)) v) kvs"

definition log_entry_of :: "string \<Rightarrow> string \<Rightarrow> json dict \<Rightarrow> bool \<Rightarrow> log_entry" where
  "log_entry_of lvl msg extra im =
     \<lparr>le_level = lvl, le_message = msg, le_extra = extra, le_immediate = im\<rparr>"

definition log_write :: "log_entry \<Rightarrow> unit svc" where
  "log_write e = emod (\<lambda>w. w\<lparr>w_log := w_log w @ [e]\<rparr>)"

definition log_info :: "string \<Rightarrow> unit svc" where
  "log_info msg = log_write (log_entry_of ''INFO'' msg [] False)"

definition log_warning :: "string \<Rightarrow> unit svc" where
  "log_warning msg = log_write (log_entry_of ''WARNING'' msg [] False)"

definition log_error :: "string \<Rightarrow> unit svc" where
  "log_error msg = log_write (log_entry_of ''ERROR'' msg [] False)"

definition force_info :: "string \<Rightarrow> unit svc" where
  "force_info msg = log_write (log_entry_of ''INFO'' msg [] True)"

definition force_error :: "string \<Rightarrow> unit svc" where
  "force_error msg = log_write (log_entry_of ''ERROR'' msg [] True)"

definition log_audit :: "string \<Rightarrow> (string \<times> json option) list \<Rightarrow> unit svc" where
  "log_audit action kvs =
     log_write (log_entry_of ''INFO'' (''AUDIT: '' @ action)
                  (some_items ((''action'', Some (JStr action)) # kvs)) False)"

abbreviation jstr :: "string \<Rightarrow> json option" where
  "jstr s \<equiv> Some (JStr s)"

lemmas log_defs =
  log_write_def log_info_def log_warning_def log_error_def force_info_def force_error_def log_audit_def

text \<open>A predicate that does not look at the log survives every log call.\<close>

definition log_blind :: "(world \<Rightarrow> bool) \<Rightarrow> bool" where
  "log_blind P \<longleftrightarrow> (\<forall>w l. P w \<longrightarrow> P (w\<lparr>w_log := l\<rparr>))"

lemma keeps_log [keeps_intros]:
  assumes "log_blind P"
  shows "keeps P (log_info m)" "keeps P (log_warning m)" "keeps P (log_error m)"
    "keeps P (force_info m)" "keeps P (force_error m)" "keeps P (log_audit a kvs)"
  using assms by (auto simp: keeps_def log_defs log_blind_def)

end
