(* ===== verification/Authz.thy ===== *)
theory Authz
  imports Iam_Store
begin

text \<open>
  Permissions: the action flags and the decision functions of app/models/authz.py and
  app/core/authz.py, the request validators of app/models/policy.py, the two routines that
  turn stored policies into the bitmask map embedded in a token (app/core/auth.py and
  app/sso/oidc/endpoints.py), and the decision endpoint of app/api/v1/authz.py.
  A mask is a Python integer, modelled as \<open>int\<close>.
\<close>

unbundle bit_operations_syntax

section \<open>Action flags (app/models/authz.py)\<close>

datatype action =
    READ | WRITE | DELETE | APPROVE | REJECT | EXECUTE
  | ASSIGN | MANAGE | EXPORT | IMPORT | ACTIVATE | ARCHIVE

fun action_bit :: "action \<Rightarrow> nat" where
  "action_bit READ = 0"
| "action_bit WRITE = 1"
| "action_bit DELETE = 2"
| "action_bit APPROVE = 3"
| "action_bit REJECT = 4"
| "action_bit EXECUTE = 5"
| "action_bit ASSIGN = 6"
| "action_bit MANAGE = 7"
| "action_bit EXPORT = 8"
| "action_bit IMPORT = 9"
| "action_bit ACTIVATE = 10"
| "action_bit ARCHIVE = 11"

definition action_value :: "action \<Rightarrow> int" where
  "action_value a = 2 ^ action_bit a"

text \<open>\<open>Action[name]\<close>: \<open>None\<close> where Python raises \<open>KeyError\<close>.\<close>

definition action_members :: "(string \<times> action) list" where
  "action_members =
     [(''READ'', READ), (''WRITE'', WRITE), (''DELETE'', DELETE), (''APPROVE'', APPROVE),
      (''REJECT'', REJECT), (''EXECUTE'', EXECUTE), (''ASSIGN'', ASSIGN), (''MANAGE'', MANAGE),
      (''EXPORT'', EXPORT), (''IMPORT'', IMPORT), (''ACTIVATE'', ACTIVATE), (''ARCHIVE'', ARCHIVE)]"

definition action_named :: "string \<Rightarrow> action option" where
  "action_named a = map_of action_members (py_upper a)"

section \<open>Decision functions (app/core/authz.py)\<close>

definition permission_map :: "(string \<times> action) list" where
  "permission_map =
     [(''read'', READ), (''write'', WRITE), (''delete'', DELETE), (''approve'', APPROVE),
      (''reject'', REJECT), (''execute'', EXECUTE), (''assign'', ASSIGN), (''manage'', MANAGE),
      (''export'', EXPORT), (''import'', IMPORT), (''activate'', ACTIVATE), (''archive'', ARCHIVE)]"

definition needed_perm :: "string \<Rightarrow> int" where
  "needed_perm perm =
     (case map_of permission_map (py_lower perm) of None \<Rightarrow> 0 | Some a \<Rightarrow> action_value a)"

definition check_permission :: "int dict \<Rightarrow> string \<Rightarrow> string option \<Rightarrow> bool" where
  "check_permission user_policy perm resource =
     (let user_perm = (case resource of None \<Rightarrow> 0
                       | Some r \<Rightarrow> (case dget user_policy r of None \<Rightarrow> 0 | Some m \<Rightarrow> m))
      in user_perm AND needed_perm perm \<noteq> 0)"

definition check_role :: "string dict \<Rightarrow> string \<Rightarrow> exn + bool" where
  "check_role user_policy required_role =
     (case dget user_policy ''role'' of
        None \<Rightarrow> Inl (PyErr AttributeError)
      | Some user_role \<Rightarrow>
          (if py_lower user_role \<noteq> py_lower required_role
           then Inl (AppErr (AuthorizationError ''Unauthorized role'')) else Inr True))"

fun json_true :: "json \<Rightarrow> bool" where
  "json_true JNull = False"
| "json_true (JBool b) = b"
| "json_true (JInt i) = (i \<noteq> 0)"
| "json_true (JStr s) = (s \<noteq> [])"
| "json_true (JArr xs) = (xs \<noteq> [])"
| "json_true (JObj d) = (d \<noteq> [])"

definition doc_json :: "policy_doc \<Rightarrow> json dict" where
  "doc_json d =
     [(''resource'', JStr (pd_resource d)), (''actions'', JArr (map JStr (pd_actions d))),
      (''conditions'', JObj (pd_conditions d))]"

text \<open>
  \<open>fetch_user_condition\<close>: \<open>SELECT (policy -> 'condition') - 'validity_time'\<close> for the user's policy on
  the resource; \<open>None\<close> is SQL's NULL.
\<close>

definition fetch_user_condition :: "conn \<Rightarrow> world \<Rightarrow> string \<Rightarrow> string \<Rightarrow> string option \<Rightarrow> json dict option" where
  "fetch_user_condition c w user tenant resource =
     (case sql_row (\<lambda>p. up_user p = user \<and> up_tenant p = tenant \<and> Some (pd_resource (up_policy p)) = resource)
             (policies_of c w) of
        None \<Rightarrow> None
      | Some p \<Rightarrow>
          (case dget (doc_json (up_policy p)) ''condition'' of
             Some (JObj d) \<Rightarrow> Some (ddel ''validity_time'' d)
           | _ \<Rightarrow> None))"

text \<open>
  The result \<open>None\<close> is the Python function falling off its end; \<open>Some b\<close> is \<open>return b\<close>.
\<close>

definition check_condition ::
    "conn \<Rightarrow> world \<Rightarrow> json dict \<Rightarrow> string option \<Rightarrow> int dict \<Rightarrow> string \<Rightarrow> string \<Rightarrow> exn + bool option" where
  "check_condition c w compare resource user_policy user tenant =
     (case dget compare ''validity_time'' of
        None \<Rightarrow> Inl (PyErr KeyError)
      | Some v \<Rightarrow>
          if \<not> json_true v then Inr None
          else
            let m = (case resource of None \<Rightarrow> None | Some r \<Rightarrow> dget user_policy r) in
            if m = None \<or> m = Some 0 then Inr (Some False)
            else if length compare = 1 then Inr (Some True)
            else
              (case fetch_user_condition c w user tenant resource of
                 None \<Rightarrow> Inl (PyErr AttributeError)
               | Some conditions \<Rightarrow>
                   let wanted = ddel ''validity_time'' compare;
                       filtered = filter (\<lambda>kv. kv \<in> set wanted) conditions in
                   if \<forall>x \<in> snd ` set wanted. x \<in> snd ` set filtered
                   then Inr (Some True)
                   else Inl (AppErr (AuthorizationError ''Unauthorized action, Reason: condition not satisfied''))))"

section \<open>Request validation (app/models/policy.py)\<close>

definition valid_actions :: "string list" where
  "valid_actions =
     [''read'', ''write'', ''delete'', ''approve'', ''reject'', ''execute'', ''assign'', ''manage'',
      ''export'', ''import'', ''activate'', ''archive'']"

definition validate_actions :: "string list \<Rightarrow> exn + string list" where
  "validate_actions v =
     (case find (\<lambda>a. py_lower a \<notin> set valid_actions) v of
        Some a \<Rightarrow> Inl (PyErr (ValueError (''Invalid action: '' @ a)))
      | None \<Rightarrow> Inr (map py_lower v))"

record policy_create =
  pc_policy_id :: string
  pc_resource :: string
  pc_actions :: "string list"
  pc_conditions :: "json dict option"

record policy_update =
  pu_resource :: "string option"
  pu_actions :: "string list option"
  pu_conditions :: "json dict option"

definition make_policy_create ::
    "string \<Rightarrow> string \<Rightarrow> string list \<Rightarrow> json dict option \<Rightarrow> exn + policy_create" where
  "make_policy_create pid res acts conds =
     (case validate_actions acts of
        Inl e \<Rightarrow> Inl e
      | Inr as \<Rightarrow> Inr \<lparr>pc_policy_id = pid, pc_resource = res, pc_actions = as, pc_conditions = conds\<rparr>)"

definition make_policy_update ::
    "string option \<Rightarrow> string list option \<Rightarrow> json dict option \<Rightarrow> exn + policy_update" where
  "make_policy_update res acts conds =
     (case acts of
        None \<Rightarrow> Inr \<lparr>pu_resource = res, pu_actions = None, pu_conditions = conds\<rparr>
      | Some a \<Rightarrow>
          (case validate_actions a of
             Inl e \<Rightarrow> Inl e
           | Inr as \<Rightarrow> Inr \<lparr>pu_resource = res, pu_actions = Some as, pu_conditions = conds\<rparr>))"

section \<open>Policies in force and the masks put into tokens\<close>

text \<open>
  The SQL guard \<open>validity_time >= NOW() OR NOT (conditions ? 'validity_time')\<close>. The parameter
  \<open>cast\<close> is PostgreSQL's \<open>text::timestamptz\<close>; a value it rejects raises \<open>DataError\<close>, and JSON null
  makes the guard NULL, so the row is not selected.
\<close>

type_synonym ts_cast = "json \<Rightarrow> int option"

definition in_force :: "ts_cast \<Rightarrow> int \<Rightarrow> policy_doc \<Rightarrow> exn + bool" where
  "in_force cast now d =
     (case dget (pd_conditions d) ''validity_time'' of
        None \<Rightarrow> Inr True
      | Some v \<Rightarrow>
          if v = JNull then Inr False
          else (case cast v of None \<Rightarrow> Inl (DbErr DataError) | Some t \<Rightarrow> Inr (now \<le> t)))"

fun select_in_force :: "ts_cast \<Rightarrow> int \<Rightarrow> policy_doc list \<Rightarrow> exn + policy_doc list" where
  "select_in_force cast now [] = Inr []"
| "select_in_force cast now (d # ds) =
     (case in_force cast now d of
        Inl e \<Rightarrow> Inl e
      | Inr b \<Rightarrow>
          (case select_in_force cast now ds of
             Inl e \<Rightarrow> Inl e
           | Inr r \<Rightarrow> Inr (if b then d # r else r)))"

text \<open>Login and refresh: \<open>{p["resource"]: sum(Action[a.upper()] for a in p["actions"])}\<close>.\<close>

fun mask_sum :: "string list \<Rightarrow> exn + int" where
  "mask_sum [] = Inr 0"
| "mask_sum (a # as) =
     (case action_named a of
        None \<Rightarrow> Inl (PyErr KeyError)
      | Some x \<Rightarrow> (case mask_sum as of Inl e \<Rightarrow> Inl e | Inr m \<Rightarrow> Inr (action_value x + m)))"

fun login_policy_map :: "int dict \<Rightarrow> policy_doc list \<Rightarrow> exn + int dict" where
  "login_policy_map acc [] = Inr acc"
| "login_policy_map acc (p # ps) =
     (case mask_sum (pd_actions p) of
        Inl e \<Rightarrow> Inl e
      | Inr m \<Rightarrow> login_policy_map (dset (pd_resource p) m acc) ps)"

text \<open>
  OIDC grants: unknown actions are skipped, masks of several policies on one resource are
  joined with \<open>|\<close>, policies without resource or actions are skipped.
\<close>

definition mask_known :: "string list \<Rightarrow> int" where
  "mask_known as = sum_list (map action_value (List.map_filter action_named as))"

fun oidc_policy_map :: "int dict \<Rightarrow> policy_doc list \<Rightarrow> int dict" where
  "oidc_policy_map acc [] = acc"
| "oidc_policy_map acc (p # ps) =
     (if pd_resource p \<noteq> [] \<and> pd_actions p \<noteq> []
      then oidc_policy_map
             (dset (pd_resource p)
                ((case dget acc (pd_resource p) of None \<Rightarrow> 0 | Some m \<Rightarrow> m) OR mask_known (pd_actions p)) acc) ps
      else oidc_policy_map acc ps)"

definition fetch_user_policies :: "ts_cast \<Rightarrow> conn \<Rightarrow> string \<Rightarrow> string \<Rightarrow> int dict svc" where
  "fetch_user_policies cast c user tenant =
     (\<lambda>w. (case select_in_force cast (w_now w)
                  (map up_policy (sql_select (\<lambda>p. up_user p = user \<and> up_tenant p = tenant) (policies_of c w))) of
             Inl e \<Rightarrow> (Inl e, w)
           | Inr ps \<Rightarrow> (Inr (oidc_policy_map [] ps), w)))"

section \<open>The decision endpoint (app/api/v1/authz.py)\<close>

record authorize_request =
  aq_action :: string
  aq_resource :: "string option"
  aq_check_condition :: bool
  aq_conditions :: "json dict option"
  aq_grant_type :: string

text \<open>The model validator of \<open>Authorize\<close>.\<close>

definition validate_authorize :: "authorize_request \<Rightarrow> exn + authorize_request" where
  "validate_authorize r =
     (if aq_grant_type r \<noteq> ''fga'' \<and> aq_grant_type r \<noteq> ''rba''
      then Inl (PyErr (ValueError ''grant_type must be fga or rba (fine-grained access or role based access)''))
      else if aq_check_condition r \<and> (aq_conditions r = None \<or> aq_conditions r = Some [])
      then Inl (PyErr (ValueError ''conditions_to_check must be specified''))
      else Inr r)"

text \<open>
  \<open>_principal_dict\<close>: the token data has no \<open>sub\<close>, \<open>scope\<close>, \<open>iss\<close>, \<open>jti\<close>, \<open>client_id\<close> or
  \<open>grant_type\<close> attribute, so those entries are \<open>None\<close> and \<open>sub\<close> is the e-mail.
\<close>

record principal =
  pr_tenant_id :: string
  pr_user_id :: string
  pr_sub :: string
  pr_role :: "string option"
  pr_aud :: "string option"
  pr_iat :: "int option"
  pr_exp :: "int option"
  pr_policy :: "int dict option"

definition principal_dict :: "token_data \<Rightarrow> principal" where
  "principal_dict u =
     \<lparr>pr_tenant_id = td_tenant u, pr_user_id = td_user u, pr_sub = td_email u, pr_role = td_role u,
      pr_aud = td_aud u, pr_iat = td_iat u, pr_exp = td_exp u, pr_policy = None\<rparr>"

record decision =
  dc_allow :: "bool option"
  dc_permitted :: bool
  dc_condition_checked :: bool
  dc_condition_result :: "bool option"
  dc_resource :: "string option"
  dc_action :: string
  dc_principal :: "principal option"

datatype decide_out = LegacyDecision "bool option" | EnhancedDecision decision

text \<open>
  \<open>state_db\<close> is \<open>request.state.dbconnection\<close>, the connection the condition check would use;
  nothing in the application sets that attribute, so it is \<open>None\<close> in every request.
\<close>

definition decide ::
    "conn option \<Rightarrow> authorize_request \<Rightarrow> bool \<Rightarrow> bool \<Rightarrow> token_data \<Rightarrow> decide_out svc" where
  "decide state_db rq include_principal include_policy user =
     (if aq_grant_type rq \<noteq> ''fga''
      then eraise (AppErr (BusinessValidationError
             (''Unsupported grant type: grant_type '' @ quoted (aq_grant_type rq) @ '' not supported'') []))
      else
        (case td_policy user of
           None \<Rightarrow> eraise (PyErr AttributeError)
         | Some pol \<Rightarrow>
             let permitted = check_permission pol (aq_action rq) (aq_resource rq) in
             ebind
               (if permitted then
                  ebind
                    (if aq_check_condition rq then
                       (case state_db of
                          None \<Rightarrow> eraise (PyErr AttributeError)
                        | Some c \<Rightarrow>
                            (\<lambda>w. (check_condition c w (case aq_conditions rq of None \<Rightarrow> [] | Some d \<Rightarrow> d)
                                    (aq_resource rq) pol (td_user user) (td_tenant user), w)))
                     else eret None)
                    (\<lambda>cr. ethen
                       (log_audit ''permission_check_result''
                          [(''user_id'', jstr (td_user user)),
                           (''resource'', map_option JStr (aq_resource rq)),
                           (''permission'', jstr (aq_action rq)), (''result'', jstr ''granted''),
                           (''tenant_id'', jstr (td_tenant user))])
                       (eret cr))
                else ethen (log_warning ''Access denied for user'') (eret None))
               (\<lambda>cr.
                  if \<not> include_principal
                  then eret (LegacyDecision
                         (if aq_check_condition rq \<and> permitted then cr else Some permitted))
                  else eret (EnhancedDecision
                         \<lparr>dc_allow = (if \<not> aq_check_condition rq then Some permitted
                                      else if permitted then cr else Some False),
                          dc_permitted = permitted,
                          dc_condition_checked = aq_check_condition rq,
                          dc_condition_result = cr,
                          dc_resource = aq_resource rq,
                          dc_action = aq_action rq,
                          dc_principal =
                            Some ((principal_dict user)
                              \<lparr>pr_policy := (if include_policy then Some pol else None)\<rparr>)\<rparr>))))"

section \<open>Facts about masks\<close>

lemma action_bit_inj: "action_bit a = action_bit b \<longleftrightarrow> a = b"
  by (cases a; cases b) simp_all

lemma and_action_value: "m AND action_value a \<noteq> 0 \<longleftrightarrow> bit m (action_bit a)"
  by (simp add: action_value_def and_exp_eq_0_iff_not_bit)

lemma bit_action_value: "bit (action_value a) n \<longleftrightarrow> n = action_bit a"
  by (auto simp: action_value_def bit_exp_iff)

lemma add_action_value:
  assumes "\<not> bit m (action_bit a)"
  shows "action_value a + m = action_value a OR m"
proof (rule disjunctive_add)
  fix n
  show "\<not> bit (action_value a) n \<or> \<not> bit m n"
    using assms by (auto simp: bit_action_value)
qed

lemma mem_action_bits [simp]: "action_bit a \<in> action_bit ` S \<longleftrightarrow> a \<in> S"
  by (auto simp: action_bit_inj)

lemma bit_sum_actions:
  "distinct as \<Longrightarrow> bit (sum_list (map action_value as)) n \<longleftrightarrow> n \<in> action_bit ` set as"
proof (induction as arbitrary: n)
  case Nil
  then show ?case by simp
next
  case (Cons a as)
  then have "\<not> bit (sum_list (map action_value as)) (action_bit a)" by simp
  with Cons show ?case
    by (simp add: add_action_value bit_or_iff bit_action_value)
qed

lemma needed_perm_bit:
  "m AND needed_perm perm \<noteq> 0 \<longleftrightarrow>
   (\<exists>a. map_of permission_map (py_lower perm) = Some a \<and> bit m (action_bit a))"
  by (auto simp: needed_perm_def and_action_value split: option.splits)

lemma mask_sum_known:
  "mask_sum as = Inr m \<Longrightarrow> m = mask_known as \<and> (\<forall>a \<in> set as. action_named a \<noteq> None)"
  by (induction as arbitrary: m)
     (auto simp: mask_known_def List.map_filter_def split: option.splits sum.splits)

text \<open>
  The policy map of an OIDC token, read as bits: a bit is set for a resource exactly when the
  accumulator had it or some policy on the resource has it in its own mask.
\<close>

definition map_bit :: "int dict \<Rightarrow> string \<Rightarrow> nat \<Rightarrow> bool" where
  "map_bit d r n = (case dget d r of None \<Rightarrow> False | Some m \<Rightarrow> bit m n)"

lemma map_bit_dset: "map_bit (dset k m d) r n = (if r = k then bit m n else map_bit d r n)"
  by (simp add: map_bit_def dget_dset)

lemma map_bit_Nil [simp]: "\<not> map_bit [] r n"
  by (simp add: map_bit_def)

lemma bit_old_or [simp]:
  "bit ((case dget d r of None \<Rightarrow> 0 | Some m \<Rightarrow> m) OR x) n \<longleftrightarrow> map_bit d r n \<or> bit (x :: int) n"
  by (auto simp: map_bit_def bit_or_iff split: option.splits)

lemma oidc_map_bit:
  "map_bit (oidc_policy_map acc ps) r n \<longleftrightarrow>
   map_bit acc r n \<or> (\<exists>p \<in> set ps. pd_resource p = r \<and> r \<noteq> [] \<and> bit (mask_known (pd_actions p)) n)"
proof (induction ps arbitrary: acc)
  case Nil
  then show ?case by simp
next
  case (Cons p ps)
  show ?case
  proof (cases "pd_resource p \<noteq> [] \<and> pd_actions p \<noteq> []")
    case True
    then show ?thesis
      by (auto simp: Cons.IH map_bit_dset)
  next
    case False
    then have "pd_resource p = [] \<or> mask_known (pd_actions p) = 0"
      by (auto simp: mask_known_def List.map_filter_def)
    with False show ?thesis by (auto simp: Cons.IH)
  qed
qed

lemma check_permission_bit:
  "check_permission d perm (Some r) \<longleftrightarrow>
   (\<exists>a. map_of permission_map (py_lower perm) = Some a \<and> map_bit d r (action_bit a))"
  by (auto simp: check_permission_def needed_perm_bit map_bit_def Let_def split: option.splits)

lemma select_in_force_filter:
  "select_in_force cast now ds = Inr r \<Longrightarrow> r = filter (\<lambda>d. in_force cast now d = Inr True) ds"
  by (induction ds arbitrary: r) (auto split: sum.splits)

lemma select_in_force_set:
  "select_in_force cast now ds = Inr r \<Longrightarrow>
   set r = {d \<in> set ds. in_force cast now d = Inr True}"
  by (drule select_in_force_filter) simp

text \<open>The flags a document lists, in its own order.\<close>

definition doc_flags :: "policy_doc \<Rightarrow> action list" where
  "doc_flags d = List.map_filter action_named (pd_actions d)"

lemma bit_mask_known:
  "distinct (doc_flags d) \<Longrightarrow> bit (mask_known (pd_actions d)) n \<longleftrightarrow> n \<in> action_bit ` set (doc_flags d)"
  by (simp add: mask_known_def doc_flags_def bit_sum_actions)

section \<open>Properties\<close>

text \<open>The policy map an OIDC token carries decides exactly what the stored policies say:
  a permission on a resource is granted if and only if some policy of the user in that tenant,
  in force now, is on the resource and lists the action (for documents that list no action
  twice).\<close>

theorem oidc_token_permissions_exact:
  assumes "fst (fetch_user_policies cast c user tenant w) = Inr d"
    and "\<forall>p \<in> set (w_policies w). distinct (doc_flags (up_policy p))"
    and "r \<noteq> []"
  shows "check_permission d perm (Some r) \<longleftrightarrow>
    (\<exists>p \<in> set (policies_of c w). up_user p = user \<and> up_tenant p = tenant
       \<and> in_force cast (w_now w) (up_policy p) = Inr True \<and> pd_resource (up_policy p) = r
       \<and> (\<exists>a \<in> set (doc_flags (up_policy p)). map_of permission_map (py_lower perm) = Some a))"
proof -
  let ?sel = "map up_policy (sql_select (\<lambda>p. up_user p = user \<and> up_tenant p = tenant) (policies_of c w))"
  from assms(1) obtain ps where ps: "select_in_force cast (w_now w) ?sel = Inr ps"
    and d: "d = oidc_policy_map [] ps"
    by (auto simp: fetch_user_policies_def split: sum.splits)
  have set_ps: "set ps = {x \<in> set ?sel. in_force cast (w_now w) x = Inr True}"
    using ps by (rule select_in_force_set)
  have dist: "x \<in> set ps \<Longrightarrow> distinct (doc_flags x)" for x
    using assms(2) set_ps by (auto simp: sql_select_def policies_of_def)
  have "check_permission d perm (Some r) \<longleftrightarrow>
      (\<exists>x \<in> set ps. \<exists>a. pd_resource x = r \<and> map_of permission_map (py_lower perm) = Some a
          \<and> a \<in> set (doc_flags x))"
    using assms(3) dist
    by (force simp: d check_permission_bit oidc_map_bit bit_mask_known)
  then show ?thesis
    unfolding set_ps by (auto simp: sql_select_def)
qed

definition sample_doc :: "string \<Rightarrow> string list \<Rightarrow> policy_doc" where
  "sample_doc r as = \<lparr>pd_resource = r, pd_actions = as, pd_conditions = []\<rparr>"

definition sample_policy :: "string \<Rightarrow> string \<Rightarrow> string \<Rightarrow> policy_doc \<Rightarrow> user_policy_row" where
  "sample_policy t u pid d =
     \<lparr>up_tenant = t, up_user = u, up_policy_id = pid, up_policy = d, up_created = 0, up_modified = 0\<rparr>"

definition sample_policy_world :: world where
  "sample_policy_world = empty_world\<lparr>w_policies :=
     [sample_policy ''t'' ''u'' ''p1'' (sample_doc ''invoices'' [''read'', ''approve'']),
      sample_policy ''t'' ''u'' ''p2'' (sample_doc ''invoices'' [''write''])]\<rparr>"

lemmas sample_policy_defs = sample_doc_def sample_policy_def sample_policy_world_def empty_world_def

theorem oidc_token_permissions_exact_witness:
  "\<exists>d. fst (fetch_user_policies (\<lambda>_. None) (TenantConn ''t'') ''u'' ''t'' sample_policy_world) = Inr d
     \<and> check_permission d ''Write'' (Some ''invoices'')
     \<and> \<not> check_permission d ''delete'' (Some ''invoices'')"
proof -
  let ?d = "[(''invoices'', 11 :: int)]"
  have f: "fst (fetch_user_policies (\<lambda>_. None) (TenantConn ''t'') ''u'' ''t'' sample_policy_world) = Inr ?d"
    by code_simp
  have di: "\<forall>p \<in> set (w_policies sample_policy_world). distinct (doc_flags (up_policy p))"
    by code_simp
  note ex = oidc_token_permissions_exact [OF f di]
  have "check_permission ?d ''Write'' (Some ''invoices'')"
    by (subst ex) (simp, code_simp)
  moreover have "\<not> check_permission ?d ''delete'' (Some ''invoices'')"
    by (subst ex) (simp, code_simp)
  ultimately show ?thesis using f by blast
qed

lemma login_map_last:
  "login_policy_map acc ps = Inr d \<Longrightarrow>
   dget d r = (let qs = filter (\<lambda>p. pd_resource p = r) ps in
                 if qs = [] then dget acc r else Some (mask_known (pd_actions (last qs))))"
proof (induction ps arbitrary: acc)
  case Nil
  then show ?case by simp
next
  case (Cons p ps)
  then obtain m where m: "mask_sum (pd_actions p) = Inr m"
    and rest: "login_policy_map (dset (pd_resource p) m acc) ps = Inr d"
    by (auto split: sum.splits)
  from m have "m = mask_known (pd_actions p)" by (simp add: mask_sum_known)
  with Cons.IH [OF rest] show ?case
    by (simp add: dget_dset Let_def)
qed

text \<open>At login and refresh the policy map holds, for a resource, the mask of the last
  policy row on that resource only; the OIDC grants join the masks of all of them.\<close>

theorem login_map_last_policy_wins:
  assumes "login_policy_map [] (ps @ [p]) = Inr d"
  shows "dget d (pd_resource p) = Some (mask_known (pd_actions p))
         \<and> (\<forall>n. map_bit d (pd_resource p) n \<longrightarrow> pd_resource p \<noteq> []
                \<longrightarrow> map_bit (oidc_policy_map [] (ps @ [p])) (pd_resource p) n)"
proof -
  have "dget d (pd_resource p) = Some (mask_known (pd_actions p))"
    using login_map_last [OF assms, of "pd_resource p"] by (simp add: Let_def)
  then show ?thesis by (auto simp: oidc_map_bit map_bit_def [of d])
qed

theorem login_map_last_policy_wins_witness:
  "\<exists>d. login_policy_map [] [sample_doc ''inv'' [''read''], sample_doc ''inv'' [''write'']] = Inr d
     \<and> dget d ''inv'' = Some 2
     \<and> dget (oidc_policy_map [] [sample_doc ''inv'' [''read''], sample_doc ''inv'' [''write'']]) ''inv'' = Some 3"
proof -
  have l: "login_policy_map [] ([sample_doc ''inv'' [''read'']] @ [sample_doc ''inv'' [''write'']])
           = Inr [(''inv'', 2)]" by code_simp
  have m: "mask_known [''write''] = 2" by code_simp
  have o: "dget (oidc_policy_map [] [sample_doc ''inv'' [''read''], sample_doc ''inv'' [''write'']]) ''inv'' = Some 3"
    by code_simp
  show ?thesis
    using l login_map_last_policy_wins [OF l] o m by (auto simp: sample_doc_def)
qed

text \<open>The request validator accepts an action listed twice, and the login mask, a sum, then
  turns the repetition into another permission: a policy for reading only grants writing.\<close>

theorem duplicate_action_escalates:
  "make_policy_create pid ''docs'' [''read'', ''read''] conds =
     Inr \<lparr>pc_policy_id = pid, pc_resource = ''docs'', pc_actions = [''read'', ''read''], pc_conditions = conds\<rparr>
   \<and> login_policy_map [] [sample_doc ''docs'' [''read'', ''read'']] = Inr [(''docs'', 2)]
   \<and> check_permission [(''docs'', 2)] ''write'' (Some ''docs'')
   \<and> \<not> check_permission [(''docs'', 2)] ''read'' (Some ''docs'')"
proof -
  have v: "validate_actions [''read'', ''read''] = Inr [''read'', ''read'']" by code_simp
  have "login_policy_map [] [sample_doc ''docs'' [''read'', ''read'']] = Inr [(''docs'', 2)]" by code_simp
  moreover have "check_permission [(''docs'', 2)] ''write'' (Some ''docs'')" by code_simp
  moreover have "\<not> check_permission [(''docs'', 2)] ''read'' (Some ''docs'')" by code_simp
  ultimately show ?thesis by (simp add: make_policy_create_def v)
qed

lemma fetch_user_condition_None: "fetch_user_condition c w u t r = None"
  by (simp add: fetch_user_condition_def doc_json_def dget_def split: option.splits)

text \<open>A condition check on a resource the token covers that asks for anything beyond the
  validity time ends in an \<open>AttributeError\<close> for every stored policy: the query reads the key
  \<open>condition\<close>, which no writer stores. The check answers only when \<open>validity_time\<close> is the sole
  condition.\<close>

theorem extra_conditions_never_decided:
  assumes "dget compare ''validity_time'' = Some v" "json_true v"
    and "dget user_policy r = Some m" "m \<noteq> 0"
  shows "check_condition c w compare (Some r) user_policy user tenant =
         (if length compare = 1 then Inr (Some True) else Inl (PyErr AttributeError))"
  using assms by (simp add: check_condition_def fetch_user_condition_None)

theorem extra_conditions_never_decided_witness:
  "check_condition OwnerConn empty_world [(''validity_time'', JBool True), (''department'', JStr ''hr'')]
     (Some ''docs'') [(''docs'', 3)] ''u'' ''t'' = Inl (PyErr AttributeError)
   \<and> check_condition OwnerConn empty_world [(''validity_time'', JBool True)]
     (Some ''docs'') [(''docs'', 3)] ''u'' ''t'' = Inr (Some True)"
  using extra_conditions_never_decided
      [of "[(''validity_time'', JBool True), (''department'', JStr ''hr'')]" "JBool True"
          "[(''docs'', 3)]" "''docs''" 3 OwnerConn empty_world "''u''" "''t''"]
    extra_conditions_never_decided
      [of "[(''validity_time'', JBool True)]" "JBool True"
          "[(''docs'', 3)]" "''docs''" 3 OwnerConn empty_world "''u''" "''t''"]
  by (simp add: dget_def)

text \<open>The verdict of a decision: what a caller of the endpoint acts on.\<close>

fun verdict :: "decide_out \<Rightarrow> bool option" where
  "verdict (LegacyDecision b) = b"
| "verdict (EnhancedDecision d) = dc_allow d"

lemma decide_allows:
  assumes "td_policy user = Some pol"
  shows "((\<exists>out. fst (decide None rq ip inc user w) = Inr out \<and> verdict out = Some True) \<longleftrightarrow>
         aq_grant_type rq = ''fga'' \<and> \<not> aq_check_condition rq
         \<and> check_permission pol (aq_action rq) (aq_resource rq))
    \<and> (aq_grant_type rq = ''fga'' \<and> aq_check_condition rq
         \<and> check_permission pol (aq_action rq) (aq_resource rq)
         \<longrightarrow> fst (decide None rq ip inc user w) = Inl (PyErr AttributeError))"
  using assms
  by (auto simp: decide_def eff_simps Let_def log_defs split: sum.splits prod.splits if_splits)



end
