(* ===== verification/Revocation.thy ===== *)
theory Revocation
  imports Iam_Store
begin

text \<open>
  Distributed token revocation (app/core/token_revocation.py): the operations of
  \<open>TokenRevocationManager\<close> on one process, the replay of the Redis stream at start-up, and the
  nodes that share one Redis as a step relation (revocations, stream consumption through the
  consumer group, Pub/Sub messages, crashes and restarts).

  The Bloom filter is the library rbloom: its state is the history of additions, its lookup the
  parameter \<open>q\<close>, and \<open>bloom_law q\<close> states what the filter documents (no false negative, and a
  positive stays positive when items are added).
\<close>

section \<open>The filter\<close>

type_synonym bloom_query = "string list \<Rightarrow> string \<Rightarrow> bool"

definition bloom_law :: "bloom_query \<Rightarrow> bool" where
  "bloom_law q \<longleftrightarrow> (\<forall>xs x. x \<in> set xs \<longrightarrow> q xs x) \<and> (\<forall>xs ys x. q xs x \<longrightarrow> q (xs @ ys) x)"

definition exact_bloom :: bloom_query where
  "exact_bloom xs x = (x \<in> set xs)"

lemma bloom_law_exact [simp]: "bloom_law exact_bloom"
  by (simp add: bloom_law_def exact_bloom_def)

lemma bloom_mem: "bloom_law q \<Longrightarrow> x \<in> set xs \<Longrightarrow> q xs x"
  by (simp add: bloom_law_def)

lemma bloom_append: "bloom_law q \<Longrightarrow> q xs x \<Longrightarrow> q (xs @ ys) x"
  by (simp add: bloom_law_def)

lemmas bloom_laws = bloom_mem bloom_append

section \<open>Revoking on one node\<close>

text \<open>
  \<open>XADD\<close> with \<open>maxlen=1_000_000\<close>: the trimming is approximate, so Redis may keep more; the model
  removes the most it may.
\<close>

definition stream_maxlen :: nat where
  "stream_maxlen = 1000000"

definition stream_add :: "'e \<Rightarrow> 'e list \<Rightarrow> 'e list" where
  "stream_add e s = drop (length s + 1 - stream_maxlen) (s @ [e])"

lemma stream_add_code [code]: "stream_add e s = drop (nat (int (length s) + 1 - 1000000)) (s @ [e])"
  by (simp add: stream_add_def stream_maxlen_def nat_diff_distrib' nat_add_distrib)

definition revoke_token :: "string \<Rightarrow> string \<Rightarrow> string \<Rightarrow> string \<Rightarrow> bool svc" where
  "revoke_token jti user tenant reason =
     ethen (emod (\<lambda>w. w\<lparr>w_bloom := w_bloom w @ [jti]\<rparr>))
     (ethen (emod (\<lambda>w. if w_stream_up w
                       then w\<lparr>w_stream := stream_add
                              \<lparr>re_jti = jti, re_user = user, re_tenant = tenant, re_reason = reason\<rparr>
                              (w_stream w)\<rparr>
                       else w))
     (ethen (emod (\<lambda>w. if w_pubsub_up w
                       then w\<lparr>w_published := w_published w @ [(jti, tenant, reason)]\<rparr> else w))
     (eget w_stream_up)))"

fun revoke_user_tokens_loop :: "string \<Rightarrow> string \<Rightarrow> string \<Rightarrow> nat \<Rightarrow> string list \<Rightarrow> nat svc" where
  "revoke_user_tokens_loop user tenant reason cnt [] = eret cnt"
| "revoke_user_tokens_loop user tenant reason cnt (j # js) =
     ebind (revoke_token j user tenant reason)
       (\<lambda>ok. revoke_user_tokens_loop user tenant reason (if ok then Suc cnt else cnt) js)"

definition revoke_user_tokens :: "string \<Rightarrow> string \<Rightarrow> string list \<Rightarrow> string \<Rightarrow> nat svc" where
  "revoke_user_tokens user tenant jtis reason = revoke_user_tokens_loop user tenant reason 0 jtis"

definition is_revoked :: "bloom_query \<Rightarrow> string \<Rightarrow> world \<Rightarrow> bool" where
  "is_revoked q jti w = q (w_bloom w) jti"

text \<open>What a revocation changes: the filter, the stream and the channel, nothing else.\<close>

definition only_channels :: "world \<Rightarrow> world \<Rightarrow> bool" where
  "only_channels w w' \<longleftrightarrow> (\<exists>b s p. w' = w\<lparr>w_bloom := b, w_stream := s, w_published := p\<rparr>)"

lemma only_channels_refl [simp]: "only_channels w w"
  unfolding only_channels_def
  by (rule exI [of _ "w_bloom w"], rule exI [of _ "w_stream w"], rule exI [of _ "w_published w"]) simp

lemma only_channels_trans: "only_channels u v \<Longrightarrow> only_channels v w \<Longrightarrow> only_channels u w"
  unfolding only_channels_def by (elim exE) (simp, blast)

lemma only_channels_fields:
  assumes "only_channels w w'"
  shows "w_now w' = w_now w" "w_sessions w' = w_sessions w" "w_users w' = w_users w"
    "w_policies w' = w_policies w" "w_refresh w' = w_refresh w" "w_codes w' = w_codes w"
    "w_log w' = w_log w" "w_templates w' = w_templates w" "w_clients w' = w_clients w"
  using assms by (auto simp: only_channels_def)

lemma revoke_token_run:
  "revoke_token j u t r w =
     (Inr (w_stream_up w),
      w\<lparr>w_bloom := w_bloom w @ [j],
        w_stream := (if w_stream_up w
                     then stream_add \<lparr>re_jti = j, re_user = u, re_tenant = t, re_reason = r\<rparr> (w_stream w)
                     else w_stream w),
        w_published := (if w_pubsub_up w then w_published w @ [(j, t, r)] else w_published w)\<rparr>)"
  by (simp add: revoke_token_def eff_simps)

lemma revoke_token_channels: "only_channels w (snd (revoke_token j u t r w))"
  unfolding only_channels_def revoke_token_run snd_conv by blast

lemma revoke_token_bloom: "w_bloom (snd (revoke_token j u t r w)) = w_bloom w @ [j]"
  by (simp add: revoke_token_run)

section \<open>The interface of the revocation manager\<close>

text \<open>
  What the session service relies on: revoking marks a token, and nothing it does unmarks one.
\<close>

locale revoker =
  fixes revoke :: "'k \<Rightarrow> 's \<Rightarrow> 's"
    and revoked :: "'s \<Rightarrow> 'k \<Rightarrow> bool"
  assumes revoke_marks: "revoked (revoke k s) k"
    and revoke_keeps: "revoked s k' \<Longrightarrow> revoked (revoke k s) k'"
    and revoke_only: "revoked (revoke k s) k' \<Longrightarrow> k' = k \<or> revoked s k'"
begin

lemma fold_keeps: "revoked s k \<Longrightarrow> revoked (fold revoke ks s) k"
  by (induction ks arbitrary: s) (auto intro: revoke_keeps)

lemma fold_marks: "k \<in> set ks \<Longrightarrow> revoked (fold revoke ks s) k"
  by (induction ks arbitrary: s) (auto intro: revoke_marks fold_keeps)

lemma fold_only: "revoked (fold revoke ks s) k \<Longrightarrow> k \<in> set ks \<or> revoked s k"
  by (induction ks arbitrary: s) (auto dest: revoke_only)

lemma fold_revoked_iff: "revoked (fold revoke ks s) k \<longleftrightarrow> k \<in> set ks \<or> revoked s k"
  using fold_keeps fold_marks fold_only by blast

end

interpretation token_revoker: revoker
  "\<lambda>j w. snd (revoke_token j u t r w)" "\<lambda>w j. j \<in> set (w_bloom w)" for u t r
  by unfold_locales (auto simp: revoke_token_bloom)

lemma revoke_loop_run:
  "revoke_user_tokens_loop u t r n js w =
     (Inr (if w_stream_up w then n + length js else n), fold (\<lambda>j w. snd (revoke_token j u t r w)) js w)"
proof (induction js arbitrary: n w)
  case Nil
  then show ?case by simp
next
  case (Cons j js)
  have up: "w_stream_up (snd (revoke_token j u t r w)) = w_stream_up w"
    by (simp add: revoke_token_run)
  have f: "fst (revoke_token j u t r w) = Inr (w_stream_up w)"
    by (simp add: revoke_token_run)
  show ?case
    using Cons.IH up f by (cases "revoke_token j u t r w") (simp add: ebind_run)
qed

lemma revoke_fold_channels:
  "only_channels w (fold (\<lambda>j w. snd (revoke_token j u t r w)) js w)"
  by (induction js arbitrary: w)
     (auto intro: only_channels_trans revoke_token_channels)

lemma revoke_user_tokens_ok:
  "fst (revoke_user_tokens u t js r w) = Inr (if w_stream_up w then length js else 0)"
  by (simp add: revoke_user_tokens_def revoke_loop_run)

lemma revoke_user_tokens_channels: "only_channels w (snd (revoke_user_tokens u t js r w))"
  by (simp add: revoke_user_tokens_def revoke_loop_run revoke_fold_channels)

lemma revoke_user_tokens_bloom:
  "k \<in> set (w_bloom (snd (revoke_user_tokens u t js r w))) \<longleftrightarrow> k \<in> set js \<or> k \<in> set (w_bloom w)"
  by (simp add: revoke_user_tokens_def revoke_loop_run token_revoker.fold_revoked_iff)

text \<open>After a node revokes the tokens of a user, its filter rejects each of them, whatever
  Redis does; every token it rejected before it still rejects; the count returned is the
  number of tokens when the stream accepted them and 0 when Redis was down.\<close>

theorem revoke_user_tokens_effective:
  assumes "bloom_law q"
  shows "(\<forall>j \<in> set js. is_revoked q j (snd (revoke_user_tokens u t js r w)))
         \<and> (\<forall>k. k \<in> set (w_bloom w) \<longrightarrow> is_revoked q k (snd (revoke_user_tokens u t js r w)))
         \<and> fst (revoke_user_tokens u t js r w) = Inr (if w_stream_up w then length js else 0)"
  using assms
  by (auto simp: is_revoked_def revoke_user_tokens_ok revoke_user_tokens_bloom intro: bloom_mem)

theorem revoke_user_tokens_effective_witness:
  "is_revoked exact_bloom ''b''
     (snd (revoke_user_tokens ''u'' ''t'' [''a'', ''b''] ''logout'' (empty_world\<lparr>w_stream_up := False\<rparr>)))
   \<and> fst (revoke_user_tokens ''u'' ''t'' [''a'', ''b''] ''logout'' (empty_world\<lparr>w_stream_up := False\<rparr>)) = Inr 0"
  using revoke_user_tokens_effective
    [OF bloom_law_exact, of "[''a'', ''b'']" "''u''" "''t''" "''logout''" "empty_world\<lparr>w_stream_up := False\<rparr>"]
  by simp

section \<open>Replaying the stream at start-up\<close>

text \<open>
  Entry ids are totally ordered and grow along the stream; they are numbers here.
  \<open>XRANGE min + COUNT n\<close> takes an inclusive or, with \<open>(\<close>, an exclusive bound.
\<close>

datatype range_min = Incl nat | Excl nat

fun above :: "range_min \<Rightarrow> nat \<Rightarrow> bool" where
  "above (Incl m) i = (m \<le> i)"
| "above (Excl m) i = (m < i)"

type_synonym stream_entry = "nat \<times> string option"

definition xrange :: "stream_entry list \<Rightarrow> range_min \<Rightarrow> nat \<Rightarrow> stream_entry list" where
  "xrange s mn cnt = take cnt (filter (\<lambda>e. above mn (fst e)) s)"

fun replay_batch :: "string list \<Rightarrow> nat \<Rightarrow> nat \<Rightarrow> stream_entry list \<Rightarrow> string list \<times> nat \<times> nat" where
  "replay_batch bloom cnt lid [] = (bloom, cnt, lid)"
| "replay_batch bloom cnt lid ((i, jti) # es) =
     (if ostr_true jti then replay_batch (bloom @ [the jti]) (Suc cnt) i es
      else replay_batch bloom cnt i es)"

lemma replay_batch_last:
  "replay_batch b n l es = (b', n', l') \<Longrightarrow> l' = (if es = [] then l else fst (last es))"
  by (induction b n l es rule: replay_batch.induct) (auto split: if_splits)

lemma filter_shrink:
  assumes "x \<in> set xs" "P x" "\<not> Q x" "\<And>y. Q y \<Longrightarrow> P y"
  shows "length (filter Q xs) < length (filter P xs)"
  using assms
proof (induction xs)
  case (Cons a xs)
  have le: "length (filter Q ys) \<le> length (filter P ys)" for ys
    by (induction ys) (auto dest: assms(4))
  from Cons le [of xs] show ?case by (auto simp: less_Suc_eq_le)
qed simp

lemma xrange_last:
  assumes "xrange s mn cnt \<noteq> []"
  shows "last (xrange s mn cnt) \<in> set s" and "above mn (fst (last (xrange s mn cnt)))"
proof -
  have "last (xrange s mn cnt) \<in> set (xrange s mn cnt)" using assms by simp
  then have "last (xrange s mn cnt) \<in> set (filter (\<lambda>e. above mn (fst e)) s)"
    unfolding xrange_def by (meson in_set_takeD)
  then show "last (xrange s mn cnt) \<in> set s" and "above mn (fst (last (xrange s mn cnt)))" by auto
qed

text \<open>The loop of \<open>_load_existing_revocations\<close>: each round continues after the last id read.\<close>

function replay_loop ::
    "stream_entry list \<Rightarrow> nat \<Rightarrow> range_min \<Rightarrow> string list \<Rightarrow> nat \<Rightarrow> string list \<times> nat" where
  "replay_loop s batch mn bloom cnt =
     (let entries = xrange s mn batch in
      if entries = [] then (bloom, cnt)
      else (case replay_batch bloom cnt 0 entries of
              (bloom', cnt', last_id) \<Rightarrow> replay_loop s batch (Excl last_id) bloom' cnt'))"
  by pat_completeness auto
termination
proof (relation "measure (\<lambda>(s, batch, mn, bloom, cnt). length (filter (\<lambda>e. above mn (fst e)) s))", goal_cases)
  case 1
  then show ?case by simp
next
  case (2 s batch mn bloom cnt es b' y c' l)
  then have ne: "xrange s mn batch \<noteq> []" and "replay_batch bloom cnt 0 (xrange s mn batch) = (b', c', l)"
    by auto
  from replay_batch_last [OF this(2)] ne have l: "l = fst (last (xrange s mn batch))" by simp
  have "length (filter (\<lambda>e. above (Excl l) (fst e)) s) < length (filter (\<lambda>e. above mn (fst e)) s)"
  proof (rule filter_shrink [of "last (xrange s mn batch)"])
    show "above mn (fst e)" if "above (Excl l) (fst e)" for e
      using that xrange_last(2) [OF ne] l by (cases mn) auto
  qed (use xrange_last [OF ne] l in auto)
  then show ?case by simp
qed

declare replay_loop.simps [simp del]

definition batch_size :: nat where
  "batch_size = 100"

definition load_existing_revocations :: "stream_entry list \<Rightarrow> string list \<Rightarrow> string list \<times> nat" where
  "load_existing_revocations s bloom = replay_loop s batch_size (Incl 0) bloom 0"

definition entry_jtis :: "stream_entry list \<Rightarrow> string list" where
  "entry_jtis es = map (the \<circ> snd) (filter (\<lambda>e. ostr_true (snd e)) es)"

lemma replay_batch_run:
  "replay_batch b n l es = (b @ entry_jtis es, n + length (entry_jtis es), if es = [] then l else fst (last es))"
  by (induction b n l es rule: replay_batch.induct) (auto simp: entry_jtis_def)

text \<open>On a stream whose ids grow, a round reads the next entries and leaves exactly the others.\<close>

lemma sorted_ids_split:
  assumes "sorted_wrt (<) (map fst s)" "xrange s mn cnt \<noteq> []"
  shows "filter (\<lambda>e. above mn (fst e)) s =
         xrange s mn cnt @ filter (\<lambda>e. above (Excl (fst (last (xrange s mn cnt)))) (fst e)) s"
proof -
  let ?f = "filter (\<lambda>e. above mn (fst e)) s"
  let ?l = "fst (last (xrange s mn cnt))"
  have so: "sorted_wrt (\<lambda>a b. fst a < fst b) s"
    using assms(1) by (simp add: sorted_wrt_map)
  then have sf: "sorted_wrt (\<lambda>a b. fst a < fst b) ?f" by (rule sorted_wrt_filter)
  have split: "?f = xrange s mn cnt @ drop cnt ?f" by (simp add: xrange_def)
  have bound: "above mn ?l" using xrange_last(2) [OF assms(2)] .
  have lt: "\<forall>a \<in> set (xrange s mn cnt). \<forall>b \<in> set (drop cnt ?f). fst a < fst b"
    using sf by (subst (asm) split) (simp add: sorted_wrt_append)
  have le: "\<forall>a \<in> set (xrange s mn cnt). fst a \<le> ?l"
  proof -
    have "sorted_wrt (\<lambda>a b. fst a < fst b) (xrange s mn cnt)"
      using sf by (simp add: xrange_def sorted_wrt_take)
    then have "sorted_wrt (\<lambda>a b. fst a < fst b) (butlast (xrange s mn cnt) @ [last (xrange s mn cnt)])"
      using assms(2) by simp
    then have "\<forall>a \<in> set (butlast (xrange s mn cnt)). fst a < ?l"
      unfolding sorted_wrt_append by simp
    then show ?thesis
      using assms(2) by (metis append_butlast_last_id less_imp_le rotate1.simps(2) set_ConsD set_rotate1 order_refl)
  qed
  have "filter (\<lambda>e. above (Excl ?l) (fst e)) s = filter (\<lambda>e. above (Excl ?l) (fst e)) ?f"
    using bound by (auto simp: filter_filter intro!: filter_cong split: range_min.splits)
       (cases mn; auto)+
  also have "\<dots> = filter (\<lambda>e. above (Excl ?l) (fst e)) (xrange s mn cnt)
                  @ filter (\<lambda>e. above (Excl ?l) (fst e)) (drop cnt ?f)"
    by (subst split) simp
  also have "\<dots> = drop cnt ?f"
  proof -
    have "filter (\<lambda>e. above (Excl ?l) (fst e)) (xrange s mn cnt) = []"
      using le by (auto simp: filter_empty_conv)
    moreover have "filter (\<lambda>e. above (Excl ?l) (fst e)) (drop cnt ?f) = drop cnt ?f"
      using lt assms(2) by (auto intro!: filter_True)
    ultimately show ?thesis by simp
  qed
  finally show ?thesis using split by simp
qed

lemma replay_loop_run:
  assumes "sorted_wrt (<) (map fst s)" "0 < batch"
  shows "replay_loop s batch mn b n =
    (b @ entry_jtis (filter (\<lambda>e. above mn (fst e)) s),
     n + length (entry_jtis (filter (\<lambda>e. above mn (fst e)) s)))"
  using assms
proof (induction s batch mn b n rule: replay_loop.induct)
  case (1 s batch mn b n)
  show ?case
  proof (cases "xrange s mn batch = []")
    case True
    then have "filter (\<lambda>e. above mn (fst e)) s = []"
      using 1(3) by (auto simp: xrange_def)
    with True show ?thesis by (simp add: replay_loop.simps [of s batch mn] entry_jtis_def)
  next
    case False
    have app: "entry_jtis (xs @ ys) = entry_jtis xs @ entry_jtis ys" for xs ys
      by (simp add: entry_jtis_def)
    have J: "entry_jtis (filter (\<lambda>e. above mn (fst e)) s) = entry_jtis (xrange s mn batch)
      @ entry_jtis (filter (\<lambda>e. above (Excl (fst (last (xrange s mn batch)))) (fst e)) s)"
      by (subst sorted_ids_split [OF 1(2) False]) (rule app)
    show ?thesis
      using 1(1) [OF refl False replay_batch_run [symmetric] refl 1(2,3)] False
      by (subst replay_loop.simps) (simp add: Let_def replay_batch_run J)
  qed
qed

text \<open>The start-up replay ends and adds the token id of every entry of the stream to the
  filter, in order, for streams of any length (the loop reads 100 entries a round); the count it
  logs is the number of ids added.\<close>

theorem replay_loads_whole_stream:
  assumes "sorted_wrt (<) (map fst s)"
  shows "load_existing_revocations s bloom = (bloom @ entry_jtis s, length (entry_jtis s))"
proof -
  have "filter (\<lambda>e. above (Incl 0) (fst e)) s = s" by simp
  then show ?thesis
    by (simp add: load_existing_revocations_def replay_loop_run [OF assms] batch_size_def)
qed

theorem replay_loads_whole_stream_witness:
  "load_existing_revocations [(1, Some ''a''), (4, None), (7, Some ''b'')] [] = ([''a'', ''b''], 2)"
  using replay_loads_whole_stream [of "[(1, Some ''a''), (4, None), (7, Some ''b'')]" "[]"]
  by (simp add: entry_jtis_def)

section \<open>Nodes that share one Redis\<close>

text \<open>
  A node (one worker process) is down, has replayed the stream but not yet subscribed
  (\<open>initialize\<close> has returned and the Pub/Sub task has not run), or is live. The inbox holds the
  Pub/Sub messages on their way to it. The consumer group \<open>bloom-sync\<close> has one cursor: an entry
  read with \<open>XREADGROUP ... >\<close> is delivered to one consumer of the group.
\<close>

datatype phase = Down | Loaded | Live

record node =
  nd_phase :: phase
  nd_bloom :: "string list"
  nd_inbox :: "string list"

record cluster =
  cl_stream :: "string list"
  cl_cursor :: nat
  cl_nodes :: "nat \<Rightarrow> node"

definition down_node :: node where
  "down_node = \<lparr>nd_phase = Down, nd_bloom = [], nd_inbox = []\<rparr>"

definition init_cluster :: cluster where
  "init_cluster = \<lparr>cl_stream = [], cl_cursor = 0, cl_nodes = (\<lambda>_. down_node)\<rparr>"

text \<open>The body of \<open>_consume_loop\<close> for one batch, and of \<open>_pubsub_loop\<close> for one message.\<close>

definition consume_batch :: "string list \<Rightarrow> string list \<Rightarrow> string list" where
  "consume_batch bloom msgs = bloom @ filter (\<lambda>j. j \<noteq> []) msgs"

definition pubsub_message :: "bloom_query \<Rightarrow> string list \<Rightarrow> string \<Rightarrow> string list" where
  "pubsub_message q bloom jti = (if jti \<noteq> [] \<and> \<not> q bloom jti then bloom @ [jti] else bloom)"

definition stream_entries :: "string list \<Rightarrow> stream_entry list" where
  "stream_entries js = zip [0..<length js] (map Some js)"

definition broadcast :: "string \<Rightarrow> (nat \<Rightarrow> node) \<Rightarrow> nat \<Rightarrow> node" where
  "broadcast j ns = (\<lambda>k. if nd_phase (ns k) = Live then (ns k)\<lparr>nd_inbox := nd_inbox (ns k) @ [j]\<rparr> else ns k)"

definition add_local :: "nat \<Rightarrow> string \<Rightarrow> (nat \<Rightarrow> node) \<Rightarrow> nat \<Rightarrow> node" where
  "add_local i j ns = ns(i := (ns i)\<lparr>nd_bloom := nd_bloom (ns i) @ [j]\<rparr>)"

text \<open>
  \<open>careful = True\<close> restricts the runs to those where every publication reaches Redis and every
  subscriber, and no token is revoked while some node is between replay and subscription.
\<close>

inductive cluster_step :: "bloom_query \<Rightarrow> bool \<Rightarrow> cluster \<Rightarrow> cluster \<Rightarrow> bool" for q careful where
  revoke: "nd_phase (cl_nodes c i) \<noteq> Down \<Longrightarrow> j \<noteq> [] \<Longrightarrow> length (cl_stream c) < stream_maxlen \<Longrightarrow>
     (careful \<longrightarrow> (\<forall>k. nd_phase (cl_nodes c k) \<noteq> Loaded)) \<Longrightarrow>
     cluster_step q careful c
       (c\<lparr>cl_stream := cl_stream c @ [j], cl_nodes := broadcast j (add_local i j (cl_nodes c))\<rparr>)"
| revoke_unpublished: "\<not> careful \<Longrightarrow> nd_phase (cl_nodes c i) \<noteq> Down \<Longrightarrow> j \<noteq> [] \<Longrightarrow>
     length (cl_stream c) < stream_maxlen \<Longrightarrow>
     cluster_step q careful c
       (c\<lparr>cl_stream := cl_stream c @ [j], cl_nodes := add_local i j (cl_nodes c)\<rparr>)"
| consume: "nd_phase (cl_nodes c i) \<noteq> Down \<Longrightarrow> cl_cursor c < length (cl_stream c) \<Longrightarrow>
     cluster_step q careful c
       (c\<lparr>cl_cursor := min (length (cl_stream c)) (cl_cursor c + batch_size),
          cl_nodes := (cl_nodes c)(i := (cl_nodes c i)\<lparr>nd_bloom :=
            consume_batch (nd_bloom (cl_nodes c i)) (take batch_size (drop (cl_cursor c) (cl_stream c)))\<rparr>)\<rparr>)"
| deliver: "nd_phase (cl_nodes c i) = Live \<Longrightarrow> nd_inbox (cl_nodes c i) = j # js \<Longrightarrow>
     cluster_step q careful c
       (c\<lparr>cl_nodes := (cl_nodes c)(i := (cl_nodes c i)\<lparr>nd_bloom :=
            pubsub_message q (nd_bloom (cl_nodes c i)) j, nd_inbox := js\<rparr>)\<rparr>)"
| lose: "\<not> careful \<Longrightarrow> nd_inbox (cl_nodes c i) = j # js \<Longrightarrow>
     cluster_step q careful c (c\<lparr>cl_nodes := (cl_nodes c)(i := (cl_nodes c i)\<lparr>nd_inbox := js\<rparr>)\<rparr>)"
| crash: "cluster_step q careful c (c\<lparr>cl_nodes := (cl_nodes c)(i := down_node)\<rparr>)"
| start: "nd_phase (cl_nodes c i) = Down \<Longrightarrow>
     cluster_step q careful c
       (c\<lparr>cl_nodes := (cl_nodes c)(i := \<lparr>nd_phase = Loaded,
          nd_bloom = fst (load_existing_revocations (stream_entries (cl_stream c)) []), nd_inbox = []\<rparr>)\<rparr>)"
| subscribe: "nd_phase (cl_nodes c i) = Loaded \<Longrightarrow>
     cluster_step q careful c (c\<lparr>cl_nodes := (cl_nodes c)(i := (cl_nodes c i)\<lparr>nd_phase := Live\<rparr>)\<rparr>)"

inductive cluster_reach :: "bloom_query \<Rightarrow> bool \<Rightarrow> cluster \<Rightarrow> bool" for q careful where
  init: "cluster_reach q careful init_cluster"
| step: "cluster_reach q careful c \<Longrightarrow> cluster_step q careful c c' \<Longrightarrow> cluster_reach q careful c'"

inductive_cases cluster_stepE: "cluster_step q careful c c'"

lemma entry_jtis_stream: "entry_jtis (stream_entries js) = filter (\<lambda>j. j \<noteq> []) js"
proof -
  have "map (the \<circ> snd) (filter (\<lambda>e. ostr_true (snd e)) (zip is (map Some js))) = filter (\<lambda>j. j \<noteq> []) js"
    if "length is = length js" for "is" :: "nat list"
    using that by (induction "is" js rule: list_induct2) auto
  then show ?thesis by (simp add: entry_jtis_def stream_entries_def)
qed

lemma load_stream: "fst (load_existing_revocations (stream_entries js) []) = filter (\<lambda>j. j \<noteq> []) js"
proof -
  have "sorted_wrt (<) (map fst (stream_entries js))" by (simp add: stream_entries_def)
  then show ?thesis by (simp add: replay_loop_run load_existing_revocations_def batch_size_def entry_jtis_stream)
qed

text \<open>Only revoked ids enter a filter; the stream holds no empty id.\<close>

definition filter_sound :: "cluster \<Rightarrow> bool" where
  "filter_sound c \<longleftrightarrow> [] \<notin> set (cl_stream c)
     \<and> (\<forall>k. set (nd_bloom (cl_nodes c k)) \<subseteq> set (cl_stream c) \<and> set (nd_inbox (cl_nodes c k)) \<subseteq> set (cl_stream c))"

text \<open>Every revoked id is known to a node or on its way to it; a starting node knows them all.\<close>

definition node_informed :: "bloom_query \<Rightarrow> string list \<Rightarrow> node \<Rightarrow> bool" where
  "node_informed q stream n \<longleftrightarrow>
     (nd_phase n = Loaded \<longrightarrow> (\<forall>j \<in> set stream. q (nd_bloom n) j))
     \<and> (nd_phase n = Live \<longrightarrow> (\<forall>j \<in> set stream. q (nd_bloom n) j \<or> j \<in> set (nd_inbox n)))"

definition informed :: "bloom_query \<Rightarrow> cluster \<Rightarrow> bool" where
  "informed q c \<longleftrightarrow> [] \<notin> set (cl_stream c) \<and> (\<forall>k. node_informed q (cl_stream c) (cl_nodes c k))"

lemma step_sound:
  assumes "cluster_step q careful c c'" "filter_sound c"
  shows "filter_sound c'"
  using assms
proof (induction rule: cluster_step.induct)
  case (consume c i)
  then show ?case
    by (auto simp: filter_sound_def consume_batch_def dest!: in_set_takeD in_set_dropD)
next
  case (deliver c i j js)
  then have "j \<in> set (cl_stream c)" "set js \<subseteq> set (cl_stream c)"
    unfolding filter_sound_def by (metis list.set_intros(1) subsetD, metis set_subset_Cons subset_trans)
  with deliver show ?case by (auto simp: filter_sound_def pubsub_message_def)
next
  case (lose c i j js)
  then have "set js \<subseteq> set (cl_stream c)"
    unfolding filter_sound_def by (metis set_subset_Cons subset_trans)
  with lose show ?case by (auto simp: filter_sound_def)
qed (auto simp: filter_sound_def broadcast_def add_local_def down_node_def load_stream split: if_splits)

lemma node_informed_more:
  assumes "bloom_law q" "node_informed q s n"
  shows "node_informed q s (n\<lparr>nd_bloom := nd_bloom n @ xs\<rparr>)"
  using assms by (auto simp: node_informed_def intro: bloom_append)

lemma pubsub_informs:
  assumes "bloom_law q" "q b x \<or> x = j" "x \<noteq> []"
  shows "q (pubsub_message q b j) x"
  using assms bloom_append [OF assms(1), of b x "[j]"] bloom_mem [OF assms(1), of j "b @ [j]"]
  by (auto simp: pubsub_message_def)

lemma step_informed:
  assumes "cluster_step q careful c c'" "careful" "bloom_law q" "informed q c"
  shows "informed q c'"
  using assms
proof (induction rule: cluster_step.induct)
  case (revoke c i j)
  then show ?case
    by (auto simp: informed_def node_informed_def broadcast_def add_local_def intro: bloom_append bloom_mem)
next
  case (consume c i)
  then show ?case
    by (auto simp: informed_def consume_batch_def node_informed_more)
next
  case (deliver c i j js)
  have n: "node_informed q (cl_stream c) (cl_nodes c i)" and ne: "[] \<notin> set (cl_stream c)"
    using deliver by (auto simp: informed_def)
  have "node_informed q (cl_stream c)
     ((cl_nodes c i)\<lparr>nd_bloom := pubsub_message q (nd_bloom (cl_nodes c i)) j, nd_inbox := js\<rparr>)"
    unfolding node_informed_def
  proof (intro conjI impI ballI)
    fix x
    assume "x \<in> set (cl_stream c)"
    then have "x \<noteq> []" "(q (nd_bloom (cl_nodes c i)) x \<or> x = j) \<or> x \<in> set js"
      using n ne deliver(1,2) by (auto simp: node_informed_def)
    then show "q (nd_bloom ((cl_nodes c i)\<lparr>nd_bloom := pubsub_message q (nd_bloom (cl_nodes c i)) j, nd_inbox := js\<rparr>)) x
      \<or> x \<in> set (nd_inbox ((cl_nodes c i)\<lparr>nd_bloom := pubsub_message q (nd_bloom (cl_nodes c i)) j, nd_inbox := js\<rparr>))"
      using pubsub_informs [OF deliver(4)] by auto
  qed (use deliver(1) in simp)
  with deliver show ?case by (simp add: informed_def)
next
  case (start c i)
  have "q (filter (\<lambda>j. j \<noteq> []) (cl_stream c)) j" if "j \<in> set (cl_stream c)" "[] \<notin> set (cl_stream c)" for j
    using that by (intro bloom_mem [OF start(3)]) auto
  with start(4) show ?case by (simp add: informed_def node_informed_def load_stream)
qed (auto simp: informed_def node_informed_def down_node_def)

lemma reach_sound: "cluster_reach q careful c \<Longrightarrow> filter_sound c"
proof (induction rule: cluster_reach.induct)
  case init
  show ?case by (simp add: filter_sound_def init_cluster_def down_node_def)
next
  case (step c c')
  then show ?case by (blast intro: step_sound)
qed

lemma reach_informed:
  assumes "bloom_law q"
  shows "cluster_reach q True c \<Longrightarrow> informed q c"
proof (induction rule: cluster_reach.induct)
  case init
  show ?case by (simp add: informed_def node_informed_def init_cluster_def down_node_def)
next
  case (step c c')
  then show ?case by (blast intro: step_informed [OF _ TrueI] assms)
qed

text \<open>In every reachable state of the cluster, whatever is lost, a filter holds revoked token
  ids only: no node rejects a token on account of an id that nobody revoked (false positives of
  the filter apart).\<close>

theorem filters_hold_only_revoked:
  assumes "cluster_reach q careful c"
  shows "set (nd_bloom (cl_nodes c k)) \<subseteq> set (cl_stream c)"
  using reach_sound [OF assms] by (simp add: filter_sound_def)

text \<open>When no publication is lost and no token is revoked while a node is starting, then once
  the messages on their way are processed every live node rejects every revoked token.\<close>

theorem quiescent_nodes_agree:
  assumes "bloom_law q" "cluster_reach q True c"
    and "nd_phase (cl_nodes c k) = Live" "nd_inbox (cl_nodes c k) = []" "j \<in> set (cl_stream c)"
  shows "q (nd_bloom (cl_nodes c k)) j"
  using reach_informed [OF assms(1,2)] assms(3-5) by (auto simp: informed_def node_informed_def)

text \<open>A run: two nodes start and subscribe.\<close>

definition live_node :: "string list \<Rightarrow> string list \<Rightarrow> node" where
  "live_node b ib = \<lparr>nd_phase = Live, nd_bloom = b, nd_inbox = ib\<rparr>"

definition two_nodes :: "string list \<Rightarrow> nat \<Rightarrow> node \<Rightarrow> node \<Rightarrow> cluster" where
  "two_nodes s n a b = \<lparr>cl_stream = s, cl_cursor = n, cl_nodes = (\<lambda>_. down_node)(0 := a, 1 := b)\<rparr>"

lemma load_empty: "fst (load_existing_revocations (stream_entries []) []) = []"
  by (simp add: load_stream)

lemma reach_two_live: "cluster_reach q careful (two_nodes [] 0 (live_node [] []) (live_node [] []))"
proof -
  let ?l = "\<lparr>nd_phase = Loaded, nd_bloom = [], nd_inbox = []\<rparr>"
  have a: "cluster_reach q careful (init_cluster\<lparr>cl_nodes := (\<lambda>_. down_node)(0 := ?l)\<rparr>)"
    using cluster_reach.step [OF cluster_reach.init cluster_step.start [of init_cluster 0]]
    by (simp add: init_cluster_def down_node_def load_empty)
  have b: "cluster_reach q careful (init_cluster\<lparr>cl_nodes := (\<lambda>_. down_node)(0 := live_node [] [])\<rparr>)"
    using cluster_reach.step [OF a cluster_step.subscribe [of _ 0]]
    by (simp add: live_node_def)
  have c: "cluster_reach q careful
      (init_cluster\<lparr>cl_nodes := (\<lambda>_. down_node)(0 := live_node [] [], 1 := ?l)\<rparr>)"
    using cluster_reach.step [OF b cluster_step.start [of _ 1]]
    by (simp add: down_node_def init_cluster_def load_empty)
  show ?thesis
    using cluster_reach.step [OF c cluster_step.subscribe [of _ 1]]
    by (simp add: live_node_def two_nodes_def init_cluster_def fun_upd_twist)
qed

lemma reach_published:
  "cluster_reach q True (two_nodes [''a''] 0 (live_node [''a''] [''a'']) (live_node [] [''a'']))"
proof -
  have "broadcast ''a'' (add_local 0 ''a'' ((\<lambda>_. down_node)(0 := live_node [] [], 1 := live_node [] [])))
      = (\<lambda>_. down_node)(0 := live_node [''a''] [''a''], 1 := live_node [] [''a''])"
    by (auto simp: broadcast_def add_local_def live_node_def down_node_def fun_eq_iff)
  then show ?thesis
    using cluster_reach.step [OF reach_two_live
      cluster_step.revoke [of "two_nodes [] 0 (live_node [] []) (live_node [] [])" 0 "''a''"]]
    by (simp add: two_nodes_def live_node_def down_node_def stream_maxlen_def)
qed

lemma reach_delivered:
  "cluster_reach exact_bloom True (two_nodes [''a''] 0 (live_node [''a''] [''a'']) (live_node [''a''] []))"
  using cluster_reach.step [OF reach_published [of exact_bloom]
      cluster_step.deliver [of "two_nodes [''a''] 0 (live_node [''a''] [''a'']) (live_node [] [''a''])" 1 "''a''" "[]"]]
  by (simp add: two_nodes_def live_node_def pubsub_message_def exact_bloom_def)

theorem filters_hold_only_revoked_witness:
  "set (nd_bloom (cl_nodes (two_nodes [''a''] 0 (live_node [''a''] [''a'']) (live_node [''a''] [])) 1)) \<subseteq> {''a''}"
  using filters_hold_only_revoked [OF reach_delivered, of 1] by (simp add: two_nodes_def)

theorem quiescent_nodes_agree_witness:
  "exact_bloom (nd_bloom (cl_nodes (two_nodes [''a''] 0 (live_node [''a''] [''a'']) (live_node [''a''] [])) 1)) ''a''"
  by (rule quiescent_nodes_agree [OF bloom_law_exact reach_delivered])
     (simp_all add: two_nodes_def live_node_def)

text \<open>The stream alone does not bring a revocation to every worker: there is a run in which a
  publication is lost, the consumer group has delivered every entry, nothing is in flight, both
  workers are live, and one of them still accepts the revoked token. The group hands each entry
  to one of its consumers.\<close>

theorem group_consumption_misses_worker:
  "\<exists>c. cluster_reach exact_bloom False c \<and> ''a'' \<in> set (cl_stream c)
     \<and> cl_cursor c = length (cl_stream c) \<and> nd_inbox (cl_nodes c 0) = [] \<and> nd_inbox (cl_nodes c 1) = []
     \<and> nd_phase (cl_nodes c 0) = Live \<and> nd_phase (cl_nodes c 1) = Live
     \<and> \<not> exact_bloom (nd_bloom (cl_nodes c 1)) ''a''"
proof -
  let ?c0 = "two_nodes [] 0 (live_node [] []) (live_node [] [])"
  let ?c1 = "two_nodes [''a''] 0 (live_node [''a''] []) (live_node [] [])"
  let ?c2 = "two_nodes [''a''] 1 (live_node [''a'', ''a''] []) (live_node [] [])"
  have "cluster_reach exact_bloom False ?c1"
    using cluster_reach.step [OF reach_two_live cluster_step.revoke_unpublished [of False ?c0 0 "''a''" exact_bloom]]
    by (simp add: two_nodes_def live_node_def stream_maxlen_def add_local_def fun_upd_twist)
  from cluster_reach.step [OF this cluster_step.consume [of ?c1 0]]
  have "cluster_reach exact_bloom False ?c2"
    by (simp add: two_nodes_def live_node_def consume_batch_def batch_size_def fun_upd_twist)
  then show ?thesis
    by (intro exI [of _ ?c2]) (simp add: two_nodes_def live_node_def exact_bloom_def)
qed

end
