(* ===== verification/Sessions.thy ===== *)
theory Sessions
  imports Authz Revocation
begin

text \<open>
  Sessions (app/services/session_service.py) and the session endpoints of app/api/v1/auth.py:
  creating, listing, inspecting, revoking one or all sessions of a user, the administrator's
  bulk operations and the clean-up of expired rows. Revocations go through the revocation
  manager of \<open>Revocation\<close>. Row level security does not cover \<open>user_sessions\<close>; the only table
  with a policy these statements read is \<open>users\<close>, in the join of the tenant listing.
\<close>

section \<open>Statements on user_sessions\<close>

definition session_active :: "world \<Rightarrow> session_row \<Rightarrow> bool" where
  "session_active w s \<longleftrightarrow> ss_revoked_at s = None \<and> w_now w < ss_expires s"

text \<open>\<open>UPDATE user_sessions SET revoked_at = NOW(), revoked_reason = r WHERE p\<close>, with its row count.\<close>

definition mark_revoked :: "int \<Rightarrow> string \<Rightarrow> session_row \<Rightarrow> session_row" where
  "mark_revoked now reason s = s\<lparr>ss_revoked_at := Some now, ss_reason := Some reason\<rparr>"

definition update_revoked :: "(session_row \<Rightarrow> bool) \<Rightarrow> string \<Rightarrow> nat svc" where
  "update_revoked p reason = (\<lambda>w.
     (Inr (sql_count p (w_sessions w)),
      w\<lparr>w_sessions := sql_update p (mark_revoked (w_now w) reason) (w_sessions w)\<rparr>))"

text \<open>
  \<open>create_session\<close>: \<open>inet\<close> says which strings the cast to an address accepts; the primary key
  makes a second insert of a token id a no-op; both foreign keys must exist.
\<close>

definition create_session ::
    "(string \<Rightarrow> bool) \<Rightarrow> string \<Rightarrow> string \<Rightarrow> string \<Rightarrow> int \<Rightarrow> string option \<Rightarrow> json dict option \<Rightarrow> unit svc" where
  "create_session inet jti user tenant expires ip device = (\<lambda>w.
     let dev = (case device of None \<Rightarrow> None | Some [] \<Rightarrow> None | Some d \<Rightarrow> Some (JObj d)) in
     if (case ip of None \<Rightarrow> False | Some a \<Rightarrow> \<not> inet a) \<or> 64 < length jti then (Inl (DbErr DataError), w)
     else if \<exists>s \<in> set (w_sessions w). ss_jti s = jti then (Inr (), w)
     else if (\<forall>u \<in> set (w_users w). us_id u \<noteq> user) \<or> (\<forall>t \<in> set (w_tenants w). tn_id t \<noteq> tenant)
     then (Inl (DbErr ForeignKeyViolationError), w)
     else (Inr (), w\<lparr>w_sessions := w_sessions w @
       [\<lparr>ss_jti = jti, ss_user = user, ss_tenant = tenant, ss_device = dev, ss_ip = ip,
         ss_created = w_now w, ss_expires = expires, ss_revoked_at = None, ss_reason = None\<rparr>]\<rparr>))"

section \<open>Listings\<close>

record session_info =
  si_jti :: string
  si_has_device :: bool
  si_ip :: "string option"
  si_created :: int
  si_expires :: int

record session_list =
  sl_sessions :: "session_info list"
  sl_pagination :: pagination

definition session_info_of :: "session_row \<Rightarrow> session_info" where
  "session_info_of s =
     \<lparr>si_jti = ss_jti s, si_has_device = (ss_device s \<noteq> None), si_ip = ss_ip s,
      si_created = ss_created s, si_expires = ss_expires s\<rparr>"

text \<open>\<open>ORDER BY created_at DESC\<close>; rows created at the same instant keep the table's order.\<close>

definition newest_first :: "session_row list \<Rightarrow> session_row list" where
  "newest_first t = sort_key (\<lambda>s. - ss_created s) t"

definition get_active_sessions :: "string \<Rightarrow> string \<Rightarrow> int \<Rightarrow> int \<Rightarrow> session_list svc" where
  "get_active_sessions user tenant page page_size =
     (let p = (\<lambda>w s. ss_user s = user \<and> ss_tenant s = tenant \<and> session_active w s) in
      ebind (eget (\<lambda>w. int (sql_count (p w) (w_sessions w)))) (\<lambda>cnt.
      ebind (eget (\<lambda>w. sql_page (nat page_size) (nat (page_offset page page_size))
                          (newest_first (sql_select (p w) (w_sessions w))))) (\<lambda>rows.
      eret \<lparr>sl_sessions = map session_info_of rows,
            sl_pagination = pagination_info page page_size cnt\<rparr>)))"

record device_info_reply =
  di_jti :: string
  di_device :: "json option"

definition get_session_device_info ::
    "string \<Rightarrow> string \<Rightarrow> string option \<Rightarrow> device_info_reply option svc" where
  "get_session_device_info jti tenant user =
     ebind (eget (\<lambda>w. case user of
              None \<Rightarrow> sql_row (\<lambda>s. ss_jti s = jti \<and> ss_tenant s = tenant) (w_sessions w)
            | Some u \<Rightarrow> sql_row (\<lambda>s. ss_jti s = jti \<and> ss_tenant s = tenant \<and> ss_user s = u) (w_sessions w)))
       (\<lambda>row. eret (map_option (\<lambda>s. \<lparr>di_jti = ss_jti s, di_device = ss_device s\<rparr>) row))"

record tenant_session_info =
  ti_jti :: string
  ti_user :: string
  ti_email :: string
  ti_has_device :: bool
  ti_ip :: "string option"
  ti_created :: int
  ti_expires :: int
  ti_status :: string

record tenant_session_list =
  tl_sessions :: "tenant_session_info list"
  tl_pagination :: pagination

definition session_status :: "world \<Rightarrow> session_row \<Rightarrow> string" where
  "session_status w s =
     (if ss_revoked_at s \<noteq> None then ''revoked''
      else if ss_expires s < w_now w then ''expired'' else ''active'')"

definition session_user :: "conn \<Rightarrow> world \<Rightarrow> session_row \<Rightarrow> user_row option" where
  "session_user c w s = sql_row (\<lambda>u. us_id u = ss_user s) (users_of c w)"

definition tenant_session_info_of :: "conn \<Rightarrow> world \<Rightarrow> (session_row \<Rightarrow> string) \<Rightarrow> session_row \<Rightarrow> tenant_session_info" where
  "tenant_session_info_of c w st s =
     \<lparr>ti_jti = ss_jti s, ti_user = ss_user s, ti_email = us_email (the (session_user c w s)),
      ti_has_device = (ss_device s \<noteq> None), ti_ip = ss_ip s, ti_created = ss_created s,
      ti_expires = ss_expires s, ti_status = st s\<rparr>"

text \<open>The total counts sessions; the rows are joined with the users the connection can see.\<close>

definition get_all_tenant_sessions ::
    "conn \<Rightarrow> string \<Rightarrow> bool \<Rightarrow> int \<Rightarrow> int \<Rightarrow> tenant_session_list svc" where
  "get_all_tenant_sessions c tenant include_expired page page_size = (\<lambda>w.
     let p = (\<lambda>s. ss_tenant s = tenant \<and> (include_expired \<or> session_active w s));
         st = (if include_expired then session_status w else (\<lambda>_. ''active''));
         cnt = int (sql_count p (w_sessions w));
         rows = sql_page (nat page_size) (nat (page_offset page page_size))
                  (newest_first (sql_select (\<lambda>s. p s \<and> session_user c w s \<noteq> None) (w_sessions w)))
     in (Inr \<lparr>tl_sessions = map (tenant_session_info_of c w st) rows,
              tl_pagination = pagination_info page page_size cnt\<rparr>, w))"

section \<open>Revoking\<close>

definition revoke_session :: "string \<Rightarrow> string \<Rightarrow> string \<Rightarrow> string \<Rightarrow> bool svc" where
  "revoke_session jti user tenant reason =
     ebind (update_revoked (\<lambda>s. ss_jti s = jti \<and> ss_user s = user \<and> ss_tenant s = tenant
                                \<and> ss_revoked_at s = None) reason)
       (\<lambda>n. if n \<noteq> 0 then ethen (revoke_token jti user tenant reason) (eret True) else eret False)"

definition open_sessions_of :: "string \<Rightarrow> string \<Rightarrow> string option \<Rightarrow> session_row \<Rightarrow> bool" where
  "open_sessions_of user tenant exclude s \<longleftrightarrow>
     (if ostr_true exclude
      then ss_user s = user \<and> ss_tenant s = tenant \<and> ss_revoked_at s = None \<and> ss_jti s \<noteq> the exclude
      else ss_user s = user \<and> ss_tenant s = tenant \<and> ss_revoked_at s = None)"

definition audit_sessions :: "string \<Rightarrow> json option \<Rightarrow> string \<Rightarrow> nat \<Rightarrow> unit svc" where
  "audit_sessions action user tenant n =
     log_audit action [(''user_id'', user), (''tenant_id'', jstr tenant), (''resource'', jstr ''sessions''),
       (''decision'', jstr (''Revoked '' @ digits_of n @ '' sessions''))]"

definition revoke_all_sessions :: "string \<Rightarrow> string \<Rightarrow> string \<Rightarrow> string option \<Rightarrow> nat svc" where
  "revoke_all_sessions user tenant reason exclude =
     ebind (eget (\<lambda>w. sql_select (open_sessions_of user tenant exclude) (w_sessions w))) (\<lambda>rows.
     if rows = [] then eret 0
     else ethen (revoke_user_tokens user tenant (map ss_jti rows) reason)
         (ethen (update_revoked (open_sessions_of user tenant exclude) reason)
         (ethen (audit_sessions ''bulk_logout'' (jstr user) tenant (length rows))
         (eret (length rows)))))"

text \<open>Seven days, in the clock's unit of one second.\<close>

definition cleanup_expired_sessions :: "nat svc" where
  "cleanup_expired_sessions = (\<lambda>w.
     let p = (\<lambda>s. ss_expires s < w_now w - 7 * 86400) in
     (Inr (sql_count p (w_sessions w)), w\<lparr>w_sessions := sql_delete p (w_sessions w)\<rparr>))"

definition admin_revoke_session :: "string \<Rightarrow> string \<Rightarrow> string \<Rightarrow> bool svc" where
  "admin_revoke_session jti tenant reason =
     ebind (eget (\<lambda>w. sql_row (\<lambda>s. ss_jti s = jti \<and> ss_tenant s = tenant) (w_sessions w))) (\<lambda>row.
     case row of None \<Rightarrow> eret False
     | Some s \<Rightarrow>
         ebind (update_revoked (\<lambda>s. ss_jti s = jti \<and> ss_tenant s = tenant \<and> ss_revoked_at s = None) reason)
           (\<lambda>n. if n \<noteq> 0 then ethen (revoke_token jti (ss_user s) tenant reason) (eret True)
                else eret False))"

text \<open>\<open>user_jtis\<close>: the token ids grouped by user, users in the order of their first row.\<close>

fun group_jtis :: "string list dict \<Rightarrow> session_row list \<Rightarrow> string list dict" where
  "group_jtis d [] = d"
| "group_jtis d (s # rows) =
     group_jtis
       (let d' = (if dget d (ss_user s) = None then dset (ss_user s) [] d else d)
        in dset (ss_user s) (the (dget d' (ss_user s)) @ [ss_jti s]) d') rows"

definition revoke_group :: "string \<Rightarrow> string \<Rightarrow> string \<times> string list \<Rightarrow> unit svc" where
  "revoke_group tenant reason g =
     ethen (revoke_user_tokens (fst g) tenant (snd g) reason) (eret ())"

definition admin_bulk_revoke_sessions :: "string list \<Rightarrow> string \<Rightarrow> string \<Rightarrow> nat svc" where
  "admin_bulk_revoke_sessions jtis tenant reason =
     (let p = (\<lambda>s. ss_jti s \<in> set jtis \<and> ss_tenant s = tenant \<and> ss_revoked_at s = None) in
      if jtis = [] then eret 0
      else ebind (eget (\<lambda>w. sql_select p (w_sessions w))) (\<lambda>rows.
        if rows = [] then eret 0
        else ethen (update_revoked p reason)
            (ethen (eiter (revoke_group tenant reason) (group_jtis [] rows))
            (ethen (audit_sessions ''admin_bulk_revoke'' None tenant (length rows))
            (eret (length rows))))))"

section \<open>The session endpoints (app/api/v1/auth.py)\<close>

text \<open>
  \<open>user\<close> is the verified token of the request; \<open>page\<close> and \<open>page_size\<close> have passed the
  constraints of \<open>Query\<close> (\<open>page \<ge> 1\<close>, \<open>1 \<le> page_size \<le> 100\<close>). A token without a role makes
  \<open>user.role.lower()\<close> raise.
\<close>

definition admin_roles :: "string list" where
  "admin_roles = [''admin'', ''superadmin'', ''root'']"

definition is_admin :: "token_data \<Rightarrow> exn + bool" where
  "is_admin user = (case td_role user of None \<Rightarrow> Inl (PyErr AttributeError)
                    | Some r \<Rightarrow> Inr (py_lower r \<in> set admin_roles))"

definition require_admin :: "token_data \<Rightarrow> unit svc" where
  "require_admin user =
     ebind (elift (is_admin user)) (\<lambda>ok.
       if ok then eret () else eraise (HttpException 403 (Some ''Admin access required'')))"

definition list_my_sessions :: "int \<Rightarrow> int \<Rightarrow> token_data \<Rightarrow> session_list reply svc" where
  "list_my_sessions page page_size user =
     ebind (get_active_sessions (td_user user) (td_tenant user) page page_size) (\<lambda>l.
       eret (success_response l (''Found '' @ digits_of (nat (pg_total_items (sl_pagination l)))
                                 @ '' active sessions'')))"

definition revoked_reply :: "string \<Rightarrow> nat \<Rightarrow> nat reply" where
  "revoked_reply what n = success_response n (''Revoked '' @ digits_of n @ what)"

definition logout_all_sessions :: "token_data \<Rightarrow> nat reply svc" where
  "logout_all_sessions user =
     ebind (revoke_all_sessions (td_user user) (td_tenant user) ''bulk_logout'' None)
       (\<lambda>n. eret (revoked_reply '' sessions'' n))"

text \<open>\<open>hdr\<close> is PyJWT's \<open>get_unverified_header(token).get("jti")\<close>.\<close>

definition logout_other_sessions ::
    "(string \<Rightarrow> exn + string option) \<Rightarrow> string option \<Rightarrow> token_data \<Rightarrow> nat reply svc" where
  "logout_other_sessions hdr authorization user =
     (let token = last (split_all (CHR '' '') (case authorization of None \<Rightarrow> [] | Some a \<Rightarrow> a)) in
      ebind (elift (hdr token)) (\<lambda>jti.
      ebind (revoke_all_sessions (td_user user) (td_tenant user) ''logout_others'' jti)
        (\<lambda>n. eret (revoked_reply '' other sessions'' n))))"

definition revoke_specific_session :: "string \<Rightarrow> token_data \<Rightarrow> bool reply svc" where
  "revoke_specific_session jti user =
     ebind (revoke_session jti (td_user user) (td_tenant user) ''manual_revoke'') (\<lambda>ok.
       if ok then eret no_content_response
       else eret (success_response False ''Session not found or already revoked''))"

definition get_session_device_details :: "string \<Rightarrow> token_data \<Rightarrow> device_info_reply reply svc" where
  "get_session_device_details jti user =
     ebind (elift (is_admin user)) (\<lambda>ok.
     ebind (get_session_device_info jti (td_tenant user) (if ok then None else Some (td_user user))) (\<lambda>d.
       case d of None \<Rightarrow> eret (not_found_response (''Session '' @ quoted jti))
       | Some i \<Rightarrow> eret (Success (Some i) None 200)))"

definition list_all_tenant_sessions :: "conn \<Rightarrow> int \<Rightarrow> int \<Rightarrow> token_data \<Rightarrow> tenant_session_list reply svc" where
  "list_all_tenant_sessions c page page_size user =
     ethen (require_admin user)
     (ebind (get_all_tenant_sessions c (td_tenant user) False page page_size) (\<lambda>l.
       eret (success_response l (''Found '' @ digits_of (nat (pg_total_items (tl_pagination l)))
                                 @ '' active sessions''))))"

definition list_user_sessions :: "string \<Rightarrow> int \<Rightarrow> int \<Rightarrow> token_data \<Rightarrow> session_list reply svc" where
  "list_user_sessions user_id page page_size user =
     ethen (require_admin user)
     (ebind (get_active_sessions user_id (td_tenant user) page page_size) (\<lambda>l.
       eret (success_response l (''Found '' @ digits_of (nat (pg_total_items (sl_pagination l)))
                                 @ '' active sessions for user''))))"

definition admin_bulk_revoke :: "string list \<Rightarrow> token_data \<Rightarrow> nat reply svc" where
  "admin_bulk_revoke jtis user =
     ethen (require_admin user)
     (ebind (admin_bulk_revoke_sessions jtis (td_tenant user) ''admin_bulk_revoke'')
       (\<lambda>n. eret (revoked_reply '' sessions'' n)))"

definition admin_revoke_user_sessions :: "string \<Rightarrow> token_data \<Rightarrow> nat reply svc" where
  "admin_revoke_user_sessions user_id user =
     ethen (require_admin user)
     (ebind (revoke_all_sessions user_id (td_tenant user) ''admin_revoke'' None)
       (\<lambda>n. eret (revoked_reply '' sessions for user'' n)))"

section \<open>What the operations change\<close>

text \<open>Session operations touch the session table, the revocation channels and the log.\<close>

definition session_frame :: "world \<Rightarrow> world \<Rightarrow> bool" where
  "session_frame w w' \<longleftrightarrow>
     (\<exists>ss b s p l. w' = w\<lparr>w_sessions := ss, w_bloom := b, w_stream := s, w_published := p, w_log := l\<rparr>)"

lemma session_frame_I:
  "session_frame w (w\<lparr>w_sessions := ss, w_bloom := b, w_stream := s, w_published := p, w_log := l\<rparr>)"
  unfolding session_frame_def by blast

lemma session_frame_refl [simp]: "session_frame w w"
  using session_frame_I [where w = w and ss = "w_sessions w" and b = "w_bloom w" and s = "w_stream w"
      and p = "w_published w" and l = "w_log w"] by simp

lemma session_frame_channels: "only_channels w w' \<Longrightarrow> session_frame w (w'\<lparr>w_sessions := ss, w_log := l\<rparr>)"
  unfolding only_channels_def
proof (elim exE)
  fix b s p
  assume w': "w' = w\<lparr>w_bloom := b, w_stream := s, w_published := p\<rparr>"
  show "session_frame w (w'\<lparr>w_sessions := ss, w_log := l\<rparr>)"
    unfolding w' session_frame_def
    by (rule exI [of _ ss], rule exI [of _ b], rule exI [of _ s], rule exI [of _ p], rule exI [of _ l])
       (cases w, simp)
qed

lemma session_frame_fields:
  assumes "session_frame w w'"
  shows "w_now w' = w_now w" "w_users w' = w_users w" "w_policies w' = w_policies w"
    "w_tenants w' = w_tenants w" "w_refresh w' = w_refresh w" "w_templates w' = w_templates w"
  using assms by (auto simp: session_frame_def)

lemma update_revoked_run:
  "update_revoked p r w =
     (Inr (sql_count p (w_sessions w)),
      w\<lparr>w_sessions := sql_update p (mark_revoked (w_now w) r) (w_sessions w)\<rparr>)"
  by (simp add: update_revoked_def)

lemma mark_revoked_fields [simp]:
  "ss_jti (mark_revoked n r s) = ss_jti s" "ss_user (mark_revoked n r s) = ss_user s"
  "ss_tenant (mark_revoked n r s) = ss_tenant s" "ss_revoked_at (mark_revoked n r s) = Some n"
  "ss_expires (mark_revoked n r s) = ss_expires s" "ss_created (mark_revoked n r s) = ss_created s"
  by (simp_all add: mark_revoked_def)

text \<open>After an update that revokes exactly the open rows it selects, none of them is left.\<close>

lemma update_closes:
  assumes "\<And>s. p s \<Longrightarrow> ss_revoked_at s = None"
  shows "filter p (sql_update p (mark_revoked n r) t) = []"
  using assms [of "mark_revoked n r _"] by (induction t) (auto simp: sql_update_def)

lemma revoke_all_run:
  fixes w user tenant reason exclude
  defines "p \<equiv> open_sessions_of user tenant exclude"
  defines "w' \<equiv> snd (revoke_all_sessions user tenant reason exclude w)"
  shows "fst (revoke_all_sessions user tenant reason exclude w) = Inr (sql_count p (w_sessions w))"
    and "w_sessions w' = sql_update p (mark_revoked (w_now w) reason) (w_sessions w)"
    and "set (w_bloom w') = ss_jti ` {s \<in> set (w_sessions w). p s} \<union> set (w_bloom w)"
    and "session_frame w w'"
proof -
  let ?rows = "sql_select p (w_sessions w)"
  obtain x u where run: "revoke_user_tokens user tenant (map ss_jti ?rows) reason w = (Inr x, u)"
    by (metis revoke_user_tokens_ok prod.collapse)
  have ch: "only_channels w u" using revoke_user_tokens_channels run by (metis snd_conv)
  have f: "w_sessions u = w_sessions w" "w_now u = w_now w" using only_channels_fields [OF ch] by auto
  have b: "set (w_bloom u) = ss_jti ` {s \<in> set (w_sessions w). p s} \<union> set (w_bloom w)"
    using revoke_user_tokens_bloom [of _ user tenant "map ss_jti ?rows" reason w] run
    by (auto simp: sql_select_def)
  have none: "sql_update p g (w_sessions w) = w_sessions w"
      "{s \<in> set (w_sessions w). p s} = {}" "sql_count p (w_sessions w) = 0" if "?rows = []" for g
    using that
    by (auto simp: sql_update_def sql_select_def sql_count_def filter_empty_conv intro: map_idI)
  have R0: "revoke_all_sessions user tenant reason exclude w = (Inr 0, w)" if "?rows = []"
    using that by (simp add: revoke_all_sessions_def p_def eff_simps)
  have R1: "\<exists>l. revoke_all_sessions user tenant reason exclude w =
      (Inr (length ?rows),
       u\<lparr>w_sessions := sql_update p (mark_revoked (w_now w) reason) (w_sessions w), w_log := l\<rparr>)"
    if "?rows \<noteq> []"
    using that run f
    by (simp add: revoke_all_sessions_def p_def [symmetric] eff_simps update_revoked_run
          audit_sessions_def log_audit_def log_write_def) (rule exI, rule refl)
  then obtain l where R: "revoke_all_sessions user tenant reason exclude w =
     (if ?rows = [] then (Inr 0, w)
      else (Inr (length ?rows),
            u\<lparr>w_sessions := sql_update p (mark_revoked (w_now w) reason) (w_sessions w), w_log := l\<rparr>))"
    using R0 by (cases "?rows = []") auto
  show "fst (revoke_all_sessions user tenant reason exclude w) = Inr (sql_count p (w_sessions w))"
    using R none(3) by (auto simp: sql_count_def sql_select_def)
  show "w_sessions w' = sql_update p (mark_revoked (w_now w) reason) (w_sessions w)"
    using R none(1) by (simp add: w'_def)
  show "set (w_bloom w') = ss_jti ` {s \<in> set (w_sessions w). p s} \<union> set (w_bloom w)"
    using R b none(2) by (cases "?rows = []") (auto simp: w'_def)
  show "session_frame w w'"
    using R session_frame_channels [OF ch]
    by (cases "?rows = []") (simp_all add: w'_def)
qed

lemma revoke_session_run:
  fixes jti user tenant reason w
  defines "p \<equiv> (\<lambda>s. ss_jti s = jti \<and> ss_user s = user \<and> ss_tenant s = tenant \<and> ss_revoked_at s = None)"
  shows "revoke_session jti user tenant reason w =
     (if sql_count p (w_sessions w) = 0 then (Inr False, w)
      else (Inr True, snd (revoke_token jti user tenant reason
              (w\<lparr>w_sessions := sql_update p (mark_revoked (w_now w) reason) (w_sessions w)\<rparr>))))"
proof -
  have "sql_update p f (w_sessions w) = w_sessions w" if "sql_count p (w_sessions w) = 0" for f
    using that by (auto simp: sql_update_def sql_count_zero intro: map_idI)
  then show ?thesis
    by (cases "sql_count p (w_sessions w) = 0")
       (simp_all add: revoke_session_def p_def [symmetric] eff_simps update_revoked_run revoke_token_run)
qed

section \<open>Grouping the revoked ids by user\<close>

definition ids_at :: "string list dict \<Rightarrow> string \<Rightarrow> string list" where
  "ids_at d u = (case dget d u of None \<Rightarrow> [] | Some js \<Rightarrow> js)"

lemma group_jtis_at:
  "ids_at (group_jtis d rows) u = ids_at d u @ map ss_jti (filter (\<lambda>s. ss_user s = u) rows)"
  by (induction d rows rule: group_jtis.induct) (auto simp: ids_at_def dget_dset Let_def)

lemma distinct_dset: "distinct (map fst d) \<Longrightarrow> distinct (map fst (dset k v d))"
  by (simp add: dset_def distinct_update)

lemma group_jtis_distinct:
  "distinct (map fst d) \<Longrightarrow> distinct (map fst (group_jtis d rows))"
  by (induction d rows rule: group_jtis.induct) (auto simp: Let_def distinct_dset)

lemma group_jtis_entry:
  assumes "(u, js) \<in> set (group_jtis [] rows)"
  shows "js = map ss_jti (filter (\<lambda>s. ss_user s = u) rows)"
proof -
  have "dget (group_jtis [] rows) u = Some js"
    using assms group_jtis_distinct [of "[]" rows] by (simp add: dget_def)
  then show ?thesis using group_jtis_at [of "[]" rows u] by (simp add: ids_at_def)
qed

lemma group_jtis_covers:
  assumes "s \<in> set rows"
  shows "\<exists>js. (ss_user s, js) \<in> set (group_jtis [] rows) \<and> ss_jti s \<in> set js"
proof -
  have "ss_jti s \<in> set (ids_at (group_jtis [] rows) (ss_user s))"
    using assms by (simp add: group_jtis_at)
  then obtain js where "dget (group_jtis [] rows) (ss_user s) = Some js" "ss_jti s \<in> set js"
    by (cases "dget (group_jtis [] rows) (ss_user s)") (auto simp: ids_at_def)
  then show ?thesis by (auto simp: dget_def dest: map_of_SomeD)
qed

lemma group_jtis_ids: "(\<Union>(u, js) \<in> set (group_jtis [] rows). set js) = ss_jti ` set rows"
proof
  show "(\<Union>(u, js) \<in> set (group_jtis [] rows). set js) \<subseteq> ss_jti ` set rows"
    by (force dest: group_jtis_entry)
  show "ss_jti ` set rows \<subseteq> (\<Union>(u, js) \<in> set (group_jtis [] rows). set js)"
    using group_jtis_covers by fastforce
qed

lemma revoke_groups_run:
  "\<exists>w'. eiter (revoke_group tenant reason) gs w = (Inr (), w')
     \<and> only_channels w w'
     \<and> set (w_bloom w') = (\<Union>(u, js) \<in> set gs. set js) \<union> set (w_bloom w)"
proof (induction gs arbitrary: w)
  case Nil
  show ?case by (intro exI [of _ w]) simp
next
  case (Cons g gs)
  obtain user js where g: "g = (user, js)" by (cases g)
  obtain x u where run: "revoke_user_tokens user tenant js reason w = (Inr x, u)"
    by (metis revoke_user_tokens_ok prod.collapse)
  have u: "only_channels w u" "set (w_bloom u) = set js \<union> set (w_bloom w)"
    using revoke_user_tokens_channels [of w user tenant js reason]
      revoke_user_tokens_bloom [of _ user tenant js reason w] run by auto
  have step: "revoke_group tenant reason (user, js) w = (Inr (), u)"
    using run by (simp add: revoke_group_def ethen_run)
  from Cons.IH [of u] obtain w' where
    "eiter (revoke_group tenant reason) gs u = (Inr (), w')"
    "only_channels u w'" "set (w_bloom w') = (\<Union>(u, js) \<in> set gs. set js) \<union> set (w_bloom u)" by blast
  then show ?case
    using u g only_channels_trans step
    by (intro exI [of _ w']) (auto simp: ethen_run)
qed

lemma admin_bulk_run:
  fixes jtis tenant reason w
  defines "p \<equiv> (\<lambda>s. ss_jti s \<in> set jtis \<and> ss_tenant s = tenant \<and> ss_revoked_at s = None)"
  shows "\<exists>w'. admin_bulk_revoke_sessions jtis tenant reason w = (Inr (sql_count p (w_sessions w)), w')
     \<and> session_frame w w'
     \<and> w_sessions w' = sql_update p (mark_revoked (w_now w) reason) (w_sessions w)
     \<and> set (w_bloom w') = ss_jti ` {s \<in> set (w_sessions w). p s} \<union> set (w_bloom w)"
proof (cases "sql_select p (w_sessions w) = []")
  case True
  then have none: "\<And>s. s \<in> set (w_sessions w) \<Longrightarrow> \<not> p s"
    by (auto simp: sql_select_def filter_empty_conv)
  then have "sql_update p f (w_sessions w) = w_sessions w" "sql_count p (w_sessions w) = 0"
      "{s \<in> set (w_sessions w). p s} = {}" for f
    by (auto simp: sql_update_def sql_count_zero intro: map_idI)
  with True show ?thesis
    by (intro exI [of _ w]) (auto simp: admin_bulk_revoke_sessions_def p_def [symmetric] eff_simps)
next
  case False
  let ?rows = "sql_select p (w_sessions w)"
  let ?v = "w\<lparr>w_sessions := sql_update p (mark_revoked (w_now w) reason) (w_sessions w)\<rparr>"
  have j: "jtis \<noteq> []"
    using False by (auto simp: p_def sql_select_def)
  obtain u where run: "eiter (revoke_group tenant reason)
        (group_jtis [] ?rows) ?v = (Inr (), u)"
    and ch: "only_channels ?v u"
    and b: "set (w_bloom u) = (\<Union>(u, js) \<in> set (group_jtis [] ?rows). set js) \<union> set (w_bloom ?v)"
    using revoke_groups_run by blast
  have "\<exists>l. admin_bulk_revoke_sessions jtis tenant reason w = (Inr (length ?rows), u\<lparr>w_log := l\<rparr>)"
    using j False run
    by (simp add: admin_bulk_revoke_sessions_def p_def [symmetric] eff_simps update_revoked_run
          audit_sessions_def log_audit_def log_write_def) (rule exI, rule refl)
  then obtain l where R: "admin_bulk_revoke_sessions jtis tenant reason w = (Inr (length ?rows), u\<lparr>w_log := l\<rparr>)"
    by blast
  have bl: "set (w_bloom u) = ss_jti ` {s \<in> set (w_sessions w). p s} \<union> set (w_bloom w)"
    using b by (simp add: group_jtis_ids sql_select_def)
  have ss: "w_sessions u = sql_update p (mark_revoked (w_now w) reason) (w_sessions w)"
    using only_channels_fields(2) [OF ch] by simp
  have "session_frame ?v (u\<lparr>w_log := l\<rparr>)"
    using session_frame_channels [OF ch, where ss = "w_sessions u" and l = l] by simp
  then have "session_frame w (u\<lparr>w_log := l\<rparr>)" by (auto simp: session_frame_def)
  with R bl ss show ?thesis
    by (intro exI [of _ "u\<lparr>w_log := l\<rparr>"]) (simp add: sql_count_def sql_select_def)
qed

section \<open>The invariant of the session table\<close>

text \<open>
  Token ids are unique, and the token id of a revoked row is known to the filter of the process
  that revoked it.
\<close>

definition sessions_ok :: "world \<Rightarrow> bool" where
  "sessions_ok w \<longleftrightarrow> distinct (map ss_jti (w_sessions w))
     \<and> (\<forall>s \<in> set (w_sessions w). ss_revoked_at s \<noteq> None \<longrightarrow> ss_jti s \<in> set (w_bloom w))"

lemma sessions_ok_update:
  assumes "sessions_ok w"
    and "w_sessions w' = sql_update p (mark_revoked n r) (w_sessions w)"
    and "set (w_bloom w') = ss_jti ` {s \<in> set (w_sessions w). p s} \<union> set (w_bloom w)"
  shows "sessions_ok w'"
  using assms by (auto simp: sessions_ok_def set_sql_update)

lemma sessions_ok_same:
  "sessions_ok w \<Longrightarrow> w_sessions w' = w_sessions w \<Longrightarrow> w_bloom w' = w_bloom w \<Longrightarrow> sessions_ok w'"
  by (simp add: sessions_ok_def)

lemma keeps_revoke_all: "keeps sessions_ok (revoke_all_sessions user tenant reason exclude)"
  by (rule keepsI, erule sessions_ok_update [OF _ revoke_all_run(2) revoke_all_run(3)])

lemma keeps_bulk: "keeps sessions_ok (admin_bulk_revoke_sessions jtis tenant reason)"
proof (rule keepsI)
  fix w
  assume "sessions_ok w"
  with admin_bulk_run [of jtis tenant reason w] sessions_ok_update
  show "sessions_ok (snd (admin_bulk_revoke_sessions jtis tenant reason w))" by fastforce
qed

lemma sessions_ok_revoke_one:
  assumes "sessions_ok w" "\<And>s. p s \<Longrightarrow> ss_jti s = jti"
  shows "sessions_ok (snd (revoke_token jti user tenant reason
           (w\<lparr>w_sessions := sql_update p (mark_revoked n r) (w_sessions w)\<rparr>)))"
  using assms by (auto simp: revoke_token_run sessions_ok_def set_sql_update)

lemma keeps_revoke: "keeps sessions_ok (revoke_session jti user tenant reason)"
  by (rule keepsI) (auto simp: revoke_session_run intro!: sessions_ok_revoke_one)

lemma admin_revoke_session_run:
  fixes jti tenant reason w
  defines "p \<equiv> (\<lambda>s. ss_jti s = jti \<and> ss_tenant s = tenant \<and> ss_revoked_at s = None)"
  shows "admin_revoke_session jti tenant reason w =
     (if sql_count p (w_sessions w) = 0 then (Inr False, w)
      else (Inr True, snd (revoke_token jti
              (ss_user (the (sql_row (\<lambda>s. ss_jti s = jti \<and> ss_tenant s = tenant) (w_sessions w))))
              tenant reason (w\<lparr>w_sessions := sql_update p (mark_revoked (w_now w) reason) (w_sessions w)\<rparr>))))"
proof -
  have none: "sql_update p f (w_sessions w) = w_sessions w" if "sql_count p (w_sessions w) = 0" for f
    using that by (auto simp: sql_update_def sql_count_zero intro: map_idI)
  show ?thesis
  proof (cases "sql_row (\<lambda>s. ss_jti s = jti \<and> ss_tenant s = tenant) (w_sessions w)")
    case None
    then have "sql_count p (w_sessions w) = 0" by (auto simp: sql_row_None sql_count_zero p_def)
    with None show ?thesis by (simp add: admin_revoke_session_def eff_simps)
  next
    case (Some r)
    with none show ?thesis
      by (cases "sql_count p (w_sessions w) = 0")
         (simp_all add: admin_revoke_session_def p_def [symmetric] eff_simps update_revoked_run revoke_token_run)
  qed
qed

lemma keeps_admin_revoke: "keeps sessions_ok (admin_revoke_session jti tenant reason)"
  by (rule keepsI) (auto simp: admin_revoke_session_run intro!: sessions_ok_revoke_one)

lemma keeps_create: "keeps sessions_ok (create_session inet jti user tenant expires ip device)"
  by (rule keepsI) (auto simp: create_session_def sessions_ok_def Let_def)

lemma keeps_cleanup: "keeps sessions_ok cleanup_expired_sessions"
  by (rule keepsI)
     (auto simp: cleanup_expired_sessions_def sessions_ok_def Let_def set_sql_delete
        intro: distinct_key_delete)

lemmas session_keeps =
  keeps_revoke_all keeps_bulk keeps_revoke keeps_admin_revoke keeps_create keeps_cleanup

section \<open>Properties\<close>

text \<open>Every operation on sessions keeps the table consistent, whatever its arguments and however
  it ends: token ids stay unique, and a session marked revoked is one whose token the filter of
  this process rejects.\<close>

theorem session_operations_keep_invariant:
  "keeps sessions_ok (create_session inet jti user tenant expires ip device)
   \<and> keeps sessions_ok (revoke_session jti user tenant reason)
   \<and> keeps sessions_ok (revoke_all_sessions user tenant reason exclude)
   \<and> keeps sessions_ok (admin_revoke_session jti tenant reason)
   \<and> keeps sessions_ok (admin_bulk_revoke_sessions jtis tenant reason)
   \<and> keeps sessions_ok cleanup_expired_sessions"
  by (simp add: session_keeps)

text \<open>Logging out everywhere is complete and touches nobody else: no session of the user in the
  tenant stays open, except the one excluded; the token of each session that was open is in the
  filter; every row of another user or tenant is as before; the count is the number of sessions
  that were open.\<close>

theorem revoke_all_sessions_complete:
  fixes user tenant reason exclude w
  defines "w' \<equiv> snd (revoke_all_sessions user tenant reason exclude w)"
  shows "fst (revoke_all_sessions user tenant reason exclude w)
           = Inr (sql_count (open_sessions_of user tenant exclude) (w_sessions w))
    \<and> sql_select (open_sessions_of user tenant exclude) (w_sessions w') = []
    \<and> (\<forall>s. s \<in> set (w_sessions w) \<and> open_sessions_of user tenant exclude s
            \<longrightarrow> ss_jti s \<in> set (w_bloom w'))
    \<and> sql_select (\<lambda>s. ss_user s \<noteq> user \<or> ss_tenant s \<noteq> tenant) (w_sessions w')
        = sql_select (\<lambda>s. ss_user s \<noteq> user \<or> ss_tenant s \<noteq> tenant) (w_sessions w)
    \<and> w_users w' = w_users w \<and> w_policies w' = w_policies w"
proof -
  let ?p = "open_sessions_of user tenant exclude"
  let ?o = "\<lambda>s. ss_user s \<noteq> user \<or> ss_tenant s \<noteq> tenant"
  note run = revoke_all_run [where user = user and tenant = tenant and reason = reason and exclude = exclude and w = w,
      folded w'_def]
  have "filter ?p (sql_update ?p (mark_revoked n reason) t) = []" for n t
    by (rule update_closes) (auto simp: open_sessions_of_def split: if_splits)
  moreover have "filter ?o (sql_update ?p (mark_revoked n reason) t) = filter ?o t" for n t
    by (induction t) (auto simp: sql_update_def open_sessions_of_def split: if_splits)
  ultimately show ?thesis
    using run session_frame_fields [OF run(4)] by (auto simp: sql_select_def)
qed

definition demo_session :: "string \<Rightarrow> string \<Rightarrow> string \<Rightarrow> int \<Rightarrow> session_row" where
  "demo_session jti user tenant created =
     \<lparr>ss_jti = jti, ss_user = user, ss_tenant = tenant, ss_device = None, ss_ip = None,
      ss_created = created, ss_expires = created + 3600, ss_revoked_at = None, ss_reason = None\<rparr>"

definition demo_sessions :: world where
  "demo_sessions = empty_world\<lparr>w_sessions :=
     [demo_session ''j1'' ''u1'' ''t1'' 10, demo_session ''j2'' ''u1'' ''t1'' 20,
      demo_session ''j3'' ''u2'' ''t1'' 30, demo_session ''j4'' ''u3'' ''t2'' 40]\<rparr>"

theorem revoke_all_sessions_complete_witness:
  "''j1'' \<in> set (w_bloom (snd (revoke_all_sessions ''u1'' ''t1'' ''r'' (Some ''j2'') demo_sessions)))"
proof -
  have "demo_session ''j1'' ''u1'' ''t1'' 10 \<in> set (w_sessions demo_sessions)
     \<and> open_sessions_of ''u1'' ''t1'' (Some ''j2'') (demo_session ''j1'' ''u1'' ''t1'' 10)"
    by (simp add: demo_sessions_def demo_session_def open_sessions_of_def)
  with revoke_all_sessions_complete [where user = "''u1''" and tenant = "''t1''" and reason = "''r''"
      and exclude = "Some ''j2''" and w = demo_sessions]
  have "ss_jti (demo_session ''j1'' ''u1'' ''t1'' 10)
      \<in> set (w_bloom (snd (revoke_all_sessions ''u1'' ''t1'' ''r'' (Some ''j2'') demo_sessions)))"
    by blast
  then show ?thesis by (simp add: demo_session_def)
qed

text \<open>The listing loses and repeats nothing: the pages of \<open>get_active_sessions\<close>, from the first to
  the \<open>total_pages\<close> it announces, put side by side are the active sessions of the user, newest
  first, and the announced total is their number.\<close>

theorem session_pages_cover:
  fixes user tenant w
  defines "act \<equiv> sql_select (\<lambda>s. ss_user s = user \<and> ss_tenant s = tenant \<and> session_active w s) (w_sessions w)"
  assumes "0 < n"
  shows "concat (map (\<lambda>i. sl_sessions (projr (fst (get_active_sessions user tenant (int i + 1) (int n) w))))
             [0..<nat (total_pages (int (length act)) (int n))]) = map session_info_of (newest_first act)
    \<and> (\<forall>i. pg_total_items (sl_pagination (projr (fst (get_active_sessions user tenant (int i + 1) (int n) w))))
             = int (length act))"
proof -
  let ?k = "nat (total_pages (int (length act)) (int n))"
  have page: "sl_sessions (projr (fst (get_active_sessions user tenant (int i + 1) (int n) w)))
      = map session_info_of (sql_page n (i * n) (newest_first act))" for i
    by (simp add: get_active_sessions_def eff_simps act_def page_offset_def nat_mult_distrib)
  have "length (newest_first act) = length act" by (simp add: newest_first_def)
  with pages_cover [OF assms(2), of "newest_first act"]
  have "concat (map (\<lambda>i. sql_page n (i * n) (newest_first act)) [0..<?k]) = newest_first act"
    by simp
  then have "concat (map (map session_info_of \<circ> (\<lambda>i. sql_page n (i * n) (newest_first act))) [0..<?k])
      = map session_info_of (newest_first act)"
    by (metis map_concat map_map)
  then show ?thesis
    by (simp add: page comp_def)
       (simp add: get_active_sessions_def eff_simps pagination_info_def act_def sql_count_def sql_select_def)
qed

theorem session_pages_cover_witness:
  "concat (map (\<lambda>i. sl_sessions (projr (fst (get_active_sessions ''u1'' ''t1'' (int i + 1) (int 1) demo_sessions))))
     [0..<2]) = map session_info_of [demo_session ''j2'' ''u1'' ''t1'' 20, demo_session ''j1'' ''u1'' ''t1'' 10]"
proof -
  have a: "sql_select (\<lambda>s. ss_user s = ''u1'' \<and> ss_tenant s = ''t1'' \<and> session_active demo_sessions s) (w_sessions demo_sessions)
     = [demo_session ''j1'' ''u1'' ''t1'' 10, demo_session ''j2'' ''u1'' ''t1'' 20]"
    by code_simp
  have b: "newest_first [demo_session ''j1'' ''u1'' ''t1'' 10, demo_session ''j2'' ''u1'' ''t1'' 20]
     = [demo_session ''j2'' ''u1'' ''t1'' 20, demo_session ''j1'' ''u1'' ''t1'' 10]"
    by code_simp
  have c: "nat (total_pages (int (length [demo_session ''j1'' ''u1'' ''t1'' 10, demo_session ''j2'' ''u1'' ''t1'' 20])) (int 1)) = 2"
    by (simp add: total_pages_def)
  show ?thesis
    using session_pages_cover [where user = "''u1''" and tenant = "''t1''" and w = demo_sessions and n = 1,
        unfolded a b c] by simp
qed

text \<open>Revoking a session takes effect once: the first call on an open session of the caller
  reports success and puts the token in the filter; repeating it changes nothing at all and
  reports that there was nothing to revoke.\<close>

theorem revoke_session_once:
  fixes jti user tenant reason w
  defines "w' \<equiv> snd (revoke_session jti user tenant reason w)"
  assumes "s \<in> set (w_sessions w)"
    and "ss_jti s = jti" "ss_user s = user" "ss_tenant s = tenant" "ss_revoked_at s = None"
  shows "fst (revoke_session jti user tenant reason w) = Inr True
    \<and> jti \<in> set (w_bloom w')
    \<and> revoke_session jti user tenant reason' w' = (Inr False, w')"
proof -
  let ?p = "\<lambda>s. ss_jti s = jti \<and> ss_user s = user \<and> ss_tenant s = tenant \<and> ss_revoked_at s = None"
  have "sql_count ?p (w_sessions w) \<noteq> 0" using assms(2-) by (auto simp: sql_count_zero)
  then have run: "revoke_session jti user tenant reason w = (Inr True, snd (revoke_token jti user tenant reason
              (w\<lparr>w_sessions := sql_update ?p (mark_revoked (w_now w) reason) (w_sessions w)\<rparr>)))"
    by (simp add: revoke_session_run)
  have "sql_count ?p (sql_update ?p (mark_revoked n reason) t) = 0" for n t
    unfolding sql_count_def by (subst update_closes) auto
  then have "sql_count ?p (w_sessions w') = 0"
    by (simp add: w'_def run revoke_token_run)
  then have "revoke_session jti user tenant reason' w' = (Inr False, w')"
    by (simp add: revoke_session_run)
  moreover have "jti \<in> set (w_bloom w')" by (simp add: w'_def run revoke_token_run)
  ultimately show ?thesis using run by simp
qed

theorem revoke_session_once_witness:
  "revoke_session ''j1'' ''u1'' ''t1'' ''again'' (snd (revoke_session ''j1'' ''u1'' ''t1'' ''logout'' demo_sessions))
     = (Inr False, snd (revoke_session ''j1'' ''u1'' ''t1'' ''logout'' demo_sessions))"
proof -
  have "demo_session ''j1'' ''u1'' ''t1'' 10 \<in> set (w_sessions demo_sessions)"
    by (simp add: demo_sessions_def)
  from revoke_session_once [OF this, of "''j1''" "''u1''" "''t1''" "''logout''" "''again''"]
  show ?thesis by (simp add: demo_session_def)
qed

text \<open>The session rows outside a tenant, which no endpoint of that tenant may change.\<close>

definition foreign_sessions :: "string \<Rightarrow> world \<Rightarrow> session_row list" where
  "foreign_sessions tenant w = filter (\<lambda>s. ss_tenant s \<noteq> tenant) (w_sessions w)"

lemma foreign_update:
  assumes "\<And>s. p s \<Longrightarrow> ss_tenant s = tenant"
  shows "filter (\<lambda>s. ss_tenant s \<noteq> tenant) (sql_update p (mark_revoked n r) t)
     = filter (\<lambda>s. ss_tenant s \<noteq> tenant) t"
  using assms by (induction t) (auto simp: sql_update_def)

lemma foreign_revoke_all: "foreign_sessions tenant (snd (revoke_all_sessions user tenant reason ex w)) = foreign_sessions tenant w"
  unfolding foreign_sessions_def
  by (subst revoke_all_run(2), rule foreign_update) (auto simp: open_sessions_of_def split: if_splits)

lemma foreign_revoke: "foreign_sessions tenant (snd (revoke_session jti user tenant reason w)) = foreign_sessions tenant w"
  by (auto simp: foreign_sessions_def revoke_session_run revoke_token_run intro!: foreign_update)

lemma foreign_bulk: "foreign_sessions tenant (snd (admin_bulk_revoke_sessions jtis tenant reason w)) = foreign_sessions tenant w"
  using admin_bulk_run [of jtis tenant reason w] by (auto simp: foreign_sessions_def intro!: foreign_update)

lemmas foreign_simps = foreign_revoke_all foreign_revoke foreign_bulk

lemma snd_bind_ret: "snd (ebind m (\<lambda>x. eret (g x)) w) = snd (m w)"
  by (simp add: ebind_run split: prod.splits sum.splits)

lemma require_admin_run:
  "require_admin user w =
     (case td_role user of None \<Rightarrow> (Inl (PyErr AttributeError), w)
      | Some r \<Rightarrow> if py_lower r \<in> set admin_roles then (Inr (), w)
                 else (Inl (HttpException 403 (Some ''Admin access required'')), w))"
  by (simp add: require_admin_def is_admin_def eff_simps split: option.splits)

lemma require_admin_guard:
  assumes "is_admin user \<noteq> Inr True"
  shows "\<exists>e. ethen (require_admin user) m w = (Inl e, w)"
  using assms by (auto simp: require_admin_run is_admin_def ethen_run split: option.splits)

lemma guarded_same:
  assumes "f (snd (m w)) = f w"
  shows "f (snd (ethen (require_admin user) m w)) = f w"
  using assms by (auto simp: require_admin_run ethen_run split: option.splits)

text \<open>The administrator's endpoints refuse every caller whose role is not one of the admin roles,
  and then change nothing; and no session endpoint, whoever calls it, changes a session row of
  another tenant than the caller's token names.\<close>

theorem session_endpoints_guarded_and_isolated:
  fixes user w
  defines "t \<equiv> td_tenant user"
  shows "(is_admin user \<noteq> Inr True \<longrightarrow>
       (\<exists>e. admin_bulk_revoke jtis user w = (Inl e, w))
     \<and> (\<exists>e. admin_revoke_user_sessions uid user w = (Inl e, w))
     \<and> (\<exists>e. list_all_tenant_sessions c page psize user w = (Inl e, w))
     \<and> (\<exists>e. list_user_sessions uid page psize user w = (Inl e, w)))
    \<and> foreign_sessions t (snd (logout_all_sessions user w)) = foreign_sessions t w
    \<and> foreign_sessions t (snd (logout_other_sessions hdr auth user w)) = foreign_sessions t w
    \<and> foreign_sessions t (snd (revoke_specific_session jti user w)) = foreign_sessions t w
    \<and> foreign_sessions t (snd (admin_bulk_revoke jtis user w)) = foreign_sessions t w
    \<and> foreign_sessions t (snd (admin_revoke_user_sessions uid user w)) = foreign_sessions t w"
proof (intro conjI impI)
  show "foreign_sessions t (snd (logout_all_sessions user w)) = foreign_sessions t w"
    by (simp add: logout_all_sessions_def snd_bind_ret foreign_simps t_def)
  show "foreign_sessions t (snd (logout_other_sessions hdr auth user w)) = foreign_sessions t w"
    by (simp add: logout_other_sessions_def Let_def ebind_run [of "elift _"] snd_bind_ret foreign_simps t_def
        split: sum.splits)
  show "foreign_sessions t (snd (revoke_specific_session jti user w)) = foreign_sessions t w"
    by (simp add: revoke_specific_session_def if_distrib [symmetric] snd_bind_ret foreign_simps t_def
        cong: if_cong)
  show "foreign_sessions t (snd (admin_bulk_revoke jtis user w)) = foreign_sessions t w"
    unfolding admin_bulk_revoke_def by (rule guarded_same) (simp add: snd_bind_ret foreign_simps t_def)
  show "foreign_sessions t (snd (admin_revoke_user_sessions uid user w)) = foreign_sessions t w"
    unfolding admin_revoke_user_sessions_def by (rule guarded_same) (simp add: snd_bind_ret foreign_simps t_def)
qed (unfold admin_bulk_revoke_def admin_revoke_user_sessions_def
       list_all_tenant_sessions_def list_user_sessions_def, (erule require_admin_guard)+)

theorem session_endpoints_guarded_and_isolated_witness:
  "\<exists>e. admin_bulk_revoke [''j1''] \<lparr>td_email = ''m'', td_tenant = ''t1'', td_policy = None, td_role = Some ''USER'',
      td_user = ''u1'', td_exp = None, td_iat = None, td_aud = None\<rparr> demo_sessions = (Inl e, demo_sessions)"
proof -
  let ?u = "\<lparr>td_email = ''m'', td_tenant = ''t1'', td_policy = None, td_role = Some ''USER'',
      td_user = ''u1'', td_exp = None, td_iat = None, td_aud = None\<rparr>"
  have "is_admin ?u \<noteq> Inr True" by code_simp
  with session_endpoints_guarded_and_isolated [where user = ?u and w = demo_sessions and jtis = "[''j1'']"]
  show ?thesis by blast
qed

end
