(* ===== verification/Policies.thy ===== *)
theory Policies
  imports Sessions
begin

text \<open>
  Policy management (app/services/policy_service.py) and its endpoints (app/api/v1/policies.py):
  the policies of a user as a keyed store, updates and deletions that end the user's sessions,
  the bulk upsert, and the tenant's policy templates with their thirty second cache in Redis.
  Every operation runs on the request's connection \<open>c\<close>, whose row level security context comes
  from the \<open>X-TENANT-ID\<close> header, and works for the tenant of the caller's token.
\<close>

section \<open>The table as a keyed store\<close>

definition is_policy :: "string \<times> string \<times> string \<Rightarrow> user_policy_row \<Rightarrow> bool" where
  "is_policy k r \<longleftrightarrow> (up_tenant r, up_user r, up_policy_id r) = k"

definition policy_at :: "user_policy_row list \<Rightarrow> string \<times> string \<times> string \<Rightarrow> policy_doc option" where
  "policy_at t k = map_option up_policy (sql_row (is_policy k) t)"

definition new_policy_row :: "int \<Rightarrow> string \<times> string \<times> string \<Rightarrow> policy_doc \<Rightarrow> user_policy_row" where
  "new_policy_row now k d =
     \<lparr>up_tenant = fst k, up_user = fst (snd k), up_policy_id = snd (snd k), up_policy = d,
      up_created = now, up_modified = now\<rparr>"

definition set_policy :: "int \<Rightarrow> policy_doc \<Rightarrow> user_policy_row \<Rightarrow> user_policy_row" where
  "set_policy now d r = r\<lparr>up_policy := d, up_modified := now\<rparr>"

text \<open>
  \<open>INSERT ... ON CONFLICT DO NOTHING\<close>, \<open>INSERT ... ON CONFLICT DO UPDATE\<close>, \<open>DELETE\<close> on the
  primary key (tenant, user, policy id).
\<close>

definition insert_row :: "int \<Rightarrow> string \<times> string \<times> string \<Rightarrow> policy_doc \<Rightarrow> user_policy_row list \<Rightarrow> user_policy_row list" where
  "insert_row now k d t = (if sql_row (is_policy k) t = None then t @ [new_policy_row now k d] else t)"

definition upsert_row :: "int \<Rightarrow> string \<times> string \<times> string \<Rightarrow> policy_doc \<Rightarrow> user_policy_row list \<Rightarrow> user_policy_row list" where
  "upsert_row now k d t =
     (if sql_row (is_policy k) t = None then t @ [new_policy_row now k d]
      else sql_update (is_policy k) (set_policy now d) t)"

definition delete_row :: "string \<times> string \<times> string \<Rightarrow> user_policy_row list \<Rightarrow> user_policy_row list" where
  "delete_row k t = sql_delete (is_policy k) t"

text \<open>What the operations below rely on, whatever table keeps the values.\<close>

locale keyed_store =
  fixes at :: "'t \<Rightarrow> 'k \<Rightarrow> 'v option"
    and ins :: "'k \<Rightarrow> 'v \<Rightarrow> 't \<Rightarrow> 't"
    and ups :: "'k \<Rightarrow> 'v \<Rightarrow> 't \<Rightarrow> 't"
    and del :: "'k \<Rightarrow> 't \<Rightarrow> 't"
  assumes at_ins: "at (ins k v t) k' = (if k' = k \<and> at t k = None then Some v else at t k')"
    and at_ups: "at (ups k v t) k' = (if k' = k then Some v else at t k')"
    and at_del: "at (del k t) k' = (if k' = k then None else at t k')"
begin

lemma at_ups_fold: "at (fold (\<lambda>k. ups k v) ks t) k' = (if k' \<in> set ks then Some v else at t k')"
  by (induction ks arbitrary: t) (auto simp: at_ups)

lemma del_ins: "at t k = None \<Longrightarrow> at (del k (ins k v t)) k' = at t k'"
  by (simp add: at_del at_ins)

lemma ins_present: "at t k = Some v' \<Longrightarrow> at (ins k v t) k' = at t k'"
  by (simp add: at_ins)

end

lemma is_policy_new [simp]: "is_policy k' (new_policy_row now k d) \<longleftrightarrow> k' = k"
  by (auto simp: is_policy_def new_policy_row_def prod_eq_iff)

lemma is_policy_set [simp]: "is_policy k (set_policy now d r) = is_policy k r"
  by (simp add: is_policy_def set_policy_def)

lemma new_set_policy [simp]:
  "up_policy (new_policy_row now k d) = d" "up_policy (set_policy now d r) = d"
  by (simp_all add: new_policy_row_def set_policy_def)

lemma sql_row_Cons: "sql_row p (x # t) = (if p x then Some x else sql_row p t)"
  by (simp add: sql_row_def)

lemma sql_row_Nil [simp]: "sql_row p [] = None"
  by (simp add: sql_row_def)

lemma policy_at_update:
  "policy_at (sql_update (is_policy k) (set_policy now d) t) k'
     = (if k' = k \<and> policy_at t k \<noteq> None then Some d else policy_at t k')"
  by (induction t)
     (auto simp: policy_at_def sql_update_def sql_row_Cons is_policy_def set_policy_def)

lemma policy_at_append:
  "policy_at (t @ [new_policy_row now k d]) k'
     = (case policy_at t k' of None \<Rightarrow> if k' = k then Some d else None | Some v \<Rightarrow> Some v)"
  by (auto simp: policy_at_def sql_row_append sql_row_Cons split: option.splits)

interpretation policy_table: keyed_store policy_at "insert_row now" "upsert_row now" delete_row for now
proof
  fix k k' v t
  show "policy_at (insert_row now k v t) k' = (if k' = k \<and> policy_at t k = None then Some v else policy_at t k')"
    by (auto simp: insert_row_def policy_at_append policy_at_def [of t k] split: option.splits)
  show "policy_at (upsert_row now k v t) k' = (if k' = k then Some v else policy_at t k')"
    by (auto simp: upsert_row_def policy_at_append policy_at_update split: option.splits)
       (auto simp: policy_at_def)
  show "policy_at (delete_row k t) k' = (if k' = k then None else policy_at t k')"
    by (induction t) (auto simp: delete_row_def policy_at_def sql_delete_def sql_row_Cons is_policy_def)
qed

section \<open>Operations on user policies (app/services/policy_service.py)\<close>

record policy_response =
  pr_policy_id :: string
  pr_user :: string
  pr_tenant :: string
  pr_resource :: string
  pr_actions :: "string list"
  pr_conditions :: "json dict option"
  pr_created :: "int option"
  pr_modified :: "int option"

definition response_of_row :: "user_policy_row \<Rightarrow> policy_response" where
  "response_of_row r =
     \<lparr>pr_policy_id = up_policy_id r, pr_user = up_user r, pr_tenant = up_tenant r,
      pr_resource = pd_resource (up_policy r), pr_actions = pd_actions (up_policy r),
      pr_conditions = Some (pd_conditions (up_policy r)),
      pr_created = Some (up_created r), pr_modified = Some (up_modified r)\<rparr>"

definition get_user_policies :: "conn \<Rightarrow> string \<Rightarrow> string \<Rightarrow> policy_response list svc" where
  "get_user_policies c tenant user =
     ebind (eget (\<lambda>w. sql_select (\<lambda>r. up_tenant r = tenant \<and> up_user r = user) (policies_of c w))) (\<lambda>rows.
     ethen (log_info (''Retrieved '' @ digits_of (length rows) @ '' policies for user '' @ user))
     (eret (map response_of_row rows)))"

definition get_policy_by_id :: "conn \<Rightarrow> string \<Rightarrow> string \<Rightarrow> string \<Rightarrow> policy_response option svc" where
  "get_policy_by_id c tenant user pid =
     eget (\<lambda>w. map_option response_of_row (sql_row (is_policy (tenant, user, pid)) (policies_of c w)))"

text \<open>The checks of an insert that can fail: column lengths, row level security, foreign keys.\<close>

definition policy_insert_error :: "conn \<Rightarrow> world \<Rightarrow> string \<times> string \<times> string \<Rightarrow> exn option" where
  "policy_insert_error c w k =
     (case k of (tenant, user, pid) \<Rightarrow>
        if 50 < length tenant \<or> 50 < length user \<or> 40 < length pid then Some (DbErr DataError)
        else if \<not> rls_insert_ok c tenant then Some (DbErr InsufficientPrivilegeError)
        else if (\<forall>u \<in> set (w_users w). us_id u \<noteq> user) \<or> (\<forall>t \<in> set (w_tenants w). tn_id t \<noteq> tenant)
        then Some (DbErr ForeignKeyViolationError)
        else None)"

definition insert_user_policy :: "conn \<Rightarrow> string \<times> string \<times> string \<Rightarrow> policy_doc \<Rightarrow> bool svc" where
  "insert_user_policy c k d = (\<lambda>w.
     case policy_insert_error c w k of
       Some e \<Rightarrow> (Inl e, w)
     | None \<Rightarrow> (Inr (policy_at (w_policies w) k = None),
                w\<lparr>w_policies := insert_row (w_now w) k d (w_policies w)\<rparr>))"

definition json_conditions :: "json dict option \<Rightarrow> json dict" where
  "json_conditions c = (case c of None \<Rightarrow> [] | Some d \<Rightarrow> d)"

definition create_policy :: "conn \<Rightarrow> string \<Rightarrow> string \<Rightarrow> policy_create \<Rightarrow> policy_response svc" where
  "create_policy c tenant user p =
     ebind (insert_user_policy c (tenant, user, pc_policy_id p)
              \<lparr>pd_resource = pc_resource p, pd_actions = pc_actions p,
               pd_conditions = json_conditions (pc_conditions p)\<rparr>) (\<lambda>inserted.
     if \<not> inserted
     then eraise (AppErr (ConflictError (''Policy '' @ quoted (pc_policy_id p) @ '' already exists for this user'')))
     else ethen (log_audit ''policy_create''
                  [(''user_id'', jstr user), (''tenant_id'', jstr tenant), (''resource'', jstr (pc_resource p)),
                   (''decision'', jstr ''Policy Created''), (''policy_id'', jstr (pc_policy_id p))])
         (ebind (eget w_now) (\<lambda>now.
          eret \<lparr>pr_policy_id = pc_policy_id p, pr_user = user, pr_tenant = tenant,
                pr_resource = pc_resource p, pr_actions = pc_actions p, pr_conditions = pc_conditions p,
                pr_created = Some now, pr_modified = None\<rparr>)))"

text \<open>
  \<open>update_policy\<close> turns the actions into a set and back into a list; \<open>so\<close> is the order in which
  Python lists a set, of which \<open>set_order\<close> states all that is known.
\<close>

definition set_order :: "(string list \<Rightarrow> string list) \<Rightarrow> bool" where
  "set_order so \<longleftrightarrow> (\<forall>xs. set (so xs) = set xs \<and> distinct (so xs))"

lemma set_order_remdups [simp]: "set_order remdups"
  by (simp add: set_order_def)

definition update_user_policy_rows :: "conn \<Rightarrow> string \<times> string \<times> string \<Rightarrow> policy_doc \<Rightarrow> unit svc" where
  "update_user_policy_rows c k d = emod (\<lambda>w. w\<lparr>w_policies :=
     sql_update (\<lambda>r. is_policy k r \<and> rls_visible c (up_tenant r)) (set_policy (w_now w) d) (w_policies w)\<rparr>)"

definition merged_doc :: "(string list \<Rightarrow> string list) \<Rightarrow> policy_response \<Rightarrow> policy_update \<Rightarrow> policy_doc" where
  "merged_doc so old u =
     \<lparr>pd_resource = (case pu_resource u of None \<Rightarrow> pr_resource old | Some r \<Rightarrow> r),
      pd_actions = so (case pu_actions u of None \<Rightarrow> pr_actions old | Some a \<Rightarrow> a),
      pd_conditions = json_conditions (case pu_conditions u of None \<Rightarrow> pr_conditions old | Some d \<Rightarrow> Some d)\<rparr>"

text \<open>\<open>resource_changed or actions_removed\<close>; an omitted resource compares unequal to any resource.\<close>

definition ends_sessions :: "policy_response \<Rightarrow> policy_update \<Rightarrow> bool" where
  "ends_sessions old u \<longleftrightarrow>
     pu_resource u \<noteq> Some (pr_resource old)
     \<or> \<not> set (pr_actions old) \<subseteq> set (case pu_actions u of None \<Rightarrow> pr_actions old | Some a \<Rightarrow> a)"

definition update_policy ::
    "(string list \<Rightarrow> string list) \<Rightarrow> conn \<Rightarrow> string \<Rightarrow> string \<Rightarrow> string \<Rightarrow> policy_update \<Rightarrow> policy_response svc" where
  "update_policy so c tenant user pid u =
     ebind (get_policy_by_id c tenant user pid) (\<lambda>existing.
     case existing of
       None \<Rightarrow> eraise (AppErr (NotFoundError (''Policy '' @ quoted pid @ '' not found for this user'')))
     | Some old \<Rightarrow>
         (let d = merged_doc so old u in
          ethen (update_user_policy_rows c (tenant, user, pid) d)
         (ebind (if ends_sessions old u then revoke_all_sessions user tenant ''bulk_logout'' None else eret 0) (\<lambda>n.
          ethen (log_audit ''policy_update''
                   [(''user_id'', jstr user), (''tenant_id'', jstr tenant), (''resource'', jstr (pd_resource d)),
                    (''decision'', jstr ''Policy Updated''), (''policy_id'', jstr pid),
                    (''sessions_revoked'', Some (JInt (int n)))])
         (ebind (eget w_now) (\<lambda>now.
          eret \<lparr>pr_policy_id = pid, pr_user = user, pr_tenant = tenant, pr_resource = pd_resource d,
                pr_actions = pd_actions d,
                pr_conditions = (case pu_conditions u of None \<Rightarrow> pr_conditions old | Some x \<Rightarrow> Some x),
                pr_created = None, pr_modified = Some now\<rparr>))))))"

definition delete_user_policy_rows :: "conn \<Rightarrow> string \<times> string \<times> string \<Rightarrow> nat svc" where
  "delete_user_policy_rows c k = (\<lambda>w.
     let p = (\<lambda>r. is_policy k r \<and> rls_visible c (up_tenant r)) in
     (Inr (sql_count p (w_policies w)), w\<lparr>w_policies := sql_delete p (w_policies w)\<rparr>))"

definition delete_policy :: "conn \<Rightarrow> string \<Rightarrow> string \<Rightarrow> string \<Rightarrow> bool svc" where
  "delete_policy c tenant user pid =
     ebind (delete_user_policy_rows c (tenant, user, pid)) (\<lambda>n.
     if n = 0 then eraise (AppErr (NotFoundError (''Policy '' @ quoted pid @ '' not found for this user'')))
     else ethen (force_info (''Policy '' @ quoted pid @ '' deleted for user '' @ user @ '' in tenant '' @ tenant))
         (ebind (revoke_all_sessions user tenant ''bulk_logout'' None) (\<lambda>k.
          ethen (log_audit ''policy_delete''
                   [(''user_id'', jstr user), (''tenant_id'', jstr tenant), (''resource'', jstr pid),
                    (''decision'', jstr ''Policy Deleted''), (''policy_id'', jstr pid),
                    (''sessions_revoked'', Some (JInt (int k)))])
         (eret True))))"

record assign_request =
  ar_user :: string
  ar_policy_id :: string
  ar_resource :: string
  ar_actions :: "string list"
  ar_conditions :: "json dict option"

definition assign_policy_to_user :: "conn \<Rightarrow> string \<Rightarrow> assign_request \<Rightarrow> policy_response svc" where
  "assign_policy_to_user c tenant rq =
     ebind (eget (\<lambda>w. sql_row (\<lambda>u. us_id u = ar_user rq \<and> us_tenant u = tenant) (users_of c w))) (\<lambda>target.
     if target = None
     then eraise (AppErr (NotFoundError (''User '' @ quoted (ar_user rq) @ '' not found in this tenant'')))
     else ebind (elift (make_policy_create (ar_policy_id rq) (ar_resource rq) (ar_actions rq) (ar_conditions rq)))
            (\<lambda>p. create_policy c tenant (ar_user rq) p))"

record bulk_result =
  br_count :: nat
  br_policy_id :: string
  br_users :: "string list"

text \<open>\<open>executemany\<close> runs in one transaction: one failing row undoes them all.\<close>

definition bulk_upsert :: "conn \<Rightarrow> (string \<times> string \<times> string) list \<Rightarrow> policy_doc \<Rightarrow> unit svc" where
  "bulk_upsert c ks d = (\<lambda>w.
     case List.map_filter (policy_insert_error c w) ks of
       e # _ \<Rightarrow> (Inl e, w)
     | [] \<Rightarrow> (Inr (), w\<lparr>w_policies := fold (\<lambda>k. upsert_row (w_now w) k d) ks (w_policies w)\<rparr>))"

definition bulk_assign_policy ::
    "conn \<Rightarrow> string \<Rightarrow> string list \<Rightarrow> string \<Rightarrow> string \<Rightarrow> string list \<Rightarrow> json dict option \<Rightarrow> bulk_result svc" where
  "bulk_assign_policy c tenant users pid res acts conds =
     ethen (etry (bulk_upsert c (map (\<lambda>u. (tenant, u, pid)) users)
                    \<lparr>pd_resource = res, pd_actions = acts, pd_conditions = json_conditions conds\<rparr>)
              (\<lambda>e. ethen (force_error ''Bulk policy assignment failed'')
                         (eraise (AppErr (InternalAppError ''Bulk assignment failed'')))))
     (ethen (log_audit ''policy_bulk_assign''
              [(''tenant_id'', jstr tenant), (''resource'', jstr res), (''decision'', jstr ''Bulk Policy Assigned''),
               (''policy_id'', jstr pid), (''user_count'', Some (JInt (int (length users))))])
     (eret \<lparr>br_count = length users, br_policy_id = pid, br_users = users\<rparr>))"

definition revoke_policy_from_user :: "conn \<Rightarrow> string \<Rightarrow> string \<Rightarrow> string \<Rightarrow> bool svc" where
  "revoke_policy_from_user c tenant user pid = delete_policy c tenant user pid"

record tenant_policy_item =
  tpi_row :: policy_response
  tpi_email :: string

record tenant_policies_page =
  tpp_policies :: "tenant_policy_item list"
  tpp_pagination :: pagination

text \<open>
  Neither the count nor the listing names the tenant: what they reach is what row level security
  leaves of \<open>user_policies\<close>, joined with the visible users; each item reports the caller's tenant row.
\<close>

definition get_all_tenant_policies :: "conn \<Rightarrow> string \<Rightarrow> int \<Rightarrow> int \<Rightarrow> tenant_policies_page svc" where
  "get_all_tenant_policies c tenant page page_size =
     ebind (eget (\<lambda>w. int (length (policies_of c w)))) (\<lambda>cnt.
     ebind (eget (\<lambda>w.
       let user_of = (\<lambda>r. sql_row (\<lambda>u. us_id u = up_user r) (users_of c w));
           rows = sql_page (nat page_size) (nat (page_offset page page_size))
                    (sort_key (\<lambda>r. - up_created r) (filter (\<lambda>r. user_of r \<noteq> None) (policies_of c w)))
       in map (\<lambda>r. \<lparr>tpi_row = response_of_row r, tpi_email = us_email (the (user_of r))\<rparr>) rows)) (\<lambda>items.
     ethen (log_info (''Retrieved '' @ digits_of (length items) @ '' policies for tenant '' @ tenant))
     (eret \<lparr>tpp_policies = items, tpp_pagination = pagination_info page page_size cnt\<rparr>)))"

section \<open>Policy templates\<close>

definition templates_key :: "string \<Rightarrow> string" where
  "templates_key tenant = ''policy_templates:'' @ tenant"

definition drop_template_cache :: "bool \<Rightarrow> string \<Rightarrow> unit svc" where
  "drop_template_cache redis tenant =
     (if redis then emod (\<lambda>w. w\<lparr>w_template_cache := cache_del (templates_key tenant) (w_template_cache w)\<rparr>)
      else eret ())"

text \<open>\<open>tid\<close> is the fresh \<open>uuid4()\<close>.\<close>

definition create_tenant_policy_template ::
    "string \<Rightarrow> conn \<Rightarrow> string \<Rightarrow> string \<Rightarrow> json dict \<Rightarrow> string list \<Rightarrow> bool \<Rightarrow> template_row svc" where
  "create_tenant_policy_template tid c tenant pid pols roles redis = (\<lambda>w.
     if \<not> rls_insert_strict c tenant then (Inl (DbErr InsufficientPrivilegeError), w)
     else if \<exists>r \<in> set (w_templates w). tp_id r = tid
     then (Inl (AppErr (ConflictError ''Policy template creation failed'')), w)
     else if \<forall>t \<in> set (w_tenants w). tn_id t \<noteq> tenant then (Inl (DbErr ForeignKeyViolationError), w)
     else
       (let r = \<lparr>tp_id = tid, tp_tenant = tenant, tp_policies = pols, tp_roles = roles,
                 tp_created = w_now w, tp_modified = w_now w\<rparr> in
        ethen (log_audit ''tenant_policy_create''
                 [(''tenant_id'', jstr tenant), (''resource'', jstr pid),
                  (''decision'', jstr ''Tenant Policy Template Created'')])
        (ethen (drop_template_cache redis tenant) (eret r)) (w\<lparr>w_templates := w_templates w @ [r]\<rparr>)))"

record template_list =
  tml_templates :: "template_row list"
  tml_pagination :: pagination

definition template_rows :: "conn \<Rightarrow> string \<Rightarrow> world \<Rightarrow> template_row list" where
  "template_rows c tenant w =
     sort_key (\<lambda>r. - tp_created r) (sql_select (\<lambda>r. tp_tenant r = tenant) (templates_of c w))"

definition load_templates :: "conn \<Rightarrow> string \<Rightarrow> bool \<Rightarrow> template_row list svc" where
  "load_templates c tenant redis =
     ebind (eget (\<lambda>w. if redis then cache_get (w_now w) (w_template_cache w) (templates_key tenant) else None)) (\<lambda>cached.
     case cached of
       Some ts \<Rightarrow> eret ts
     | None \<Rightarrow>
         ebind (eget (template_rows c tenant)) (\<lambda>ts.
         ethen (if redis then emod (\<lambda>w. w\<lparr>w_template_cache :=
                                cache_setex (w_now w) (templates_key tenant) 30 ts (w_template_cache w)\<rparr>)
                else eret ())
         (eret ts)))"

definition get_tenant_policy_templates :: "conn \<Rightarrow> string \<Rightarrow> int \<Rightarrow> int \<Rightarrow> bool \<Rightarrow> template_list svc" where
  "get_tenant_policy_templates c tenant page page_size redis =
     ebind (load_templates c tenant redis) (\<lambda>ts.
     let rows = sql_page (nat page_size) (nat (page_offset page page_size)) ts in
     ethen (log_info (''Retrieved '' @ digits_of (length rows) @ '' policy templates for tenant '' @ tenant))
     (eret \<lparr>tml_templates = rows, tml_pagination = pagination_info page page_size (int (length ts))\<rparr>))"

definition is_template :: "string \<Rightarrow> string \<Rightarrow> template_row \<Rightarrow> bool" where
  "is_template tid tenant r \<longleftrightarrow> tp_id r = tid \<and> tp_tenant r = tenant"

definition get_tenant_policy_template_by_id :: "conn \<Rightarrow> string \<Rightarrow> string \<Rightarrow> template_row option svc" where
  "get_tenant_policy_template_by_id c tenant tid = eget (\<lambda>w. sql_row (is_template tid tenant) (templates_of c w))"

definition template_missing :: "string \<Rightarrow> exn" where
  "template_missing tid = AppErr (NotFoundError (''Policy template '' @ quoted tid @ '' not found''))"

definition update_tenant_policy_template ::
    "conn \<Rightarrow> string \<Rightarrow> string \<Rightarrow> json dict option \<Rightarrow> string list option \<Rightarrow> bool \<Rightarrow> template_row svc" where
  "update_tenant_policy_template c tenant tid pols roles redis =
     ebind (get_tenant_policy_template_by_id c tenant tid) (\<lambda>existing.
     case existing of None \<Rightarrow> eraise (template_missing tid)
     | Some old \<Rightarrow>
         (let ps = (case pols of None \<Rightarrow> tp_policies old | Some p \<Rightarrow> p);
              rs = (case roles of None \<Rightarrow> tp_roles old | Some r \<Rightarrow> r) in
          ethen (emod (\<lambda>w. w\<lparr>w_templates :=
                   sql_update (\<lambda>r. is_template tid tenant r \<and> rls_visible c (tp_tenant r))
                     (\<lambda>r. r\<lparr>tp_policies := ps, tp_roles := rs, tp_modified := w_now w\<rparr>) (w_templates w)\<rparr>))
         (ethen (log_audit ''tenant_policy_update''
                   [(''tenant_id'', jstr tenant), (''resource'', jstr tid),
                    (''decision'', jstr ''Tenant Policy Template Updated'')])
         (ethen (drop_template_cache redis tenant)
         (ebind (eget w_now) (\<lambda>now. eret (old\<lparr>tp_policies := ps, tp_roles := rs, tp_modified := now\<rparr>)))))))"

definition delete_tenant_policy_template :: "conn \<Rightarrow> string \<Rightarrow> string \<Rightarrow> bool \<Rightarrow> bool svc" where
  "delete_tenant_policy_template c tenant tid redis = (\<lambda>w.
     let p = (\<lambda>r. is_template tid tenant r \<and> rls_visible c (tp_tenant r)) in
     if sql_count p (w_templates w) = 0 then (Inl (template_missing tid), w)
     else ethen (log_audit ''tenant_policy_delete''
                   [(''tenant_id'', jstr tenant), (''resource'', jstr tid),
                    (''decision'', jstr ''Tenant Policy Template Deleted'')])
          (ethen (drop_template_cache redis tenant) (eret True))
          (w\<lparr>w_templates := sql_delete p (w_templates w)\<rparr>))"

text \<open>
  Validating the document of a template as a \<open>PolicyCreate\<close>: its fields are whatever the writer of
  the template stored, and pydantic rejects those of the wrong type.
\<close>

definition json_str :: "json option \<Rightarrow> exn + string" where
  "json_str v = (case v of Some (JStr s) \<Rightarrow> Inr s
                 | _ \<Rightarrow> Inl (PyErr (ValueError ''Input should be a valid string'')))"

fun json_str_list :: "json list \<Rightarrow> exn + string list" where
  "json_str_list [] = Inr []"
| "json_str_list (v # vs) =
     (case json_str (Some v) of Inl e \<Rightarrow> Inl e
      | Inr s \<Rightarrow> (case json_str_list vs of Inl e \<Rightarrow> Inl e | Inr ss \<Rightarrow> Inr (s # ss)))"

definition json_actions :: "json option \<Rightarrow> exn + string list" where
  "json_actions v = (case v of None \<Rightarrow> Inr [] | Some (JArr vs) \<Rightarrow> json_str_list vs
                     | _ \<Rightarrow> Inl (PyErr (ValueError ''Input should be a valid list'')))"

definition json_dict :: "json option \<Rightarrow> exn + json dict option" where
  "json_dict v = (case v of None \<Rightarrow> Inr None | Some JNull \<Rightarrow> Inr None | Some (JObj d) \<Rightarrow> Inr (Some d)
                  | _ \<Rightarrow> Inl (PyErr (ValueError ''Input should be a valid dictionary'')))"

definition template_policy :: "json dict \<Rightarrow> exn + policy_create" where
  "template_policy d =
     (case json_str (dget d ''policy_id'') of Inl e \<Rightarrow> Inl e | Inr pid \<Rightarrow>
     (case json_str (Some (case dget d ''resource'' of None \<Rightarrow> JStr ''*'' | Some v \<Rightarrow> v)) of Inl e \<Rightarrow> Inl e | Inr res \<Rightarrow>
     (case json_actions (dget d ''actions'') of Inl e \<Rightarrow> Inl e | Inr acts \<Rightarrow>
     (case json_dict (dget d ''conditions'') of Inl e \<Rightarrow> Inl e | Inr conds \<Rightarrow>
        make_policy_create pid res acts conds))))"

definition assign_template_to_user :: "conn \<Rightarrow> string \<Rightarrow> string \<Rightarrow> string \<Rightarrow> policy_response svc" where
  "assign_template_to_user c tenant tid user =
     ebind (get_tenant_policy_template_by_id c tenant tid) (\<lambda>t.
     case t of None \<Rightarrow> eraise (template_missing tid)
     | Some r \<Rightarrow> ebind (elift (template_policy (tp_policies r))) (\<lambda>p. create_policy c tenant user p))"

section \<open>The policy endpoints (app/api/v1/policies.py)\<close>

definition get_my_policies :: "conn \<Rightarrow> token_data \<Rightarrow> policy_response list reply svc" where
  "get_my_policies c user =
     ebind (get_user_policies c (td_tenant user) (td_user user)) (\<lambda>ps.
       eret (success_response ps (''Retrieved '' @ digits_of (length ps) @ '' policies'')))"

definition policy_or_404 :: "string \<Rightarrow> policy_response option \<Rightarrow> policy_response reply svc" where
  "policy_or_404 what p = (case p of None \<Rightarrow> eret (not_found_response what) | Some r \<Rightarrow> eret (Success (Some r) None 200))"

definition get_my_policy_by_id :: "conn \<Rightarrow> string \<Rightarrow> token_data \<Rightarrow> policy_response reply svc" where
  "get_my_policy_by_id c pid user =
     ebind (get_policy_by_id c (td_tenant user) (td_user user) pid) (policy_or_404 (''Policy '' @ quoted pid))"

definition get_user_policies_by_id :: "conn \<Rightarrow> string \<Rightarrow> token_data \<Rightarrow> policy_response list reply svc" where
  "get_user_policies_by_id c user_id user =
     ebind (get_user_policies c (td_tenant user) user_id) (\<lambda>ps.
       eret (success_response ps (''Retrieved '' @ digits_of (length ps) @ '' policies for user'')))"

definition get_specific_user_policy :: "conn \<Rightarrow> string \<Rightarrow> string \<Rightarrow> token_data \<Rightarrow> policy_response reply svc" where
  "get_specific_user_policy c user_id pid user =
     ebind (get_policy_by_id c (td_tenant user) user_id pid)
       (policy_or_404 (''Policy '' @ quoted pid @ '' for user '' @ quoted user_id))"

definition create_user_policy :: "conn \<Rightarrow> string \<Rightarrow> policy_create \<Rightarrow> token_data \<Rightarrow> policy_response reply svc" where
  "create_user_policy c user_id p user =
     ebind (create_policy c (td_tenant user) user_id p) (\<lambda>r.
       eret (created_response r (''Policy '' @ quoted (pc_policy_id p) @ '' created successfully'')))"

definition update_user_policy ::
    "(string list \<Rightarrow> string list) \<Rightarrow> conn \<Rightarrow> string \<Rightarrow> string \<Rightarrow> policy_update \<Rightarrow> token_data \<Rightarrow> policy_response reply svc" where
  "update_user_policy so c user_id pid u user =
     ebind (update_policy so c (td_tenant user) user_id pid u) (\<lambda>r.
       eret (success_response r (''Policy '' @ quoted pid @ '' updated successfully'')))"

definition delete_user_policy :: "conn \<Rightarrow> string \<Rightarrow> string \<Rightarrow> token_data \<Rightarrow> unit reply svc" where
  "delete_user_policy c user_id pid user =
     ebind (delete_policy c (td_tenant user) user_id pid) (\<lambda>_. eret no_content_response)"

definition assign_policy :: "conn \<Rightarrow> assign_request \<Rightarrow> token_data \<Rightarrow> policy_response reply svc" where
  "assign_policy c rq user =
     ebind (assign_policy_to_user c (td_tenant user) rq) (\<lambda>r.
       eret (created_response r (''Policy assigned to user '' @ quoted (ar_user rq))))"

record bulk_request =
  bq_users :: "string list"
  bq_policy_id :: string
  bq_resource :: string
  bq_actions :: "string list"
  bq_conditions :: "json dict option"

definition bulk_assign_policies :: "conn \<Rightarrow> bulk_request \<Rightarrow> token_data \<Rightarrow> bulk_result reply svc" where
  "bulk_assign_policies c rq user =
     ebind (bulk_assign_policy c (td_tenant user) (bq_users rq) (bq_policy_id rq) (bq_resource rq)
              (bq_actions rq) (bq_conditions rq)) (\<lambda>r.
       eret (created_response r (''Policy assigned to '' @ digits_of (br_count r) @ '' users'')))"

definition revoke_policy :: "conn \<Rightarrow> string \<Rightarrow> string \<Rightarrow> token_data \<Rightarrow> unit reply svc" where
  "revoke_policy c user_id pid user =
     ebind (revoke_policy_from_user c (td_tenant user) user_id pid) (\<lambda>_.
       eret (Success None (Some (''Policy '' @ quoted pid @ '' revoked from user '' @ quoted user_id)) 200))"

definition list_all_tenant_policies :: "conn \<Rightarrow> int \<Rightarrow> int \<Rightarrow> token_data \<Rightarrow> tenant_policies_page reply svc" where
  "list_all_tenant_policies c page page_size user =
     ebind (get_all_tenant_policies c (td_tenant user) page page_size) (\<lambda>r.
       eret (success_response r (''Found '' @ digits_of (nat (pg_total_items (tpp_pagination r))) @ '' policies'')))"

definition list_policy_templates :: "conn \<Rightarrow> int \<Rightarrow> int \<Rightarrow> token_data \<Rightarrow> template_list reply svc" where
  "list_policy_templates c page page_size user =
     ebind (get_tenant_policy_templates c (td_tenant user) page page_size True) (\<lambda>r.
       eret (success_response r
         (''Found '' @ digits_of (nat (pg_total_items (tml_pagination r))) @ '' policy templates'')))"

definition get_policy_template :: "conn \<Rightarrow> string \<Rightarrow> token_data \<Rightarrow> template_row reply svc" where
  "get_policy_template c tid user =
     ebind (get_tenant_policy_template_by_id c (td_tenant user) tid) (\<lambda>t.
       case t of None \<Rightarrow> eret (not_found_response (''Policy template '' @ quoted tid))
       | Some r \<Rightarrow> eret (Success (Some r) None 200))"

record template_request =
  tq_policy_id :: string
  tq_resource :: string
  tq_actions :: "string list"
  tq_conditions :: "json dict option"
  tq_roles :: "string list option"

definition create_policy_template :: "string \<Rightarrow> conn \<Rightarrow> template_request \<Rightarrow> token_data \<Rightarrow> template_row reply svc" where
  "create_policy_template tid c rq user =
     (let pols = [(''policy_id'', JStr (tq_policy_id rq)), (''resource'', JStr (tq_resource rq)),
                  (''actions'', JArr (map JStr (tq_actions rq))),
                  (''conditions'', JObj (json_conditions (tq_conditions rq)))] in
      ebind (create_tenant_policy_template tid c (td_tenant user) (tq_policy_id rq) pols
               (case tq_roles rq of None \<Rightarrow> [] | Some r \<Rightarrow> r) True) (\<lambda>r.
        eret (created_response r (''Policy template '' @ quoted (tq_policy_id rq) @ '' created''))))"

record template_update =
  tu_resource :: "string option"
  tu_actions :: "string list option"
  tu_conditions :: "json dict option"
  tu_roles :: "string list option"

definition template_merge :: "template_update \<Rightarrow> json dict \<Rightarrow> json dict" where
  "template_merge u d =
     (let d1 = (case tu_resource u of None \<Rightarrow> d | Some r \<Rightarrow> dset ''resource'' (JStr r) d);
          d2 = (case tu_actions u of None \<Rightarrow> d1 | Some a \<Rightarrow> dset ''actions'' (JArr (map JStr a)) d1)
      in (case tu_conditions u of None \<Rightarrow> d2 | Some x \<Rightarrow> dset ''conditions'' (JObj x) d2))"

definition update_policy_template :: "conn \<Rightarrow> string \<Rightarrow> template_update \<Rightarrow> token_data \<Rightarrow> template_row reply svc" where
  "update_policy_template c tid u user =
     ebind (if tu_resource u \<noteq> None \<or> tu_actions u \<noteq> None \<or> tu_conditions u \<noteq> None
            then ebind (get_tenant_policy_template_by_id c (td_tenant user) tid)
                   (\<lambda>t. eret (map_option (\<lambda>r. template_merge u (tp_policies r)) t))
            else eret None) (\<lambda>pols.
     ebind (update_tenant_policy_template c (td_tenant user) tid pols (tu_roles u) True) (\<lambda>r.
       eret (success_response r ''Policy template updated'')))"

definition delete_policy_template :: "conn \<Rightarrow> string \<Rightarrow> token_data \<Rightarrow> unit reply svc" where
  "delete_policy_template c tid user =
     ebind (delete_tenant_policy_template c (td_tenant user) tid True) (\<lambda>_. eret no_content_response)"

definition assign_policy_template_to_user :: "conn \<Rightarrow> string \<Rightarrow> string \<Rightarrow> token_data \<Rightarrow> policy_response reply svc" where
  "assign_policy_template_to_user c tid user_id user =
     ebind (assign_template_to_user c (td_tenant user) tid user_id) (\<lambda>r.
       eret (created_response r (''Template assigned to user '' @ quoted user_id)))"

section \<open>What updates and deletions do\<close>

lemma policy_visible:
  assumes "sql_row (is_policy (tenant, user, pid)) (policies_of c w) = Some r"
  shows "(\<lambda>x. is_policy (tenant, user, pid) x \<and> rls_visible c (up_tenant x)) = is_policy (tenant, user, pid)"
proof -
  from sql_row_Some [OF assms] have "rls_visible c tenant"
    by (auto simp: policies_of_def is_policy_def)
  then show ?thesis by (auto simp: is_policy_def fun_eq_iff)
qed

lemma policy_at_visible:
  assumes "sql_row (is_policy k) (policies_of c w) = Some r"
  shows "policy_at (w_policies w) k \<noteq> None"
proof -
  from sql_row_Some [OF assms] have "r \<in> set (w_policies w)" "is_policy k r"
    by (auto simp: policies_of_def)
  then have "sql_row (is_policy k) (w_policies w) \<noteq> None" by (auto simp: sql_row_None)
  then show ?thesis by (simp add: policy_at_def)
qed

lemma log_audit_run [eff_simps]: "log_audit a kvs w =
   (Inr (), w\<lparr>w_log := w_log w @ [log_entry_of ''INFO'' (''AUDIT: '' @ a) (some_items ((''action'', Some (JStr a)) # kvs)) False]\<rparr>)"
  by (simp add: log_audit_def log_write_def)

lemma force_info_run [eff_simps]: "force_info m w = (Inr (), w\<lparr>w_log := w_log w @ [log_entry_of ''INFO'' m [] True]\<rparr>)"
  by (simp add: force_info_def log_write_def)

lemma force_error_run [eff_simps]: "force_error m w = (Inr (), w\<lparr>w_log := w_log w @ [log_entry_of ''ERROR'' m [] True]\<rparr>)"
  by (simp add: force_error_def log_write_def)

lemma log_info_run [eff_simps]: "log_info m w = (Inr (), w\<lparr>w_log := w_log w @ [log_entry_of ''INFO'' m [] False]\<rparr>)"
  by (simp add: log_info_def log_write_def)

text \<open>The sessions of a user are over: none is open, and the token of each that was is rejected.\<close>

definition sessions_ended :: "string \<Rightarrow> string \<Rightarrow> world \<Rightarrow> world \<Rightarrow> bool" where
  "sessions_ended user tenant w w' \<longleftrightarrow>
     (\<forall>s \<in> set (w_sessions w'). ss_user s = user \<and> ss_tenant s = tenant \<longrightarrow> ss_revoked_at s \<noteq> None)
     \<and> (\<forall>s \<in> set (w_sessions w). ss_user s = user \<and> ss_tenant s = tenant \<and> ss_revoked_at s = None
           \<longrightarrow> ss_jti s \<in> set (w_bloom w'))"

lemma revoke_all_ends:
  obtains n w' where "revoke_all_sessions user tenant reason None w = (Inr n, w')"
    "sessions_ended user tenant w w'" "session_frame w w'"
proof -
  let ?r = "revoke_all_sessions user tenant reason None w"
  note run = revoke_all_run [where user = user and tenant = tenant and reason = reason and exclude = None and w = w]
  have open_iff: "open_sessions_of user tenant None s \<longleftrightarrow> ss_user s = user \<and> ss_tenant s = tenant \<and> ss_revoked_at s = None" for s
    by (simp add: open_sessions_of_def)
  have "filter (open_sessions_of user tenant None) (w_sessions (snd ?r)) = []"
    unfolding run(2) by (rule update_closes) (simp add: open_iff)
  then have "sessions_ended user tenant w (snd ?r)"
    using run(3) by (auto simp: sessions_ended_def open_iff filter_empty_conv)
  with run(1,4) that show ?thesis by (metis prod.collapse)
qed

lemma sessions_ended_same:
  "sessions_ended user tenant w w' \<Longrightarrow> w_sessions v = w_sessions w \<Longrightarrow> w_sessions v' = w_sessions w'
   \<Longrightarrow> w_bloom v' = w_bloom w' \<Longrightarrow> sessions_ended user tenant v v'"
  by (simp add: sessions_ended_def)

lemma update_policy_run:
  fixes so c w tenant user pid u
  assumes "sql_row (is_policy (tenant, user, pid)) (policies_of c w) = Some r"
  defines "old \<equiv> response_of_row r"
  defines "d \<equiv> merged_doc so old u"
  obtains resp w' where "update_policy so c tenant user pid u w = (Inr resp, w')"
    "pr_resource resp = pd_resource d" "pr_actions resp = pd_actions d"
    "w_policies w' = sql_update (is_policy (tenant, user, pid)) (set_policy (w_now w) d) (w_policies w)"
    "if ends_sessions old u then sessions_ended user tenant w w'
     else w_sessions w' = w_sessions w \<and> w_bloom w' = w_bloom w"
    "w_users w' = w_users w" "w_now w' = w_now w"
proof -
  let ?v = "w\<lparr>w_policies := sql_update (is_policy (tenant, user, pid)) (set_policy (w_now w) d) (w_policies w)\<rparr>"
  have get: "get_policy_by_id c tenant user pid w = (Inr (Some old), w)"
    using assms(1) by (simp add: get_policy_by_id_def old_def)
  have upd: "update_user_policy_rows c (tenant, user, pid) d w = (Inr (), ?v)"
    by (simp add: update_user_policy_rows_def policy_visible [OF assms(1)])
  show ?thesis
  proof (cases "ends_sessions old u")
    case True
    obtain n x where x: "revoke_all_sessions user tenant ''bulk_logout'' None ?v = (Inr n, x)"
      "sessions_ended user tenant ?v x" "session_frame ?v x" by (rule revoke_all_ends)
    let ?r = "update_policy so c tenant user pid u w"
    have f: "fst ?r = Inr (projr (fst ?r))" "pr_resource (projr (fst ?r)) = pd_resource d"
      "pr_actions (projr (fst ?r)) = pd_actions d" "w_policies (snd ?r) = w_policies x"
      "w_sessions (snd ?r) = w_sessions x" "w_bloom (snd ?r) = w_bloom x"
      "w_users (snd ?r) = w_users x" "w_now (snd ?r) = w_now x"
      using True x(1) get upd by (simp_all add: update_policy_def d_def [symmetric] eff_simps)
    have "sessions_ended user tenant w (snd ?r)"
      by (rule sessions_ended_same [OF x(2)]) (use f in simp_all)
    moreover have "?r = (Inr (projr (fst ?r)), snd ?r)" using f(1) by (metis prod.collapse)
    moreover have "w_policies (snd ?r) = w_policies ?v"
      using f(4) session_frame_fields(3) [OF x(3)] by simp
    ultimately show ?thesis
      using True f(2,3,7,8) session_frame_fields(1,2) [OF x(3)]
      by (intro that [of "projr (fst ?r)" "snd ?r"]) simp_all
  next
    case False
    with get upd that show ?thesis by (simp add: update_policy_def d_def [symmetric] eff_simps)
  qed
qed

lemma delete_policy_run:
  fixes c w tenant user pid
  assumes "sql_row (is_policy (tenant, user, pid)) (policies_of c w) = Some r"
  obtains w' where "delete_policy c tenant user pid w = (Inr True, w')"
    "w_policies w' = delete_row (tenant, user, pid) (w_policies w)" "sessions_ended user tenant w w'"
proof -
  let ?k = "(tenant, user, pid)"
  have "sql_count (is_policy ?k) (w_policies w) \<noteq> 0"
    using sql_row_Some [OF assms] by (auto simp: sql_count_zero policies_of_def)
  then have n: "delete_user_policy_rows c ?k w
      = (Inr (sql_count (is_policy ?k) (w_policies w)), w\<lparr>w_policies := delete_row ?k (w_policies w)\<rparr>)"
    "sql_count (is_policy ?k) (w_policies w) \<noteq> 0"
    by (simp_all add: delete_user_policy_rows_def policy_visible [OF assms] delete_row_def Let_def)
  let ?v = "w\<lparr>w_policies := delete_row ?k (w_policies w), w_log := w_log w @
      [log_entry_of ''INFO'' (''Policy '' @ quoted pid @ '' deleted for user '' @ user @ '' in tenant '' @ tenant) [] True]\<rparr>"
  obtain m x where x: "revoke_all_sessions user tenant ''bulk_logout'' None ?v = (Inr m, x)"
    "sessions_ended user tenant ?v x" "session_frame ?v x" by (rule revoke_all_ends)
  let ?r = "delete_policy c tenant user pid w"
  have f: "fst ?r = Inr True" "w_policies (snd ?r) = w_policies x"
    "w_sessions (snd ?r) = w_sessions x" "w_bloom (snd ?r) = w_bloom x"
    using n x(1) by (simp_all add: delete_policy_def eff_simps)
  have "sessions_ended user tenant w (snd ?r)"
    by (rule sessions_ended_same [OF x(2)]) (use f in simp_all)
  moreover have "w_policies (snd ?r) = delete_row ?k (w_policies w)"
    using f(2) session_frame_fields(3) [OF x(3)] by simp
  ultimately show ?thesis using f(1) that [of "snd ?r"] by (metis prod.collapse)
qed

lemma delete_policy_missing:
  assumes "sql_row (is_policy (tenant, user, pid)) (policies_of c w) = None"
  shows "fst (delete_policy c tenant user pid w)
      = Inl (AppErr (NotFoundError (''Policy '' @ quoted pid @ '' not found for this user'')))
    \<and> w_policies (snd (delete_policy c tenant user pid w)) = w_policies w
    \<and> w_sessions (snd (delete_policy c tenant user pid w)) = w_sessions w"
proof -
  let ?p = "\<lambda>r. is_policy (tenant, user, pid) r \<and> rls_visible c (up_tenant r)"
  have no: "\<forall>r \<in> set (w_policies w). \<not> ?p r"
    using assms by (auto simp: sql_row_None policies_of_def)
  then have "sql_count ?p (w_policies w) = 0" "sql_delete ?p (w_policies w) = w_policies w"
    by (auto simp: sql_count_zero sql_delete_def filter_id_conv)
  then show ?thesis by (simp add: delete_policy_def delete_user_policy_rows_def eff_simps Let_def)
qed

text \<open>C3. Updating a policy stores exactly the merged document under its key and leaves every other
  policy as it was; when the update drops an action, or names another resource or none, every open
  session of the user is closed and its token rejected, and otherwise no session changes.\<close>

theorem update_policy_effect:
  fixes so c w tenant user pid u r
  defines "k \<equiv> (tenant, user, pid)"
  defines "d \<equiv> merged_doc so (response_of_row r) u"
  defines "w' \<equiv> snd (update_policy so c tenant user pid u w)"
  assumes "sql_row (is_policy k) (policies_of c w) = Some r"
  shows "(\<exists>resp. fst (update_policy so c tenant user pid u w) = Inr resp
            \<and> pr_resource resp = pd_resource d \<and> pr_actions resp = pd_actions d)
    \<and> policy_at (w_policies w') = (policy_at (w_policies w))(k := Some d)
    \<and> (if ends_sessions (response_of_row r) u then sessions_ended user tenant w w'
       else w_sessions w' = w_sessions w \<and> w_bloom w' = w_bloom w)"
proof -
  from assms(4) have row: "sql_row (is_policy (tenant, user, pid)) (policies_of c w) = Some r"
    by (simp add: k_def)
  obtain resp x where run: "update_policy so c tenant user pid u w = (Inr resp, x)"
    "pr_resource resp = pd_resource d" "pr_actions resp = pd_actions d"
    "w_policies x = sql_update (is_policy k) (set_policy (w_now w) d) (w_policies w)"
    "if ends_sessions (response_of_row r) u then sessions_ended user tenant w x
     else w_sessions x = w_sessions w \<and> w_bloom x = w_bloom w"
    using update_policy_run [OF row, of so u] unfolding k_def d_def by metis
  have "policy_at (w_policies x) = (policy_at (w_policies w))(k := Some d)"
    using policy_at_visible [OF assms(4)] by (auto simp: run(4) policy_at_update fun_eq_iff)
  with run show ?thesis by (simp add: w'_def)
qed

text \<open>C4. Deleting a policy removes its key and nothing else and ends every open session of the
  user; deleting one that the connection cannot see reports it missing and changes nothing.\<close>

theorem delete_policy_effect:
  fixes c w tenant user pid
  defines "k \<equiv> (tenant, user, pid)"
  defines "w' \<equiv> snd (delete_policy c tenant user pid w)"
  shows "if sql_row (is_policy k) (policies_of c w) \<noteq> None
    then fst (delete_policy c tenant user pid w) = Inr True
      \<and> policy_at (w_policies w') = (policy_at (w_policies w))(k := None)
      \<and> sessions_ended user tenant w w'
    else fst (delete_policy c tenant user pid w)
           = Inl (AppErr (NotFoundError (''Policy '' @ quoted pid @ '' not found for this user'')))
      \<and> policy_at (w_policies w') = policy_at (w_policies w) \<and> w_sessions w' = w_sessions w"
proof (cases "sql_row (is_policy k) (policies_of c w)")
  case None
  then show ?thesis using delete_policy_missing [of tenant user pid c w] by (simp add: k_def w'_def)
next
  case (Some r)
  then have row: "sql_row (is_policy (tenant, user, pid)) (policies_of c w) = Some r" by (simp add: k_def)
  obtain x where "delete_policy c tenant user pid w = (Inr True, x)"
    "w_policies x = delete_row k (w_policies w)" "sessions_ended user tenant w x"
    using delete_policy_run [OF row] unfolding k_def by metis
  with Some show ?thesis
    by (auto simp: w'_def policy_table.at_del fun_eq_iff)
qed

definition policy_demo :: world where
  "policy_demo = empty_world\<lparr>w_now := 100,
     w_tenants := [\<lparr>tn_id = ''t1'', tn_name = ''T'', tn_domain = ''d'', tn_root = ''r'', tn_settings = None,
                    tn_is_active = True, tn_created = 0\<rparr>],
     w_users := [\<lparr>us_id = ''u1'', us_tenant = ''t1'', us_email = ''a@x'', us_password = ''h'', us_first = [],
                  us_last = [], us_role = Some ''member'', us_is_active = True, us_email_verified = True,
                  us_created = 0, us_modified = 0\<rparr>],
     w_policies := [\<lparr>up_tenant = ''t1'', up_user = ''u1'', up_policy_id = ''p'',
                     up_policy = \<lparr>pd_resource = ''doc'', pd_actions = [''read''], pd_conditions = []\<rparr>,
                     up_created = 1, up_modified = 1\<rparr>],
     w_sessions := [demo_session ''j1'' ''u1'' ''t1'' 10]\<rparr>"

definition add_write :: policy_update where
  "add_write = \<lparr>pu_resource = None, pu_actions = Some [''read'', ''write''], pu_conditions = None\<rparr>"

theorem update_policy_effect_witness:
  "policy_at (w_policies (snd (update_policy remdups (TenantConn ''t1'') ''t1'' ''u1'' ''p'' add_write policy_demo)))
     (''t1'', ''u1'', ''p'')
   = Some \<lparr>pd_resource = ''doc'', pd_actions = [''read'', ''write''], pd_conditions = []\<rparr>"
proof -
  have row: "sql_row (is_policy (''t1'', ''u1'', ''p'')) (policies_of (TenantConn ''t1'') policy_demo)
      = Some (hd (w_policies policy_demo))"
    by (simp add: policy_demo_def policies_of_def is_policy_def sql_row_Cons)
  from update_policy_effect [OF this, of remdups add_write]
  show ?thesis by (simp add: policy_demo_def merged_doc_def response_of_row_def add_write_def json_conditions_def)
qed

text \<open>An update that only adds actions, and does not mention the resource, ends all sessions of
  the user: the omitted resource is compared with the stored one as if it had been changed.\<close>

theorem widening_update_ends_sessions:
  assumes "sql_row (is_policy (tenant, user, pid)) (policies_of c w) = Some r"
    and "pu_resource u = None" "pu_actions u = Some (pd_actions (up_policy r) @ extra)"
  shows "sessions_ended user tenant w (snd (update_policy so c tenant user pid u w))
    \<and> policy_at (w_policies (snd (update_policy so c tenant user pid u w))) (tenant, user, pid)
        = Some \<lparr>pd_resource = pd_resource (up_policy r), pd_actions = so (pd_actions (up_policy r) @ extra),
                pd_conditions = json_conditions (case pu_conditions u of None \<Rightarrow> Some (pd_conditions (up_policy r))
                                                 | Some d \<Rightarrow> Some d)\<rparr>"
proof -
  obtain resp x where run: "update_policy so c tenant user pid u w = (Inr resp, x)"
    "w_policies x = sql_update (is_policy (tenant, user, pid))
       (set_policy (w_now w) (merged_doc so (response_of_row r) u)) (w_policies w)"
    "if ends_sessions (response_of_row r) u then sessions_ended user tenant w x
     else w_sessions x = w_sessions w \<and> w_bloom x = w_bloom w"
    using update_policy_run [OF assms(1), of so u] by metis
  have "ends_sessions (response_of_row r) u" using assms(2) by (simp add: ends_sessions_def)
  then show ?thesis
    using run policy_at_visible [OF assms(1)] assms(2,3)
    by (simp add: policy_at_update merged_doc_def response_of_row_def split: option.split)
qed

theorem widening_update_ends_sessions_witness:
  "sessions_ended ''u1'' ''t1'' policy_demo
     (snd (update_policy remdups (TenantConn ''t1'') ''t1'' ''u1'' ''p'' add_write policy_demo))"
proof -
  have "sql_row (is_policy (''t1'', ''u1'', ''p'')) (policies_of (TenantConn ''t1'') policy_demo)
      = Some (hd (w_policies policy_demo))"
    by (simp add: policy_demo_def policies_of_def is_policy_def sql_row_Cons)
  from widening_update_ends_sessions [OF this, of add_write "[''write'']" remdups]
  show ?thesis by (simp add: add_write_def policy_demo_def)
qed

section \<open>Creating and bulk assigning\<close>

lemma create_policy_ok:
  assumes "policy_insert_error c w (tenant, user, pc_policy_id p) = None"
    and "policy_at (w_policies w) (tenant, user, pc_policy_id p) = None"
  shows "\<exists>l. create_policy c tenant user p w =
     (Inr \<lparr>pr_policy_id = pc_policy_id p, pr_user = user, pr_tenant = tenant,
           pr_resource = pc_resource p, pr_actions = pc_actions p, pr_conditions = pc_conditions p,
           pr_created = Some (w_now w), pr_modified = None\<rparr>,
      w\<lparr>w_policies := insert_row (w_now w) (tenant, user, pc_policy_id p)
           \<lparr>pd_resource = pc_resource p, pd_actions = pc_actions p,
            pd_conditions = json_conditions (pc_conditions p)\<rparr> (w_policies w), w_log := l\<rparr>)"
  using assms by (simp add: create_policy_def insert_user_policy_def eff_simps) (rule exI, rule refl)

lemma create_policy_conflict:
  assumes "policy_insert_error c w (tenant, user, pc_policy_id p) = None"
    and "policy_at (w_policies w) (tenant, user, pc_policy_id p) \<noteq> None"
  shows "create_policy c tenant user p w =
     (Inl (AppErr (ConflictError (''Policy '' @ quoted (pc_policy_id p) @ '' already exists for this user''))), w)"
proof -
  have "insert_row n (tenant, user, pc_policy_id p) d (w_policies w) = w_policies w" for n d
    using assms(2) by (auto simp: insert_row_def policy_at_def)
  with assms show ?thesis by (simp add: create_policy_def insert_user_policy_def eff_simps)
qed

text \<open>The endpoint documented as an administrator's lets every holder of a token of the tenant,
  whatever the role, create a policy for any user of the database, the caller included: when the
  columns fit, the context matches and the id is new, the policy is stored with the actions asked
  for.\<close>

theorem any_role_grants_any_policy:
  fixes c user uid p w
  defines "k \<equiv> (td_tenant user, uid, pc_policy_id p)"
  assumes "policy_insert_error c w k = None" "policy_at (w_policies w) k = None"
  shows "(\<exists>rep. fst (create_user_policy c uid p user w) = Inr rep)
    \<and> policy_at (w_policies (snd (create_user_policy c uid p user w))) k
        = Some \<lparr>pd_resource = pc_resource p, pd_actions = pc_actions p,
                pd_conditions = json_conditions (pc_conditions p)\<rparr>"
  using create_policy_ok [OF assms(2) [unfolded k_def] assms(3) [unfolded k_def]] assms(3)
  by (auto simp: create_user_policy_def ebind_run policy_table.at_ins k_def)

theorem any_role_grants_any_policy_witness:
  "policy_at (w_policies (snd (create_user_policy (TenantConn ''t1'') ''u1''
      \<lparr>pc_policy_id = ''all'', pc_resource = ''admin'', pc_actions = [''manage''], pc_conditions = None\<rparr>
      \<lparr>td_email = ''m'', td_tenant = ''t1'', td_policy = None, td_role = None, td_user = ''u1'',
       td_exp = None, td_iat = None, td_aud = None\<rparr> policy_demo))) (''t1'', ''u1'', ''all'')
   = Some \<lparr>pd_resource = ''admin'', pd_actions = [''manage''], pd_conditions = []\<rparr>"
proof -
  let ?u = "\<lparr>td_email = ''m'', td_tenant = ''t1'', td_policy = None, td_role = None, td_user = ''u1'',
       td_exp = None, td_iat = None, td_aud = None\<rparr>"
  let ?p = "\<lparr>pc_policy_id = ''all'', pc_resource = ''admin'', pc_actions = [''manage''], pc_conditions = None\<rparr>"
  have "policy_insert_error (TenantConn ''t1'') policy_demo (td_tenant ?u, ''u1'', pc_policy_id ?p) = None"
    by (simp add: policy_insert_error_def policy_demo_def)
  moreover have "policy_at (w_policies policy_demo) (td_tenant ?u, ''u1'', pc_policy_id ?p) = None"
    by (simp add: policy_at_def policy_demo_def sql_row_Cons is_policy_def)
  ultimately show ?thesis
    using any_role_grants_any_policy [of "TenantConn ''t1''" policy_demo ?u "''u1''" ?p]
    by (simp add: json_conditions_def)
qed

lemma map_filter_none: "List.map_filter f ks = [] \<longleftrightarrow> (\<forall>k \<in> set ks. f k = None)"
  by (induction ks) (auto simp: List.map_filter_simps split: option.splits)

lemma bulk_upsert_run:
  "bulk_upsert c ks d w =
     (if \<forall>k \<in> set ks. policy_insert_error c w k = None
      then (Inr (), w\<lparr>w_policies := fold (\<lambda>k. upsert_row (w_now w) k d) ks (w_policies w)\<rparr>)
      else (Inl (hd (List.map_filter (policy_insert_error c w) ks)), w))"
  by (auto simp: bulk_upsert_def map_filter_none [symmetric] split: list.splits)

text \<open>Bulk assignment is all or nothing: either every listed user has the policy with exactly the
  given document and all other keys are unchanged, or nothing is stored and the caller gets an
  internal error. Either way no session ends and no token is rejected, even where the upsert took
  actions away from a policy a user already had.\<close>

theorem bulk_assign_effect:
  fixes c tenant users pid res acts conds w
  defines "ks \<equiv> map (\<lambda>u. (tenant, u, pid)) users"
  defines "w' \<equiv> snd (bulk_assign_policy c tenant users pid res acts conds w)"
  defines "d \<equiv> \<lparr>pd_resource = res, pd_actions = acts, pd_conditions = json_conditions conds\<rparr>"
  shows "(if \<forall>k \<in> set ks. policy_insert_error c w k = None
     then fst (bulk_assign_policy c tenant users pid res acts conds w)
            = Inr \<lparr>br_count = length users, br_policy_id = pid, br_users = users\<rparr>
       \<and> (\<forall>k. policy_at (w_policies w') k = (if k \<in> set ks then Some d else policy_at (w_policies w) k))
     else fst (bulk_assign_policy c tenant users pid res acts conds w)
            = Inl (AppErr (InternalAppError ''Bulk assignment failed''))
       \<and> w_policies w' = w_policies w)
    \<and> w_sessions w' = w_sessions w \<and> w_bloom w' = w_bloom w \<and> w_stream w' = w_stream w"
  unfolding w'_def bulk_assign_policy_def ks_def [symmetric] d_def [symmetric]
  by (cases "\<forall>k \<in> set ks. policy_insert_error c w k = None")
     (simp_all add: eff_simps bulk_upsert_run policy_table.at_ups_fold)

theorem bulk_assign_effect_witness:
  "policy_at (w_policies (snd (bulk_assign_policy (TenantConn ''t1'') ''t1'' [''u1''] ''p'' ''doc'' [] None policy_demo)))
     (''t1'', ''u1'', ''p'') = Some \<lparr>pd_resource = ''doc'', pd_actions = [], pd_conditions = []\<rparr>
   \<and> w_sessions (snd (bulk_assign_policy (TenantConn ''t1'') ''t1'' [''u1''] ''p'' ''doc'' [] None policy_demo))
       = [demo_session ''j1'' ''u1'' ''t1'' 10]"
proof -
  have "\<forall>k \<in> set (map (\<lambda>u. (''t1'', u, ''p'')) [''u1'']). policy_insert_error (TenantConn ''t1'') policy_demo k = None"
    by (simp add: policy_insert_error_def policy_demo_def)
  with bulk_assign_effect [where c = "TenantConn ''t1''" and tenant = "''t1''" and users = "[''u1'']"
      and pid = "''p''" and res = "''doc''" and acts = "[]" and conds = None and w = policy_demo]
  show ?thesis by (auto simp: json_conditions_def policy_demo_def)
qed

section \<open>The template cache\<close>

text \<open>
  A listing that is read through a cache: a hit answers from the cache, a miss reads the source
  and may fill the cache, and reading never changes the source.
\<close>

locale read_through =
  fixes src :: "'w \<Rightarrow> 'k \<Rightarrow> 'v" and cached :: "'w \<Rightarrow> 'k \<Rightarrow> 'v option"
    and load :: "'k \<Rightarrow> 'w \<Rightarrow> 'v \<times> 'w"
  assumes load_value: "fst (load k w) = (case cached w k of None \<Rightarrow> src w k | Some v \<Rightarrow> v)"
    and load_src: "src (snd (load k w)) = src w"
    and load_cached: "cached (snd (load k w)) k' = Some v \<Longrightarrow> cached w k' = Some v \<or> (k' = k \<and> v = src w k)"
begin

lemma load_coherent:
  assumes "\<forall>k v. cached w k = Some v \<longrightarrow> v = src w k"
  shows "fst (load k w) = src w k"
    and "\<forall>k' v. cached (snd (load k w)) k' = Some v \<longrightarrow> v = src (snd (load k w)) k'"
  using assms load_cached [of k w] by (auto simp: load_value load_src split: option.splits)

lemma write_coherent:
  assumes "\<forall>k v. cached w k = Some v \<longrightarrow> v = src w k"
    and "\<And>k v. cached w' k = Some v \<Longrightarrow> cached w k = Some v \<and> src w' k = src w k"
  shows "\<forall>k v. cached w' k = Some v \<longrightarrow> v = src w' k"
  using assms by metis

end

definition cached_templates :: "world \<Rightarrow> string \<Rightarrow> template_row list option" where
  "cached_templates w tenant = cache_get (w_now w) (w_template_cache w) (templates_key tenant)"

lemma templates_key_inj [simp]: "templates_key a = templates_key b \<longleftrightarrow> a = b"
  by (simp add: templates_key_def)

lemma load_templates_run:
  "load_templates c tenant redis w =
     (if redis then (case cached_templates w tenant of
          Some ts \<Rightarrow> (Inr ts, w)
        | None \<Rightarrow> (Inr (template_rows c tenant w),
                   w\<lparr>w_template_cache := cache_setex (w_now w) (templates_key tenant) 30
                       (template_rows c tenant w) (w_template_cache w)\<rparr>))
      else (Inr (template_rows c tenant w), w))"
  by (simp add: load_templates_def cached_templates_def eff_simps split: option.splits)

lemma template_rows_cache [simp]:
  "template_rows c t (w\<lparr>w_template_cache := x\<rparr>) = template_rows c t w"
  by (simp add: template_rows_def templates_of_def)

lemma template_rows_own: "template_rows (TenantConn t) t w = template_rows OwnerConn t w"
  by (simp add: template_rows_def templates_of_def sql_select_def conj_commute cong: filter_cong)

lemma template_rows_foreign: "t' \<noteq> t \<Longrightarrow> template_rows (TenantConn t') t w = []"
  by (auto simp: template_rows_def templates_of_def sql_select_def filter_empty_conv)

interpretation template_cache: read_through
  "\<lambda>w t. template_rows OwnerConn t w" cached_templates
  "\<lambda>t w. (projr (fst (load_templates (TenantConn t) t True w)), snd (load_templates (TenantConn t) t True w))"
  by unfold_locales
     (auto simp: load_templates_run template_rows_own cached_templates_def cache_simps fun_eq_iff
        split: option.splits if_splits)

text \<open>What is cached of a tenant's templates is what its table holds.\<close>

definition templates_coherent :: "world \<Rightarrow> bool" where
  "templates_coherent w \<longleftrightarrow> (\<forall>t ts. cached_templates w t = Some ts \<longrightarrow> ts = template_rows OwnerConn t w)"

lemma templates_coherent_write:
  assumes "templates_coherent w"
    and "\<And>t. t \<noteq> tenant \<Longrightarrow> template_rows OwnerConn t w' = template_rows OwnerConn t w"
    and "w_template_cache w' = cache_del (templates_key tenant) (w_template_cache w)" "w_now w' = w_now w"
  shows "templates_coherent w'"
  unfolding templates_coherent_def
  by (rule template_cache.write_coherent [of w])
     (use assms in \<open>auto simp: templates_coherent_def cached_templates_def cache_simps split: if_splits\<close>)

lemma templates_coherent_same:
  "templates_coherent w \<Longrightarrow> w_templates w' = w_templates w \<Longrightarrow> w_template_cache w' = w_template_cache w
   \<Longrightarrow> w_now w' = w_now w \<Longrightarrow> templates_coherent w'"
  by (simp add: templates_coherent_def cached_templates_def template_rows_def templates_of_def)

lemma template_rows_append:
  "tp_tenant r \<noteq> t \<Longrightarrow> w_templates w' = w_templates w @ [r] \<Longrightarrow> template_rows OwnerConn t w' = template_rows OwnerConn t w"
  by (simp add: template_rows_def templates_of_def sql_select_def)

lemma template_rows_update:
  assumes "\<And>r. p r \<Longrightarrow> tp_tenant r \<noteq> t" "\<And>r. tp_tenant (f r) = tp_tenant r"
    and "w_templates w' = sql_update p f (w_templates w)"
  shows "template_rows OwnerConn t w' = template_rows OwnerConn t w"
proof -
  have "filter (\<lambda>r. tp_tenant r = t) (sql_update p f rows) = filter (\<lambda>r. tp_tenant r = t) rows" for rows
    using assms(1,2) by (induction rows) (auto simp: sql_update_def)
  then show ?thesis by (simp add: template_rows_def templates_of_def sql_select_def assms(3))
qed

lemma template_rows_delete:
  assumes "\<And>r. p r \<Longrightarrow> tp_tenant r \<noteq> t" "w_templates w' = sql_delete p (w_templates w)"
  shows "template_rows OwnerConn t w' = template_rows OwnerConn t w"
proof -
  have "filter (\<lambda>r. tp_tenant r = t) (sql_delete p rows) = filter (\<lambda>r. tp_tenant r = t) rows" for rows
    using assms(1) by (induction rows) (auto simp: sql_delete_def)
  then show ?thesis by (simp add: template_rows_def templates_of_def sql_select_def assms(2))
qed

lemma keeps_create_template: "keeps templates_coherent (create_tenant_policy_template tid c tenant pid pols roles True)"
proof (rule keepsI)
  fix w
  assume ok: "templates_coherent w"
  show "templates_coherent (snd (create_tenant_policy_template tid c tenant pid pols roles True w))"
  proof (cases "fst (create_tenant_policy_template tid c tenant pid pols roles True w)")
    case (Inl e)
    then show ?thesis using ok
      by (auto simp: create_tenant_policy_template_def eff_simps drop_template_cache_def Let_def split: if_splits)
  next
    case (Inr r)
    show ?thesis
      by (rule templates_coherent_write [OF ok, of tenant], rule template_rows_append)
         (use Inr in \<open>auto simp: create_tenant_policy_template_def eff_simps drop_template_cache_def Let_def
             split: if_splits\<close>)
  qed
qed

lemma keeps_update_template: "keeps templates_coherent (update_tenant_policy_template c tenant tid pols roles True)"
proof (rule keepsI)
  fix w
  assume ok: "templates_coherent w"
  show "templates_coherent (snd (update_tenant_policy_template c tenant tid pols roles True w))"
  proof (cases "sql_row (is_template tid tenant) (templates_of c w)")
    case None
    with ok show ?thesis
      by (simp add: update_tenant_policy_template_def get_tenant_policy_template_by_id_def eff_simps)
  next
    case (Some r)
    let ?p = "\<lambda>r. is_template tid tenant r \<and> rls_visible c (tp_tenant r)"
    show ?thesis
      by (rule templates_coherent_write [OF ok, of tenant], rule template_rows_update [where p = ?p])
         (use Some in \<open>auto simp: update_tenant_policy_template_def get_tenant_policy_template_by_id_def
             eff_simps drop_template_cache_def is_template_def Let_def\<close>)
  qed
qed

lemma keeps_delete_template: "keeps templates_coherent (delete_tenant_policy_template c tenant tid True)"
proof (rule keepsI)
  fix w
  assume ok: "templates_coherent w"
  let ?p = "\<lambda>r. is_template tid tenant r \<and> rls_visible c (tp_tenant r)"
  show "templates_coherent (snd (delete_tenant_policy_template c tenant tid True w))"
  proof (cases "sql_count ?p (w_templates w) = 0")
    case True
    with ok show ?thesis by (simp add: delete_tenant_policy_template_def Let_def)
  next
    case False
    show ?thesis
      by (rule templates_coherent_write [OF ok, of tenant], rule template_rows_delete [where p = ?p])
         (use False in \<open>auto simp: delete_tenant_policy_template_def eff_simps drop_template_cache_def
             is_template_def Let_def\<close>)
  qed
qed

lemma get_templates_run:
  "\<exists>l. get_tenant_policy_templates c tenant page page_size redis w =
     (case load_templates c tenant redis w of
        (Inl e, w') \<Rightarrow> (Inl e, w')
      | (Inr ts, w') \<Rightarrow> (Inr \<lparr>tml_templates = sql_page (nat page_size) (nat (page_offset page page_size)) ts,
            tml_pagination = pagination_info page page_size (int (length ts))\<rparr>, w'\<lparr>w_log := l\<rparr>))"
  by (cases "load_templates c tenant redis w")
     (simp add: get_tenant_policy_templates_def eff_simps Let_def split: sum.splits, metis)

lemma load_templates_ok: "\<exists>ts w'. load_templates c tenant redis w = (Inr ts, w')"
  by (simp add: load_templates_run split: option.splits)

lemma templates_coherent_load:
  assumes "templates_coherent w"
  shows "fst (load_templates (TenantConn t) t True w) = Inr (template_rows OwnerConn t w)
    \<and> templates_coherent (snd (load_templates (TenantConn t) t True w))"
proof -
  have c: "\<forall>t ts. cached_templates w t = Some ts \<longrightarrow> ts = template_rows OwnerConn t w"
    using assms by (simp add: templates_coherent_def)
  obtain ts w' where "load_templates (TenantConn t) t True w = (Inr ts, w')"
    using load_templates_ok by blast
  then show ?thesis
    using template_cache.load_coherent [OF c, of t] by (simp add: templates_coherent_def)
qed

text \<open>With requests whose header names the tenant of their token, the template listing is never
  stale: creating, updating and deleting templates keep the cache equal to the table for every
  tenant, reading keeps it too, and a page read through the cache is that page of the table.\<close>

theorem template_listing_never_stale:
  "keeps templates_coherent (create_tenant_policy_template tid c tenant pid pols roles True)
   \<and> keeps templates_coherent (update_tenant_policy_template c tenant tid upols uroles True)
   \<and> keeps templates_coherent (delete_tenant_policy_template c tenant tid True)
   \<and> keeps templates_coherent (get_tenant_policy_templates (TenantConn tenant) tenant page psize True)
   \<and> (templates_coherent w \<longrightarrow>
        map_sum id tml_templates (fst (get_tenant_policy_templates (TenantConn tenant) tenant page psize True w))
          = Inr (sql_page (nat psize) (nat (page_offset page psize)) (template_rows OwnerConn tenant w)))"
proof (intro conjI impI)
  show "keeps templates_coherent (get_tenant_policy_templates (TenantConn tenant) tenant page psize True)"
  proof (rule keepsI)
    fix w
    assume "templates_coherent w"
    from templates_coherent_load [OF this, of tenant] get_templates_run [of "TenantConn tenant" tenant page psize True w]
    show "templates_coherent (snd (get_tenant_policy_templates (TenantConn tenant) tenant page psize True w))"
      by (cases "load_templates (TenantConn tenant) tenant True w")
         (auto intro: templates_coherent_same split: sum.splits)
  qed
next
  assume "templates_coherent w"
  from templates_coherent_load [OF this, of tenant] get_templates_run [of "TenantConn tenant" tenant page psize True w]
  show "map_sum id tml_templates (fst (get_tenant_policy_templates (TenantConn tenant) tenant page psize True w))
          = Inr (sql_page (nat psize) (nat (page_offset page psize)) (template_rows OwnerConn tenant w))"
    by (cases "load_templates (TenantConn tenant) tenant True w") auto
qed (rule keeps_create_template keeps_update_template keeps_delete_template)+

definition template_demo :: world where
  "template_demo = policy_demo\<lparr>w_templates :=
     [\<lparr>tp_id = ''m'', tp_tenant = ''t1'', tp_policies = [(''resource'', JStr ''doc'')], tp_roles = [],
       tp_created = 5, tp_modified = 5\<rparr>]\<rparr>"

theorem template_listing_never_stale_witness:
  "map_sum id tml_templates (fst (get_tenant_policy_templates (TenantConn ''t1'') ''t1'' 1 20 True template_demo))
     = Inr (w_templates template_demo)"
proof -
  have "templates_coherent template_demo"
    by (simp add: templates_coherent_def cached_templates_def template_demo_def policy_demo_def empty_world_def)
  moreover have "sql_page (nat 20) (nat (page_offset 1 20)) (template_rows OwnerConn ''t1'' template_demo) = w_templates template_demo"
    by (simp add: template_rows_def templates_of_def template_demo_def policy_demo_def sql_select_def
          sql_page_def page_offset_def)
  ultimately show ?thesis
    using template_listing_never_stale [where tenant = "''t1''" and page = 1 and psize = 20 and w = template_demo] by simp
qed

text \<open>A caller who sends another tenant's id in the header poisons the listing of the tenant of
  the token: row level security hides the rows, the empty list is cached under the tenant's key,
  and for thirty seconds requests with the right header are told that there are no templates.\<close>

theorem mismatched_header_poisons_templates:
  assumes "other \<noteq> tenant" "cached_templates w tenant = None"
    and "w' = snd (load_templates (TenantConn other) tenant True w)" "later < w_now w + 30"
  shows "fst (load_templates (TenantConn tenant) tenant True (w'\<lparr>w_now := later\<rparr>)) = Inr []"
  using assms
  by (simp add: load_templates_run template_rows_foreign)
     (simp add: load_templates_run cached_templates_def cache_simps)

theorem mismatched_header_poisons_templates_witness:
  "fst (load_templates (TenantConn ''t1'') ''t1'' True
     (snd (load_templates (TenantConn ''t2'') ''t1'' True template_demo)\<lparr>w_now := 129\<rparr>)) = Inr []"
  by (rule mismatched_header_poisons_templates [where w = template_demo and other = "''t2''"])
     (simp_all add: cached_templates_def template_demo_def policy_demo_def empty_world_def)

end
