(* ===== verification/Signing_Keys.thy ===== *)
theory Signing_Keys
  imports Iam_Store
begin

text \<open>
  The signing keys (app/core/signing_keys.py): the keyset file shared by the workers, each
  worker's in-memory copy of it, loading, rotation and pruning, the choice of keys for signing
  and verification, and a fleet of workers over one file as a step relation.

  PyJWT is a parameter (\<open>jwt_lib\<close>), described by \<open>jwt_law\<close>; key generation is an argument, the
  freshly generated record. Times are seconds. The file system's modification time is the time
  of the write. The lock file serialises writers, so a load-check-write under it is one step;
  the lock's own protocol (timeouts, breaking a stale lock) is not modelled.
\<close>

section \<open>PyJWT\<close>

record decode_opts =
  do_audience :: "string option"
  do_verify_aud :: bool
  do_verify_exp :: bool
  do_now :: int

record jwt_lib =
  jl_encode :: "json dict \<Rightarrow> string \<Rightarrow> string \<Rightarrow> json dict \<Rightarrow> exn + string"
  jl_header :: "string \<Rightarrow> exn + json dict"
  jl_decode :: "string \<Rightarrow> string \<Rightarrow> string \<Rightarrow> decode_opts \<Rightarrow> exn + json dict"
  jl_claims :: "decode_opts \<Rightarrow> json dict \<Rightarrow> exn option"
  jl_pair :: "string \<Rightarrow> string \<Rightarrow> bool"

text \<open>
  \<open>jl_encode payload key alg headers\<close>, \<open>jl_decode token key alg options\<close>; \<open>jl_claims\<close> is the check
  of the registered claims and \<open>jl_pair sk pk\<close> says that \<open>pk\<close> is the public half of \<open>sk\<close>. The law:
  the header of an encoded token carries the algorithm and the given headers; decoding with the
  algorithm and matching key of the encoding succeeds up to the claims check; with any other key
  or algorithm it is an invalid token.
\<close>

definition key_matches :: "jwt_lib \<Rightarrow> string \<Rightarrow> string \<Rightarrow> string \<Rightarrow> bool" where
  "key_matches L alg sk vk = (if alg = ''HS256'' then vk = sk else jl_pair L sk vk)"

definition header_carries :: "jwt_lib \<Rightarrow> string \<Rightarrow> json dict \<Rightarrow> string \<Rightarrow> bool" where
  "header_carries L a h t \<longleftrightarrow>
     (\<exists>hd. jl_header L t = Inr hd \<and> dget hd ''alg'' = Some (JStr a)
         \<and> (\<forall>x. x \<noteq> ''alg'' \<longrightarrow> x \<noteq> ''typ'' \<longrightarrow> dget hd x = dget h x))"

definition decodes_to :: "jwt_lib \<Rightarrow> json dict \<Rightarrow> string \<Rightarrow> string \<Rightarrow> string \<Rightarrow> bool" where
  "decodes_to L p k a t \<longleftrightarrow>
     (\<forall>k' a' opts. jl_decode L t k' a' opts =
          (if a' = a \<and> key_matches L a k k'
           then (case jl_claims L opts p of None \<Rightarrow> Inr p | Some e \<Rightarrow> Inl e)
           else Inl (JwtErr InvalidSignatureError)))"

definition jwt_law :: "jwt_lib \<Rightarrow> bool" where
  "jwt_law L \<longleftrightarrow> (\<forall>p k a h t. jl_encode L p k a h = Inr t \<longrightarrow> header_carries L a h t \<and> decodes_to L p k a t)"

lemma jwt_law_header: "jwt_law L \<Longrightarrow> jl_encode L p k a h = Inr t \<Longrightarrow> header_carries L a h t"
  and jwt_law_decode: "jwt_law L \<Longrightarrow> jl_encode L p k a h = Inr t \<Longrightarrow> decodes_to L p k a t"
  by (simp_all add: jwt_law_def)

lemma header_carries_get:
  assumes "header_carries L a h t" "x \<noteq> ''alg''" "x \<noteq> ''typ''"
  shows "\<exists>hd. jl_header L t = Inr hd \<and> dget hd ''alg'' = Some (JStr a) \<and> dget hd x = dget h x"
proof -
  from assms(1) obtain hd where "jl_header L t = Inr hd \<and> dget hd ''alg'' = Some (JStr a)
     \<and> (\<forall>x. x \<noteq> ''alg'' \<longrightarrow> x \<noteq> ''typ'' \<longrightarrow> dget hd x = dget h x)"
    unfolding header_carries_def by (rule exE)
  with assms(2,3) show ?thesis by (intro exI [of _ hd]) simp
qed

section \<open>Keys, keysets and managers\<close>

record key_record =
  kr_kid :: string
  kr_created :: int
  kr_private :: string
  kr_public :: string

record key_state =
  ks_algorithm :: string
  ks_active :: string
  ks_keys :: "key_record list"

record manager =
  km_algorithm :: string
  km_secret :: string
  km_rotation_enabled :: bool
  km_rotation_interval :: int
  km_retention :: int
  km_check_interval :: int
  km_state :: "key_state option"
  km_mtime :: "int option"
  km_last_check :: int

definition supported_algorithms :: "string list" where
  "supported_algorithms = [''HS256'', ''RS256'', ''ES256'']"

definition make_manager ::
    "string option \<Rightarrow> string option \<Rightarrow> bool \<Rightarrow> int \<Rightarrow> int \<Rightarrow> int \<Rightarrow> exn + manager" where
  "make_manager algorithm secret rot interval retention check =
     (let alg = py_upper (if ostr_true algorithm then the algorithm else ''HS256'');
          sec = (case secret of None \<Rightarrow> [] | Some s \<Rightarrow> s) in
      if alg \<notin> set supported_algorithms
      then Inl (PyErr (ValueError (''Unsupported JWT algorithm: '' @ alg)))
      else if alg = ''HS256'' \<and> sec = []
      then Inl (PyErr (ValueError ''JWT_SECRET must be configured for HS256 signing''))
      else Inr \<lparr>km_algorithm = alg, km_secret = sec, km_rotation_enabled = rot,
                km_rotation_interval = interval, km_retention = retention,
                km_check_interval = max check 1, km_state = None, km_mtime = None, km_last_check = 0\<rparr>)"

definition uses_asymmetric_keys :: "manager \<Rightarrow> bool" where
  "uses_asymmetric_keys m \<longleftrightarrow> km_algorithm m = ''RS256'' \<or> km_algorithm m = ''ES256''"

type_synonym keyfile = "(key_state \<times> int) option"

type_synonym 'a keys = "(exn, manager \<times> keyfile, 'a) eff"

text \<open>The instant of a call: wall clock, monotonic clock, and the key that would be generated.\<close>

record instant =
  in_wall :: int
  in_mono :: int
  in_fresh :: key_record

definition load_state_from_disk :: "unit keys" where
  "load_state_from_disk = (\<lambda>(m, f).
     case f of
       None \<Rightarrow> (Inl (PyErr OtherError), (m, f))
     | Some (st, mt) \<Rightarrow>
         if ks_algorithm st \<noteq> km_algorithm m
         then (Inl (PyErr (ValueError ''Keyset algorithm does not match configured signer'')), (m, f))
         else (Inr (), (m\<lparr>km_state := Some st, km_mtime := Some mt\<rparr>, f)))"

definition write_state :: "int \<Rightarrow> key_state \<Rightarrow> unit keys" where
  "write_state now st = (\<lambda>(m, f). (Inr (), (m\<lparr>km_state := Some st, km_mtime := Some now\<rparr>, Some (st, now))))"

definition generate_key :: "instant \<Rightarrow> key_record" where
  "generate_key i = (in_fresh i)\<lparr>kr_created := in_wall i\<rparr>"

definition build_initial_state :: "instant \<Rightarrow> string \<Rightarrow> key_state" where
  "build_initial_state i alg =
     (let k = generate_key i in \<lparr>ks_algorithm = alg, ks_active = kr_kid k, ks_keys = [k]\<rparr>)"

definition ensure_state_loaded :: "instant \<Rightarrow> unit keys" where
  "ensure_state_loaded i = (\<lambda>(m, f).
     case f of
       Some (st, mt) \<Rightarrow>
         if km_state m = None \<or> km_mtime m \<noteq> Some mt then load_state_from_disk (m, f) else (Inr (), (m, f))
     | None \<Rightarrow> write_state (in_wall i) (build_initial_state i (km_algorithm m)) (m, f))"

definition active_key :: "key_state \<Rightarrow> exn + key_record" where
  "active_key st =
     (case find (\<lambda>k. kr_kid k = ks_active st) (ks_keys st) of
        None \<Rightarrow> Inl (PyErr (ValueError ''Active signing key is missing from keyset''))
      | Some k \<Rightarrow> Inr k)"

text \<open>The manager's own copy; Python subscripts \<open>None\<close> when nothing is loaded.\<close>

definition active_key_of :: "manager \<Rightarrow> exn + key_record" where
  "active_key_of m = (case km_state m of None \<Rightarrow> Inl (PyErr TypeError) | Some st \<Rightarrow> active_key st)"

definition prune_keys :: "int \<Rightarrow> int \<Rightarrow> string \<Rightarrow> key_record list \<Rightarrow> key_record list" where
  "prune_keys now retention active ks =
     (let cutoff = now - max retention 0 in
      filter (\<lambda>k. kr_kid k = active \<or> cutoff \<le> kr_created k) ks)"

definition rotated_state :: "instant \<Rightarrow> manager \<Rightarrow> key_state \<Rightarrow> key_state" where
  "rotated_state i m st =
     (let k = generate_key i in
      st\<lparr>ks_active := kr_kid k,
         ks_keys := prune_keys (in_wall i) (km_retention m) (kr_kid k) (ks_keys st @ [k])\<rparr>)"

text \<open>The part under the file lock: reload, look again at the age, then rotate.\<close>

definition rotate_locked :: "instant \<Rightarrow> unit keys" where
  "rotate_locked i =
     ethen load_state_from_disk
     (ebind (eget fst) (\<lambda>m.
      ebind (elift (active_key_of m)) (\<lambda>k.
      if in_wall i - kr_created k < km_rotation_interval m then eret ()
      else (case km_state m of None \<Rightarrow> eraise (PyErr TypeError)
            | Some st \<Rightarrow> write_state (in_wall i) (rotated_state i m st)))))"

definition maybe_rotate :: "instant \<Rightarrow> unit keys" where
  "maybe_rotate i = (\<lambda>(m, f).
     if \<not> km_rotation_enabled m \<or> km_rotation_interval m \<le> 0 then (Inr (), (m, f))
     else if in_mono i - km_last_check m < km_check_interval m then (Inr (), (m, f))
     else
       (let m' = m\<lparr>km_last_check := in_mono i\<rparr> in
        case active_key_of m' of
          Inl e \<Rightarrow> (Inl e, (m', f))
        | Inr k \<Rightarrow>
            if in_wall i - kr_created k < km_rotation_interval m' then (Inr (), (m', f))
            else rotate_locked i (m', f)))"

definition ensure_ready :: "instant \<Rightarrow> unit keys" where
  "ensure_ready i =
     ebind (eget fst) (\<lambda>m. if uses_asymmetric_keys m then ethen (ensure_state_loaded i) (maybe_rotate i) else eret ())"

definition candidate_keys :: "string option \<Rightarrow> manager \<Rightarrow> key_record list" where
  "candidate_keys kid m =
     (case km_state m of None \<Rightarrow> []
      | Some st \<Rightarrow>
          (let matches = filter (\<lambda>k. Some (kr_kid k) = kid) (ks_keys st) in
           if ostr_true kid \<and> matches \<noteq> [] then matches else ks_keys st))"

section \<open>Signing and verifying\<close>

definition oor :: "string option \<Rightarrow> string \<Rightarrow> string" where
  "oor v d = (if ostr_true v then the v else d)"

definition sign_token ::
    "jwt_lib \<Rightarrow> instant \<Rightarrow> json dict \<Rightarrow> json dict \<Rightarrow> string option \<Rightarrow> string option \<Rightarrow> string keys" where
  "sign_token L i payload headers algorithm secret =
     ebind (eget fst) (\<lambda>m.
     let alg = py_upper (oor algorithm (km_algorithm m)) in
     if alg = ''HS256'' then elift (jl_encode L payload (oor secret (km_secret m)) alg headers)
     else if alg \<noteq> km_algorithm m
     then eraise (PyErr (ValueError ''Configured signer uses another algorithm''))
     else ethen (ensure_ready i)
         (ebind (eget fst) (\<lambda>m'.
          ebind (elift (active_key_of m')) (\<lambda>k.
          elift (jl_encode L payload (kr_private k) alg (dset ''kid'' (JStr (kr_kid k)) headers))))))"

definition header_str :: "json dict \<Rightarrow> string \<Rightarrow> string option" where
  "header_str h k = (case dget h k of Some (JStr s) \<Rightarrow> Some s | _ \<Rightarrow> None)"

text \<open>Trying the candidates in turn; the error of the last one is raised when none fits.\<close>

fun try_candidates :: "jwt_lib \<Rightarrow> string \<Rightarrow> string \<Rightarrow> decode_opts \<Rightarrow> exn option \<Rightarrow> key_record list \<Rightarrow> exn + json dict" where
  "try_candidates L t alg opts err [] =
     Inl (case err of None \<Rightarrow> JwtErr OtherInvalidTokenError | Some e \<Rightarrow> e)"
| "try_candidates L t alg opts err (k # ks) =
     (case jl_decode L t (kr_public k) alg opts of
        Inr p \<Rightarrow> Inr p
      | Inl e \<Rightarrow> (case e of JwtErr je \<Rightarrow>
                     (if je = InvalidKeyError then Inl e else try_candidates L t alg opts (Some e) ks)
                  | _ \<Rightarrow> Inl e))"

definition decode_token ::
    "jwt_lib \<Rightarrow> instant \<Rightarrow> string \<Rightarrow> decode_opts \<Rightarrow> string option \<Rightarrow> string option \<Rightarrow> json dict keys" where
  "decode_token L i t opts algorithm secret =
     ebind (eget fst) (\<lambda>m.
     ebind (elift (jl_header L t)) (\<lambda>h.
     let alg = py_upper (oor algorithm (oor (header_str h ''alg'') (km_algorithm m))) in
     if alg = ''HS256'' then elift (jl_decode L t (oor secret (km_secret m)) alg opts)
     else if alg \<noteq> km_algorithm m then eraise (JwtErr OtherInvalidTokenError)
     else ethen (ensure_ready i)
         (ebind (eget fst) (\<lambda>m'.
          elift (try_candidates L t alg opts None (candidate_keys (header_str h ''kid'') m'))))))"

text \<open>The published keys: ids and public halves.\<close>

definition jwks :: "instant \<Rightarrow> (string \<times> string) list keys" where
  "jwks i =
     ebind (eget fst) (\<lambda>m.
     if \<not> uses_asymmetric_keys m then eret []
     else ethen (ensure_ready i)
         (ebind (eget fst) (\<lambda>m'. case km_state m' of None \<Rightarrow> eraise (PyErr TypeError)
            | Some st \<Rightarrow> eret (map (\<lambda>k. (kr_kid k, kr_public k)) (ks_keys st)))))"

section \<open>The keyset invariant\<close>

text \<open>
  A keyset is usable when it contains its active key; a manager's copy is current when it was read
  at the file's modification time.
\<close>

definition keyset_ok :: "key_state \<Rightarrow> bool" where
  "keyset_ok st \<longleftrightarrow> (\<exists>k \<in> set (ks_keys st). kr_kid k = ks_active st)"

lemma active_key_ok:
  assumes "keyset_ok st"
  shows "\<exists>k. active_key st = Inr k \<and> k \<in> set (ks_keys st) \<and> kr_kid k = ks_active st"
proof -
  have "sql_row (\<lambda>k. kr_kid k = ks_active st) (ks_keys st) \<noteq> None"
    using assms by (auto simp: keyset_ok_def sql_row_None)
  then obtain k where k: "sql_row (\<lambda>k. kr_kid k = ks_active st) (ks_keys st) = Some k" by auto
  with sql_row_Some [OF k] show ?thesis by (simp add: active_key_def sql_row_def)
qed

lemma build_initial_ok [simp]: "keyset_ok (build_initial_state i alg)"
  by (simp add: keyset_ok_def build_initial_state_def Let_def)

lemma rotated_ok [simp]: "keyset_ok (rotated_state i m st)"
  by (auto simp: keyset_ok_def rotated_state_def prune_keys_def Let_def)

text \<open>
  File and manager agree: what the file holds is usable and of the manager's algorithm, no copy is
  newer than the file, a copy of the file's time is the file, and the file was written when its
  active key was made, in the past.
\<close>

definition file_ok :: "string \<Rightarrow> int \<Rightarrow> keyfile \<Rightarrow> bool" where
  "file_ok alg now f \<longleftrightarrow> (case f of None \<Rightarrow> True
     | Some (st, mt) \<Rightarrow> keyset_ok st \<and> ks_algorithm st = alg \<and> mt \<le> now
         \<and> (\<exists>k. active_key st = Inr k \<and> kr_created k = mt))"

definition copy_ok :: "keyfile \<Rightarrow> manager \<Rightarrow> bool" where
  "copy_ok f m \<longleftrightarrow> (case km_mtime m of
       None \<Rightarrow> km_state m = None
     | Some t \<Rightarrow> km_state m \<noteq> None \<and> (case f of None \<Rightarrow> False
         | Some (st, mt) \<Rightarrow> t \<le> mt \<and> (t = mt \<longrightarrow> km_state m = Some st)))"

text \<open>Same configuration.\<close>

definition same_config :: "manager \<Rightarrow> manager \<Rightarrow> bool" where
  "same_config m m' \<longleftrightarrow> km_algorithm m' = km_algorithm m \<and> km_secret m' = km_secret m
     \<and> km_rotation_enabled m' = km_rotation_enabled m \<and> km_rotation_interval m' = km_rotation_interval m
     \<and> km_retention m' = km_retention m \<and> km_check_interval m' = km_check_interval m"

text \<open>The file only moves forward in time.\<close>

definition file_le :: "keyfile \<Rightarrow> keyfile \<Rightarrow> bool" where
  "file_le f f' \<longleftrightarrow> (case f of None \<Rightarrow> True | Some (st, mt) \<Rightarrow>
     (case f' of None \<Rightarrow> False | Some (st', mt') \<Rightarrow> mt < mt' \<or> (mt = mt' \<and> st = st')))"

lemma file_le_refl [simp]: "file_le f f"
  by (auto simp: file_le_def split: option.splits)

lemma copy_ok_forward:
  assumes "copy_ok f m" "file_le f f'"
  shows "copy_ok f' m"
  using assms by (cases f; cases f') (auto simp: copy_ok_def file_le_def split: option.splits)

lemma active_build [simp]: "active_key (build_initial_state i alg) = Inr (generate_key i)"
  by (simp add: active_key_def build_initial_state_def Let_def)

lemma generate_created [simp]: "kr_created (generate_key i) = in_wall i"
  by (simp add: generate_key_def)

text \<open>A fresh key has an id of its own.\<close>

definition fresh_for :: "instant \<Rightarrow> key_state \<Rightarrow> bool" where
  "fresh_for i st \<longleftrightarrow> (\<forall>k \<in> set (ks_keys st). kr_kid k \<noteq> kr_kid (in_fresh i))"

lemma kid_generate [simp]: "kr_kid (generate_key i) = kr_kid (in_fresh i)"
  by (simp add: generate_key_def)

lemma find_append: "find P (xs @ ys) = (case find P xs of None \<Rightarrow> find P ys | Some x \<Rightarrow> Some x)"
  by (induction xs) auto

lemma active_rotated:
  assumes "fresh_for i st"
  shows "active_key (rotated_state i m st) = Inr (generate_key i)"
proof -
  have "find (\<lambda>k. kr_kid k = kr_kid (in_fresh i)) (filter P (ks_keys st)) = None" for P
    using assms by (auto simp: find_None_iff fresh_for_def)
  then show ?thesis
    by (simp add: active_key_def rotated_state_def prune_keys_def Let_def find_append)
qed

lemma load_run:
  "load_state_from_disk (m, Some (st, mt)) =
     (if ks_algorithm st = km_algorithm m then (Inr (), (m\<lparr>km_state := Some st, km_mtime := Some mt\<rparr>, Some (st, mt)))
      else (Inl (PyErr (ValueError ''Keyset algorithm does not match configured signer'')), (m, Some (st, mt))))"
  by (simp add: load_state_from_disk_def)

lemma ensure_loaded:
  assumes "file_ok (km_algorithm m) (in_wall i) f" "copy_ok f m"
  obtains m' st mt where "ensure_state_loaded i (m, f) = (Inr (), (m', Some (st, mt)))"
    "km_state m' = Some st" "km_mtime m' = Some mt" "same_config m m'" "km_last_check m' = km_last_check m"
    "file_ok (km_algorithm m) (in_wall i) (Some (st, mt))" "file_le f (Some (st, mt))"
    "f \<noteq> None \<Longrightarrow> f = Some (st, mt)"
proof (cases f)
  case None
  have "ks_algorithm (build_initial_state i (km_algorithm m)) = km_algorithm m"
    by (simp add: build_initial_state_def Let_def)
  with None that [of "m\<lparr>km_state := Some (build_initial_state i (km_algorithm m)), km_mtime := Some (in_wall i)\<rparr>"
      "build_initial_state i (km_algorithm m)" "in_wall i"] show ?thesis
    by (simp add: ensure_state_loaded_def write_state_def same_config_def file_ok_def file_le_def)
next
  case (Some p)
  obtain st mt where p: "p = (st, mt)" by (cases p)
  have alg: "ks_algorithm st = km_algorithm m" using assms(1) Some p by (simp add: file_ok_def)
  have ok: "file_ok (km_algorithm m) (in_wall i) (Some (st, mt))" using assms(1) Some p by simp
  show ?thesis
  proof (cases "km_state m = None \<or> km_mtime m \<noteq> Some mt")
    case True
    then have "ensure_state_loaded i (m, f) = (Inr (), (m\<lparr>km_state := Some st, km_mtime := Some mt\<rparr>, Some (st, mt)))"
      using Some p alg by (auto simp: ensure_state_loaded_def load_run)
    then show ?thesis
      by (rule that) (use ok Some p in \<open>simp_all add: same_config_def\<close>)
  next
    case False
    then have "ensure_state_loaded i (m, f) = (Inr (), (m, Some (st, mt)))"
      using Some p by (auto simp: ensure_state_loaded_def)
    moreover have "km_state m = Some st" "km_mtime m = Some mt"
      using False assms(2) Some p by (auto simp: copy_ok_def)
    ultimately show ?thesis
      by (rule that) (use ok Some p in \<open>simp_all add: same_config_def\<close>)
  qed
qed

text \<open>The keyset a rotation step leaves behind: the old one or the rotated one.\<close>

lemma maybe_rotate_run:
  assumes "km_state m = Some st" "km_mtime m = Some mt" "file_ok (km_algorithm m) (in_wall i) (Some (st, mt))"
    and "fresh_for i st"
  obtains m' st' mt' where "maybe_rotate i (m, Some (st, mt)) = (Inr (), (m', Some (st', mt')))"
    "km_state m' = Some st'" "km_mtime m' = Some mt'" "same_config m m'"
    "st' = st \<and> mt' = mt
     \<or> st' = rotated_state i m st \<and> mt' = in_wall i \<and> km_rotation_enabled m \<and> 0 < km_rotation_interval m
       \<and> km_rotation_interval m \<le> in_wall i - mt"
proof -
  obtain k where k: "active_key st = Inr k" "kr_created k = mt" and alg: "ks_algorithm st = km_algorithm m"
    using assms(3) by (auto simp: file_ok_def)
  let ?m = "m\<lparr>km_last_check := in_mono i\<rparr>"
  have rs: "rotated_state i ?m st = rotated_state i m st" by (simp add: rotated_state_def)
  have rl: "rotate_locked i (?m, Some (st, mt)) =
     (if in_wall i - mt < km_rotation_interval m
      then (Inr (), (?m\<lparr>km_state := Some st, km_mtime := Some mt\<rparr>, Some (st, mt)))
      else (Inr (), (?m\<lparr>km_state := Some (rotated_state i m st), km_mtime := Some (in_wall i)\<rparr>,
                     Some (rotated_state i m st, in_wall i))))"
    using k alg
    by (simp add: rotate_locked_def eff_simps load_run active_key_of_def write_state_def rotated_state_def)
  consider (off) "\<not> km_rotation_enabled m \<or> km_rotation_interval m \<le> 0"
    | (early) "km_rotation_enabled m" "0 < km_rotation_interval m" "in_mono i - km_last_check m < km_check_interval m"
    | (young) "km_rotation_enabled m" "0 < km_rotation_interval m" "\<not> in_mono i - km_last_check m < km_check_interval m"
        "in_wall i - mt < km_rotation_interval m"
    | (old) "km_rotation_enabled m" "0 < km_rotation_interval m" "\<not> in_mono i - km_last_check m < km_check_interval m"
        "\<not> in_wall i - mt < km_rotation_interval m" by linarith
  then show ?thesis
  proof cases
    case off
    with assms(1,2) that [of m st mt] show ?thesis by (simp add: maybe_rotate_def same_config_def)
  next
    case early
    with assms(1,2) that [of m st mt] show ?thesis by (simp add: maybe_rotate_def same_config_def)
  next
    case young
    with assms(1,2) k that [of ?m st mt] show ?thesis
      by (simp add: maybe_rotate_def same_config_def active_key_of_def Let_def)
  next
    case old
    with assms(1) k rl
    have "maybe_rotate i (m, Some (st, mt)) =
       (Inr (), (?m\<lparr>km_state := Some (rotated_state i m st), km_mtime := Some (in_wall i)\<rparr>,
                 Some (rotated_state i m st, in_wall i)))"
      by (simp add: maybe_rotate_def active_key_of_def Let_def)
    with old show ?thesis
      by (intro that [of "?m\<lparr>km_state := Some (rotated_state i m st), km_mtime := Some (in_wall i)\<rparr>"
            "rotated_state i m st" "in_wall i"]) (simp_all add: same_config_def)
  qed
qed

text \<open>
  \<open>ensure_ready\<close> of an asymmetric manager never fails on a good file: afterwards the copy is the
  file, the file is good, and it has only moved forward.
\<close>

definition fresh_file :: "instant \<Rightarrow> keyfile \<Rightarrow> bool" where
  "fresh_file i f \<longleftrightarrow> (case f of None \<Rightarrow> True | Some (st, mt) \<Rightarrow> fresh_for i st)"

lemma ks_algorithm_rotated [simp]: "ks_algorithm (rotated_state i m st) = ks_algorithm st"
  by (simp add: rotated_state_def Let_def)

text \<open>What becomes of the keyset \<open>st\<close> of a file when it exists.\<close>

definition keyset_step :: "instant \<Rightarrow> manager \<Rightarrow> key_state \<Rightarrow> int \<Rightarrow> key_state \<Rightarrow> bool" where
  "keyset_step i m st mt st' \<longleftrightarrow> st' = st
     \<or> st' = rotated_state i m st \<and> 0 < km_rotation_interval m \<and> km_rotation_interval m \<le> in_wall i - mt"

lemma ensure_ready_run:
  assumes "uses_asymmetric_keys m" "file_ok (km_algorithm m) (in_wall i) f" "copy_ok f m" "fresh_file i f"
    and "f = None \<longrightarrow> 0 < km_rotation_interval m"
  obtains m' st mt where "ensure_ready i (m, f) = (Inr (), (m', Some (st, mt)))"
    "km_state m' = Some st" "km_mtime m' = Some mt" "same_config m m'"
    "file_ok (km_algorithm m) (in_wall i) (Some (st, mt))" "file_le f (Some (st, mt))"
    "case f of None \<Rightarrow> True | Some (st0, mt0) \<Rightarrow> keyset_step i m st0 mt0 st"
proof -
  obtain m1 st mt where e: "ensure_state_loaded i (m, f) = (Inr (), (m1, Some (st, mt)))"
    "km_state m1 = Some st" "km_mtime m1 = Some mt" "same_config m m1"
    "file_ok (km_algorithm m) (in_wall i) (Some (st, mt))" "file_le f (Some (st, mt))"
    "f \<noteq> None \<Longrightarrow> f = Some (st, mt)"
    using ensure_loaded [OF assms(2,3)] by metis
  have alg: "km_algorithm m1 = km_algorithm m" "km_rotation_interval m1 = km_rotation_interval m"
    "km_retention m1 = km_retention m"
    using e(4) by (simp_all add: same_config_def)
  show ?thesis
  proof (cases f)
    case None
    then have fresh: "mt = in_wall i" "active_key st = Inr (generate_key i)"
      using e(1) by (auto simp: ensure_state_loaded_def write_state_def)
    have "maybe_rotate i (m1, Some (st, mt)) = (Inr (), (m1, Some (st, mt)))
        \<or> maybe_rotate i (m1, Some (st, mt)) = (Inr (), (m1\<lparr>km_last_check := in_mono i\<rparr>, Some (st, mt)))"
      using fresh e(2) assms(5) None alg(2)
      by (simp add: maybe_rotate_def active_key_of_def Let_def)
    then obtain m2 where m2: "maybe_rotate i (m1, Some (st, mt)) = (Inr (), (m2, Some (st, mt)))"
      "km_state m2 = km_state m1" "km_mtime m2 = km_mtime m1" "same_config m1 m2"
      by (elim disjE) (simp_all add: same_config_def)
    have "ensure_ready i (m, f) = (Inr (), (m2, Some (st, mt)))"
      using assms(1) e(1) m2(1) by (simp add: ensure_ready_def eff_simps)
    moreover have "same_config m m2" using e(4) m2(4) by (simp add: same_config_def)
    ultimately show ?thesis
      using m2 e None by (intro that [of m2 st mt]) simp_all
  next
    case (Some p)
    then have f: "f = Some (st, mt)" using e(7) by simp
    then have "fresh_for i st" using assms(4) by (simp add: fresh_file_def)
    have ok1: "file_ok (km_algorithm m1) (in_wall i) (Some (st, mt))" using e(5) alg(1) by simp
    obtain m' st' mt' where r: "maybe_rotate i (m1, Some (st, mt)) = (Inr (), (m', Some (st', mt')))"
      "km_state m' = Some st'" "km_mtime m' = Some mt'" "same_config m1 m'"
      "st' = st \<and> mt' = mt
       \<or> st' = rotated_state i m1 st \<and> mt' = in_wall i \<and> km_rotation_enabled m1 \<and> 0 < km_rotation_interval m1
         \<and> km_rotation_interval m1 \<le> in_wall i - mt"
      by (rule maybe_rotate_run [OF e(2,3) ok1 \<open>fresh_for i st\<close>]) (rule that)
    have rs: "rotated_state i m1 st = rotated_state i m st" using alg(3) by (simp add: rotated_state_def)
    have run: "ensure_ready i (m, f) = (Inr (), (m', Some (st', mt')))"
      using assms(1) e(1) r(1) by (simp add: ensure_ready_def eff_simps)
    have ok: "file_ok (km_algorithm m) (in_wall i) (Some (st', mt'))"
      using r(5) e(5) rs active_rotated [OF \<open>fresh_for i st\<close>, of m] by (auto simp: file_ok_def)
    have le: "file_le f (Some (st', mt'))" using r(5) f by (auto simp: file_le_def)
    have "same_config m m'" using e(4) r(4) by (simp add: same_config_def)
    then show ?thesis
      by (rule that [OF run r(2,3) _ ok le]) (use f r(5) rs alg in \<open>auto simp: keyset_step_def\<close>)
  qed
qed

section \<open>A fleet of workers over one keyset file\<close>

record fleet =
  fl_now :: int
  fl_file :: keyfile
  fl_workers :: "nat \<Rightarrow> manager"

text \<open>
  Time passes; a worker makes sure it is ready (on its rotation task, or when it signs, verifies
  or publishes keys), its wall clock being the fleet's, with a key id that was never used; a
  worker restarts with an empty memory.
\<close>

definition restarted :: "manager \<Rightarrow> manager" where
  "restarted m = m\<lparr>km_state := None, km_mtime := None, km_last_check := 0\<rparr>"

inductive fleet_step :: "fleet \<Rightarrow> fleet \<Rightarrow> bool" where
  tick: "0 \<le> d \<Longrightarrow> fleet_step F (F\<lparr>fl_now := fl_now F + d\<rparr>)"
| ready: "in_wall i = fl_now F \<Longrightarrow> fresh_file i (fl_file F) \<Longrightarrow>
     ensure_ready i (fl_workers F n, fl_file F) = (Inr (), (m, f)) \<Longrightarrow>
     fleet_step F (F\<lparr>fl_file := f, fl_workers := (fl_workers F)(n := m)\<rparr>)"
| restart: "fleet_step F (F\<lparr>fl_workers := (fl_workers F)(n := restarted (fl_workers F n))\<rparr>)"

text \<open>The configuration every worker of the deployment shares.\<close>

definition configured :: "string \<Rightarrow> int \<Rightarrow> int \<Rightarrow> manager \<Rightarrow> bool" where
  "configured alg interval retention m \<longleftrightarrow>
     km_algorithm m = alg \<and> km_rotation_interval m = interval \<and> km_retention m = retention"

inductive fleet_reach :: "string \<Rightarrow> int \<Rightarrow> int \<Rightarrow> fleet \<Rightarrow> bool" for alg interval retention where
  init: "alg \<in> {''RS256'', ''ES256''} \<Longrightarrow> 0 < interval \<Longrightarrow> fl_file F = None \<Longrightarrow>
     (\<forall>n. configured alg interval retention (fl_workers F n) \<and> km_state (fl_workers F n) = None
        \<and> km_mtime (fl_workers F n) = None) \<Longrightarrow> fleet_reach alg interval retention F"
| step: "fleet_reach alg interval retention F \<Longrightarrow> fleet_step F F' \<Longrightarrow> fleet_reach alg interval retention F'"

definition fleet_ok :: "string \<Rightarrow> int \<Rightarrow> int \<Rightarrow> fleet \<Rightarrow> bool" where
  "fleet_ok alg interval retention F \<longleftrightarrow> alg \<in> {''RS256'', ''ES256''} \<and> 0 < interval
     \<and> file_ok alg (fl_now F) (fl_file F)
     \<and> (\<forall>n. configured alg interval retention (fl_workers F n) \<and> copy_ok (fl_file F) (fl_workers F n))"

lemma fleet_ok_step:
  assumes "fleet_step F F'" "fleet_ok alg interval retention F"
  shows "fleet_ok alg interval retention F'"
  using assms
proof (induction rule: fleet_step.induct)
  case (tick d F)
  then show ?case by (auto simp: fleet_ok_def file_ok_def split: option.splits)
next
  case (ready i F n m f)
  let ?w = "fl_workers F n"
  have w: "configured alg interval retention ?w" "copy_ok (fl_file F) ?w"
    and base: "alg \<in> {''RS256'', ''ES256''}" "0 < interval" "file_ok alg (fl_now F) (fl_file F)"
    using ready(4) by (auto simp: fleet_ok_def)
  have as: "uses_asymmetric_keys ?w" "km_algorithm ?w = alg" "km_rotation_interval ?w = interval"
    using w(1) base(1) by (auto simp: configured_def uses_asymmetric_keys_def)
  obtain m' st mt where r: "ensure_ready i (?w, fl_file F) = (Inr (), (m', Some (st, mt)))"
    "km_state m' = Some st" "km_mtime m' = Some mt" "same_config ?w m'"
    "file_ok (km_algorithm ?w) (in_wall i) (Some (st, mt))" "file_le (fl_file F) (Some (st, mt))"
    using ensure_ready_run [of ?w i "fl_file F"] as w(2) base ready(1,2) by metis
  have eq: "m = m'" "f = Some (st, mt)" using r(1) ready(3) by auto
  have "copy_ok f (fl_workers F k)" for k
    using copy_ok_forward [OF _ r(6)] ready(4) eq by (simp add: fleet_ok_def)
  moreover have "copy_ok f m" using r(2,3) eq by (simp add: copy_ok_def)
  moreover have "configured alg interval retention m"
    using r(4) w(1) eq by (simp add: same_config_def configured_def)
  ultimately show ?case
    using base r(5) as(2) ready(1,4) eq by (simp add: fleet_ok_def)
next
  case (restart F n)
  then show ?case by (auto simp: fleet_ok_def restarted_def configured_def copy_ok_def)
qed

lemma fleet_ok_reach: "fleet_reach alg interval retention F \<Longrightarrow> fleet_ok alg interval retention F"
proof (induction rule: fleet_reach.induct)
  case (init F)
  then show ?case by (auto simp: fleet_ok_def file_ok_def copy_ok_def)
next
  case (step F F')
  then show ?case by (blast intro: fleet_ok_step)
qed

section \<open>Properties\<close>

text \<open>A library that knows a fixed table of tokens: \<open>(token, payload, key, algorithm, headers)\<close>.\<close>

type_synonym jwt_table = "(string \<times> json dict \<times> string \<times> string \<times> json dict) list"

definition table_jwt :: "jwt_table \<Rightarrow> (string \<times> string) list \<Rightarrow> jwt_lib" where
  "table_jwt tbl pairs =
     \<lparr>jl_encode = (\<lambda>p k a h. case find (\<lambda>(t, e). e = (p, k, a, h)) tbl of
                     None \<Rightarrow> Inl (PyErr OtherError) | Some (t, e) \<Rightarrow> Inr t),
      jl_header = (\<lambda>t. case map_of tbl t of None \<Rightarrow> Inl (JwtErr DecodeError)
                     | Some (p, k, a, h) \<Rightarrow> Inr ((''alg'', JStr a) # filter (\<lambda>x. fst x \<noteq> ''alg'') h)),
      jl_decode = (\<lambda>t k' a' opts. case map_of tbl t of None \<Rightarrow> Inl (JwtErr DecodeError)
                     | Some (p, k, a, h) \<Rightarrow>
                         if a' = a \<and> (if a = ''HS256'' then k' = k else (k, k') \<in> set pairs)
                         then (case (case dget p ''exp'' of Some (JInt e) \<Rightarrow>
                                       if do_verify_exp opts \<and> e \<le> do_now opts then Some (JwtErr ExpiredSignatureError) else None
                                     | _ \<Rightarrow> None) of None \<Rightarrow> Inr p | Some e \<Rightarrow> Inl e)
                         else Inl (JwtErr InvalidSignatureError)),
      jl_claims = (\<lambda>opts p. case dget p ''exp'' of Some (JInt e) \<Rightarrow>
                     if do_verify_exp opts \<and> e \<le> do_now opts then Some (JwtErr ExpiredSignatureError) else None
                   | _ \<Rightarrow> None),
      jl_pair = (\<lambda>sk pk. (sk, pk) \<in> set pairs)\<rparr>"

lemma map_of_find:
  assumes "distinct (map fst tbl)" "find (\<lambda>(t, e). e = x) tbl = Some (t, e)"
  shows "map_of tbl t = Some x"
proof -
  have "(t, e) \<in> set tbl \<and> e = x"
    using assms(2) sql_row_Some [of "\<lambda>(t, e). e = x" tbl "(t, e)"] by (auto simp: sql_row_def)
  with assms(1) show ?thesis by auto
qed

lemma dget_filter: "k \<noteq> k' \<Longrightarrow> dget (filter (\<lambda>x. fst x \<noteq> k') h) k = dget h k"
  by (induction h) (auto simp: dget_def)

lemma jwt_law_table:
  assumes "distinct (map fst tbl)"
  shows "jwt_law (table_jwt tbl pairs)"
  unfolding jwt_law_def
proof (intro allI impI)
  fix p k a h t
  assume "jl_encode (table_jwt tbl pairs) p k a h = Inr t"
  then obtain e where "find (\<lambda>(t, e). e = (p, k, a, h)) tbl = Some (t, e)"
    by (auto simp: table_jwt_def split: option.splits prod.splits)
  then have m: "map_of tbl t = Some (p, k, a, h)" by (rule map_of_find [OF assms])
  have "header_carries (table_jwt tbl pairs) a h t"
    using m dget_filter [of _ "''alg''" h]
    by (auto simp: header_carries_def table_jwt_def) (auto simp: dget_def)
  moreover have "decodes_to (table_jwt tbl pairs) p k a t"
    using m by (simp add: decodes_to_def table_jwt_def key_matches_def)
  ultimately show "header_carries (table_jwt tbl pairs) a h t \<and> decodes_to (table_jwt tbl pairs) p k a t" ..
qed

text \<open>C8. In every reachable state of a fleet of workers that share one keyset file, whatever they
  do and however often they restart, a worker that makes itself ready succeeds, and then its copy
  is the file's keyset, which contains its active key: workers never sign with different active
  keys at the same time, and the lookup of the active key cannot fail.\<close>

theorem ready_workers_agree:
  assumes "fleet_reach alg interval retention F" "in_wall i = fl_now F" "fresh_file i (fl_file F)"
  shows "\<exists>m st mt k. ensure_ready i (fl_workers F n, fl_file F) = (Inr (), (m, Some (st, mt)))
     \<and> km_state m = Some st \<and> active_key_of m = Inr k \<and> k \<in> set (ks_keys st) \<and> kr_kid k = ks_active st"
proof -
  let ?w = "fl_workers F n"
  have ok: "fleet_ok alg interval retention F" by (rule fleet_ok_reach [OF assms(1)])
  then have as: "uses_asymmetric_keys ?w" "km_algorithm ?w = alg" "km_rotation_interval ?w = interval"
    by (auto simp: fleet_ok_def configured_def uses_asymmetric_keys_def)
  have p: "file_ok (km_algorithm ?w) (in_wall i) (fl_file F)" "copy_ok (fl_file F) ?w"
    "fl_file F = None \<longrightarrow> 0 < km_rotation_interval ?w"
    using ok as assms(2) by (auto simp: fleet_ok_def)
  obtain m st mt where r: "ensure_ready i (?w, fl_file F) = (Inr (), (m, Some (st, mt)))" "km_state m = Some st"
    "file_ok (km_algorithm ?w) (in_wall i) (Some (st, mt))"
    using ensure_ready_run [OF as(1) p(1,2) assms(3) p(3)] by metis
  from r(3) have "keyset_ok st" by (simp add: file_ok_def)
  with r active_key_ok show ?thesis by (fastforce simp: active_key_of_def)
qed

definition demo_manager :: manager where
  "demo_manager = \<lparr>km_algorithm = ''RS256'', km_secret = [], km_rotation_enabled = True,
     km_rotation_interval = 100, km_retention = 200, km_check_interval = 1, km_state = None,
     km_mtime = None, km_last_check = 0\<rparr>"

definition demo_instant :: "int \<Rightarrow> string \<Rightarrow> instant" where
  "demo_instant t kid = \<lparr>in_wall = t, in_mono = t,
     in_fresh = \<lparr>kr_kid = kid, kr_created = 0, kr_private = ''sk-'' @ kid, kr_public = ''pk-'' @ kid\<rparr>\<rparr>"

definition demo_fleet :: fleet where
  "demo_fleet = \<lparr>fl_now = 7, fl_file = None, fl_workers = (\<lambda>_. demo_manager)\<rparr>"

lemma demo_fleet_reach: "fleet_reach ''RS256'' 100 200 demo_fleet"
  by (rule fleet_reach.init) (simp_all add: demo_fleet_def demo_manager_def configured_def)

theorem ready_workers_agree_witness:
  "\<exists>m st mt k. ensure_ready (demo_instant 7 ''k1'') (demo_manager, None) = (Inr (), (m, Some (st, mt)))
     \<and> km_state m = Some st \<and> active_key_of m = Inr k \<and> k \<in> set (ks_keys st) \<and> kr_kid k = ks_active st"
  using ready_workers_agree [OF demo_fleet_reach, of "demo_instant 7 ''k1''" 0]
  by (simp add: demo_instant_def demo_fleet_def fresh_file_def)

section \<open>Tokens across rotations\<close>

definition file_keys :: "keyfile \<Rightarrow> key_record list" where
  "file_keys f = (case f of None \<Rightarrow> [] | Some (st, mt) \<Rightarrow> ks_keys st)"

lemma keyset_step_keeps:
  assumes "keyset_step i m st mt st'" "k \<in> set (ks_keys st)" "in_wall i - max (km_retention m) 0 \<le> kr_created k"
  shows "k \<in> set (ks_keys st')"
  using assms by (auto simp: keyset_step_def rotated_state_def prune_keys_def Let_def)

lemma ready_step:
  assumes "fleet_ok alg interval retention F" "in_wall i = fl_now F" "fresh_file i (fl_file F)"
  obtains m st mt where "ensure_ready i (fl_workers F n, fl_file F) = (Inr (), (m, Some (st, mt)))"
    "km_state m = Some st" "km_algorithm m = alg" "keyset_ok st"
    "\<forall>k \<in> set (file_keys (fl_file F)). fl_now F - max retention 0 \<le> kr_created k \<longrightarrow> k \<in> set (ks_keys st)"
    "fleet_step F (F\<lparr>fl_file := Some (st, mt), fl_workers := (fl_workers F)(n := m)\<rparr>)"
proof -
  let ?w = "fl_workers F n"
  have as: "uses_asymmetric_keys ?w" "km_algorithm ?w = alg" "km_rotation_interval ?w = interval" "km_retention ?w = retention"
    using assms(1) by (auto simp: fleet_ok_def configured_def uses_asymmetric_keys_def)
  have p: "file_ok (km_algorithm ?w) (in_wall i) (fl_file F)" "copy_ok (fl_file F) ?w"
    "fl_file F = None \<longrightarrow> 0 < km_rotation_interval ?w"
    using assms(1,2) as by (auto simp: fleet_ok_def)
  obtain m st mt where r: "ensure_ready i (?w, fl_file F) = (Inr (), (m, Some (st, mt)))" "km_state m = Some st"
    "same_config ?w m" "file_ok (km_algorithm ?w) (in_wall i) (Some (st, mt))"
    "case fl_file F of None \<Rightarrow> True | Some (st0, mt0) \<Rightarrow> keyset_step i ?w st0 mt0 st"
    by (rule ensure_ready_run [OF as(1) p(1,2) assms(3) p(3)]) (rule that)
  have "\<forall>k \<in> set (file_keys (fl_file F)). fl_now F - max retention 0 \<le> kr_created k \<longrightarrow> k \<in> set (ks_keys st)"
    using r(5) keyset_step_keeps as(4) assms(2) by (auto simp: file_keys_def split: option.splits prod.splits)
  moreover have "keyset_ok st" "km_algorithm m = alg" using r(3,4) as(2) by (simp_all add: file_ok_def same_config_def)
  moreover have "fleet_step F (F\<lparr>fl_file := Some (st, mt), fl_workers := (fl_workers F)(n := m)\<rparr>)"
    by (rule fleet_step.ready [OF assms(2,3) r(1)])
  ultimately show ?thesis using r(1,2) by (intro that)
qed

lemma fleet_step_now: "fleet_step F F' \<Longrightarrow> fl_now F \<le> fl_now F'"
  by (induction rule: fleet_step.induct) auto

lemma fleet_step_keeps_key:
  assumes "fleet_step F F'" "fleet_ok alg interval retention F" "k \<in> set (file_keys (fl_file F))"
    and "fl_now F' - max retention 0 \<le> kr_created k"
  shows "k \<in> set (file_keys (fl_file F'))"
  using assms
proof (induction rule: fleet_step.induct)
  case (ready i F n m f)
  obtain m' st mt where r: "ensure_ready i (fl_workers F n, fl_file F) = (Inr (), (m', Some (st, mt)))"
    "\<forall>k \<in> set (file_keys (fl_file F)). fl_now F - max retention 0 \<le> kr_created k \<longrightarrow> k \<in> set (ks_keys st)"
    by (rule ready_step [OF ready(4,1,2), of n]) (rule that)
  with ready show ?case by (auto simp: file_keys_def [of "Some _"])
qed (auto simp: file_keys_def)

lemma fleet_steps_keep_key:
  assumes "fleet_step\<^sup>*\<^sup>* F F'" "fleet_ok alg interval retention F" "k \<in> set (file_keys (fl_file F))"
    and "fl_now F' - max retention 0 \<le> kr_created k"
  shows "fleet_ok alg interval retention F' \<and> k \<in> set (file_keys (fl_file F'))"
  using assms
proof (induction rule: rtranclp_induct)
  case base
  then show ?case by simp
next
  case (step G H)
  then have "fl_now G - max retention 0 \<le> kr_created k" using fleet_step_now [OF step(2)] by linarith
  with step have "fleet_ok alg interval retention G" "k \<in> set (file_keys (fl_file G))" by auto
  with step show ?case using fleet_ok_step fleet_step_keeps_key by blast
qed

lemma try_candidates_finds:
  assumes "decodes_to L p sk alg t" "alg \<noteq> ''HS256''" "jl_claims L opts p = None"
    and "k \<in> set ks" "jl_pair L sk (kr_public k)"
  shows "try_candidates L t alg opts err ks = Inr p"
  using assms(4)
proof (induction ks arbitrary: err)
  case (Cons x xs)
  have d: "jl_decode L t (kr_public x) alg opts
      = (if jl_pair L sk (kr_public x) then Inr p else Inl (JwtErr InvalidSignatureError))"
    using assms(1-3) by (simp add: decodes_to_def key_matches_def)
  with Cons assms(5) show ?case by auto
qed simp

lemma candidate_mem:
  assumes "km_state m = Some st" "k \<in> set (ks_keys st)"
  shows "k \<in> set (candidate_keys (Some (kr_kid k)) m)"
  using assms by (auto simp: candidate_keys_def Let_def)

text \<open>C6. A token signed by one worker is accepted by every worker, through any number of rotations,
  restarts and reloads, as long as the key that signed it is not older than the retention period
  when the token is verified and its claims still pass.\<close>

theorem token_verifies_across_fleet:
  assumes "jwt_law L" "fleet_reach alg interval retention F"
    and "in_wall i = fl_now F" "fresh_file i (fl_file F)"
    and "sign_token L i payload headers None None (fl_workers F a, fl_file F) = (Inr t, (m, f))"
    and "active_key_of m = Inr k" "jl_pair L (kr_private k) (kr_public k)"
    and "fleet_step\<^sup>*\<^sup>* (F\<lparr>fl_file := f, fl_workers := (fl_workers F)(a := m)\<rparr>) G"
    and "in_wall j = fl_now G" "fresh_file j (fl_file G)"
    and "in_wall j - kr_created k \<le> max retention 0" "jl_claims L opts payload = None"
  shows "fst (decode_token L j t opts None None (fl_workers G b, fl_file G)) = Inr payload"
proof -
  have ok: "fleet_ok alg interval retention F" by (rule fleet_ok_reach [OF assms(2)])
  then have alg: "alg = ''RS256'' \<or> alg = ''ES256''" "km_algorithm (fl_workers F a) = alg"
    by (auto simp: fleet_ok_def configured_def)
  have up: "py_upper alg = alg" "alg \<noteq> ''HS256''" "alg \<noteq> []"
    using alg(1) by (auto simp: py_upper_def upper_char_def)
  obtain m1 st mt where e: "ensure_ready i (fl_workers F a, fl_file F) = (Inr (), (m1, Some (st, mt)))"
    "km_state m1 = Some st" "keyset_ok st"
    "fleet_step F (F\<lparr>fl_file := Some (st, mt), fl_workers := (fl_workers F)(a := m1)\<rparr>)"
    by (rule ready_step [OF ok assms(3,4), of a]) (rule that)
  have s: "m1 = m" "f = Some (st, mt)" "jl_encode L payload (kr_private k) alg (dset ''kid'' (JStr (kr_kid k)) headers) = Inr t"
    using assms(5,6) e(1,2) alg(2) up active_key_ok [OF e(3)]
    by (auto simp: sign_token_def eff_simps oor_def active_key_of_def Let_def)
  have kst: "k \<in> set (ks_keys st)" using assms(6) e(2) s(1) active_key_ok [OF e(3)] by (auto simp: active_key_of_def)
  have hc: "header_carries L alg (dset ''kid'' (JStr (kr_kid k)) headers) t"
    and dt: "decodes_to L payload (kr_private k) alg t"
    using jwt_law_header [OF assms(1) s(3)] jwt_law_decode [OF assms(1) s(3)] .
  from header_carries_get [OF hc, of "''kid''"] obtain hd where
    h: "jl_header L t = Inr hd" "dget hd ''alg'' = Some (JStr alg)" "dget hd ''kid'' = Some (JStr (kr_kid k))"
    by (simp add: dget_dset) blast
  have "fleet_ok alg interval retention (F\<lparr>fl_file := f, fl_workers := (fl_workers F)(a := m)\<rparr>)"
    using fleet_ok_step [OF e(4) ok] s(1,2) by simp
  then have G: "fleet_ok alg interval retention G" "k \<in> set (file_keys (fl_file G))"
    using fleet_steps_keep_key [OF assms(8), of alg interval retention k] kst s(2) assms(9,11)
    by (auto simp: file_keys_def)
  obtain m2 st2 mt2 where v: "ensure_ready j (fl_workers G b, fl_file G) = (Inr (), (m2, Some (st2, mt2)))"
    "km_state m2 = Some st2"
    "\<forall>k \<in> set (file_keys (fl_file G)). fl_now G - max retention 0 \<le> kr_created k \<longrightarrow> k \<in> set (ks_keys st2)"
    by (rule ready_step [OF G(1) assms(9,10), of b]) (rule that)
  have "k \<in> set (ks_keys st2)" using v(3) G(2) assms(9,11) by auto
  then have "k \<in> set (candidate_keys (Some (kr_kid k)) m2)" by (rule candidate_mem [OF v(2)])
  from try_candidates_finds [OF dt up(2) assms(12) this assms(7)]
  have "try_candidates L t alg opts None (candidate_keys (Some (kr_kid k)) m2) = Inr payload" .
  moreover have "km_algorithm (fl_workers G b) = alg" using G(1) by (simp add: fleet_ok_def configured_def)
  ultimately show ?thesis
    using h v(1) up by (simp add: decode_token_def eff_simps header_str_def oor_def Let_def)
qed

definition demo_jwt :: jwt_lib where
  "demo_jwt = table_jwt [(''tok'', [(''sub'', JStr ''u'')], ''sk-k1'', ''RS256'', [(''kid'', JStr ''k1'')]),
       (''forged'', [(''sub'', JStr ''root'')], [], ''HS256'', [])] [(''sk-k1'', ''pk-k1'')]"

lemma demo_jwt_law: "jwt_law demo_jwt"
  unfolding demo_jwt_def by (rule jwt_law_table) simp

definition no_aud :: "int \<Rightarrow> decode_opts" where
  "no_aud now = \<lparr>do_audience = None, do_verify_aud = False, do_verify_exp = True, do_now = now\<rparr>"

definition demo_key :: key_record where
  "demo_key = \<lparr>kr_kid = ''k1'', kr_created = 7, kr_private = ''sk-k1'', kr_public = ''pk-k1''\<rparr>"

definition demo_keyset :: key_state where
  "demo_keyset = \<lparr>ks_algorithm = ''RS256'', ks_active = ''k1'', ks_keys = [demo_key]\<rparr>"

definition demo_ready :: manager where
  "demo_ready = demo_manager\<lparr>km_state := Some demo_keyset, km_mtime := Some 7, km_last_check := 7\<rparr>"

lemma demo_sign:
  "sign_token demo_jwt (demo_instant 7 ''k1'') [(''sub'', JStr ''u'')] [] None None (demo_manager, None)
     = (Inr ''tok'', (demo_ready, Some (demo_keyset, 7)))"
  by code_simp

theorem token_verifies_across_fleet_witness:
  "fst (decode_token demo_jwt (demo_instant 57 ''k2'') ''tok'' (no_aud 57) None None
     (demo_manager, Some (demo_keyset, 7))) = Inr [(''sub'', JStr ''u'')]"
proof -
  let ?G = "(demo_fleet\<lparr>fl_file := Some (demo_keyset, 7), fl_workers := (fl_workers demo_fleet)(0 := demo_ready)\<rparr>)\<lparr>fl_now := 57\<rparr>"
  have "fleet_step\<^sup>*\<^sup>* (demo_fleet\<lparr>fl_file := Some (demo_keyset, 7), fl_workers := (fl_workers demo_fleet)(0 := demo_ready)\<rparr>) ?G"
    using fleet_step.tick [of 50 "demo_fleet\<lparr>fl_file := Some (demo_keyset, 7), fl_workers := (fl_workers demo_fleet)(0 := demo_ready)\<rparr>"]
    by (simp add: demo_fleet_def)
  moreover have "active_key_of demo_ready = Inr demo_key" "jl_pair demo_jwt (kr_private demo_key) (kr_public demo_key)"
    "jl_claims demo_jwt (no_aud 57) [(''sub'', JStr ''u'')] = None"
    by code_simp+
  moreover have "fresh_file (demo_instant 57 ''k2'') (fl_file ?G)"
    by (simp add: fresh_file_def fresh_for_def demo_keyset_def demo_key_def demo_instant_def)
  moreover have "sign_token demo_jwt (demo_instant 7 ''k1'') [(''sub'', JStr ''u'')] [] None None
      (fl_workers demo_fleet 0, fl_file demo_fleet) = (Inr ''tok'', (demo_ready, Some (demo_keyset, 7)))"
    using demo_sign by (simp add: demo_fleet_def)
  ultimately show ?thesis
    using token_verifies_across_fleet [OF demo_jwt_law demo_fleet_reach, of "demo_instant 7 ''k1''"
        "[(''sub'', JStr ''u'')]" "[]" 0 "''tok''" demo_ready "Some (demo_keyset, 7)" demo_key ?G
        "demo_instant 57 ''k2''" "no_aud 57" 1]
    by (simp add: demo_instant_def demo_fleet_def fresh_file_def demo_key_def)
qed

text \<open>Rotation happens once: when two workers find the active key too old at the same time, the
  second one, whose copy is out of date, reloads the file under the lock and leaves it alone.\<close>

theorem rotation_not_repeated:
  assumes "fleet_reach alg interval retention F" "in_wall i = fl_now F" "fresh_file i (fl_file F)"
    and "ensure_ready i (fl_workers F a, fl_file F) = (Inr (), (m, Some (st, fl_now F)))"
    and "in_wall j = fl_now F" "fresh_for j st" "a \<noteq> b"
  shows "\<exists>m'. ensure_ready j (fl_workers F b, Some (st, fl_now F)) = (Inr (), (m', Some (st, fl_now F)))
     \<and> km_state m' = Some st"
proof -
  let ?F = "F\<lparr>fl_file := Some (st, fl_now F), fl_workers := (fl_workers F)(a := m)\<rparr>"
  have "fleet_ok alg interval retention ?F"
    using fleet_ok_step [OF fleet_step.ready [OF assms(2,3,4)] fleet_ok_reach [OF assms(1)]] .
  then have ok: "file_ok alg (fl_now F) (Some (st, fl_now F))" "copy_ok (Some (st, fl_now F)) (fl_workers F b)"
    "configured alg interval retention (fl_workers F b)" "alg \<in> {''RS256'', ''ES256''}" "0 < interval"
    using assms(7) by (auto simp: fleet_ok_def split: if_splits dest: spec [of _ b])
  then have as: "uses_asymmetric_keys (fl_workers F b)" "km_algorithm (fl_workers F b) = alg"
    "km_rotation_interval (fl_workers F b) = interval"
    by (auto simp: configured_def uses_asymmetric_keys_def)
  have p: "file_ok (km_algorithm (fl_workers F b)) (in_wall j) (Some (st, fl_now F))"
    "fresh_file j (Some (st, fl_now F))"
    "Some (st, fl_now F) = None \<longrightarrow> 0 < km_rotation_interval (fl_workers F b)"
    using ok(1) as(2) assms(5,6) by (simp_all add: fresh_file_def)
  obtain m' st' mt' where r: "ensure_ready j (fl_workers F b, Some (st, fl_now F)) = (Inr (), (m', Some (st', mt')))"
    "km_state m' = Some st'" "file_le (Some (st, fl_now F)) (Some (st', mt'))"
    "file_ok (km_algorithm (fl_workers F b)) (in_wall j) (Some (st', mt'))"
    "case Some (st, fl_now F) of None \<Rightarrow> True | Some (st0, mt0) \<Rightarrow> keyset_step j (fl_workers F b) st0 mt0 st'"
    by (rule ensure_ready_run [OF as(1) p(1) ok(2) p(2,3)]) (rule that)
  have "mt' = fl_now F" using r(3,4) assms(5) by (auto simp: file_le_def file_ok_def)
  moreover have "st' = st" using r(5) as(3) ok(5) assms(5) by (auto simp: keyset_step_def)
  ultimately show ?thesis using r(1,2) by simp
qed

theorem rotation_not_repeated_witness:
  "\<exists>m'. ensure_ready (demo_instant 7 ''k2'') (demo_manager, Some (demo_keyset, 7)) = (Inr (), (m', Some (demo_keyset, 7)))
     \<and> km_state m' = Some demo_keyset"
proof -
  have "ensure_ready (demo_instant 7 ''k1'') (fl_workers demo_fleet 0, fl_file demo_fleet)
      = (Inr (), (demo_ready, Some (demo_keyset, fl_now demo_fleet)))"
    by code_simp
  from rotation_not_repeated [OF demo_fleet_reach _ _ this, of "demo_instant 7 ''k2''" 1]
  show ?thesis
    by (simp add: demo_instant_def demo_fleet_def fresh_file_def fresh_for_def demo_keyset_def demo_key_def)
qed

text \<open>A key that has been active for longer than the retention period is dropped by the very
  rotation that retires it: tokens it signed a moment ago are left without a key.\<close>

theorem late_rotation_drops_signing_key:
  assumes "km_state m = Some st" "km_mtime m = Some mt" "copy_ok (Some (st, mt)) m"
    and "file_ok (km_algorithm m) (in_wall i) (Some (st, mt))" "fresh_for i st" "uses_asymmetric_keys m"
    and "km_rotation_enabled m" "0 < km_rotation_interval m" "km_check_interval m \<le> in_mono i - km_last_check m"
    and "km_rotation_interval m \<le> in_wall i - mt" "max (km_retention m) 0 < in_wall i - mt"
    and "active_key st = Inr k"
  shows "\<exists>m' f. ensure_ready i (m, Some (st, mt)) = (Inr (), (m', f))
     \<and> k \<notin> set (candidate_keys (Some (kr_kid k)) m')"
proof -
  have kc: "kr_created k = mt" and alg: "ks_algorithm st = km_algorithm m"
    using assms(4,12) by (auto simp: file_ok_def)
  have kk: "kr_kid k = ks_active st" "k \<in> set (ks_keys st)"
    using assms(4,12) active_key_ok [of st] by (auto simp: file_ok_def)
  let ?m = "m\<lparr>km_last_check := in_mono i\<rparr>"
  let ?m' = "?m\<lparr>km_state := Some (rotated_state i m st), km_mtime := Some (in_wall i)\<rparr>"
  have run: "ensure_ready i (m, Some (st, mt)) = (Inr (), (?m', Some (rotated_state i m st, in_wall i)))"
    using assms(1,2,6-10,12) kc alg
    by (simp add: ensure_ready_def eff_simps ensure_state_loaded_def maybe_rotate_def active_key_of_def
          rotate_locked_def load_run write_state_def rotated_state_def Let_def)
  have "kr_kid k \<noteq> kr_kid (in_fresh i)" using assms(5) kk(2) by (auto simp: fresh_for_def)
  then have "k \<notin> set (ks_keys (rotated_state i m st))"
    using assms(11) kc kid_generate [of i] by (auto simp: rotated_state_def prune_keys_def Let_def simp del: kid_generate)
  then have "k \<notin> set (candidate_keys (Some (kr_kid k)) ?m')"
    by (auto simp: candidate_keys_def Let_def)
  with run show ?thesis by blast
qed

theorem late_rotation_drops_signing_key_witness:
  "\<exists>m' f. ensure_ready (demo_instant 500 ''k2'') (demo_ready, Some (demo_keyset, 7)) = (Inr (), (m', f))
     \<and> demo_key \<notin> set (candidate_keys (Some ''k1'') m')"
proof -
  have "active_key demo_keyset = Inr demo_key" "copy_ok (Some (demo_keyset, 7)) demo_ready"
    "fresh_for (demo_instant 500 ''k2'') demo_keyset"
    by (simp_all add: active_key_def demo_keyset_def demo_key_def copy_ok_def demo_ready_def fresh_for_def demo_instant_def)
  moreover have "file_ok ''RS256'' 500 (Some (demo_keyset, 7))"
    by (simp add: file_ok_def keyset_ok_def active_key_def demo_keyset_def demo_key_def)
  ultimately show ?thesis
    using late_rotation_drops_signing_key [of demo_ready demo_keyset 7 "demo_instant 500 ''k2''" demo_key]
    by (simp add: demo_ready_def demo_manager_def demo_instant_def uses_asymmetric_keys_def demo_key_def)
qed

text \<open>A deployment configured for RS256 without a \<open>JWT_SECRET\<close> accepts tokens that anyone can
  make: the algorithm is taken from the token's own header, and an HS256 token is verified with
  the empty secret.\<close>

theorem hs256_empty_secret_accepted:
  assumes "jwt_law L" "make_manager (Some ''RS256'') None rot interval retention check = Inr m"
    and "jl_encode L p [] ''HS256'' h = Inr t" "jl_claims L opts p = None"
  shows "decode_token L i t opts None None (m, f) = (Inr p, (m, f))"
proof -
  have m: "km_secret m = []" using assms(2) by (auto simp: make_manager_def supported_algorithms_def Let_def split: if_splits)
  have up: "py_upper ''HS256'' = ''HS256''" by (simp add: py_upper_def upper_char_def)
  have d: "jl_decode L t [] ''HS256'' opts = Inr p"
    using jwt_law_decode [OF assms(1,3)] assms(4) by (simp add: decodes_to_def key_matches_def)
  from jwt_law_header [OF assms(1,3)] obtain hd where "jl_header L t = Inr hd" "dget hd ''alg'' = Some (JStr ''HS256'')"
    unfolding header_carries_def by blast
  then show ?thesis using m d up by (simp add: decode_token_def eff_simps header_str_def oor_def Let_def)
qed

theorem hs256_empty_secret_accepted_witness:
  "fst (decode_token demo_jwt (demo_instant 7 ''k1'') ''forged'' (no_aud 7) None None
     (projr (make_manager (Some ''RS256'') None True 100 200 1), None)) = Inr [(''sub'', JStr ''root'')]"
proof -
  have "make_manager (Some ''RS256'') None True 100 200 1 = Inr (projr (make_manager (Some ''RS256'') None True 100 200 1))"
    "jl_encode demo_jwt [(''sub'', JStr ''root'')] [] ''HS256'' [] = Inr ''forged''"
    "jl_claims demo_jwt (no_aud 7) [(''sub'', JStr ''root'')] = None"
    by code_simp+
  from hs256_empty_secret_accepted [OF demo_jwt_law this] show ?thesis by simp
qed

end
