(* ===== verification/Tokens.thy ===== *)
theory Tokens
  imports Policies Signing_Keys
begin

text \<open>
  Bearer tokens: issuing and checking them (app/core/jwt_utils.py), the request middleware
  (app/main.py), and password login, logout and refresh (app/core/auth.py). The signing key
  manager of \<open>Signing_Keys\<close> at the instant of the request is the \<open>tok_env\<close>; the email validator,
  bcrypt, PostgreSQL's casts and the nanosecond clock are arguments.
\<close>

section \<open>The token library as a request sees it\<close>

record tok_env =
  te_sign :: "json dict \<Rightarrow> json dict \<Rightarrow> exn + string"
  te_decode :: "string \<Rightarrow> decode_opts \<Rightarrow> exn + json dict"
  te_header :: "string \<Rightarrow> exn + json dict"

text \<open>The manager of a worker, its file and the instant give such an environment.\<close>

definition manager_env :: "jwt_lib \<Rightarrow> instant \<Rightarrow> manager \<Rightarrow> keyfile \<Rightarrow> tok_env" where
  "manager_env L i m f =
     \<lparr>te_sign = (\<lambda>p h. fst (sign_token L i p h None (none_if_empty (km_secret m)) (m, f))),
      te_decode = (\<lambda>t opts. fst (decode_token L i t opts None None (m, f))),
      te_header = jl_header L\<rparr>"

definition claim_str :: "json dict \<Rightarrow> string \<Rightarrow> string option" where
  "claim_str p k = (case dget p k of Some (JStr s) \<Rightarrow> Some s | _ \<Rightarrow> None)"

definition claim_int :: "json dict \<Rightarrow> string \<Rightarrow> int option" where
  "claim_int p k = (case dget p k of Some (JInt n) \<Rightarrow> Some n | _ \<Rightarrow> None)"

definition policy_json :: "int dict \<Rightarrow> json" where
  "policy_json d = JObj (map (\<lambda>(k, v). (k, JInt v)) d)"

fun int_items :: "(string \<times> json) list \<Rightarrow> int dict" where
  "int_items [] = []"
| "int_items ((k, v) # r) = (case v of JInt n \<Rightarrow> (k, n) # int_items r | _ \<Rightarrow> int_items r)"

definition claim_policy :: "json dict \<Rightarrow> int dict option" where
  "claim_policy p = (case dget p ''policy'' of Some (JObj d) \<Rightarrow> Some (int_items d) | _ \<Rightarrow> None)"

lemma int_items_policy [simp]: "int_items (map (\<lambda>(k, v). (k, JInt v)) d) = d"
  by (induction d) auto

lemma claim_policy_json: "dget p ''policy'' = Some (policy_json d) \<Longrightarrow> claim_policy p = Some d"
  by (simp add: claim_policy_def policy_json_def)

section \<open>Issuing (app/core/jwt_utils.py)\<close>

text \<open>\<open>ns\<close> is \<open>time.time_ns()\<close>.\<close>

definition new_jti :: "nat \<Rightarrow> json dict \<Rightarrow> exn + string" where
  "new_jti ns payload =
     (case ostr_or (claim_str payload ''user_id'') (claim_str payload ''sub'') of
        Some u \<Rightarrow> Inr (u @ ''-'' @ digits_of ns)
      | None \<Rightarrow> Inl (PyErr KeyError))"

definition create_jwt_token :: "tok_env \<Rightarrow> nat \<Rightarrow> json dict \<Rightarrow> exn + string" where
  "create_jwt_token E ns payload =
     (case new_jti ns payload of
        Inl e \<Rightarrow> Inl e
      | Inr jti \<Rightarrow> te_sign E (dset ''jti'' (JStr jti) payload) [(''jti'', JStr jti)])"

definition create_purpose_token :: "tok_env \<Rightarrow> json dict \<Rightarrow> exn + string" where
  "create_purpose_token E payload = te_sign E payload []"

definition plain_opts :: "bool \<Rightarrow> int \<Rightarrow> decode_opts" where
  "plain_opts verify_exp now =
     \<lparr>do_audience = None, do_verify_aud = False, do_verify_exp = verify_exp, do_now = now\<rparr>"

definition decode_purpose_token :: "tok_env \<Rightarrow> int \<Rightarrow> string \<Rightarrow> string option \<Rightarrow> exn + json dict" where
  "decode_purpose_token E now t expected =
     (case te_decode E t (plain_opts True now) of
        Inl e \<Rightarrow> Inl e
      | Inr p \<Rightarrow>
          if ostr_true expected \<and> claim_str p ''purpose'' \<noteq> expected
          then Inl (PyErr (ValueError ''Invalid token purpose''))
          else Inr p)"

definition verification_payload :: "int \<Rightarrow> string \<Rightarrow> string \<Rightarrow> json dict" where
  "verification_payload now user tenant =
     [(''user_id'', JStr user), (''tenant_id'', JStr tenant), (''purpose'', JStr ''email_verify''),
      (''exp'', JInt (now + 24 * 3600)), (''iat'', JInt now)]"

definition create_verification_token :: "tok_env \<Rightarrow> int \<Rightarrow> string \<Rightarrow> string \<Rightarrow> exn + string" where
  "create_verification_token E now user tenant = create_purpose_token E (verification_payload now user tenant)"

section \<open>Verifying (app/core/jwt_utils.py)\<close>

text \<open>The result of \<open>VerifyToken\<close>: the claims, or a message with the status 401 or 500.\<close>

definition verify_error :: "exn \<Rightarrow> string \<times> int" where
  "verify_error e = (case e of
     JwtErr ExpiredSignatureError \<Rightarrow> (''Expired token'', 401)
   | JwtErr InvalidSignatureError \<Rightarrow> (''Invalid signature'', 401)
   | JwtErr DecodeError \<Rightarrow> (''Decode error'', 401)
   | JwtErr OtherInvalidTokenError \<Rightarrow> (''Invalid token'', 401)
   | JwtErr InvalidKeyError \<Rightarrow> (''JWT secret key error'', 500)
   | _ \<Rightarrow> (''Token error'', 500))"

definition verify_token :: "tok_env \<Rightarrow> int \<Rightarrow> string \<Rightarrow> (string \<times> int) + token_data" where
  "verify_token E now t =
     (case te_decode E t (plain_opts True now) of
        Inl e \<Rightarrow> Inl (verify_error e)
      | Inr p \<Rightarrow>
          (let email = claim_str p ''sub''; tenant = claim_str p ''tenant_id'';
               user = ostr_or (claim_str p ''user_id'') (claim_str p ''sub'') in
           if \<not> ostr_true email then Inl (''Token missing sub'', 401)
           else if \<not> ostr_true user then Inl (''Token missing user_id'', 401)
           else if \<not> ostr_true tenant then Inl (''Token missing tenant_id'', 401)
           else Inr \<lparr>td_email = the email, td_tenant = the tenant, td_policy = claim_policy p,
                     td_role = claim_str p ''role'', td_user = the user, td_exp = claim_int p ''exp'',
                     td_iat = claim_int p ''iat'', td_aud = claim_str p ''aud''\<rparr>))"

definition extract_token :: "string option \<Rightarrow> (string \<times> int) + string" where
  "extract_token auth =
     (if \<not> ostr_true auth then Inl (''Authorization header missing'', 401)
      else (case split1 (CHR '' '') (the auth) of
              None \<Rightarrow> Inl (''Malformed Authorization header'', 401)
            | Some (scheme, t) \<Rightarrow>
                if py_lower scheme \<noteq> ''bearer'' then Inl (''Invalid scheme. Expected Bearer'', 401) else Inr t))"

definition raise_verify :: "string \<times> int \<Rightarrow> 'a svc" where
  "raise_verify e =
     ethen (log_error (fst e))
       (if snd e = 401 then eraise (AppErr (AuthenticationError (fst e)))
        else eraise (AppErr (InternalAppError ''Internal server error'')))"

text \<open>
  \<open>lru_cache(maxsize=10000)\<close>, keyed by the token (the logger is one object per process): most
  recently used first; what raises is not stored.
\<close>

definition lru_size :: nat where
  "lru_size = 10000"

definition lru_put :: "string \<Rightarrow> token_data \<Rightarrow> (string \<times> token_data) list \<Rightarrow> (string \<times> token_data) list" where
  "lru_put t d c = take lru_size ((t, d) # filter (\<lambda>x. fst x \<noteq> t) c)"

definition cached_verify_token :: "tok_env \<Rightarrow> string \<Rightarrow> token_data svc" where
  "cached_verify_token E t = (\<lambda>w.
     case map_of (w_verified w) t of
       Some d \<Rightarrow> (Inr d, w\<lparr>w_verified := lru_put t d (w_verified w)\<rparr>)
     | None \<Rightarrow>
         (case verify_token E (w_now w) t of
            Inl e \<Rightarrow> raise_verify e w
          | Inr d \<Rightarrow> (Inr d, w\<lparr>w_verified := lru_put t d (w_verified w)\<rparr>)))"

definition verify_and_return_jwt_payload :: "tok_env \<Rightarrow> string option \<Rightarrow> token_data svc" where
  "verify_and_return_jwt_payload E auth =
     (case extract_token auth of Inl e \<Rightarrow> raise_verify e | Inr t \<Rightarrow> cached_verify_token E t)"

section \<open>The middleware (app/main.py)\<close>

definition public_paths :: "string list" where
  "public_paths = [''/docs'', ''/openapi.json'', ''/health'', ''/favicon.ico'',
     ''/api/v1/onboarding/tenant'', ''/api/v1/onboarding/tenant/'']"

definition public_prefixes :: "string list" where
  "public_prefixes = [''/api/v1/oidc/authorize'', ''/api/v1/oidc/login'', ''/api/v1/oidc/consent'',
     ''/api/v1/oidc/token'', ''/api/v1/oidc/signup'', ''/api/v1/oidc/logout'',
     ''/api/v1/oidc/federation/callback'',
     ''/api/v1/oidc/jwks'', ''/api/v1/oidc/userinfo'', ''/api/v1/oidc/introspect'',
     ''/api/v1/.well-known/openid-configuration'', ''/api/v1/onboarding/email/verify'']"

definition is_public :: "string \<Rightarrow> bool" where
  "is_public path \<longleftrightarrow> path \<in> set public_paths \<or> (\<exists>p \<in> set public_prefixes. starts_with path p)
     \<or> ends_with path ''/token''"

definition unauthorized :: "req_headers \<Rightarrow> string \<Rightarrow> error_out" where
  "unauthorized h detail =
     (if wants_html h then html_error_response ''UNAUTHORIZED'' detail 401
      else error_response ''UNAUTHORIZED'' detail 401 None (Some ''Bearer''))"

definition bad_request :: "req_headers \<Rightarrow> string \<Rightarrow> error_out" where
  "bad_request h detail =
     (if wants_html h then html_error_response ''BAD_REQUEST'' detail 400
      else error_response ''BAD_REQUEST'' detail 400 None None)"

text \<open>\<open>Inr None\<close>: the request goes on to its endpoint; \<open>Inr (Some r)\<close>: answered here.\<close>

definition middle_ware ::
    "bloom_query \<Rightarrow> tok_env \<Rightarrow> req_headers \<Rightarrow> string \<Rightarrow> string option \<Rightarrow> world \<Rightarrow> exn + error_out option" where
  "middle_ware q E h path auth w =
     (if is_public path then Inr None
      else if \<not> ostr_true auth \<or> \<not> starts_with (the auth) ''Bearer ''
      then Inr (Some (unauthorized h ''Could not validate credentials''))
      else
        (let t = last (split_all (CHR '' '') (the auth)) in
         if t = [] then Inr (Some (bad_request h ''Unable to get authorization token''))
         else (case te_header E t of
                 Inl (JwtErr je) \<Rightarrow>
                   if je = InvalidKeyError then Inl (JwtErr je)
                   else Inr (Some (unauthorized h ''Invalid token format''))
               | Inl e \<Rightarrow> Inl e
               | Inr hdr \<Rightarrow>
                   if \<not> ostr_true (claim_str hdr ''jti'')
                   then Inr (Some (unauthorized h ''Token missing JTI''))
                   else if is_revoked q (the (claim_str hdr ''jti'')) w
                   then Inr (Some (unauthorized h ''Token has been revoked''))
                   else Inr None)))"

section \<open>Login, logout, refresh (app/core/auth.py)\<close>

definition get_client_ip :: "string option \<Rightarrow> string option \<Rightarrow> string" where
  "get_client_ip forwarded host =
     (if ostr_true forwarded then py_strip (hd (split_all (CHR '','') (the forwarded)))
      else (if ostr_true host then the host else ''unknown''))"

text \<open>The users with the address, each joined with its policies in force, or with none.\<close>

fun join_policies :: "ts_cast \<Rightarrow> conn \<Rightarrow> world \<Rightarrow> user_row list \<Rightarrow> exn + (user_row \<times> policy_doc option) list" where
  "join_policies cast c w [] = Inr []"
| "join_policies cast c w (u # us) =
     (case select_in_force cast (w_now w)
             (map up_policy (sql_select (\<lambda>p. up_user p = us_id u) (policies_of c w))) of
        Inl e \<Rightarrow> Inl e
      | Inr ds \<Rightarrow>
          (case join_policies cast c w us of
             Inl e \<Rightarrow> Inl e
           | Inr rest \<Rightarrow> Inr ((if ds = [] then [(u, None)] else map (\<lambda>d. (u, Some d)) ds) @ rest)))"

definition fetch_user_with_policy :: "ts_cast \<Rightarrow> conn \<Rightarrow> string \<Rightarrow> world \<Rightarrow> exn + (user_row \<times> policy_doc option) list" where
  "fetch_user_with_policy cast c email w =
     join_policies cast c w (sql_select (\<lambda>u. us_email u = email) (users_of c w))"

text \<open>\<open>orjson.loads(row["policy"])\<close> for every row: a user without policies has the row NULL.\<close>

fun row_policies :: "(user_row \<times> policy_doc option) list \<Rightarrow> exn + policy_doc list" where
  "row_policies [] = Inr []"
| "row_policies ((u, d) # r) =
     (case d of None \<Rightarrow> Inl (PyErr JSONDecodeError)
      | Some x \<Rightarrow> (case row_policies r of Inl e \<Rightarrow> Inl e | Inr xs \<Rightarrow> Inr (x # xs)))"

definition json_opt :: "string option \<Rightarrow> json" where
  "json_opt v = (case v of None \<Rightarrow> JNull | Some s \<Rightarrow> JStr s)"

definition login_payload :: "int \<Rightarrow> string \<Rightarrow> string \<Rightarrow> string option \<Rightarrow> string option \<Rightarrow> int dict \<Rightarrow> json dict" where
  "login_payload now email user tenant role pol =
     [(''sub'', JStr email), (''user_id'', JStr user), (''tenant_id'', json_opt tenant),
      (''role'', json_opt role), (''policy'', policy_json pol),
      (''exp'', JInt (now + 3600))]"

record auth_env =
  ae_tokens :: tok_env
  ae_normalize :: "string \<Rightarrow> exn + string"
  ae_checkpw :: "string \<Rightarrow> string \<Rightarrow> bool"
  ae_cast :: ts_cast
  ae_inet :: "string \<Rightarrow> bool"
  ae_ts_arg :: "int \<Rightarrow> exn + int"

text \<open>
  \<open>ae_normalize\<close> is \<open>validate_email(...).normalized\<close>, \<open>ae_checkpw\<close> bcrypt's comparison,
  \<open>ae_ts_arg\<close> asyncpg's encoding of a Python integer as the argument of a timestamp comparison.
\<close>

definition header_jti :: "tok_env \<Rightarrow> string \<Rightarrow> exn + string option" where
  "header_jti E t = (case te_header E t of Inl e \<Rightarrow> Inl e | Inr h \<Rightarrow> Inr (claim_str h ''jti''))"

text \<open>
  The body of the \<open>try\<close> block; a token id missing from the header, or a tenant missing from the
  request, becomes SQL NULL.
\<close>

definition finish_login ::
    "auth_env \<Rightarrow> nat \<Rightarrow> string \<Rightarrow> string \<Rightarrow> string option \<Rightarrow> string \<Rightarrow> json dict option \<Rightarrow>
     user_row \<Rightarrow> exn + policy_doc list \<Rightarrow> string svc" where
  "finish_login A ns ip norm tenant password device u policies =
     (if \<not> ae_checkpw A password (us_password u)
      then ethen (force_error (''Suspicious authentication attempt from IP: '' @ ip))
                 (eraise (AppErr (AuthenticationError ''Invalid credentials'')))
      else
        ebind (elift policies) (\<lambda>ps.
        ebind (elift (login_policy_map [] ps)) (\<lambda>pol.
        ebind (eget w_now) (\<lambda>now.
        ebind (elift (create_jwt_token (ae_tokens A) ns (login_payload now norm (us_id u) tenant (us_role u) pol))) (\<lambda>t.
        ebind (elift (header_jti (ae_tokens A) t)) (\<lambda>jti.
        ethen (case jti of None \<Rightarrow> eraise (DbErr NotNullViolationError)
               | Some j \<Rightarrow> (case tenant of None \<Rightarrow> eraise (DbErr NotNullViolationError)
                  | Some tn \<Rightarrow> create_session (ae_inet A) j (us_id u) tn (now + 3600) (Some ip) device))
       (ethen (log_audit ''authentication''
                 [(''user_id'', jstr (us_id u)), (''resource'', jstr ''/token''), (''ip'', jstr ip),
                  (''decision'', jstr ''Authenticated'')])
       (eret t))))))))"

definition authenticate_body ::
    "auth_env \<Rightarrow> nat \<Rightarrow> conn \<Rightarrow> string \<Rightarrow> string \<Rightarrow> string option \<Rightarrow> string \<Rightarrow> json dict option \<Rightarrow> string svc" where
  "authenticate_body A ns c ip email tenant password device =
     ebind (elift (ae_normalize A email)) (\<lambda>norm.
     ebind (\<lambda>w. (fetch_user_with_policy (ae_cast A) c norm w, w)) (\<lambda>rows.
     if rows = [] then eraise (AppErr (AuthenticationError ''Invalid credentials''))
     else finish_login A ns ip norm tenant password device (fst (hd rows)) (row_policies rows)))"

text \<open>
  The handlers: \<open>log_exception\<close> receives a \<open>message\<close> argument in the token error branch, which its
  own call of \<open>force_error\<close> already passes, so that branch ends in a \<open>TypeError\<close>.
\<close>

definition authenticate ::
    "auth_env \<Rightarrow> nat \<Rightarrow> conn \<Rightarrow> string \<Rightarrow> string \<Rightarrow> string option \<Rightarrow> string \<Rightarrow> json dict option \<Rightarrow> string svc" where
  "authenticate A ns c ip email tenant password device =
     etry (authenticate_body A ns c ip email tenant password device) (\<lambda>e. case e of
       JwtErr _ \<Rightarrow> ethen (force_error (''Suspicious authentication attempt from IP: '' @ ip)) (eraise (PyErr TypeError))
     | AppErr a \<Rightarrow> eraise (AppErr a)
     | _ \<Rightarrow> ethen (force_error ''Unexpected Error on authentication'')
                   (eraise (AppErr (InternalAppError ''Internal server error''))))"

definition get_token ::
    "auth_env \<Rightarrow> nat \<Rightarrow> conn \<Rightarrow> string \<Rightarrow> string option \<Rightarrow> string \<Rightarrow> string option \<Rightarrow> string \<Rightarrow> string reply svc" where
  "get_token A ns c ip user_agent email tenant password =
     ebind (authenticate A ns c ip email tenant password
              (Some [(''user_agent'', JStr (case user_agent of None \<Rightarrow> ''unknown'' | Some a \<Rightarrow> a))]))
       (\<lambda>t. eret (success_response t ''Authentication successful''))"

section \<open>Logout\<close>

definition logout_token :: "tok_env \<Rightarrow> int \<Rightarrow> string \<Rightarrow> exn + string option \<times> string option \<times> string option" where
  "logout_token E now auth =
     (case split1 (CHR '' '') auth of
        None \<Rightarrow> Inl (PyErr (ValueError ''not enough values to unpack''))
      | Some (scheme, t) \<Rightarrow>
          if py_lower scheme \<noteq> ''bearer''
          then Inl (AppErr (BusinessValidationError ''Invalid authentication scheme. Expected Bearer'' []))
          else (case header_jti E t of Inl e \<Rightarrow> Inl e
                | Inr jti \<Rightarrow> (case te_decode E t (plain_opts False now) of Inl e \<Rightarrow> Inl e
                   | Inr p \<Rightarrow> Inr (jti, claim_str p ''user_id'', claim_str p ''tenant_id''))))"

text \<open>\<open>NULL\<close> never equals a column.\<close>

definition revoke_session_opt :: "string option \<Rightarrow> string option \<Rightarrow> string option \<Rightarrow> string \<Rightarrow> bool svc" where
  "revoke_session_opt jti user tenant reason =
     (case (jti, user, tenant) of
        (Some j, Some u, Some t) \<Rightarrow> revoke_session j u t reason
      | _ \<Rightarrow> eret False)"

definition logout :: "tok_env \<Rightarrow> string option \<Rightarrow> string \<Rightarrow> unit reply svc" where
  "logout E auth ip =
     (if \<not> ostr_true auth
      then ethen (force_error ''Invalid authorization header: Missing'')
                 (eraise (AppErr (BusinessValidationError ''Invalid authorization header'' [])))
      else
        ebind (eget w_now) (\<lambda>now.
        ebind (case logout_token E now (the auth) of
                 Inr r \<Rightarrow> eret r
               | Inl (PyErr (ValueError s)) \<Rightarrow>
                   ethen (force_error ''Malformed Authorization header: Expected Bearer <token>'')
                         (eraise (AppErr (BusinessValidationError ''Malformed Authorization header. Expected Bearer <token>'' [])))
               | Inl (AppErr a) \<Rightarrow>
                   ethen (force_error ''Invalid authentication scheme: Expected Bearer'') (eraise (AppErr a))
               | Inl e \<Rightarrow>
                   ethen (force_error ''Unexpected error processing Authorization header'')
                         (eraise (AppErr (InternalAppError ''Internal server error'')))) (\<lambda>(jti, user, tenant).
        ethen (etry (ebind (revoke_session_opt jti user tenant ''logout'') (\<lambda>_.
                       log_audit ''logout'' [(''user_id'', map_option JStr user), (''resource'', jstr ''/logout''),
                          (''ip'', jstr ip), (''decision'', jstr ''Logged out, Token blacklisted'')]))
                 (\<lambda>e. ethen (force_error ''Failed to blacklist token'')
                        (eraise (AppErr (InternalAppError ''Failed to blacklist token'')))))
        (eret (success_response () ''Successfully logged out'')))))"

section \<open>Refresh\<close>

definition check_modified :: "conn \<Rightarrow> string \<Rightarrow> int \<Rightarrow> world \<Rightarrow> bool" where
  "check_modified c email since w \<longleftrightarrow> (\<exists>u \<in> set (users_of c w). us_email u = email \<and> since < us_modified u)"

text \<open>\<open>refresh\<close> reads the policies of the rows that have one.\<close>

definition present_policies :: "(user_row \<times> policy_doc option) list \<Rightarrow> policy_doc list" where
  "present_policies rows = List.map_filter snd rows"

definition split_scheme :: "string option \<Rightarrow> exn + string" where
  "split_scheme v =
     (if \<not> ostr_true v then Inl (AppErr (BusinessValidationError ''Invalid authorization header'' []))
      else (case split1 (CHR '' '') (the v) of
              None \<Rightarrow> Inl (AppErr (BusinessValidationError ''Malformed authorization header'' []))
            | Some (scheme, t) \<Rightarrow>
                if py_lower scheme \<noteq> ''refresh''
                then Inl (AppErr (BusinessValidationError ''Invalid authentication scheme. Expected Refresh'' []))
                else Inr t))"

definition decode_refresh :: "tok_env \<Rightarrow> int \<Rightarrow> string \<Rightarrow> exn + json dict" where
  "decode_refresh E now t =
     (case te_decode E t (plain_opts True now) of
        Inl (JwtErr _) \<Rightarrow> Inl (AppErr (AuthenticationError ''Invalid refresh token''))
      | r \<Rightarrow> r)"

record token_pair =
  tk_access :: string
  tk_refresh :: string

definition refresh_rejected ::
    "tok_env \<Rightarrow> string option \<Rightarrow> json dict \<Rightarrow> string \<Rightarrow> 'a svc" where
  "refresh_rejected E tenant_header decoded t =
     ebind (elift (header_jti E t)) (\<lambda>jti.
     ethen (case jti of None \<Rightarrow> eraise (PyErr TypeError)
            | Some j \<Rightarrow> revoke_token j (case claim_str decoded ''user_id'' of None \<Rightarrow> ''unknown'' | Some u \<Rightarrow> u)
                          (case tenant_header of None \<Rightarrow> ''unknown'' | Some t \<Rightarrow> t) ''profile_modified'')
     (eraise (AppErr (AuthorizationError ''Sensitive profile info updated, login again''))))"

definition refresh ::
    "auth_env \<Rightarrow> nat \<Rightarrow> nat \<Rightarrow> conn \<Rightarrow> string option \<Rightarrow> string option \<Rightarrow> string \<Rightarrow> token_pair reply svc" where
  "refresh A ns ns' c refresh_header tenant_header ip =
     ebind (elift (split_scheme refresh_header)) (\<lambda>t.
     ebind (eget w_now) (\<lambda>now.
     ebind (elift (decode_refresh (ae_tokens A) now t)) (\<lambda>decoded.
     if \<not> ostr_true (claim_str decoded ''email'') then eraise (AppErr (AuthenticationError ''Invalid authorization header''))
     else if claim_int decoded ''iat'' = None \<or> claim_int decoded ''iat'' = Some 0
     then eraise (AppErr (BusinessValidationError ''Malformed authorization header'' []))
     else
       ebind (elift (ae_normalize A (the (claim_str decoded ''email'')))) (\<lambda>norm.
       ebind (elift (ae_ts_arg A (the (claim_int decoded ''iat'')))) (\<lambda>since.
       ebind (eget (check_modified c norm since)) (\<lambda>modified.
       if modified then refresh_rejected (ae_tokens A) tenant_header decoded t
       else
         ebind (elift (create_jwt_token (ae_tokens A) ns (dset ''iat'' (JInt now) decoded))) (\<lambda>rt.
         ebind (\<lambda>w. (fetch_user_with_policy (ae_cast A) c norm w, w)) (\<lambda>rows.
         if rows = [] then eraise (AppErr (AuthenticationError ''Invalid credentials''))
         else if claim_str decoded ''tenant_id'' \<noteq> tenant_header
         then eraise (AppErr (AuthenticationError ''Invalid tenant ID''))
         else
           (let u = fst (hd rows) in
            ebind (elift (login_policy_map [] (present_policies rows))) (\<lambda>pol.
            ebind (elift (create_jwt_token (ae_tokens A) ns'
                     (login_payload now norm (us_id u) tenant_header (us_role u) pol))) (\<lambda>at.
            ethen (log_audit ''refresh authentication''
                     [(''user_id'', jstr (us_id u)), (''resource'', jstr ''/refresh''), (''ip'', jstr ip),
                      (''decision'', jstr ''Authenticated'')])
            (eret (success_response \<lparr>tk_access = at, tk_refresh = rt\<rparr> ''Token refreshed successfully'')))))))))))))"

section \<open>Login\<close>

lemma log_error_run [eff_simps]: "log_error m w = (Inr (), w\<lparr>w_log := w_log w @ [log_entry_of ''ERROR'' m [] False]\<rparr>)"
  by (simp add: log_error_def log_write_def)

text \<open>The stages of a login that succeeds.\<close>

definition login_data :: "auth_env \<Rightarrow> conn \<Rightarrow> string \<Rightarrow> world \<Rightarrow> exn + (user_row \<times> int dict)" where
  "login_data A c norm w =
     (case fetch_user_with_policy (ae_cast A) c norm w of
        Inl e \<Rightarrow> Inl e
      | Inr [] \<Rightarrow> Inl (AppErr (AuthenticationError ''Invalid credentials''))
      | Inr (r # rs) \<Rightarrow>
          (case row_policies (r # rs) of
             Inl e \<Rightarrow> Inl e
           | Inr ps \<Rightarrow>
               (case login_policy_map [] ps of Inl e \<Rightarrow> Inl e | Inr pol \<Rightarrow> Inr (fst r, pol))))"

lemma authenticate_ok:
  assumes "authenticate A ns c ip email tenant password device w = (Inr t, w')"
  obtains norm u pol jti tn where "ae_normalize A email = Inr norm" "login_data A c norm w = Inr (u, pol)"
    "ae_checkpw A password (us_password u)" "tenant = Some tn"
    "create_jwt_token (ae_tokens A) ns (login_payload (w_now w) norm (us_id u) (Some tn) (us_role u) pol) = Inr t"
    "header_jti (ae_tokens A) t = Inr (Some jti)"
    "fst (create_session (ae_inet A) jti (us_id u) tn (w_now w + 3600) (Some ip) device w) = Inr ()"
    "w_sessions w' = w_sessions (snd (create_session (ae_inet A) jti (us_id u) tn (w_now w + 3600) (Some ip) device w))"
proof -
  note body_simps = authenticate_body_def finish_login_def ebind_run ethen_run
  have body: "authenticate_body A ns c ip email tenant password device w = (Inr t, w')"
  proof (cases "authenticate_body A ns c ip email tenant password device w")
    case (Pair r x)
    with assms show ?thesis
      by (auto simp: authenticate_def etry_run eff_simps split: sum.splits exn.splits prod.splits)
  qed
  then obtain norm rows where a: "ae_normalize A email = Inr norm"
    "fetch_user_with_policy (ae_cast A) c norm w = Inr rows"
    by (auto simp: body_simps split: sum.splits)
  have "rows \<noteq> []"
    using body a by (auto simp: body_simps)
  then obtain r rs where rows: "rows = r # rs" by (cases rows) auto
  have pw: "ae_checkpw A password (us_password (fst r))"
    using body a rows by (auto simp: body_simps force_error_run split: if_splits)
  obtain ps where ps: "row_policies rows = Inr ps"
    using body a rows pw by (auto simp: body_simps split: sum.splits)
  obtain pol where pol: "login_policy_map [] ps = Inr pol"
    using body a rows pw ps by (auto simp: body_simps split: sum.splits)
  obtain t' where t': "create_jwt_token (ae_tokens A) ns
       (login_payload (w_now w) norm (us_id (fst r)) tenant (us_role (fst r)) pol) = Inr t'"
    using body a rows pw ps pol by (auto simp: body_simps split: sum.splits)
  obtain jo where jo: "header_jti (ae_tokens A) t' = Inr jo"
    using body a rows pw ps pol t' by (auto simp: body_simps split: sum.splits)
  obtain j tn where j: "jo = Some j" "tenant = Some tn"
    using body a rows pw ps pol t' jo
    by (cases jo; cases tenant) (auto simp: body_simps)
  let ?cs = "create_session (ae_inet A) j (us_id (fst r)) tn (w_now w + 3600) (Some ip) device w"
  have cs: "fst ?cs = Inr () \<and> t' = t \<and> w_sessions w' = w_sessions (snd ?cs)"
    using body a rows pw ps pol t' jo j
    by (cases ?cs) (auto simp: body_simps log_audit_run split: sum.splits)
  have "login_data A c norm w = Inr (fst r, pol)"
    using a rows ps pol by (simp add: login_data_def)
  with a pw t' jo j cs that show ?thesis by blast
qed

section \<open>What a token environment promises\<close>

text \<open>
  Signing then decoding gives the payload back until it expires, and the header carries what it
  was given. A manager that signs with HS256 over a library that obeys \<open>jwt_law\<close>, and whose
  claims check rejects nothing but expired tokens, is such an environment.
\<close>

definition unexpired :: "int \<Rightarrow> json dict \<Rightarrow> bool" where
  "unexpired now p \<longleftrightarrow> (case claim_int p ''exp'' of None \<Rightarrow> True | Some e \<Rightarrow> now < e)"

definition decodes_back :: "tok_env \<Rightarrow> json dict \<Rightarrow> string \<Rightarrow> bool" where
  "decodes_back E p t \<longleftrightarrow> (\<forall>ve now. \<not> ve \<or> unexpired now p \<longrightarrow> te_decode E t (plain_opts ve now) = Inr p)"

definition header_agrees :: "tok_env \<Rightarrow> json dict \<Rightarrow> string \<Rightarrow> bool" where
  "header_agrees E h t \<longleftrightarrow>
     (\<exists>hd. te_header E t = Inr hd \<and> (\<forall>x. x \<noteq> ''alg'' \<longrightarrow> x \<noteq> ''typ'' \<longrightarrow> dget hd x = dget h x))"

definition env_law :: "tok_env \<Rightarrow> bool" where
  "env_law E \<longleftrightarrow> (\<forall>p h t. te_sign E p h = Inr t \<longrightarrow> decodes_back E p t \<and> header_agrees E h t)"

lemma env_decode:
  "env_law E \<Longrightarrow> te_sign E p h = Inr t \<Longrightarrow> \<not> ve \<or> unexpired now p \<Longrightarrow> te_decode E t (plain_opts ve now) = Inr p"
  unfolding env_law_def decodes_back_def by blast

lemma env_header:
  assumes "env_law E" "te_sign E p h = Inr t" "x \<noteq> ''alg''" "x \<noteq> ''typ''"
  shows "\<exists>hd. te_header E t = Inr hd \<and> dget hd x = dget h x"
proof -
  have "header_agrees E h t" using assms(1,2) by (simp add: env_law_def)
  then obtain hd where "te_header E t = Inr hd \<and> (\<forall>x. x \<noteq> ''alg'' \<longrightarrow> x \<noteq> ''typ'' \<longrightarrow> dget hd x = dget h x)"
    unfolding header_agrees_def by (rule exE)
  with assms(3,4) show ?thesis by (intro exI [of _ hd]) simp
qed

lemma hs256_env_law:
  assumes "jwt_law L" "km_algorithm m = ''HS256''" "km_secret m \<noteq> []"
    and "\<And>ve now p. \<not> ve \<or> unexpired now p \<Longrightarrow> jl_claims L (plain_opts ve now) p = None"
  shows "env_law (manager_env L i m f)"
  unfolding env_law_def
proof (intro allI impI)
  fix p h t
  have up: "py_upper ''HS256'' = ''HS256''" by (simp add: py_upper_def upper_char_def)
  assume "te_sign (manager_env L i m f) p h = Inr t"
  then have enc: "jl_encode L p (km_secret m) ''HS256'' h = Inr t"
    using assms(2,3) up by (simp add: manager_env_def sign_token_def eff_simps oor_def none_if_empty_def Let_def)
  note hc = jwt_law_header [OF assms(1) enc]
  from hc obtain hd where hd: "jl_header L t = Inr hd" "dget hd ''alg'' = Some (JStr ''HS256'')"
    "\<forall>x. x \<noteq> ''alg'' \<longrightarrow> x \<noteq> ''typ'' \<longrightarrow> dget hd x = dget h x"
    unfolding header_carries_def by (elim exE conjE)
  have dec: "jl_decode L t (km_secret m) ''HS256'' opts = (case jl_claims L opts p of None \<Rightarrow> Inr p | Some e \<Rightarrow> Inl e)" for opts
    using jwt_law_decode [OF assms(1) enc] by (simp add: decodes_to_def key_matches_def)
  have "te_decode (manager_env L i m f) t (plain_opts ve now) = Inr p" if "\<not> ve \<or> unexpired now p" for ve now
    using assms(4) [OF that] hd(1,2) dec up
    by (simp add: manager_env_def decode_token_def eff_simps header_str_def oor_def Let_def)
  moreover have "te_header (manager_env L i m f) t = Inr hd" using hd(1) by (simp add: manager_env_def)
  ultimately show "decodes_back (manager_env L i m f) p t \<and> header_agrees (manager_env L i m f) h t"
    using hd(3) unfolding decodes_back_def header_agrees_def by blast
qed

lemma created_token:
  assumes "env_law E" "create_jwt_token E ns p = Inr t"
  obtains jti where "new_jti ns p = Inr jti" "header_jti E t = Inr (Some jti)"
    "\<And>ve now. \<not> ve \<or> unexpired now (dset ''jti'' (JStr jti) p) \<Longrightarrow>
       te_decode E t (plain_opts ve now) = Inr (dset ''jti'' (JStr jti) p)"
proof -
  from assms(2) obtain jti where j: "new_jti ns p = Inr jti"
    "te_sign E (dset ''jti'' (JStr jti) p) [(''jti'', JStr jti)] = Inr t"
    by (auto simp: create_jwt_token_def split: sum.splits)
  from env_header [OF assms(1) j(2), of "''jti''"] obtain hd where "te_header E t = Inr hd" "dget hd ''jti'' = Some (JStr jti)"
    by (auto simp: dget_def)
  then have "header_jti E t = Inr (Some jti)" by (simp add: header_jti_def claim_str_def)
  with j env_decode [OF assms(1) j(2)] that show ?thesis by blast
qed

lemma claims_jti [simp]:
  "x \<noteq> ''jti'' \<Longrightarrow> claim_str (dset ''jti'' v p) x = claim_str p x"
  "x \<noteq> ''jti'' \<Longrightarrow> claim_int (dset ''jti'' v p) x = claim_int p x"
  "claim_policy (dset ''jti'' v p) = claim_policy p"
  by (simp_all add: claim_str_def claim_int_def claim_policy_def dget_dset)

lemma login_claims:
  "claim_str (login_payload n email u t r pol) ''sub'' = Some email"
  "claim_str (login_payload n email u t r pol) ''user_id'' = Some u"
  "claim_str (login_payload n email u t r pol) ''tenant_id'' = t"
  "claim_str (login_payload n email u t r pol) ''role'' = r"
  "claim_int (login_payload n email u t r pol) ''exp'' = Some (n + 3600)"
  "claim_policy (login_payload n email u t r pol) = Some pol"
  by (simp_all add: login_payload_def claim_str_def claim_int_def claim_policy_def dget_def policy_json_def json_opt_def
        split: option.splits)

lemma join_policies_users:
  assumes "join_policies cast c w us = Inr rows" "r \<in> set rows"
  shows "fst r \<in> set us"
  using assms by (induction us arbitrary: rows) (auto split: sum.splits if_splits)

lemma login_data_user:
  assumes "login_data A c norm w = Inr (u, pol)"
  shows "u \<in> set (w_users w) \<and> us_email u = norm"
proof -
  from assms obtain r rs where r: "fetch_user_with_policy (ae_cast A) c norm w = Inr (r # rs)" "u = fst r"
    by (cases "fetch_user_with_policy (ae_cast A) c norm w")
       (auto simp: login_data_def split: list.splits sum.splits)
  then have "u \<in> set (sql_select (\<lambda>u. us_email u = norm) (users_of c w))"
    using join_policies_users [of "ae_cast A" c w _ "r # rs" r] by (simp add: fetch_user_with_policy_def)
  then show ?thesis by (auto simp: sql_select_def users_of_def)
qed

lemma created_session:
  assumes "fst (create_session inet jti user tenant expires ip device w) = Inr ()"
  shows "\<exists>s \<in> set (w_sessions (snd (create_session inet jti user tenant expires ip device w))). ss_jti s = jti"
  using assms by (auto simp: create_session_def Let_def split: if_splits)

lemma login_verifies:
  assumes "env_law (ae_tokens A)"
    and "authenticate A ns c ip email tenant password device w = (Inr t, w')"
    and "w_now w \<le> now" "now < w_now w + 3600"
    and "\<And>n. ae_normalize A email = Inr n \<Longrightarrow> n \<noteq> []" "tenant \<noteq> Some []" "\<forall>u \<in> set (w_users w). us_id u \<noteq> []"
  shows "\<exists>norm u pol td. ae_normalize A email = Inr norm \<and> login_data A c norm w = Inr (u, pol)
     \<and> ae_checkpw A password (us_password u)
     \<and> verify_token (ae_tokens A) now t = Inr td
     \<and> td_email td = norm \<and> td_user td = us_id u \<and> Some (td_tenant td) = tenant \<and> td_role td = us_role u
     \<and> td_policy td = Some pol \<and> td_exp td = Some (w_now w + 3600)"
proof -
  obtain norm u pol jti tn where a: "ae_normalize A email = Inr norm" "login_data A c norm w = Inr (u, pol)"
    "ae_checkpw A password (us_password u)" "tenant = Some tn"
    "create_jwt_token (ae_tokens A) ns (login_payload (w_now w) norm (us_id u) (Some tn) (us_role u) pol) = Inr t"
    "header_jti (ae_tokens A) t = Inr (Some jti)"
    "fst (create_session (ae_inet A) jti (us_id u) tn (w_now w + 3600) (Some ip) device w) = Inr ()"
    "w_sessions w' = w_sessions (snd (create_session (ae_inet A) jti (us_id u) tn (w_now w + 3600) (Some ip) device w))"
    by (rule authenticate_ok [OF assms(2)]) (rule that)
  obtain j where j: "te_decode (ae_tokens A) t (plain_opts ve now)
      = Inr (dset ''jti'' (JStr j) (login_payload (w_now w) norm (us_id u) (Some tn) (us_role u) pol))"
    if "\<not> ve \<or> unexpired now (dset ''jti'' (JStr j) (login_payload (w_now w) norm (us_id u) (Some tn) (us_role u) pol))" for ve now
    by (rule created_token [OF assms(1) a(5)]) (rule that)
  have dec: "te_decode (ae_tokens A) t (plain_opts True now)
      = Inr (dset ''jti'' (JStr j) (login_payload (w_now w) norm (us_id u) (Some tn) (us_role u) pol))"
    by (rule j) (simp add: unexpired_def login_claims assms(4))
  have ne: "norm \<noteq> []" "tn \<noteq> []" "us_id u \<noteq> []"
    using assms(5-7) a(1,2,4) login_data_user [OF a(2)] by auto
  have "\<exists>td. verify_token (ae_tokens A) now t = Inr td \<and> td_email td = norm \<and> td_user td = us_id u
     \<and> td_tenant td = tn \<and> td_role td = us_role u \<and> td_policy td = Some pol \<and> td_exp td = Some (w_now w + 3600)"
    using dec ne by (simp add: verify_token_def login_claims ostr_or_def Let_def)
  with a(1-4) show ?thesis by blast
qed

text \<open>What the token of a login decides: the permissions of the map it carries.\<close>

lemma login_decides:
  assumes law: "env_law (ae_tokens B)"
    and login: "authenticate B ns c ip email (Some tenant) password device w = (Inr t, w')"
    and soon: "w_now w \<le> now" "now < w_now w + 3600"
    and named: "ae_normalize B email = Inr address" "address \<noteq> []" "tenant \<noteq> []" "\<forall>u \<in> set (w_users w). us_id u \<noteq> []"
  obtains u pol td where "login_data B c address w = Inr (u, pol)"
    "verify_token (ae_tokens B) now t = Inr td" "td_user td = us_id u" "td_tenant td = tenant"
    "td_role td = us_role u" "td_policy td = Some pol" "ae_checkpw B password (us_password u)"
    "\<And>rq from_inc inc v. (\<exists>out. fst (decide None rq from_inc inc td v) = Inr out \<and> verdict out = Some True) \<longleftrightarrow>
       aq_grant_type rq = ''fga'' \<and> \<not> aq_check_condition rq \<and> check_permission pol (aq_action rq) (aq_resource rq)"
proof -
  have "\<exists>norm u pol td. ae_normalize B email = Inr norm \<and> login_data B c norm w = Inr (u, pol)
     \<and> ae_checkpw B password (us_password u) \<and> verify_token (ae_tokens B) now t = Inr td
     \<and> td_email td = norm \<and> td_user td = us_id u \<and> Some (td_tenant td) = Some tenant \<and> td_role td = us_role u
     \<and> td_policy td = Some pol \<and> td_exp td = Some (w_now w + 3600)"
    by (rule login_verifies [OF law login soon]) (use named in auto)
  then obtain u pol td where td: "login_data B c address w = Inr (u, pol)"
    "verify_token (ae_tokens B) now t = Inr td" "td_user td = us_id u" "td_tenant td = tenant"
    "td_role td = us_role u" "td_policy td = Some pol" "ae_checkpw B password (us_password u)"
    using named(1) by auto
  from that [OF td decide_allows [OF td(6), THEN conjunct1]] show thesis .
qed

text \<open>C17. A successful login issues exactly the user's rights: verified within the hour, the token
  names the address, the user, the role and the tenant, and carries the permission map computed
  from the policies in force; the password matched, and a session with the token's id is stored.\<close>

theorem login_token_faithful:
  assumes "env_law (ae_tokens A)"
    and "authenticate A ns c ip email tenant password device w = (Inr t, w')"
    and "w_now w \<le> now" "now < w_now w + 3600"
    and "\<And>n. ae_normalize A email = Inr n \<Longrightarrow> n \<noteq> []" "tenant \<noteq> Some []" "\<forall>u \<in> set (w_users w). us_id u \<noteq> []"
  shows "\<exists>norm u pol td. ae_normalize A email = Inr norm \<and> login_data A c norm w = Inr (u, pol)
     \<and> ae_checkpw A password (us_password u)
     \<and> verify_token (ae_tokens A) now t = Inr td
     \<and> td_email td = norm \<and> td_user td = us_id u \<and> Some (td_tenant td) = tenant \<and> td_role td = us_role u
     \<and> td_policy td = Some pol \<and> td_exp td = Some (w_now w + 3600)
     \<and> (\<exists>s \<in> set (w_sessions w'). header_jti (ae_tokens A) t = Inr (Some (ss_jti s)))"
proof -
  obtain jti tn and u :: user_row where a: "header_jti (ae_tokens A) t = Inr (Some jti)"
    "fst (create_session (ae_inet A) jti (us_id u) tn (w_now w + 3600) (Some ip) device w) = Inr ()"
    "w_sessions w' = w_sessions (snd (create_session (ae_inet A) jti (us_id u) tn (w_now w + 3600) (Some ip) device w))"
    by (rule authenticate_ok [OF assms(2)]) (rule that; assumption)
  have "\<exists>s \<in> set (w_sessions w'). header_jti (ae_tokens A) t = Inr (Some (ss_jti s))"
    using created_session [OF a(2)] a(1,3) by auto
  with login_verifies [OF assms] show ?thesis by blast
qed

text \<open>A concrete environment: HS256 over a table of tokens.\<close>

definition demo_claims :: "json dict" where
  "demo_claims = dset ''jti'' (JStr ''u1-5'')
     (login_payload 100 ''a@x'' ''u1'' (Some ''t1'') (Some ''member'') [(''doc'', 1)])"

definition demo_hs_jwt :: jwt_lib where
  "demo_hs_jwt = table_jwt [(''at'', demo_claims, ''s'', ''HS256'', [(''jti'', JStr ''u1-5'')])] []"

definition demo_auth :: auth_env where
  "demo_auth = \<lparr>ae_tokens = manager_env demo_hs_jwt (demo_instant 0 []) (demo_manager\<lparr>km_algorithm := ''HS256'', km_secret := ''s''\<rparr>) None,
     ae_normalize = Inr, ae_checkpw = (\<lambda>p h. p = h), ae_cast = (\<lambda>_. None), ae_inet = (\<lambda>_. True),
     ae_ts_arg = (\<lambda>_. Inl (DbErr DataError))\<rparr>"

lemma demo_auth_law: "env_law (ae_tokens demo_auth)"
proof -
  have "env_law (manager_env demo_hs_jwt (demo_instant 0 []) (demo_manager\<lparr>km_algorithm := ''HS256'', km_secret := ''s''\<rparr>) None)"
  proof (rule hs256_env_law)
    show "jwt_law demo_hs_jwt" unfolding demo_hs_jwt_def by (rule jwt_law_table) simp
    fix ve now p
    assume "\<not> ve \<or> unexpired now p"
    then show "jl_claims demo_hs_jwt (plain_opts ve now) p = None"
      by (auto simp: demo_hs_jwt_def table_jwt_def plain_opts_def unexpired_def claim_int_def split: option.splits json.splits)
  qed simp_all
  then show ?thesis by (simp add: demo_auth_def)
qed

lemma demo_login:
  "fst (authenticate demo_auth 5 (TenantConn ''t1'') ''1.2.3.4'' ''a@x'' (Some ''t1'') ''h'' None policy_demo) = Inr ''at''"
  by code_simp

theorem login_token_faithful_witness:
  "\<exists>td pol. verify_token (ae_tokens demo_auth) 200 ''at'' = Inr td \<and> td_policy td = Some pol \<and> td_tenant td = ''t1''"
proof -
  let ?r = "authenticate demo_auth 5 (TenantConn ''t1'') ''1.2.3.4'' ''a@x'' (Some ''t1'') ''h'' None policy_demo"
  have run: "?r = (Inr ''at'', snd ?r)" using demo_login by (metis prod.collapse)
  have "w_now policy_demo = 100" "\<forall>u \<in> set (w_users policy_demo). us_id u \<noteq> []"
    by (simp_all add: policy_demo_def)
  moreover have "n \<noteq> []" if "ae_normalize demo_auth ''a@x'' = Inr n" for n using that by (auto simp: demo_auth_def)
  ultimately show ?thesis
    using login_token_faithful [OF demo_auth_law run, of 200] by auto
qed

text \<open>A user with the right password but without a policy in force cannot log in: the missing
  policy reaches the JSON parser as NULL and the login ends in an internal error.\<close>

theorem login_without_policies_fails:
  assumes "ae_normalize A email = Inr norm"
    and "fetch_user_with_policy (ae_cast A) c norm w = Inr [(u, None)]"
    and "ae_checkpw A password (us_password u)"
  shows "fst (authenticate A ns c ip email tenant password device w)
     = Inl (AppErr (InternalAppError ''Internal server error''))"
  using assms by (simp add: authenticate_def authenticate_body_def finish_login_def eff_simps)

theorem login_without_policies_fails_witness:
  "fst (authenticate demo_auth 5 (TenantConn ''t1'') ''1.2.3.4'' ''a@x'' (Some ''t1'') ''h'' None (policy_demo\<lparr>w_policies := []\<rparr>))
     = Inl (AppErr (InternalAppError ''Internal server error''))"
proof -
  let ?u = "hd (w_users policy_demo)"
  have "ae_normalize demo_auth ''a@x'' = Inr ''a@x''"
    "fetch_user_with_policy (ae_cast demo_auth) (TenantConn ''t1'') ''a@x'' (policy_demo\<lparr>w_policies := []\<rparr>) = Inr [(?u, None)]"
    "ae_checkpw demo_auth ''h'' (us_password ?u)"
    by (simp_all add: demo_auth_def policy_demo_def fetch_user_with_policy_def sql_select_def users_of_def policies_of_def)
  then show ?thesis by (rule login_without_policies_fails)
qed

section \<open>Account status\<close>

definition set_status ::
    "(user_row \<Rightarrow> bool) \<Rightarrow> (user_row \<Rightarrow> bool) \<Rightarrow> (tenant_row \<Rightarrow> bool) \<Rightarrow> world \<Rightarrow> world" where
  "set_status active verified tactive w =
     w\<lparr>w_users := map (\<lambda>u. u\<lparr>us_is_active := active u, us_email_verified := verified u\<rparr>) (w_users w),
       w_tenants := map (\<lambda>t. t\<lparr>tn_is_active := tactive t\<rparr>) (w_tenants w)\<rparr>"

lemma users_of_status:
  "users_of c (set_status a v b w) = map (\<lambda>u. u\<lparr>us_is_active := a u, us_email_verified := v u\<rparr>) (users_of c w)"
proof -
  have "filter (\<lambda>u. rls_visible c (us_tenant u)) (map (\<lambda>u. u\<lparr>us_is_active := a u, us_email_verified := v u\<rparr>) us)
     = map (\<lambda>u. u\<lparr>us_is_active := a u, us_email_verified := v u\<rparr>) (filter (\<lambda>u. rls_visible c (us_tenant u)) us)" for us
    by (induction us) auto
  then show ?thesis by (simp add: users_of_def set_status_def)
qed

lemma join_status:
  "join_policies cast c (set_status a v b w) (map (\<lambda>u. u\<lparr>us_is_active := a u, us_email_verified := v u\<rparr>) us)
   = map_sum id (map (map_prod (\<lambda>u. u\<lparr>us_is_active := a u, us_email_verified := v u\<rparr>) id)) (join_policies cast c w us)"
proof (induction us)
  case (Cons u us)
  have "policies_of c (set_status a v b w) = policies_of c w" "w_now (set_status a v b w) = w_now w"
    by (simp_all add: policies_of_def set_status_def)
  with Cons show ?case
    by (cases "select_in_force cast (w_now w) (map up_policy (sql_select (\<lambda>p. up_user p = us_id u) (policies_of c w)))";
        cases "join_policies cast c w us") auto
qed simp

lemma fetch_status:
  "fetch_user_with_policy cast c email (set_status a v b w)
   = map_sum id (map (map_prod (\<lambda>u. u\<lparr>us_is_active := a u, us_email_verified := v u\<rparr>) id)) (fetch_user_with_policy cast c email w)"
proof -
  have "sql_select (\<lambda>u. us_email u = email) (map (\<lambda>u. u\<lparr>us_is_active := a u, us_email_verified := v u\<rparr>) us)
     = map (\<lambda>u. u\<lparr>us_is_active := a u, us_email_verified := v u\<rparr>) (sql_select (\<lambda>u. us_email u = email) us)" for us
    by (induction us) (auto simp: sql_select_def)
  then show ?thesis by (simp add: fetch_user_with_policy_def users_of_status join_status)
qed

lemma row_policies_status: "row_policies (map (map_prod f id) rows) = row_policies rows"
  by (induction rows rule: row_policies.induct) (auto split: option.splits sum.splits)

lemma commutes_log [commutes_intros]:
  "commutes (set_status a v b) (log_audit x kvs)" "commutes (set_status a v b) (force_error m)"
  by (simp_all add: commutes_def log_audit_run force_error_run set_status_def)

lemma commutes_create_session [commutes_intros]:
  "commutes (set_status a v b) (create_session inet j u t e ip d)"
  by (simp add: commutes_def create_session_def Let_def set_status_def)

lemma commutes_finish: "commutes (set_status a v b) (finish_login A ns ip norm tenant password device u ps)"
  unfolding finish_login_def
  by (intro commutes_intros) (simp_all add: set_status_def)

lemma finish_status:
  "finish_login A ns ip norm tenant password device (u\<lparr>us_is_active := x, us_email_verified := y\<rparr>) ps
   = finish_login A ns ip norm tenant password device u ps"
  by (simp add: finish_login_def cong: option.case_cong)

lemma commutes_fetch: 
  "commutes (set_status a v b) (ebind (\<lambda>w. (fetch_user_with_policy cast c norm w, w)) (\<lambda>rows.
     if rows = [] then eraise (AppErr (AuthenticationError ''Invalid credentials''))
     else finish_login A ns ip norm tenant password device (fst (hd rows)) (row_policies rows)))"
  unfolding commutes_def
proof
  fix w
  show "ebind (\<lambda>w. (fetch_user_with_policy cast c norm w, w)) (\<lambda>rows.
     if rows = [] then eraise (AppErr (AuthenticationError ''Invalid credentials''))
     else finish_login A ns ip norm tenant password device (fst (hd rows)) (row_policies rows)) (set_status a v b w)
   = (fst (ebind (\<lambda>w. (fetch_user_with_policy cast c norm w, w)) (\<lambda>rows.
     if rows = [] then eraise (AppErr (AuthenticationError ''Invalid credentials''))
     else finish_login A ns ip norm tenant password device (fst (hd rows)) (row_policies rows)) w),
      set_status a v b (snd (ebind (\<lambda>w. (fetch_user_with_policy cast c norm w, w)) (\<lambda>rows.
     if rows = [] then eraise (AppErr (AuthenticationError ''Invalid credentials''))
     else finish_login A ns ip norm tenant password device (fst (hd rows)) (row_policies rows)) w)))"
  proof (cases "fetch_user_with_policy cast c norm w")
    case (Inr rows)
    then show ?thesis
      using row_policies_status [of _ rows] commutes_run [OF commutes_finish]
      by (cases rows) (auto simp: ebind_run fetch_status finish_status)
  qed (simp add: ebind_run fetch_status)
qed

text \<open>Neither deactivating users or tenants nor leaving an address unverified keeps anyone from
  logging in: whatever the flags of users and tenants are set to, a login attempt has the same
  outcome and, when it succeeds, the same token.\<close>

theorem login_ignores_account_status:
  "fst (authenticate A ns c ip email tenant password device (set_status active verified tactive w))
   = fst (authenticate A ns c ip email tenant password device w)"
proof -
  have "commutes (set_status active verified tactive) (authenticate_body A ns c ip email tenant password device)"
    unfolding authenticate_body_def by (intro commutes_ebind commutes_basic commutes_fetch)
  then have "commutes (set_status active verified tactive) (authenticate A ns c ip email tenant password device)"
    unfolding authenticate_def
    by (rule commutes_etry) (auto intro!: commutes_intros split: exn.split)
  then show ?thesis by (simp add: commutes_run)
qed

section \<open>Revoked tokens\<close>

lemma split_all_last: "CHR '' '' \<notin> set t \<Longrightarrow> last (split_all (CHR '' '') (''Bearer '' @ t)) = t"
  by (simp add: split_all_no_sep)

lemma lower_bearer: "py_lower ''Bearer'' = ''bearer''"
  by code_simp

lemma bearer_parts:
  "starts_with (''Bearer '' @ t) ''Bearer ''" "ostr_true (Some (''Bearer '' @ t))"
  "split1 (CHR '' '') (''Bearer '' @ t) = Some (''Bearer'', t)"
  by (simp_all add: starts_with_def)

lemma middle_ware_token:
  assumes "\<not> is_public path" "CHR '' '' \<notin> set t" "t \<noteq> []" "header_jti E t = Inr (Some j)" "j \<noteq> []"
  shows "middle_ware q E h path (Some (''Bearer '' @ t)) w
     = Inr (if is_revoked q j w then Some (unauthorized h ''Token has been revoked'') else None)"
  using assms split_all_last [OF assms(2)] bearer_parts [of t] lower_bearer
  by (auto simp: middle_ware_def header_jti_def Let_def split: sum.splits)

lemma unauthorized_status [simp]: "eo_status (unauthorized h m) = 401"
  by (simp add: unauthorized_def html_error_response_def error_response_def)

text \<open>C20. On every path that is not public the middleware turns away a request whose token is revoked
  on this node, with status 401, for browsers and programs alike; a token that is not revoked
  passes.\<close>

theorem middleware_enforces_revocation:
  assumes "\<not> is_public path" "CHR '' '' \<notin> set t" "t \<noteq> []" "header_jti E t = Inr (Some j)" "j \<noteq> []" "bloom_law q"
  shows "(j \<in> set (w_bloom w) \<longrightarrow>
           (\<exists>r. middle_ware q E h path (Some (''Bearer '' @ t)) w = Inr (Some r) \<and> eo_status r = 401))
     \<and> (\<not> is_revoked q j w \<longrightarrow> middle_ware q E h path (Some (''Bearer '' @ t)) w = Inr None)"
  using middle_ware_token [OF assms(1-5)] bloom_mem [OF assms(6)] by (auto simp: is_revoked_def)

definition no_html :: req_headers where
  "no_html = \<lparr>rh_accept = [], rh_fetch_dest = [], rh_fetch_mode = []\<rparr>"

lemma demo_header: "header_jti (ae_tokens demo_auth) ''at'' = Inr (Some ''u1-5'')"
  by code_simp

lemma demo_private: "\<not> is_public ''/api/v1/users''"
  by code_simp

theorem middleware_enforces_revocation_witness:
  "\<exists>r. middle_ware exact_bloom (ae_tokens demo_auth) no_html ''/api/v1/users'' (Some ''Bearer at'')
     (empty_world\<lparr>w_bloom := [''u1-5'']\<rparr>) = Inr (Some r) \<and> eo_status r = 401"
  using middleware_enforces_revocation [OF demo_private _ _ demo_header _ bloom_law_exact,
      where w = "empty_world\<lparr>w_bloom := [''u1-5'']\<rparr>" and h = no_html]
  by simp

lemma logout_run:
  assumes "CHR '' '' \<notin> set t" "header_jti E t = Inr jti" "te_decode E t (plain_opts False (w_now w)) = Inr p"
  shows "\<exists>l l'. logout E (Some (''Bearer '' @ t)) ip w =
     (case revoke_session_opt jti (claim_str p ''user_id'') (claim_str p ''tenant_id'') ''logout'' w of
        (Inl e, w') \<Rightarrow> (Inl (AppErr (InternalAppError ''Failed to blacklist token'')), w'\<lparr>w_log := l\<rparr>)
      | (Inr b, w') \<Rightarrow> (Inr (success_response () ''Successfully logged out''), w'\<lparr>w_log := l'\<rparr>))"
proof -
  have lt: "logout_token E (w_now w) (''Bearer '' @ t) = Inr (jti, claim_str p ''user_id'', claim_str p ''tenant_id'')"
    using assms bearer_parts [of t] lower_bearer by (simp add: logout_token_def)
  show ?thesis
    by (cases "revoke_session_opt jti (claim_str p ''user_id'') (claim_str p ''tenant_id'') ''logout'' w")
       (use lt in \<open>auto simp: logout_def eff_simps split: sum.splits\<close>)
qed

text \<open>C14. Logging out works: when the caller's token belongs to an open session, \<open>/logout\<close> succeeds,
  even if the token has expired, and from then on this node's middleware turns the token away on
  every protected path.\<close>

theorem logout_then_rejected:
  assumes "CHR '' '' \<notin> set t" "t \<noteq> []" "header_jti E t = Inr (Some j)" "j \<noteq> []" "bloom_law q"
    and "te_decode E t (plain_opts False (w_now w)) = Inr p"
    and "claim_str p ''user_id'' = Some u" "claim_str p ''tenant_id'' = Some tn"
    and "s \<in> set (w_sessions w)" "ss_jti s = j" "ss_user s = u" "ss_tenant s = tn" "ss_revoked_at s = None"
    and "\<not> is_public path"
  shows "fst (logout E (Some (''Bearer '' @ t)) ip w) = Inr (success_response () ''Successfully logged out'')
     \<and> (\<exists>r. middle_ware q E h path (Some (''Bearer '' @ t)) (snd (logout E (Some (''Bearer '' @ t)) ip w))
            = Inr (Some r) \<and> eo_status r = 401)"
proof -
  let ?p = "\<lambda>s. ss_jti s = j \<and> ss_user s = u \<and> ss_tenant s = tn \<and> ss_revoked_at s = None"
  have "sql_count ?p (w_sessions w) \<noteq> 0" using assms(9-13) by (auto simp: sql_count_zero)
  then obtain v where v: "revoke_session j u tn ''logout'' w = (Inr True, v)" "j \<in> set (w_bloom v)"
    by (auto simp: revoke_session_run revoke_token_run)
  obtain l where L: "logout E (Some (''Bearer '' @ t)) ip w
      = (Inr (success_response () ''Successfully logged out''), v\<lparr>w_log := l\<rparr>)"
    using logout_run [OF assms(1,3,6), of ip] v(1) assms(7,8) by (auto simp: revoke_session_opt_def)
  have "is_revoked q j (v\<lparr>w_log := l\<rparr>)" using v(2) bloom_mem [OF assms(5)] by (simp add: is_revoked_def)
  with L middle_ware_token [OF assms(14,1-4)] show ?thesis by simp
qed

definition demo_logged_in :: world where
  "demo_logged_in = policy_demo\<lparr>w_sessions := [demo_session ''u1-5'' ''u1'' ''t1'' 100]\<rparr>"

theorem logout_then_rejected_witness:
  "\<exists>r. middle_ware exact_bloom (ae_tokens demo_auth) no_html ''/api/v1/users'' (Some ''Bearer at'')
     (snd (logout (ae_tokens demo_auth) (Some ''Bearer at'') ''ip'' demo_logged_in)) = Inr (Some r) \<and> eo_status r = 401"
proof -
  have p: "te_decode (ae_tokens demo_auth) ''at'' (plain_opts False (w_now demo_logged_in)) = Inr demo_claims"
    "claim_str demo_claims ''user_id'' = Some ''u1''" "claim_str demo_claims ''tenant_id'' = Some ''t1''"
    by code_simp+
  have s: "demo_session ''u1-5'' ''u1'' ''t1'' 100 \<in> set (w_sessions demo_logged_in)"
    by (simp add: demo_logged_in_def)
  show ?thesis
    using logout_then_rejected [OF _ _ demo_header _ bloom_law_exact p s,
        where path = "''/api/v1/users''" and ip = "''ip''" and h = no_html] demo_private
    by (simp add: demo_session_def)
qed

text \<open>Logging out with a token that no session row records, as the tokens of the OIDC endpoints
  are, reports success and revokes nothing: the filter is unchanged and the token still passes.\<close>

theorem logout_without_session_revokes_nothing:
  assumes "CHR '' '' \<notin> set t" "header_jti E t = Inr jti" "te_decode E t (plain_opts False (w_now w)) = Inr p"
    and "\<forall>s \<in> set (w_sessions w). Some (ss_jti s) \<noteq> jti"
  shows "fst (logout E (Some (''Bearer '' @ t)) ip w) = Inr (success_response () ''Successfully logged out'')
     \<and> w_bloom (snd (logout E (Some (''Bearer '' @ t)) ip w)) = w_bloom w
     \<and> w_stream (snd (logout E (Some (''Bearer '' @ t)) ip w)) = w_stream w"
proof -
  have "revoke_session j u tn r w = (Inr False, w)" if "jti = Some j" for j u tn r
    using assms(4) that by (auto simp: revoke_session_run sql_count_zero)
  then have "revoke_session_opt jti (claim_str p ''user_id'') (claim_str p ''tenant_id'') ''logout'' w = (Inr False, w)"
    by (cases jti) (simp_all add: revoke_session_opt_def split: option.split)
  with logout_run [OF assms(1-3), of ip] show ?thesis by auto
qed

theorem logout_without_session_revokes_nothing_witness:
  "w_bloom (snd (logout (ae_tokens demo_auth) (Some ''Bearer at'') ''ip'' policy_demo)) = []"
proof -
  have "te_decode (ae_tokens demo_auth) ''at'' (plain_opts False (w_now policy_demo)) = Inr demo_claims"
    by code_simp
  from logout_without_session_revokes_nothing [OF _ demo_header this, where ip = "''ip''"]
  show ?thesis by (simp add: policy_demo_def demo_session_def empty_world_def)
qed

section \<open>The memo of verified tokens\<close>

lemma lru_put_hit: "map_of (lru_put t d c) t = Some d"
  by (simp add: lru_put_def lru_size_def)

text \<open>A token that was verified once keeps being accepted by the dependency of the endpoints,
  whatever the clock says and whatever the token library would say now: the memo of verified
  tokens is consulted before the expiry is checked.\<close>

theorem verified_token_outlives_expiry:
  assumes "fst (verify_and_return_jwt_payload E auth w) = Inr d"
  shows "fst (verify_and_return_jwt_payload E' auth
           ((snd (verify_and_return_jwt_payload E auth w))\<lparr>w_now := later\<rparr>)) = Inr d"
proof -
  obtain t where t: "extract_token auth = Inr t"
    using assms by (cases "extract_token auth") (auto simp: verify_and_return_jwt_payload_def raise_verify_def eff_simps split: if_splits)
  have "fst (cached_verify_token E t w) = Inr d" using assms t by (simp add: verify_and_return_jwt_payload_def)
  then have "w_verified (snd (cached_verify_token E t w)) = lru_put t d (w_verified w)"
    by (auto simp: cached_verify_token_def raise_verify_def eff_simps split: option.splits sum.splits if_splits)
  then show ?thesis using t by (simp add: verify_and_return_jwt_payload_def cached_verify_token_def lru_put_hit)
qed

theorem verified_token_outlives_expiry_witness:
  "\<exists>d. fst (verify_and_return_jwt_payload (ae_tokens demo_auth) (Some ''Bearer at'')
      ((snd (verify_and_return_jwt_payload (ae_tokens demo_auth) (Some ''Bearer at'') policy_demo))\<lparr>w_now := 99999\<rparr>)) = Inr d
   \<and> fst (verify_and_return_jwt_payload (ae_tokens demo_auth) (Some ''Bearer at'') (policy_demo\<lparr>w_now := 99999\<rparr>))
      = Inl (AppErr (AuthenticationError ''Expired token''))"
proof -
  have "fst (verify_and_return_jwt_payload (ae_tokens demo_auth) (Some ''Bearer at'') policy_demo)
      = Inr (projr (verify_token (ae_tokens demo_auth) 100 ''at''))"
    by code_simp
  from verified_token_outlives_expiry [OF this, of "ae_tokens demo_auth" 99999]
  have "fst (verify_and_return_jwt_payload (ae_tokens demo_auth) (Some ''Bearer at'')
      ((snd (verify_and_return_jwt_payload (ae_tokens demo_auth) (Some ''Bearer at'') policy_demo))\<lparr>w_now := 99999\<rparr>))
      = Inr (projr (verify_token (ae_tokens demo_auth) 100 ''at''))" .
  moreover have "fst (verify_and_return_jwt_payload (ae_tokens demo_auth) (Some ''Bearer at'') (policy_demo\<lparr>w_now := 99999\<rparr>))
      = Inl (AppErr (AuthenticationError ''Expired token''))"
    by code_simp
  ultimately show ?thesis by blast
qed

section \<open>Refresh never succeeds\<close>

text \<open>The refresh endpoint has no successful outcome: the issue time of the token is an integer,
  which asyncpg refuses as the argument of the comparison with a timestamp column.\<close>

theorem refresh_never_succeeds:
  assumes "\<forall>n. ae_ts_arg A n = Inl (DbErr DataError)"
  shows "\<exists>e. fst (refresh A ns ns' c rh th ip w) = Inl e"
  using assms by (auto simp: refresh_def eff_simps split: sum.split if_splits)

theorem refresh_never_succeeds_witness:
  "\<exists>e. fst (refresh demo_auth 1 2 (TenantConn ''t1'') (Some ''Refresh at'') (Some ''t1'') ''ip'' policy_demo) = Inl e"
  by (rule refresh_never_succeeds) (simp add: demo_auth_def)

end
