(* ===== verification/Federation.thy ===== *)
theory Federation
  imports Tokens
begin

text \<open>
  Upstream identity providers (app/services/federation_service.py and app/api/v1/federation.py):
  the provider table with its Redis cache, discovery documents and signing keys of a provider,
  validation of broker tokens, the exchange of an upstream code, and the rules that link an
  external subject to a local user or provision one.

  The HTTP client, PyJWT's verification with a remote key and the random identifiers are
  arguments. Claims of a provider are read as strings; a claim of another type counts as absent.
\<close>

section \<open>The outside of the service\<close>

record fed_env =
  fe_get :: "string \<Rightarrow> string option \<Rightarrow> exn + json dict"
  fe_post :: "string \<Rightarrow> (string \<times> string option) list \<Rightarrow> string option \<Rightarrow> exn + json dict"
  fe_unverified :: "string \<Rightarrow> exn + json dict"
  fe_jwk :: "string \<Rightarrow> string \<Rightarrow> exn + string"
  fe_hmac_decode :: "string \<Rightarrow> string \<Rightarrow> string option \<Rightarrow> string \<Rightarrow> exn + json dict"
  fe_key_decode :: "string \<Rightarrow> string \<Rightarrow> string option \<Rightarrow> string \<Rightarrow> exn + json dict"

text \<open>
  \<open>fe_get url bearer\<close> and \<open>fe_post url form basic\<close> are the client's requests with
  \<open>raise_for_status\<close> and \<open>json\<close>; \<open>basic\<close> is the text that the Basic header encodes.
  \<open>fe_unverified\<close> is PyJWT's decoding without verification, \<open>fe_jwk uri token\<close> the lookup of
  the signing key, \<open>fe_hmac_decode token secret audience issuer\<close> and \<open>fe_key_decode\<close> the two
  verifying calls.
\<close>

section \<open>The provider table\<close>

text \<open>Row reads of \<open>list_identity_providers\<close> leave out the two secrets.\<close>

definition public_provider :: "provider_row \<Rightarrow> provider_row" where
  "public_provider r = r\<lparr>ip_client_secret := None, ip_jwt_secret := None\<rparr>"

definition provider_rows :: "string \<Rightarrow> world \<Rightarrow> provider_row list" where
  "provider_rows tenant w =
     map public_provider
       (sort_key (\<lambda>r. - ip_created r) (sql_select (\<lambda>r. ip_tenant r = tenant) (w_providers w)))"

definition providers_key :: "string \<Rightarrow> string" where
  "providers_key tenant = ''fed_providers:'' @ tenant"

definition list_identity_providers :: "string \<Rightarrow> bool \<Rightarrow> provider_row list svc" where
  "list_identity_providers tenant redis =
     ebind (eget (\<lambda>w. if redis then cache_get (w_now w) (w_provider_cache w) (providers_key tenant) else None)) (\<lambda>cached.
     case cached of
       Some ps \<Rightarrow> eret ps
     | None \<Rightarrow>
         ebind (eget (provider_rows tenant)) (\<lambda>ps.
         ethen (if redis
                then emod (\<lambda>w. w\<lparr>w_provider_cache :=
                       cache_setex (w_now w) (providers_key tenant) 60 ps (w_provider_cache w)\<rparr>)
                else eret ())
               (eret ps)))"

definition drop_provider_cache :: "string \<Rightarrow> bool \<Rightarrow> unit svc" where
  "drop_provider_cache tenant redis =
     (if redis then emod (\<lambda>w. w\<lparr>w_provider_cache := cache_del (providers_key tenant) (w_provider_cache w)\<rparr>)
      else eret ())"

definition get_identity_provider :: "string \<Rightarrow> string \<Rightarrow> provider_row option svc" where
  "get_identity_provider tenant pid =
     eget (\<lambda>w. sql_row (\<lambda>r. ip_tenant r = tenant \<and> ip_id r = pid) (w_providers w))"

record provider_create =
  ic_name :: string
  ic_protocol :: string
  ic_issuer :: string
  ic_client_id :: "string option"
  ic_client_secret :: "string option"
  ic_discovery_url :: "string option"
  ic_authorization_endpoint :: "string option"
  ic_token_endpoint :: "string option"
  ic_userinfo_endpoint :: "string option"
  ic_jwks_uri :: "string option"
  ic_jwt_secret :: "string option"
  ic_enabled :: bool
  ic_auto_link :: bool
  ic_scopes :: string
  ic_auth_method :: string
  ic_claims_source :: string
  ic_link_verified_only :: bool
  ic_default_role :: string

record provider_update =
  iu_name :: "string option"
  iu_protocol :: "string option"
  iu_issuer :: "string option"
  iu_client_id :: "string option"
  iu_client_secret :: "string option"
  iu_discovery_url :: "string option"
  iu_authorization_endpoint :: "string option"
  iu_token_endpoint :: "string option"
  iu_userinfo_endpoint :: "string option"
  iu_jwks_uri :: "string option"
  iu_jwt_secret :: "string option"
  iu_enabled :: "bool option"
  iu_auto_link :: "bool option"
  iu_scopes :: "string option"
  iu_auth_method :: "string option"
  iu_claims_source :: "string option"
  iu_link_verified_only :: "bool option"
  iu_default_role :: "string option"

definition new_provider_row :: "string \<Rightarrow> string \<Rightarrow> int \<Rightarrow> provider_create \<Rightarrow> provider_row" where
  "new_provider_row pid tenant now p =
     \<lparr>ip_id = pid, ip_tenant = tenant, ip_name = ic_name p, ip_protocol = ic_protocol p,
      ip_issuer = ic_issuer p, ip_client_id = ic_client_id p, ip_client_secret = ic_client_secret p,
      ip_discovery_url = ic_discovery_url p, ip_authorization_endpoint = ic_authorization_endpoint p,
      ip_token_endpoint = ic_token_endpoint p, ip_userinfo_endpoint = ic_userinfo_endpoint p,
      ip_jwks_uri = ic_jwks_uri p, ip_jwt_secret = ic_jwt_secret p, ip_enabled = ic_enabled p,
      ip_auto_link = ic_auto_link p, ip_scopes = Some (ic_scopes p), ip_auth_method = Some (ic_auth_method p),
      ip_claims_source = Some (ic_claims_source p), ip_link_verified_only = ic_link_verified_only p,
      ip_default_role = ic_default_role p, ip_created = now\<rparr>"

text \<open>
  The table's constraints: the tenant exists, the id is new, one provider per tenant and issuer.
\<close>

definition insert_provider :: "provider_row \<Rightarrow> unit svc" where
  "insert_provider r = (\<lambda>w.
     if \<forall>t \<in> set (w_tenants w). tn_id t \<noteq> ip_tenant r then (Inl (DbErr ForeignKeyViolationError), w)
     else if \<exists>x \<in> set (w_providers w). ip_id x = ip_id r \<or> (ip_tenant x = ip_tenant r \<and> ip_issuer x = ip_issuer r)
     then (Inl (DbErr UniqueViolationError), w)
     else (Inr (), w\<lparr>w_providers := w_providers w @ [r]\<rparr>))"

definition create_identity_provider :: "string \<Rightarrow> string \<Rightarrow> provider_create \<Rightarrow> bool \<Rightarrow> provider_row option svc" where
  "create_identity_provider pid tenant p redis =
     (if ic_protocol p \<noteq> ''oidc''
      then eraise (PyErr (ValueError ''Only OIDC identity providers are supported right now''))
      else
        ebind (eget w_now) (\<lambda>now.
        ethen (insert_provider (new_provider_row pid tenant now p))
       (ethen (drop_provider_cache tenant redis)
              (get_identity_provider tenant pid))))"

definition over :: "'a \<Rightarrow> 'a option \<Rightarrow> 'a" where
  "over cur v = (case v of None \<Rightarrow> cur | Some x \<Rightarrow> x)"

definition over_opt :: "'a option \<Rightarrow> 'a option \<Rightarrow> 'a option" where
  "over_opt cur v = (case v of None \<Rightarrow> cur | Some x \<Rightarrow> Some x)"

definition merge_provider :: "provider_row \<Rightarrow> provider_update \<Rightarrow> provider_row" where
  "merge_provider c u =
     c\<lparr>ip_name := over (ip_name c) (iu_name u), ip_protocol := over (ip_protocol c) (iu_protocol u),
       ip_issuer := over (ip_issuer c) (iu_issuer u), ip_client_id := over_opt (ip_client_id c) (iu_client_id u),
       ip_client_secret := over_opt (ip_client_secret c) (iu_client_secret u),
       ip_discovery_url := over_opt (ip_discovery_url c) (iu_discovery_url u),
       ip_authorization_endpoint := over_opt (ip_authorization_endpoint c) (iu_authorization_endpoint u),
       ip_token_endpoint := over_opt (ip_token_endpoint c) (iu_token_endpoint u),
       ip_userinfo_endpoint := over_opt (ip_userinfo_endpoint c) (iu_userinfo_endpoint u),
       ip_jwks_uri := over_opt (ip_jwks_uri c) (iu_jwks_uri u),
       ip_jwt_secret := over_opt (ip_jwt_secret c) (iu_jwt_secret u),
       ip_enabled := over (ip_enabled c) (iu_enabled u), ip_auto_link := over (ip_auto_link c) (iu_auto_link u),
       ip_scopes := over_opt (ip_scopes c) (iu_scopes u), ip_auth_method := over_opt (ip_auth_method c) (iu_auth_method u),
       ip_claims_source := over_opt (ip_claims_source c) (iu_claims_source u),
       ip_link_verified_only := over (ip_link_verified_only c) (iu_link_verified_only u),
       ip_default_role := over (ip_default_role c) (iu_default_role u)\<rparr>"

text \<open>\<open>provider.get('discovery_url') or provider.get('issuer_url')\<close>.\<close>

definition discovery_key :: "provider_row \<Rightarrow> string" where
  "discovery_key p = (if ostr_true (ip_discovery_url p) then the (ip_discovery_url p) else ip_issuer p)"

definition reset_remote_caches :: "string list \<Rightarrow> unit svc" where
  "reset_remote_caches ks =
     emod (\<lambda>w. w\<lparr>w_discovery := fold (\<lambda>k d. if k = [] then d else ddel k d) ks (w_discovery w),
                 w_jwk_clients := []\<rparr>)"

definition store_provider :: "string \<Rightarrow> string \<Rightarrow> provider_row \<Rightarrow> unit svc" where
  "store_provider tenant pid r = (\<lambda>w.
     if \<exists>x \<in> set (w_providers w). ip_id x \<noteq> pid \<and> ip_tenant x = tenant \<and> ip_issuer x = ip_issuer r
     then (Inl (DbErr UniqueViolationError), w)
     else (Inr (), w\<lparr>w_providers := sql_update (\<lambda>x. ip_tenant x = tenant \<and> ip_id x = pid) (\<lambda>_. r) (w_providers w)\<rparr>))"

definition update_identity_provider ::
    "string \<Rightarrow> string \<Rightarrow> provider_update \<Rightarrow> bool \<Rightarrow> provider_row option svc" where
  "update_identity_provider tenant pid u redis =
     ebind (get_identity_provider tenant pid) (\<lambda>cur.
     case cur of None \<Rightarrow> eret None
     | Some c \<Rightarrow>
         if ip_protocol (merge_provider c u) \<noteq> ''oidc''
         then eraise (PyErr (ValueError ''Only OIDC identity providers are supported right now''))
         else
           ethen (store_provider tenant pid (merge_provider c u))
          (ethen (reset_remote_caches [discovery_key c, discovery_key (merge_provider c u)])
          (ethen (drop_provider_cache tenant redis)
                 (get_identity_provider tenant pid))))"

text \<open>The foreign keys of links and transactions cascade. \<open>endswith('1')\<close> reads the row count.\<close>

definition remove_provider :: "string \<Rightarrow> string \<Rightarrow> nat svc" where
  "remove_provider tenant pid = (\<lambda>w.
     let p = (\<lambda>r. ip_tenant r = tenant \<and> ip_id r = pid);
         gone = map ip_id (sql_select p (w_providers w)) in
     (Inr (sql_count p (w_providers w)),
      w\<lparr>w_providers := sql_delete p (w_providers w),
        w_links := sql_delete (\<lambda>l. fi_provider l \<in> set gone) (w_links w),
        w_txns := sql_delete (\<lambda>t. ft_provider t \<in> set gone) (w_txns w)\<rparr>))"

definition delete_identity_provider :: "string \<Rightarrow> string \<Rightarrow> bool \<Rightarrow> bool svc" where
  "delete_identity_provider tenant pid redis =
     ebind (get_identity_provider tenant pid) (\<lambda>cur.
     ebind (remove_provider tenant pid) (\<lambda>n.
     ethen (case cur of None \<Rightarrow> eret () | Some c \<Rightarrow> reset_remote_caches [discovery_key c])
    (ethen (drop_provider_cache tenant redis)
           (eret (n mod 10 = 1)))))"

definition list_federated_links_for_provider :: "string \<Rightarrow> string \<Rightarrow> link_row list svc" where
  "list_federated_links_for_provider tenant pid =
     eget (\<lambda>w. sort_key (\<lambda>l. - fi_created l)
                 (sql_select (\<lambda>l. fi_tenant l = tenant \<and> fi_provider l = pid) (w_links w)))"

definition list_enabled_identity_providers :: "string \<Rightarrow> string \<Rightarrow> provider_row list svc" where
  "list_enabled_identity_providers tenant protocol =
     eget (\<lambda>w. sort_key ip_created
                 (sql_select (\<lambda>r. ip_tenant r = tenant \<and> ip_enabled r \<and> ip_protocol r = protocol) (w_providers w)))"

section \<open>Discovery and token verification\<close>

definition resolve_discovery :: "fed_env \<Rightarrow> provider_row \<Rightarrow> json dict svc" where
  "resolve_discovery F p =
     ebind (eget (\<lambda>w. dget (w_discovery w) (discovery_key p))) (\<lambda>hit.
     case hit of Some d \<Rightarrow> eret d
     | None \<Rightarrow>
         ebind (elift (fe_get F (if ostr_true (ip_discovery_url p) then the (ip_discovery_url p)
                                 else rstrip_char (CHR ''/'') (ip_issuer p) @ ''/.well-known/openid-configuration'') None)) (\<lambda>d.
         ethen (emod (\<lambda>w. w\<lparr>w_discovery := dset (discovery_key p) d (w_discovery w)\<rparr>)) (eret d)))"

text \<open>A configured endpoint, or the one of the discovery document; the result may still be missing.\<close>

definition provider_endpoint :: "fed_env \<Rightarrow> provider_row \<Rightarrow> string option \<Rightarrow> string \<Rightarrow> string option svc" where
  "provider_endpoint F p given name =
     (if ostr_true given then eret given
      else ebind (resolve_discovery F p) (\<lambda>d. eret (claim_str d name)))"

definition get_signing_key :: "fed_env \<Rightarrow> string \<Rightarrow> string \<Rightarrow> string svc" where
  "get_signing_key F token uri =
     ethen (emod (\<lambda>w. if uri \<in> set (w_jwk_clients w) then w else w\<lparr>w_jwk_clients := w_jwk_clients w @ [uri]\<rparr>))
           (elift (fe_jwk F uri token))"

definition verify_jwt :: "fed_env \<Rightarrow> string \<Rightarrow> provider_row \<Rightarrow> string option \<Rightarrow> json dict svc" where
  "verify_jwt F token p audience =
     (if ostr_true (ip_jwt_secret p)
      then elift (fe_hmac_decode F token (the (ip_jwt_secret p)) audience (ip_issuer p))
      else
        ebind (provider_endpoint F p (ip_jwks_uri p) ''jwks_uri'') (\<lambda>uri.
        if \<not> ostr_true uri then eraise (JwtErr OtherInvalidTokenError)
        else
          ebind (get_signing_key F token (the uri)) (\<lambda>k.
          elift (fe_key_decode F token k audience (ip_issuer p)))))"

definition validate_broker_subject_token ::
    "fed_env \<Rightarrow> string \<Rightarrow> string \<Rightarrow> string \<Rightarrow> string option \<Rightarrow> (provider_row \<times> json dict) option svc" where
  "validate_broker_subject_token F tenant token audience hint =
     ebind (elift (fe_unverified F token)) (\<lambda>unverified.
     let issuer = ostr_or hint (claim_str unverified ''iss'') in
     if \<not> ostr_true issuer then eret None
     else
       ebind (eget (\<lambda>w. sql_row (\<lambda>r. ip_tenant r = tenant \<and> Some (ip_issuer r) = issuer \<and> ip_enabled r
                                     \<and> ip_protocol r = ''oidc'') (w_providers w))) (\<lambda>row.
       case row of None \<Rightarrow> eret None
       | Some p \<Rightarrow> ebind (verify_jwt F token p (Some audience)) (\<lambda>claims. eret (Some (p, claims)))))"

section \<open>Local users for external subjects\<close>

definition normalized_email_verified :: "json dict \<Rightarrow> bool" where
  "normalized_email_verified claims =
     (case dget claims ''email_verified'' of
        None \<Rightarrow> False
      | Some (JBool b) \<Rightarrow> b
      | Some (JStr s) \<Rightarrow> py_lower s = ''true''
      | Some v \<Rightarrow> json_true v)"

text \<open>The identifiers and the random password of one call.\<close>

record fresh_ids =
  fr_user :: string
  fr_link :: string
  fr_password :: string

definition linked_user :: "conn \<Rightarrow> string \<Rightarrow> string \<Rightarrow> string \<Rightarrow> world \<Rightarrow> user_row option" where
  "linked_user c tenant pid subject w =
     (case sql_row (\<lambda>l. fi_tenant l = tenant \<and> fi_provider l = pid \<and> fi_subject l = subject
                        \<and> sql_row (\<lambda>u. us_id u = fi_user l) (users_of c w) \<noteq> None) (w_links w) of
        None \<Rightarrow> None
      | Some l \<Rightarrow> sql_row (\<lambda>u. us_id u = fi_user l) (users_of c w))"

definition match_by_email :: "conn \<Rightarrow> string \<Rightarrow> provider_row \<Rightarrow> json dict \<Rightarrow> user_row option svc" where
  "match_by_email c tenant p claims =
     (if \<not> ostr_true (claim_str claims ''email'') then eret None
      else
        ebind (eget (\<lambda>w. sql_row (\<lambda>u. us_tenant u = tenant \<and> Some (us_email u) = claim_str claims ''email'') (users_of c w)))
          (\<lambda>user.
           if user \<noteq> None \<and> ip_link_verified_only p \<and> \<not> normalized_email_verified claims
           then eraise (PyErr (ValueError ''Provider email must be verified before auto-linking to an existing user''))
           else eret user))"

definition provision_first :: "json dict \<Rightarrow> string" where
  "provision_first claims =
     (let name = (case claim_str claims ''name'' of None \<Rightarrow> [] | Some n \<Rightarrow> n) in
      if ostr_true (claim_str claims ''given_name'') then the (claim_str claims ''given_name'')
      else if name \<noteq> [] then hd (split_all (CHR '' '') name) else ''Federated'')"

definition provision_last :: "json dict \<Rightarrow> string" where
  "provision_last claims =
     (let name = (case claim_str claims ''name'' of None \<Rightarrow> [] | Some n \<Rightarrow> n);
          parts = split_all (CHR '' '') name;
          family = (if ostr_true (claim_str claims ''family_name'') then the (claim_str claims ''family_name'')
                    else if 1 < length parts then py_join '' '' (tl parts) else ''User'')
      in if family = [] then ''User'' else family)"

definition provisioned_row ::
    "fresh_ids \<Rightarrow> string \<Rightarrow> provider_row \<Rightarrow> json dict \<Rightarrow> string \<Rightarrow> int \<Rightarrow> user_row" where
  "provisioned_row N tenant p claims subject now =
     \<lparr>us_id = fr_user N, us_tenant = tenant,
      us_email = (if ostr_true (claim_str claims ''email'') then the (claim_str claims ''email'')
                  else ''federated-'' @ subject @ ''@'' @ tenant @ ''.local''),
      us_password = fr_password N, us_first = provision_first claims, us_last = provision_last claims,
      us_role = Some (ip_default_role p), us_is_active = True,
      us_email_verified = (normalized_email_verified claims \<or> ostr_true (claim_str claims ''email'')),
      us_created = now, us_modified = now\<rparr>"

text \<open>
  \<open>INSERT INTO users\<close> under row level security, with the constraints of migration 0002 (column
  lengths left out).
\<close>

definition insert_user :: "conn \<Rightarrow> user_row \<Rightarrow> unit svc" where
  "insert_user c u = (\<lambda>w.
     if \<not> rls_insert_ok c (us_tenant u) then (Inl (DbErr InsufficientPrivilegeError), w)
     else if \<exists>x \<in> set (w_users w). us_id x = us_id u \<or> (us_tenant x = us_tenant u \<and> us_email x = us_email u)
     then (Inl (DbErr UniqueViolationError), w)
     else if \<forall>t \<in> set (w_tenants w). tn_id t \<noteq> us_tenant u then (Inl (DbErr ForeignKeyViolationError), w)
     else (Inr (), w\<lparr>w_users := w_users w @ [u]\<rparr>))"

definition provision_user ::
    "fresh_ids \<Rightarrow> conn \<Rightarrow> string \<Rightarrow> provider_row \<Rightarrow> json dict \<Rightarrow> string \<Rightarrow> user_row svc" where
  "provision_user N c tenant p claims subject =
     ebind (eget w_now) (\<lambda>now.
     ethen (insert_user c (provisioned_row N tenant p claims subject now))
     (ebind (eget (\<lambda>w. sql_row (\<lambda>u. us_id u = fr_user N) (users_of c w))) (\<lambda>row.
      case row of None \<Rightarrow> eraise (PyErr TypeError) | Some u \<Rightarrow> eret u)))"

text \<open>
  \<open>INSERT ... ON CONFLICT (tenant_id, provider_id, external_subject) DO UPDATE\<close>; the other unique
  key, one link per provider and user, is not an arbiter and raises.
\<close>

definition same_link :: "string \<Rightarrow> string \<Rightarrow> string \<Rightarrow> link_row \<Rightarrow> bool" where
  "same_link tenant pid subject l \<longleftrightarrow> fi_tenant l = tenant \<and> fi_provider l = pid \<and> fi_subject l = subject"

definition upsert_link :: "link_row \<Rightarrow> unit svc" where
  "upsert_link l = (\<lambda>w.
     let same = same_link (fi_tenant l) (fi_provider l) (fi_subject l) in
     if sql_row same (w_links w) \<noteq> None
     then (Inr (), w\<lparr>w_links := sql_update same (\<lambda>x. x\<lparr>fi_email := fi_email l\<rparr>) (w_links w)\<rparr>)
     else if \<exists>x \<in> set (w_links w). fi_id x = fi_id l \<or>
               (fi_tenant x = fi_tenant l \<and> fi_provider x = fi_provider l \<and> fi_user x = fi_user l)
     then (Inl (DbErr UniqueViolationError), w)
     else if (\<forall>t \<in> set (w_tenants w). tn_id t \<noteq> fi_tenant l) \<or> (\<forall>p \<in> set (w_providers w). ip_id p \<noteq> fi_provider l)
             \<or> (\<forall>u \<in> set (w_users w). us_id u \<noteq> fi_user l)
     then (Inl (DbErr ForeignKeyViolationError), w)
     else (Inr (), w\<lparr>w_links := w_links w @ [l]\<rparr>))"

definition new_link :: "fresh_ids \<Rightarrow> string \<Rightarrow> provider_row \<Rightarrow> json dict \<Rightarrow> string \<Rightarrow> user_row \<Rightarrow> int \<Rightarrow> link_row" where
  "new_link N tenant p claims subject u now =
     \<lparr>fi_id = fr_link N, fi_tenant = tenant, fi_provider = ip_id p, fi_user = us_id u,
      fi_subject = subject, fi_email = claim_str claims ''email'', fi_created = now\<rparr>"

definition link_or_provision ::
    "fresh_ids \<Rightarrow> conn \<Rightarrow> string \<Rightarrow> provider_row \<Rightarrow> json dict \<Rightarrow> string \<Rightarrow> user_row svc" where
  "link_or_provision N c tenant p claims subject =
     ebind (match_by_email c tenant p claims) (\<lambda>found.
     ebind (case found of Some u \<Rightarrow> eret u | None \<Rightarrow> provision_user N c tenant p claims subject) (\<lambda>u.
     ebind (eget w_now) (\<lambda>now.
     ethen (upsert_link (new_link N tenant p claims subject u now)) (eret u))))"

definition find_or_create_local_user ::
    "fresh_ids \<Rightarrow> conn \<Rightarrow> string \<Rightarrow> provider_row \<Rightarrow> json dict \<Rightarrow> user_row svc" where
  "find_or_create_local_user N c tenant p claims =
     (case claim_str claims ''sub'' of
        None \<Rightarrow> eraise (PyErr KeyError)
      | Some subject \<Rightarrow>
          ebind (eget (linked_user c tenant (ip_id p) subject)) (\<lambda>link.
          case link of
            Some u \<Rightarrow> eret u
          | None \<Rightarrow>
              if \<not> ip_auto_link p
              then eraise (PyErr (ValueError ''Federated account is not linked to a local user yet''))
              else link_or_provision N c tenant p claims subject))"

definition resolve_or_provision_federated_user ::
    "fed_env \<Rightarrow> fresh_ids \<Rightarrow> conn \<Rightarrow> string \<Rightarrow> string \<Rightarrow> string \<Rightarrow> string option \<Rightarrow>
     (user_row \<times> provider_row \<times> json dict) svc" where
  "resolve_or_provision_federated_user F N c tenant token audience hint =
     ebind (validate_broker_subject_token F tenant token audience hint) (\<lambda>r.
     case r of
       None \<Rightarrow> eraise (PyErr (ValueError ''No enabled identity provider matched the broker token issuer''))
     | Some (p, claims) \<Rightarrow>
         ebind (find_or_create_local_user N c tenant p claims) (\<lambda>u. eret (u, p, claims)))"

section \<open>Handing a browser over to a provider\<close>

definition insert_txn :: "fed_txn_row \<Rightarrow> unit svc" where
  "insert_txn t = (\<lambda>w.
     if \<exists>x \<in> set (w_txns w). ft_id x = ft_id t \<or>
          (ft_provider x = ft_provider t \<and> ft_upstream_state x = ft_upstream_state t)
     then (Inl (DbErr UniqueViolationError), w)
     else if (\<forall>x \<in> set (w_tenants w). tn_id x \<noteq> ft_tenant t) \<or> (\<forall>p \<in> set (w_providers w). ip_id p \<noteq> ft_provider t)
             \<or> (\<forall>x \<in> set (w_clients w). oc_id x \<noteq> ft_client t)
     then (Inl (DbErr ForeignKeyViolationError), w)
     else (Inr (), w\<lparr>w_txns := w_txns w @ [t]\<rparr>))"

text \<open>Ten minutes.\<close>

definition create_federation_auth_transaction :: "fed_txn_row \<Rightarrow> unit svc" where
  "create_federation_auth_transaction t =
     ebind (eget w_now) (\<lambda>now. insert_txn (t\<lparr>ft_expires := now + 600, ft_consumed := None\<rparr>))"

definition get_federation_auth_transaction_by_state :: "string \<Rightarrow> string \<Rightarrow> fed_txn_row option svc" where
  "get_federation_auth_transaction_by_state pid state =
     eget (\<lambda>w. sql_row (\<lambda>t. ft_provider t = pid \<and> ft_upstream_state t = state \<and> ft_consumed t = None
                            \<and> w_now w < ft_expires t) (w_txns w))"

definition consume_federation_auth_transaction :: "string \<Rightarrow> unit svc" where
  "consume_federation_auth_transaction tid =
     emod (\<lambda>w. w\<lparr>w_txns := sql_update (\<lambda>t. ft_id t = tid) (\<lambda>t. t\<lparr>ft_consumed := Some (w_now w)\<rparr>) (w_txns w)\<rparr>)"

text \<open>A redirect target: the address and the query that \<open>urlencode\<close> renders.\<close>

record url =
  url_base :: string
  url_query :: "(string \<times> string) list"

definition build_provider_authorize_url ::
    "fed_env \<Rightarrow> provider_row \<Rightarrow> string \<Rightarrow> string \<Rightarrow> string option \<Rightarrow> url svc" where
  "build_provider_authorize_url F p redirect_uri upstream_state upstream_nonce =
     ebind (provider_endpoint F p (ip_authorization_endpoint p) ''authorization_endpoint'') (\<lambda>endpoint.
     if \<not> ostr_true endpoint then eraise (PyErr (ValueError ''Provider missing authorization endpoint''))
     else eret \<lparr>url_base = the endpoint, url_query =
       [(''client_id'', case ip_client_id p of None \<Rightarrow> ''None'' | Some x \<Rightarrow> x), (''redirect_uri'', redirect_uri),
        (''response_type'', ''code''),
        (''scope'', if ostr_true (ip_scopes p) then the (ip_scopes p) else ''openid profile email''),
        (''state'', upstream_state)]
       @ (if ostr_true upstream_nonce then [(''nonce'', the upstream_nonce)] else [])\<rparr>)"

definition exchange_code_for_provider_tokens :: "fed_env \<Rightarrow> provider_row \<Rightarrow> string \<Rightarrow> string \<Rightarrow> json dict svc" where
  "exchange_code_for_provider_tokens F p code redirect_uri =
     ebind (provider_endpoint F p (ip_token_endpoint p) ''token_endpoint'') (\<lambda>endpoint.
     if \<not> ostr_true endpoint then eraise (PyErr (ValueError ''Provider missing token endpoint''))
     else
       (let form = [(''grant_type'', Some ''authorization_code''), (''code'', Some code),
                    (''redirect_uri'', Some redirect_uri), (''client_id'', ip_client_id p)];
            auth_method = (if ostr_true (ip_auth_method p) then the (ip_auth_method p) else ''client_secret_post'') in
        if auth_method = ''client_secret_basic'' \<and> ostr_true (ip_client_secret p)
        then elift (fe_post F (the endpoint) form
               (Some ((case ip_client_id p of None \<Rightarrow> ''None'' | Some x \<Rightarrow> x) @ '':'' @ the (ip_client_secret p))))
        else if ostr_true (ip_client_secret p)
        then elift (fe_post F (the endpoint) (form @ [(''client_secret'', ip_client_secret p)]) None)
        else elift (fe_post F (the endpoint) form None)))"

definition fetch_userinfo :: "fed_env \<Rightarrow> provider_row \<Rightarrow> string \<Rightarrow> json dict svc" where
  "fetch_userinfo F p access_token =
     ebind (provider_endpoint F p (ip_userinfo_endpoint p) ''userinfo_endpoint'') (\<lambda>endpoint.
     if \<not> ostr_true endpoint then eraise (PyErr (ValueError ''Provider missing userinfo endpoint''))
     else elift (fe_get F (the endpoint) (Some access_token)))"

definition set_default :: "string \<Rightarrow> 'v \<Rightarrow> 'v dict \<Rightarrow> 'v dict" where
  "set_default k v d = (if dget d k = None then dset k v d else d)"

definition provider_claims :: "fed_env \<Rightarrow> provider_row \<Rightarrow> json dict \<Rightarrow> json dict svc" where
  "provider_claims F p tokens =
     (let source = (if ostr_true (ip_claims_source p) then the (ip_claims_source p) else ''auto'');
          id_token = claim_str tokens ''id_token''; access_token = claim_str tokens ''access_token'' in
      if source \<in> {''auto'', ''id_token''} \<and> ostr_true id_token
      then verify_jwt F (the id_token) p (ip_client_id p)
      else if source \<in> {''auto'', ''userinfo''} \<and> ostr_true access_token
      then ebind (fetch_userinfo F p (the access_token)) (\<lambda>claims. eret (set_default ''iss'' (JStr (ip_issuer p)) claims))
      else eraise (PyErr (ValueError ''Provider did not return usable identity claims'')))"

definition resolve_or_provision_from_provider_tokens ::
    "fed_env \<Rightarrow> fresh_ids \<Rightarrow> conn \<Rightarrow> string \<Rightarrow> provider_row \<Rightarrow> json dict \<Rightarrow> (user_row \<times> json dict) svc" where
  "resolve_or_provision_from_provider_tokens F N c tenant p tokens =
     ebind (provider_claims F p tokens) (\<lambda>claims.
     ebind (find_or_create_local_user N c tenant p claims) (\<lambda>u. eret (u, claims)))"

section \<open>The endpoints (app/api/v1/federation.py)\<close>

text \<open>The role is compared as it is, unlike in the session endpoints.\<close>

definition require_admin_exact :: "string \<Rightarrow> token_data \<Rightarrow> unit svc" where
  "require_admin_exact detail user =
     (if td_role user \<in> Some ` set admin_roles then eret () else eraise (HttpException 403 (Some detail)))"

definition serialize_provider :: "provider_row \<Rightarrow> provider_row" where
  "serialize_provider p =
     (public_provider p)\<lparr>ip_scopes := (if ostr_true (ip_scopes p) then ip_scopes p else Some ''openid profile email''),
       ip_auth_method := (if ostr_true (ip_auth_method p) then ip_auth_method p else Some ''client_secret_post''),
       ip_claims_source := (if ostr_true (ip_claims_source p) then ip_claims_source p else Some ''auto''),
       ip_default_role := (if ip_default_role p \<noteq> [] then ip_default_role p else ''member'')\<rparr>"

definition list_providers_endpoint :: "token_data \<Rightarrow> provider_row list reply svc" where
  "list_providers_endpoint user =
     ebind (list_identity_providers (td_tenant user) True) (\<lambda>ps.
     eret (success_response (map serialize_provider ps) ''Identity providers retrieved''))"

definition provider_audit :: "token_data \<Rightarrow> string \<Rightarrow> string \<Rightarrow> string \<Rightarrow> unit svc" where
  "provider_audit user resource action decision =
     log_audit action [(''resource'', jstr resource), (''user_id'', jstr (td_user user)),
       (''tenant_id'', jstr (td_tenant user)), (''decision'', jstr decision)]"

definition create_provider_endpoint :: "string \<Rightarrow> provider_create \<Rightarrow> token_data \<Rightarrow> provider_row reply svc" where
  "create_provider_endpoint pid p user =
     ethen (require_admin_exact ''Admin role required'' user)
     (ebind (create_identity_provider pid (td_tenant user) p True) (\<lambda>row.
      case row of None \<Rightarrow> eraise (PyErr TypeError)
      | Some r \<Rightarrow>
          ethen (provider_audit user ''/federation/providers'' ''identity_provider_created'' (ip_issuer r))
                (eret (created_response (serialize_provider r) ''Identity provider created''))))"

definition provider_not_found :: "'a svc" where
  "provider_not_found = eraise (HttpException 404 (Some ''Identity provider not found''))"

definition get_provider_endpoint :: "string \<Rightarrow> token_data \<Rightarrow> provider_row reply svc" where
  "get_provider_endpoint pid user =
     ebind (get_identity_provider (td_tenant user) pid) (\<lambda>row.
     case row of None \<Rightarrow> provider_not_found | Some r \<Rightarrow> eret (Success (Some (serialize_provider r)) None 200))"

definition update_provider_endpoint :: "string \<Rightarrow> provider_update \<Rightarrow> token_data \<Rightarrow> provider_row reply svc" where
  "update_provider_endpoint pid u user =
     ethen (require_admin_exact ''Admin role required'' user)
     (ebind (update_identity_provider (td_tenant user) pid u True) (\<lambda>row.
      case row of None \<Rightarrow> provider_not_found
      | Some r \<Rightarrow>
          ethen (provider_audit user (''/federation/providers/'' @ pid) ''identity_provider_updated'' (ip_issuer r))
                (eret (success_response (serialize_provider r) ''Identity provider updated''))))"

definition delete_provider_endpoint :: "string \<Rightarrow> token_data \<Rightarrow> unit reply svc" where
  "delete_provider_endpoint pid user =
     ethen (require_admin_exact ''Admin role required'' user)
     (ebind (delete_identity_provider (td_tenant user) pid True) (\<lambda>ok.
      if \<not> ok then provider_not_found
      else ethen (provider_audit user (''/federation/providers/'' @ pid) ''identity_provider_deleted'' ''deleted'')
                 (eret no_content_response)))"

definition list_provider_links_endpoint :: "string \<Rightarrow> token_data \<Rightarrow> link_row list reply svc" where
  "list_provider_links_endpoint pid user =
     ethen (require_admin_exact ''Admin role required'' user)
     (ebind (list_federated_links_for_provider (td_tenant user) pid) (\<lambda>ls.
      eret (success_response ls ''Federated links retrieved'')))"

section \<open>Resolving an external subject\<close>

lemma match_by_email_run:
  "match_by_email c tenant p claims w = (r, w') \<Longrightarrow> w' = w"
  by (auto simp: match_by_email_def eff_simps split: if_splits)

lemma insert_user_run:
  assumes "insert_user c u w = (Inr (), w')"
  shows "w' = w\<lparr>w_users := w_users w @ [u]\<rparr>" "us_id u \<notin> us_id ` set (w_users w)"
    "\<And>x. x \<in> set (w_users w) \<Longrightarrow> us_tenant x = us_tenant u \<Longrightarrow> us_email x \<noteq> us_email u"
  using assms by (auto simp: insert_user_def split: if_splits)

lemma provision_user_run:
  assumes "provision_user N c tenant p claims subject w = (Inr u, w')"
  shows "u = provisioned_row N tenant p claims subject (w_now w)" "insert_user c u w = (Inr (), w')"
proof -
  let ?r = "provisioned_row N tenant p claims subject (w_now w)"
  obtain v where v: "insert_user c ?r w = (Inr (), v)"
    "(case sql_row (\<lambda>u. us_id u = fr_user N) (users_of c v) of None \<Rightarrow> (Inl (PyErr TypeError), v) | Some u \<Rightarrow> (Inr u, v)) = (Inr u, w')"
    using assms by (auto simp: provision_user_def eff_simps split: prod.splits sum.splits option.splits)
  note f = insert_user_run [OF v(1)]
  have "us_id ?r = fr_user N" by (simp add: provisioned_row_def)
  moreover have "x \<in> insert ?r (set (w_users w)) \<and> us_id x = fr_user N"
    if "sql_row (\<lambda>u. us_id u = fr_user N) (users_of c v) = Some x" for x
    using sql_row_Some [OF that] users_of_subset [of c v] f(1) by auto
  ultimately have new: "x = ?r" if "sql_row (\<lambda>u. us_id u = fr_user N) (users_of c v) = Some x" for x
    using that f(2) by (metis imageI insertE)
  obtain x where x: "sql_row (\<lambda>u. us_id u = fr_user N) (users_of c v) = Some x" "x = u" "v = w'"
    using v(2) by (cases "sql_row (\<lambda>u. us_id u = fr_user N) (users_of c v)") auto
  show u: "u = ?r" using new [OF x(1)] x(2) by simp
  show "insert_user c u w = (Inr (), w')" unfolding u using v(1) x(3) by simp
qed

lemma find_or_create_ok:
  assumes "find_or_create_local_user N c tenant p claims w = (Inr u, w')"
  obtains
    (linked) subject where "claim_str claims ''sub'' = Some subject"
      "linked_user c tenant (ip_id p) subject w = Some u" "w' = w"
  | (matched) subject where "claim_str claims ''sub'' = Some subject"
      "linked_user c tenant (ip_id p) subject w = None" "ip_auto_link p"
      "match_by_email c tenant p claims w = (Inr (Some u), w)"
      "upsert_link (new_link N tenant p claims subject u (w_now w)) w = (Inr (), w')"
  | (provisioned) subject where "claim_str claims ''sub'' = Some subject"
      "linked_user c tenant (ip_id p) subject w = None" "ip_auto_link p"
      "match_by_email c tenant p claims w = (Inr None, w)"
      "u = provisioned_row N tenant p claims subject (w_now w)"
      "insert_user c u w = (Inr (), w\<lparr>w_users := w_users w @ [u]\<rparr>)"
      "upsert_link (new_link N tenant p claims subject u (w_now w)) (w\<lparr>w_users := w_users w @ [u]\<rparr>) = (Inr (), w')"
proof -
  from assms obtain subject where s: "claim_str claims ''sub'' = Some subject"
    by (auto simp: find_or_create_local_user_def split: option.splits)
  show thesis
  proof (cases "linked_user c tenant (ip_id p) subject w")
    case (Some x)
    with assms s have "x = u" "w' = w" by (simp_all add: find_or_create_local_user_def eff_simps)
    with Some linked [OF s] show thesis by simp
  next
    case None
    with assms s have a: "ip_auto_link p" "link_or_provision N c tenant p claims subject w = (Inr u, w')"
      by (auto simp: find_or_create_local_user_def eff_simps split: if_splits)
    then obtain found v where m: "match_by_email c tenant p claims w = (Inr found, v)"
      by (cases "match_by_email c tenant p claims w") (auto simp: link_or_provision_def eff_simps split: sum.splits)
    have v: "v = w" using match_by_email_run [OF m] .
    show thesis
    proof (cases found)
      case (Some x)
      with a m v have "x = u" "upsert_link (new_link N tenant p claims subject u (w_now w)) w = (Inr (), w')"
        by (auto simp: link_or_provision_def eff_simps split: prod.splits sum.splits)
      with matched [OF s None a(1)] m v Some show thesis by simp
    next
      case n: None
      with a m v obtain y where y: "provision_user N c tenant p claims subject w = (Inr u, y)"
        "upsert_link (new_link N tenant p claims subject u (w_now y)) y = (Inr (), w')"
        by (auto simp: link_or_provision_def eff_simps split: prod.splits sum.splits)
      note pr = provision_user_run [OF y(1)]
      have "y = w\<lparr>w_users := w_users w @ [u]\<rparr>" using insert_user_run(1) [OF pr(2)] .
      with provisioned [OF s None a(1)] m v n y pr show thesis by simp
    qed
  qed
qed


text \<open>
  The tables behind the links: ids are keys, a subject has one link, and a link's user exists in
  the link's tenant.
\<close>

definition link_key :: "link_row \<Rightarrow> string \<times> string \<times> string" where
  "link_key l = (fi_tenant l, fi_provider l, fi_subject l)"

definition federation_wf :: "world \<Rightarrow> bool" where
  "federation_wf w \<longleftrightarrow> distinct (map us_id (w_users w)) \<and> distinct (map link_key (w_links w))
     \<and> (\<forall>l \<in> set (w_links w). \<exists>u \<in> set (w_users w). us_id u = fi_user l \<and> us_tenant u = fi_tenant l)"

lemma same_link_key: "same_link t pid s l \<longleftrightarrow> link_key l = (t, pid, s)"
  by (auto simp: same_link_def link_key_def)

lemma unlinked_no_link:
  assumes "federation_wf w" "rls_visible c tenant" "linked_user c tenant pid subject w = None"
  shows "sql_row (same_link tenant pid subject) (w_links w) = None"
proof -
  have "sql_row (\<lambda>u. us_id u = fi_user l) (users_of c w) \<noteq> None"
    if "l \<in> set (w_links w)" "fi_tenant l = tenant" for l
    using that assms(1,2) unfolding federation_wf_def users_of_def sql_row_None by fastforce
  with assms(3) show ?thesis
    unfolding linked_user_def
    by (auto simp: sql_row_None same_link_def dest!: sql_row_Some split: option.splits)
qed

lemma upsert_link_new:
  assumes "upsert_link l w = (Inr (), w')" "sql_row (same_link (fi_tenant l) (fi_provider l) (fi_subject l)) (w_links w) = None"
  shows "w' = w\<lparr>w_links := w_links w @ [l]\<rparr>"
  using assms by (auto simp: upsert_link_def Let_def split: if_splits)

lemma row_by_id: "distinct (map us_id t) \<Longrightarrow> u \<in> set t \<Longrightarrow> sql_row (\<lambda>x. us_id x = us_id u) t = Some u"
  by (induction t) (auto simp: sql_row_Cons)

lemma linked_after:
  assumes "federation_wf w" "rls_visible c tenant" "us_tenant u = tenant" "u \<in> set (w_users w)"
    "l \<in> set (w_links w)" "fi_user l = us_id u" "fi_tenant l = tenant" "fi_provider l = pid" "fi_subject l = subject"
  shows "linked_user c tenant pid subject w = Some u"
proof -
  have d: "distinct (map us_id (users_of c w))" "u \<in> set (users_of c w)"
    using assms(1-4) by (auto simp: federation_wf_def users_of_def distinct_map_filter)
  have r: "sql_row (\<lambda>x. us_id x = fi_user l) (users_of c w) = Some u" using row_by_id [OF d] assms(6) by simp
  let ?q = "\<lambda>l. fi_tenant l = tenant \<and> fi_provider l = pid \<and> fi_subject l = subject
                        \<and> sql_row (\<lambda>u. us_id u = fi_user l) (users_of c w) \<noteq> None"
  have "?q l" using assms(6-9) r by simp
  then have "sql_row ?q (w_links w) \<noteq> None" using assms(5) unfolding sql_row_None by blast
  then obtain l' where l': "sql_row ?q (w_links w) = Some l'" by blast
  then have "l' \<in> set (w_links w)" "link_key l' = link_key l"
    using sql_row_Some [OF l'] assms(7-9) by (auto simp: link_key_def)
  then have "l' = l" using assms(1,5) by (auto simp: federation_wf_def distinct_map inj_on_def)
  with l' r show ?thesis by (simp add: linked_user_def)
qed

lemma wf_append_link:
  assumes "federation_wf w" "sql_row (same_link (fi_tenant l) (fi_provider l) (fi_subject l)) (w_links w) = None"
    "u \<in> set (w_users w)" "us_id u = fi_user l" "us_tenant u = fi_tenant l"
  shows "federation_wf (w\<lparr>w_links := w_links w @ [l]\<rparr>)"
  using assms by (auto simp: federation_wf_def same_link_key sql_row_None link_key_def)

lemma wf_append_user:
  "federation_wf w \<Longrightarrow> us_id u \<notin> us_id ` set (w_users w) \<Longrightarrow> federation_wf (w\<lparr>w_users := w_users w @ [u]\<rparr>)"
  by (force simp: federation_wf_def)

text \<open>C23. A subject keeps its account: on well-formed tables a successful sign-in leaves them
  well-formed, and from then on the same subject of the same provider is resolved to the same user,
  without writing anything, whatever else its claims say and whatever the provider's linking
  settings have become.\<close>

theorem federated_subject_sticks:
  assumes "federation_wf w" "rls_visible c tenant"
    and "find_or_create_local_user N c tenant p claims w = (Inr u, w')"
    and "ip_id p' = ip_id p" "claim_str claims' ''sub'' = claim_str claims ''sub''"
  shows "federation_wf w' \<and> find_or_create_local_user N' c tenant p' claims' w' = (Inr u, w')"
proof -
  have goal: ?thesis if "claim_str claims ''sub'' = Some subject" "federation_wf w'"
      "linked_user c tenant (ip_id p) subject w' = Some u" for subject
    using that assms(4,5) by (simp add: find_or_create_local_user_def eff_simps)
  have step: "federation_wf w' \<and> linked_user c tenant (ip_id p) subject w' = Some u"
    if "federation_wf v" "linked_user c tenant (ip_id p) subject w = None" "w_links v = w_links w"
      "upsert_link (new_link N tenant p claims subject u (w_now w)) v = (Inr (), w')"
      "u \<in> set (w_users v)" "us_tenant u = tenant" for v subject
  proof -
    let ?l = "new_link N tenant p claims subject u (w_now w)"
    have none: "sql_row (same_link (fi_tenant ?l) (fi_provider ?l) (fi_subject ?l)) (w_links v) = None"
      using unlinked_no_link [OF assms(1,2) that(2)] that(3) by (simp add: new_link_def)
    have w': "w' = v\<lparr>w_links := w_links v @ [?l]\<rparr>" using upsert_link_new [OF that(4) none] .
    have wf: "federation_wf w'"
      unfolding w' using that by (intro wf_append_link [OF _ none]) (auto simp: new_link_def)
    then show ?thesis
      using linked_after [OF wf assms(2) that(6), of ?l "ip_id p" subject] w' that(5) by (simp add: new_link_def)
  qed
  from assms(3) show ?thesis
  proof (cases rule: find_or_create_ok)
    case (linked subject)
    then show ?thesis using goal assms(1) by simp
  next
    case (matched subject)
    then have "u \<in> set (w_users w)" "us_tenant u = tenant"
      by (auto simp: match_by_email_def eff_simps users_of_def dest!: sql_row_Some split: if_splits)
    with matched step [OF assms(1)] goal show ?thesis by blast
  next
    case (provisioned subject)
    have "federation_wf (w\<lparr>w_users := w_users w @ [u]\<rparr>)"
      using wf_append_user [OF assms(1)] insert_user_run(2) [OF provisioned(6)] by blast
    moreover have "us_tenant u = tenant" using provisioned(5) by (simp add: provisioned_row_def)
    ultimately show ?thesis
      using goal [OF provisioned(1)] step [of "w\<lparr>w_users := w_users w @ [u]\<rparr>" subject] provisioned(2,7) by simp
  qed
qed

text \<open>A provider, its tenant, and two subjects that claim the address of an existing account.\<close>

definition demo_provider :: provider_row where
  "demo_provider = new_provider_row ''idp'' ''t1'' 1
     \<lparr>ic_name = ''IdP'', ic_protocol = ''oidc'', ic_issuer = ''https://idp/'', ic_client_id = Some ''cid'',
      ic_client_secret = Some ''cs'', ic_discovery_url = None, ic_authorization_endpoint = None,
      ic_token_endpoint = None, ic_userinfo_endpoint = None, ic_jwks_uri = None, ic_jwt_secret = Some ''k'',
      ic_enabled = True, ic_auto_link = True, ic_scopes = ''openid'', ic_auth_method = ''client_secret_post'',
      ic_claims_source = ''auto'', ic_link_verified_only = True, ic_default_role = ''member''\<rparr>"

definition demo_ids :: fresh_ids where
  "demo_ids = \<lparr>fr_user = ''u9'', fr_link = ''l9'', fr_password = ''rnd''\<rparr>"

definition demo_link :: link_row where
  "demo_link = \<lparr>fi_id = ''l1'', fi_tenant = ''t1'', fi_provider = ''idp'', fi_user = ''u1'',
     fi_subject = ''s1'', fi_email = None, fi_created = 5\<rparr>"

definition fed_demo :: world where
  "fed_demo = policy_demo\<lparr>w_providers := [demo_provider], w_links := [demo_link]\<rparr>"

definition unverified_claims :: "string \<Rightarrow> string \<Rightarrow> json dict" where
  "unverified_claims subject email =
     [(''sub'', JStr subject), (''email'', JStr email), (''email_verified'', JBool False)]"

lemma fed_demo_wf: "federation_wf fed_demo"
  by (simp add: federation_wf_def fed_demo_def policy_demo_def demo_link_def)

lemma fed_demo_linked:
  "find_or_create_local_user demo_ids OwnerConn ''t1'' demo_provider (unverified_claims ''s1'' ''a@x'') fed_demo
   = (Inr (hd (w_users policy_demo)), fed_demo)"
  by (simp add: find_or_create_local_user_def linked_user_def sql_row_Cons fed_demo_def policy_demo_def
        demo_link_def demo_provider_def new_provider_row_def users_of_def unverified_claims_def claim_str_def
        dget_def eff_simps)


theorem federated_subject_sticks_witness:
  "\<exists>u w'. find_or_create_local_user demo_ids OwnerConn ''t1'' demo_provider (unverified_claims ''s3'' ''new@x'') fed_demo = (Inr u, w')
     \<and> us_id u = ''u9'' \<and> us_email_verified u
     \<and> find_or_create_local_user demo_ids OwnerConn ''t1'' demo_provider (unverified_claims ''s3'' ''a@x'') w' = (Inr u, w')"
proof -
  let ?r = "find_or_create_local_user demo_ids OwnerConn ''t1'' demo_provider (unverified_claims ''s3'' ''new@x'') fed_demo"
  have "map_sum id us_id (fst ?r) = Inr ''u9'' \<and> map_sum id us_email_verified (fst ?r) = Inr True"
    by code_simp
  then obtain u where u: "fst ?r = Inr u" "us_id u = ''u9''" "us_email_verified u"
    by (cases "fst ?r") auto
  then have run: "?r = (Inr u, snd ?r)" by (metis prod.collapse)
  have "claim_str (unverified_claims ''s3'' ''a@x'') ''sub'' = claim_str (unverified_claims ''s3'' ''new@x'') ''sub''"
    by (simp add: unverified_claims_def claim_str_def dget_def)
  from federated_subject_sticks [OF fed_demo_wf _ run refl this] run u show ?thesis
    by (metis rls_visible.simps(1))
qed

section \<open>The provider cache\<close>

definition cached_providers :: "world \<Rightarrow> string \<Rightarrow> provider_row list option" where
  "cached_providers w tenant = cache_get (w_now w) (w_provider_cache w) (providers_key tenant)"

lemma providers_key_inj [simp]: "providers_key a = providers_key b \<longleftrightarrow> a = b"
  by (simp add: providers_key_def)

lemma list_providers_run:
  "list_identity_providers tenant redis w =
     (if redis then (case cached_providers w tenant of
          Some ps \<Rightarrow> (Inr ps, w)
        | None \<Rightarrow> (Inr (provider_rows tenant w),
                   w\<lparr>w_provider_cache := cache_setex (w_now w) (providers_key tenant) 60
                       (provider_rows tenant w) (w_provider_cache w)\<rparr>))
      else (Inr (provider_rows tenant w), w))"
  by (simp add: list_identity_providers_def cached_providers_def eff_simps split: option.splits)

lemma provider_rows_cache [simp]: "provider_rows t (w\<lparr>w_provider_cache := x\<rparr>) = provider_rows t w"
  by (simp add: provider_rows_def)

interpretation provider_cache: read_through
  "\<lambda>w t. provider_rows t w" cached_providers
  "\<lambda>t w. (projr (fst (list_identity_providers t True w)), snd (list_identity_providers t True w))"
  by unfold_locales
     (auto simp: list_providers_run cached_providers_def cache_simps fun_eq_iff split: option.splits if_splits)

definition providers_coherent :: "world \<Rightarrow> bool" where
  "providers_coherent w \<longleftrightarrow> (\<forall>t ps. cached_providers w t = Some ps \<longrightarrow> ps = provider_rows t w)"

lemma providers_coherent_write:
  assumes "providers_coherent w"
    and "\<And>t. t \<noteq> tenant \<Longrightarrow> provider_rows t w' = provider_rows t w"
    and "w_provider_cache w' = cache_del (providers_key tenant) (w_provider_cache w)" "w_now w' = w_now w"
  shows "providers_coherent w'"
  unfolding providers_coherent_def
  by (rule provider_cache.write_coherent [of w])
     (use assms in \<open>auto simp: providers_coherent_def cached_providers_def cache_simps split: if_splits\<close>)

lemma providers_coherent_same:
  "providers_coherent w \<Longrightarrow> w_providers w' = w_providers w \<Longrightarrow> w_provider_cache w' = w_provider_cache w
   \<Longrightarrow> w_now w' = w_now w \<Longrightarrow> providers_coherent w'"
  by (simp add: providers_coherent_def cached_providers_def provider_rows_def)

lemma provider_rows_other:
  assumes "sql_select (\<lambda>r. ip_tenant r = t) (w_providers w') = sql_select (\<lambda>r. ip_tenant r = t) (w_providers w)"
  shows "provider_rows t w' = provider_rows t w"
  using assms by (simp add: provider_rows_def)

lemma select_other_update:
  "(\<And>r. p r \<Longrightarrow> \<not> q r) \<Longrightarrow> (\<And>r. p r \<Longrightarrow> \<not> q (f r)) \<Longrightarrow> sql_select q (sql_update p f t) = sql_select q t"
  by (induction t) (auto simp: sql_select_def sql_update_def)

lemma select_other_delete: "(\<And>r. p r \<Longrightarrow> \<not> q r) \<Longrightarrow> sql_select q (sql_delete p t) = sql_select q t"
  by (induction t) (auto simp: sql_select_def sql_delete_def)

text \<open>The provider listing is never stale and shows no secrets: on a coherent cache the listing is
  the tenant's table without the two secret columns, newest first, and listing, creating, updating
  and deleting leave the cache coherent, successful or not.\<close>

theorem provider_listing_fresh:
  assumes "providers_coherent w"
  shows "fst (list_identity_providers tenant True w) = Inr (provider_rows tenant w)
    \<and> (\<forall>r \<in> set (provider_rows tenant w). ip_client_secret r = None \<and> ip_jwt_secret r = None)
    \<and> providers_coherent (snd (list_identity_providers tenant True w))
    \<and> providers_coherent (snd (create_identity_provider pid tenant p True w))
    \<and> providers_coherent (snd (update_identity_provider tenant pid u True w))
    \<and> providers_coherent (snd (delete_identity_provider tenant pid True w))"
proof (intro conjI)
  have co: "\<forall>k v. cached_providers w k = Some v \<longrightarrow> v = provider_rows k w"
    using assms by (simp add: providers_coherent_def)
  note L = provider_cache.load_coherent [OF co, of tenant]
  have ok: "\<exists>ps. fst (list_identity_providers tenant True w) = Inr ps"
    by (simp add: list_providers_run split: option.split)
  then show "fst (list_identity_providers tenant True w) = Inr (provider_rows tenant w)" using L(1) by auto
  show "providers_coherent (snd (list_identity_providers tenant True w))"
    using L(2) by (simp add: providers_coherent_def)
  show "\<forall>r \<in> set (provider_rows tenant w). ip_client_secret r = None \<and> ip_jwt_secret r = None"
    by (simp add: provider_rows_def public_provider_def)
  show "providers_coherent (snd (create_identity_provider pid tenant p True w))"
  proof -
    have "sql_select (\<lambda>r. ip_tenant r = t) (w_providers w @ [new_provider_row pid tenant n p])
        = sql_select (\<lambda>r. ip_tenant r = t) (w_providers w)" if "t \<noteq> tenant" for t n
      using that by (simp add: sql_select_def new_provider_row_def)
    then have "providers_coherent (w\<lparr>w_providers := w_providers w @ [new_provider_row pid tenant n p],
        w_provider_cache := cache_del (providers_key tenant) (w_provider_cache w)\<rparr>)" for n
      by (intro providers_coherent_write [OF assms] provider_rows_other) simp_all
    with assms show ?thesis
      by (simp add: create_identity_provider_def insert_provider_def drop_provider_cache_def
            get_identity_provider_def eff_simps)
  qed
  show "providers_coherent (snd (update_identity_provider tenant pid u True w))"
  proof (cases "sql_row (\<lambda>r. ip_tenant r = tenant \<and> ip_id r = pid) (w_providers w)")
    case None
    with assms show ?thesis by (simp add: update_identity_provider_def get_identity_provider_def eff_simps)
  next
    case (Some c)
    then have "ip_tenant (merge_provider c u) = tenant" using sql_row_Some [OF Some] by (simp add: merge_provider_def)
    then have "providers_coherent (w\<lparr>w_providers := sql_update (\<lambda>x. ip_tenant x = tenant \<and> ip_id x = pid)
         (\<lambda>_. merge_provider c u) (w_providers w), w_discovery := d, w_jwk_clients := [],
         w_provider_cache := cache_del (providers_key tenant) (w_provider_cache w)\<rparr>)" for d
      by (intro providers_coherent_write [OF assms] provider_rows_other) (auto intro: select_other_update)
    with Some assms show ?thesis
      by (simp add: update_identity_provider_def get_identity_provider_def store_provider_def
            reset_remote_caches_def drop_provider_cache_def eff_simps)
  qed
  show "providers_coherent (snd (delete_identity_provider tenant pid True w))"
  proof -
    have del: "providers_coherent (w\<lparr>w_providers := sql_delete (\<lambda>r. ip_tenant r = tenant \<and> ip_id r = pid) (w_providers w),
        w_links := a, w_txns := b, w_discovery := d, w_jwk_clients := e,
        w_provider_cache := cache_del (providers_key tenant) (w_provider_cache w)\<rparr>)" for a b d e
      by (intro providers_coherent_write [OF assms] provider_rows_other) (auto intro: select_other_delete)
    show ?thesis
    proof (cases "sql_row (\<lambda>r. ip_tenant r = tenant \<and> ip_id r = pid) (w_providers w)")
      case None
      with del [where d = "w_discovery w" and e = "w_jwk_clients w"] show ?thesis
        by (simp add: delete_identity_provider_def get_identity_provider_def remove_provider_def
              drop_provider_cache_def Let_def eff_simps)
    next
      case (Some c)
      with del show ?thesis
        by (simp add: delete_identity_provider_def get_identity_provider_def remove_provider_def
              reset_remote_caches_def drop_provider_cache_def Let_def eff_simps)
    qed
  qed
qed

theorem provider_listing_fresh_witness:
  "fst (list_identity_providers ''t1'' True fed_demo) = Inr [public_provider demo_provider]
   \<and> providers_coherent (snd (delete_identity_provider ''t1'' ''idp'' True fed_demo))"
proof -
  have "providers_coherent fed_demo"
    by (simp add: providers_coherent_def cached_providers_def fed_demo_def policy_demo_def empty_world_def)
  from provider_listing_fresh [OF this, where tenant = "''t1''" and pid = "''idp''"]
  show ?thesis
    by (simp add: provider_rows_def fed_demo_def policy_demo_def demo_provider_def new_provider_row_def sql_select_def)
qed

end
