(* ===== verification/Tenant_Settings.thy ===== *)
theory Tenant_Settings
  imports Federation
begin

text \<open>
  Tenants and their settings (app/services/tenant_service.py, app/api/v1/tenants.py,
  app/models/tenants.py): the default settings, an object of the process that reads hand out
  without a copy, the deep merge, the Redis cache of sixty seconds, and the administration of
  tenants under row level security. PostgreSQL's \<open>ILIKE\<close> is an argument.
\<close>

section \<open>Defaults and merging\<close>

definition default_settings :: "json dict" where
  "default_settings =
     [(''mfa'', JObj [(''enabled'', JBool False), (''required_for_admins'', JBool False),
                     (''methods'', JArr [JStr ''totp'', JStr ''email''])]),
      (''tokens'', JObj [(''access_token_ttl'', JInt 3600), (''refresh_token_ttl'', JInt 604800),
                        (''id_token_ttl'', JInt 3600)]),
      (''password_policy'', JObj [(''min_length'', JInt 8), (''require_uppercase'', JBool True),
         (''require_lowercase'', JBool True), (''require_numbers'', JBool True), (''require_special'', JBool False),
         (''max_age_days'', JInt 90), (''prevent_reuse_count'', JInt 5)]),
      (''session'', JObj [(''max_concurrent_sessions'', JInt 5), (''idle_timeout_minutes'', JInt 30),
         (''absolute_timeout_hours'', JInt 24)]),
      (''security'', JObj [(''lockout_threshold'', JInt 5), (''lockout_duration_minutes'', JInt 15),
         (''require_email_verification'', JBool True)]),
      (''branding'', JObj [(''logo_url'', JNull), (''primary_color'', JStr ''#3B82F6''), (''company_name'', JNull)])]"

text \<open>The values of a dictionary are merged where both sides are dictionaries.\<close>

function merge_settings :: "json dict \<Rightarrow> json dict \<Rightarrow> json dict" where
  "merge_settings result [] = result"
| "merge_settings result ((key, value) # rest) =
     merge_settings
       (dset key (case (dget result key, value) of
                    (Some (JObj a), JObj b) \<Rightarrow> JObj (merge_settings a b) | _ \<Rightarrow> value) result) rest"
  by pat_completeness auto

termination
  by (relation "measure (\<lambda>(d, r). size (JObj r))") auto

text \<open>\<open>TenantSettingsResponse\<close>: six sections; \<open>asdict\<close> makes a deep copy.\<close>

definition setting_sections :: "string list" where
  "setting_sections = [''mfa'', ''tokens'', ''password_policy'', ''session'', ''security'', ''branding'']"

definition settings_response :: "json dict \<Rightarrow> json dict" where
  "settings_response merged =
     map (\<lambda>k. (k, case dget merged k of None \<Rightarrow> JObj [] | Some v \<Rightarrow> v)) setting_sections"

record tenant_response =
  tr_id :: string
  tr_name :: string
  tr_domain :: string
  tr_root :: string
  tr_settings :: json
  tr_is_active :: bool
  tr_created :: int

definition tenant_row_of :: "conn \<Rightarrow> string \<Rightarrow> world \<Rightarrow> tenant_row option" where
  "tenant_row_of c tenant w = sql_row (\<lambda>t. tn_id t = tenant) (tenants_of c w)"

definition tenant_response_of :: "tenant_row \<Rightarrow> json \<Rightarrow> tenant_response" where
  "tenant_response_of t s =
     \<lparr>tr_id = tn_id t, tr_name = tn_name t, tr_domain = tn_domain t, tr_root = tn_root t, tr_settings = s,
      tr_is_active = tn_is_active t, tr_created = tn_created t\<rparr>"

definition get_tenant :: "conn \<Rightarrow> string \<Rightarrow> tenant_response option svc" where
  "get_tenant c tenant =
     eget (\<lambda>w. map_option (\<lambda>t. tenant_response_of t
                 (case tn_settings t of None \<Rightarrow> JObj (w_default_settings w)
                  | Some s \<Rightarrow> if json_true s then s else JObj (w_default_settings w)))
               (tenant_row_of c tenant w))"

section \<open>Reading settings\<close>

text \<open>
  The settings and whether their \<open>tokens\<close> section is the very object of \<open>DEFAULT_SETTINGS\<close>:
  that is so when nothing is stored, and when what is stored has no such section, because the
  merge copies the outer dictionary only. A value from the cache is parsed anew.
\<close>

record settings_read =
  sr_settings :: "json dict"
  sr_tokens_shared :: bool

definition settings_key :: "string \<Rightarrow> string" where
  "settings_key tenant = ''tenant_settings:'' @ tenant"

definition stored_settings :: "conn \<Rightarrow> string \<Rightarrow> world \<Rightarrow> json option" where
  "stored_settings c tenant w = (case tenant_row_of c tenant w of None \<Rightarrow> None | Some t \<Rightarrow> tn_settings t)"

definition read_settings :: "conn \<Rightarrow> string \<Rightarrow> world \<Rightarrow> exn + settings_read" where
  "read_settings c tenant w =
     (let d = w_default_settings w in
      case stored_settings c tenant w of
        None \<Rightarrow> Inr \<lparr>sr_settings = settings_response d, sr_tokens_shared = (dget d ''tokens'' \<noteq> None)\<rparr>
      | Some (JObj s) \<Rightarrow> Inr \<lparr>sr_settings = settings_response (merge_settings d s),
                               sr_tokens_shared = (dget d ''tokens'' \<noteq> None \<and> dget s ''tokens'' = None)\<rparr>
      | Some _ \<Rightarrow> Inl (PyErr AttributeError))"

definition get_tenant_settings :: "conn \<Rightarrow> string \<Rightarrow> bool \<Rightarrow> settings_read svc" where
  "get_tenant_settings c tenant redis =
     ebind (eget (\<lambda>w. if redis then cache_get (w_now w) (w_settings_cache w) (settings_key tenant) else None)) (\<lambda>hit.
     case hit of
       Some s \<Rightarrow> eret \<lparr>sr_settings = s, sr_tokens_shared = False\<rparr>
     | None \<Rightarrow>
         ebind (\<lambda>w. (read_settings c tenant w, w)) (\<lambda>r.
         ethen (if redis
                then emod (\<lambda>w. w\<lparr>w_settings_cache :=
                       cache_setex (w_now w) (settings_key tenant) 60 (sr_settings r) (w_settings_cache w)\<rparr>)
                else eret ())
               (eret r)))"

section \<open>Writing settings\<close>

definition store_settings :: "conn \<Rightarrow> string \<Rightarrow> json dict \<Rightarrow> unit svc" where
  "store_settings c tenant s =
     emod (\<lambda>w. w\<lparr>w_tenants := sql_update (\<lambda>t. tn_id t = tenant \<and> rls_visible c (tn_id t))
                               (\<lambda>t. t\<lparr>tn_settings := Some (JObj s)\<rparr>) (w_tenants w)\<rparr>)"

definition update_tenant_settings :: "conn \<Rightarrow> string \<Rightarrow> json dict \<Rightarrow> bool \<Rightarrow> json dict svc" where
  "update_tenant_settings c tenant settings redis =
     ebind (get_tenant_settings c tenant redis) (\<lambda>current.
     let updated = merge_settings (sr_settings current) settings in
     ethen (store_settings c tenant updated)
    (ethen (log_write (log_entry_of ''INFO'' ''Tenant settings updated''
              [(''tenant_id'', JStr tenant), (''updated_keys'', JArr (map (JStr \<circ> fst) settings))] False))
    (eret updated)))"

definition update_mfa_settings :: "conn \<Rightarrow> string \<Rightarrow> bool \<Rightarrow> bool \<Rightarrow> string list option \<Rightarrow> json dict svc" where
  "update_mfa_settings c tenant enabled required methods =
     update_tenant_settings c tenant
       [(''mfa'', JObj [(''enabled'', JBool enabled), (''required_for_admins'', JBool required),
          (''methods'', JArr (map JStr (case methods of None \<Rightarrow> [''totp'', ''email''] | Some [] \<Rightarrow> [''totp'', ''email'']
                                        | Some ms \<Rightarrow> ms)))])] False"

definition set_ttl :: "string \<Rightarrow> int option \<Rightarrow> json dict \<Rightarrow> json dict" where
  "set_ttl k v d = (case v of None \<Rightarrow> d | Some n \<Rightarrow> dset k (JInt n) d)"

text \<open>
  The section read is updated in place. \<open>current.tokens or {}\<close>: an empty section is replaced by a
  new dictionary, so the shared object is changed only when it is not empty.
\<close>

definition update_token_settings ::
    "conn \<Rightarrow> string \<Rightarrow> int option \<Rightarrow> int option \<Rightarrow> int option \<Rightarrow> bool \<Rightarrow> json dict svc" where
  "update_token_settings c tenant access refresh_ttl id_ttl redis =
     ebind (get_tenant_settings c tenant redis) (\<lambda>current.
     case dget (sr_settings current) ''tokens'' of
       Some (JObj t) \<Rightarrow>
         (let t' = set_ttl ''id_token_ttl'' id_ttl (set_ttl ''refresh_token_ttl'' refresh_ttl
                     (set_ttl ''access_token_ttl'' access t)) in
          ethen (if sr_tokens_shared current \<and> t \<noteq> []
                 then emod (\<lambda>w. w\<lparr>w_default_settings := dset ''tokens'' (JObj t') (w_default_settings w)\<rparr>)
                 else eret ())
                (update_tenant_settings c tenant [(''tokens'', JObj t')] False))
     | _ \<Rightarrow> eraise (PyErr TypeError))"

definition update_password_policy :: "conn \<Rightarrow> string \<Rightarrow> json dict \<Rightarrow> json dict svc" where
  "update_password_policy c tenant policy = update_tenant_settings c tenant [(''password_policy'', JObj policy)] False"

definition update_branding :: "conn \<Rightarrow> string \<Rightarrow> json dict \<Rightarrow> json dict svc" where
  "update_branding c tenant branding = update_tenant_settings c tenant [(''branding'', JObj branding)] False"

section \<open>Tenants\<close>

text \<open>
  The page number and size of this listing are not checked: PostgreSQL takes \<open>LIMIT\<close> and \<open>OFFSET\<close> as
  64-bit integers and refuses negative ones.
\<close>

definition row_count_ok :: "int \<Rightarrow> bool" where
  "row_count_ok n \<longleftrightarrow> 0 \<le> n \<and> n < 2 ^ 63"

definition tenant_matches :: "(string \<Rightarrow> string \<Rightarrow> bool) \<Rightarrow> string option \<Rightarrow> tenant_row \<Rightarrow> bool" where
  "tenant_matches ilike search t \<longleftrightarrow>
     (ostr_true search \<longrightarrow>
        ilike (tn_name t) (''%'' @ the search @ ''%'') \<or> ilike (tn_domain t) (''%'' @ the search @ ''%''))"

definition list_tenants ::
    "(string \<Rightarrow> string \<Rightarrow> bool) \<Rightarrow> conn \<Rightarrow> int \<Rightarrow> int \<Rightarrow> string option \<Rightarrow> (tenant_response list \<times> int) svc" where
  "list_tenants ilike c page page_size search =
     (if row_count_ok page_size \<and> row_count_ok (page_offset page page_size)
      then eget (\<lambda>w. (map (\<lambda>t. tenant_response_of t (case tn_settings t of None \<Rightarrow> JNull | Some s \<Rightarrow> s))
                   (sql_page (nat page_size) (nat (page_offset page page_size))
                      (sort_key (\<lambda>t. - tn_created t) (sql_select (tenant_matches ilike search) (tenants_of c w)))),
                 int (sql_count (tenant_matches ilike search) (tenants_of c w))))
      else eraise (DbErr DataError))"

definition set_tenant_active :: "conn \<Rightarrow> string \<Rightarrow> bool \<Rightarrow> unit svc" where
  "set_tenant_active c tenant active =
     emod (\<lambda>w. w\<lparr>w_tenants := sql_update (\<lambda>t. tn_id t = tenant \<and> rls_visible c (tn_id t))
                               (\<lambda>t. t\<lparr>tn_is_active := active\<rparr>) (w_tenants w)\<rparr>)"

definition deactivate_tenant :: "conn \<Rightarrow> string \<Rightarrow> bool svc" where
  "deactivate_tenant c tenant =
     ethen (set_tenant_active c tenant False)
    (ethen (log_warning (''Tenant '' @ tenant @ '' deactivated'')) (eret True))"

definition activate_tenant :: "conn \<Rightarrow> string \<Rightarrow> bool svc" where
  "activate_tenant c tenant =
     ethen (set_tenant_active c tenant True)
    (ethen (log_info (''Tenant '' @ tenant @ '' activated'')) (eret True))"

section \<open>The endpoints (app/api/v1/tenants.py)\<close>

text \<open>
  The request models (app/models/tenants.py): the fields of a section with the values pydantic
  admits, checked before the endpoint runs. A request names some of the sections, each with all
  its fields (\<open>model_dump\<close>).
\<close>

datatype field_type = FBool | FInt int int | FStr | FOptStr | FStrList

fun field_ok :: "field_type \<Rightarrow> json \<Rightarrow> bool" where
  "field_ok FBool (JBool _) = True"
| "field_ok (FInt lo hi) (JInt n) = (lo \<le> n \<and> n \<le> hi)"
| "field_ok FStr (JStr _) = True"
| "field_ok FOptStr (JStr _) = True"
| "field_ok FOptStr JNull = True"
| "field_ok FStrList (JArr xs) = list_all (\<lambda>x. case x of JStr _ \<Rightarrow> True | _ \<Rightarrow> False) xs"
| "field_ok _ _ = False"

definition section_models :: "(string \<times> (string \<times> field_type) list) list" where
  "section_models =
     [(''mfa'', [(''enabled'', FBool), (''required_for_admins'', FBool), (''methods'', FStrList)]),
      (''tokens'', [(''access_token_ttl'', FInt 300 86400), (''refresh_token_ttl'', FInt 3600 2592000),
                   (''id_token_ttl'', FInt 300 86400)]),
      (''password_policy'', [(''min_length'', FInt 6 128), (''require_uppercase'', FBool),
         (''require_lowercase'', FBool), (''require_numbers'', FBool), (''require_special'', FBool),
         (''max_age_days'', FInt 0 365), (''prevent_reuse_count'', FInt 0 24)]),
      (''session'', [(''max_concurrent_sessions'', FInt 1 100), (''idle_timeout_minutes'', FInt 5 1440),
         (''absolute_timeout_hours'', FInt 1 168)]),
      (''security'', [(''lockout_threshold'', FInt 3 20), (''lockout_duration_minutes'', FInt 1 1440),
         (''require_email_verification'', FBool)]),
      (''branding'', [(''logo_url'', FOptStr), (''primary_color'', FStr), (''company_name'', FOptStr)])]"

definition section_typed :: "(string \<times> field_type) list \<Rightarrow> json \<Rightarrow> bool" where
  "section_typed fs v \<longleftrightarrow>
     (case v of JObj d \<Rightarrow> list_all2 (\<lambda>(f, x) (f', ty). f = f' \<and> field_ok ty x) d fs | _ \<Rightarrow> False)"

definition valid_update :: "json dict \<Rightarrow> bool" where
  "valid_update u \<longleftrightarrow>
     distinct (map fst u) \<and>
     list_all (\<lambda>(k, v). case map_of section_models k of Some fs \<Rightarrow> section_typed fs v | None \<Rightarrow> False) u"

record token_settings =
  ts_access :: int
  ts_refresh :: int
  ts_id :: int

definition valid_token_settings :: "token_settings \<Rightarrow> bool" where
  "valid_token_settings t \<longleftrightarrow>
     300 \<le> ts_access t \<and> ts_access t \<le> 86400 \<and> 3600 \<le> ts_refresh t \<and> ts_refresh t \<le> 2592000
     \<and> 300 \<le> ts_id t \<and> ts_id t \<le> 86400"

definition token_settings_json :: "token_settings \<Rightarrow> json dict" where
  "token_settings_json t =
     [(''access_token_ttl'', JInt (ts_access t)), (''refresh_token_ttl'', JInt (ts_refresh t)),
      (''id_token_ttl'', JInt (ts_id t))]"

text \<open>\<open>request.state.user\<close> is set nowhere in the application.\<close>

definition get_current_tenant :: "tenant_response reply svc" where
  "get_current_tenant = eraise (PyErr AttributeError)"

definition get_current_tenant_settings :: "conn \<Rightarrow> token_data \<Rightarrow> json dict reply svc" where
  "get_current_tenant_settings c user =
     ebind (get_tenant_settings c (td_tenant user) True) (\<lambda>r. eret (Success (Some (sr_settings r)) None 200))"

text \<open>\<open>updates\<close>: the sections that were given, each with all its fields.\<close>

definition update_current_tenant_settings :: "conn \<Rightarrow> json dict \<Rightarrow> token_data \<Rightarrow> json dict reply svc" where
  "update_current_tenant_settings c updates user =
     ethen (require_admin_exact ''Admin role required to update settings'' user)
     (if updates = [] then eraise (HttpException 400 (Some ''No settings provided to update''))
      else ebind (update_tenant_settings c (td_tenant user) updates False) (\<lambda>s.
           eret (success_response s ''Settings updated successfully'')))"

text \<open>\<open>updated[section]\<close> of a result that has the section.\<close>

definition section_reply :: "string \<Rightarrow> string \<Rightarrow> json dict \<Rightarrow> json reply svc" where
  "section_reply k msg s =
     (case dget s k of None \<Rightarrow> eraise (PyErr KeyError) | Some v \<Rightarrow> eret (success_response v msg))"

definition mfa_endpoint :: "conn \<Rightarrow> bool \<Rightarrow> bool \<Rightarrow> string list \<Rightarrow> token_data \<Rightarrow> json reply svc" where
  "mfa_endpoint c enabled required methods user =
     ethen (require_admin_exact ''Admin role required'' user)
     (ebind (update_mfa_settings c (td_tenant user) enabled required (Some methods))
        (section_reply ''mfa'' ''MFA settings updated''))"

definition token_settings_endpoint :: "conn \<Rightarrow> token_settings \<Rightarrow> token_data \<Rightarrow> json reply svc" where
  "token_settings_endpoint c t user =
     ethen (require_admin_exact ''Admin role required'' user)
     (ebind (update_token_settings c (td_tenant user) (Some (ts_access t)) (Some (ts_refresh t)) (Some (ts_id t)) False)
        (section_reply ''tokens'' ''Token settings updated''))"

definition password_policy_endpoint :: "conn \<Rightarrow> json dict \<Rightarrow> token_data \<Rightarrow> json reply svc" where
  "password_policy_endpoint c policy user =
     ethen (require_admin_exact ''Admin role required'' user)
     (ebind (update_password_policy c (td_tenant user) policy)
        (section_reply ''password_policy'' ''Password policy updated''))"

definition branding_endpoint :: "conn \<Rightarrow> json dict \<Rightarrow> token_data \<Rightarrow> json reply svc" where
  "branding_endpoint c branding user =
     ethen (require_admin_exact ''Admin role required'' user)
     (ebind (update_branding c (td_tenant user) branding)
        (section_reply ''branding'' ''Branding updated''))"

definition require_superadmin :: "token_data \<Rightarrow> unit svc" where
  "require_superadmin user =
     (if td_role user \<in> {Some ''superadmin'', Some ''root''} then eret ()
      else eraise (HttpException 403 (Some ''Superadmin role required'')))"

record 'a page_reply =
  pp_data :: "'a list"
  pp_pagination :: pagination

definition list_tenants_endpoint ::
    "(string \<Rightarrow> string \<Rightarrow> bool) \<Rightarrow> conn \<Rightarrow> int \<Rightarrow> int \<Rightarrow> string option \<Rightarrow> token_data \<Rightarrow> tenant_response page_reply svc" where
  "list_tenants_endpoint ilike c page page_size search user =
     ethen (require_superadmin user)
     (ebind (list_tenants ilike c page page_size search) (\<lambda>(ts, cnt).
      eret \<lparr>pp_data = ts, pp_pagination = pagination_info page page_size cnt\<rparr>))"

definition get_tenant_endpoint :: "conn \<Rightarrow> string \<Rightarrow> token_data \<Rightarrow> tenant_response reply svc" where
  "get_tenant_endpoint c tenant user =
     ethen (require_superadmin user)
     (ebind (get_tenant c tenant) (\<lambda>r.
      case r of None \<Rightarrow> eret (Failure (error_response ''NOT_FOUND'' ''Tenant'' 404 None None))
      | Some t \<Rightarrow> eret (Success (Some t) None 200)))"

definition deactivate_tenant_endpoint :: "conn \<Rightarrow> string \<Rightarrow> token_data \<Rightarrow> unit reply svc" where
  "deactivate_tenant_endpoint c tenant user =
     ethen (require_superadmin user)
     (ethen (deactivate_tenant c tenant) (eret (Success None (Some ''Tenant deactivated'') 200)))"

definition activate_tenant_endpoint :: "conn \<Rightarrow> string \<Rightarrow> token_data \<Rightarrow> unit reply svc" where
  "activate_tenant_endpoint c tenant user =
     ethen (require_superadmin user)
     (ethen (activate_tenant c tenant) (eret (Success None (Some ''Tenant activated'') 200)))"

section \<open>The merge, value by value\<close>

text \<open>
  A reference reading of nested dictionaries: the value at a path (a dictionary counts as an empty
  one), whether a value that is no dictionary stands above the path, and dictionaries without
  repeated keys, as parsed JSON and Python's dictionaries are.
\<close>

fun leaf_at :: "string list \<Rightarrow> json \<Rightarrow> json option" where
  "leaf_at [] (JObj d) = Some (JObj [])"
| "leaf_at [] j = Some j"
| "leaf_at (k # p) (JObj d) = (case dget d k of None \<Rightarrow> None | Some v \<Rightarrow> leaf_at p v)"
| "leaf_at (k # p) _ = None"

fun blocked :: "string list \<Rightarrow> json \<Rightarrow> bool" where
  "blocked [] j = False"
| "blocked (k # p) (JObj d) = (case dget d k of None \<Rightarrow> False | Some v \<Rightarrow> blocked p v)"
| "blocked (k # p) _ = True"

fun json_ok :: "json \<Rightarrow> bool" where
  "json_ok (JObj d) = (distinct (map fst d) \<and> list_all (\<lambda>(k, v). json_ok v) d)"
| "json_ok (JArr xs) = list_all json_ok xs"
| "json_ok _ = True"

abbreviation dict_ok :: "json dict \<Rightarrow> bool" where
  "dict_ok d \<equiv> json_ok (JObj d)"

definition merge_value :: "json option \<Rightarrow> json \<Rightarrow> json" where
  "merge_value u v = (case (u, v) of (Some (JObj a), JObj b) \<Rightarrow> JObj (merge_settings a b) | _ \<Rightarrow> v)"

lemma merge_settings_Cons:
  "merge_settings r ((k, v) # rest) = merge_settings (dset k (merge_value (dget r k) v) r) rest"
  by (simp add: merge_value_def)

lemma merge_value_simps [simp]:
  "merge_value None v = v" "merge_value (Some (JObj a)) (JObj b) = JObj (merge_settings a b)"
  by (simp_all add: merge_value_def)

lemma merge_value_leaf: "(\<And>d. v \<noteq> JObj d) \<Longrightarrow> merge_value u v = v"
  by (cases v) (auto simp: merge_value_def split: option.split json.split)

declare merge_settings.simps(2) [simp del]

lemma dget_Cons: "dget ((k, v) # d) k' = (if k' = k then Some v else dget d k')"
  by (simp add: dget_def)

lemma dget_merge:
  "distinct (map fst b) \<Longrightarrow>
   dget (merge_settings a b) k = (case dget b k of None \<Rightarrow> dget a k | Some v \<Rightarrow> Some (merge_value (dget a k) v))"
proof (induction b arbitrary: a)
  case (Cons x b)
  obtain k' v where x: "x = (k', v)" by (cases x)
  from Cons.prems x have nb: "k' \<notin> fst ` set b" by simp
  then have "dget b k' = None" by (simp add: dget_def map_of_eq_None_iff)
  with Cons x show ?case by (simp add: merge_settings_Cons dget_Cons dget_dset split: option.split)
qed simp

lemma dict_ok_dget: "dict_ok b \<Longrightarrow> dget b k = Some v \<Longrightarrow> json_ok v"
  by (auto simp: dget_def list_all_iff dest!: map_of_SomeD)

lemma leaf_blocked: "leaf_at p j = Some v \<Longrightarrow> \<not> blocked p j"
  by (induction p j rule: blocked.induct) (auto split: option.splits)

lemma leaf_at_merge:
  "json_ok v \<Longrightarrow> leaf_at p (merge_value u v) =
     (case leaf_at p v of Some x \<Rightarrow> Some x
      | None \<Rightarrow> if blocked p v then None else (case u of None \<Rightarrow> None | Some a \<Rightarrow> leaf_at p a))"
proof (induction p arbitrary: u v)
  case Nil
  show ?case by (cases v) (auto simp: merge_value_def split: option.split json.split)
next
  case (Cons k p)
  show ?case
  proof (cases v)
    case (JObj b)
    then have db: "distinct (map fst b)" using Cons.prems by simp
    have ok: "json_ok x" if "dget b k = Some x" for x
      using dict_ok_dget [OF _ that] Cons.prems JObj by simp
    show ?thesis
    proof (cases u)
      case None
      with JObj show ?thesis by (auto split: option.split)
    next
      case (Some a)
      show ?thesis
      proof (cases a)
        case a: (JObj d)
        show ?thesis
        proof (cases "dget b k")
          case None
          with JObj Some a db show ?thesis by (simp add: dget_merge split: option.split)
        next
          case sx: (Some x)
          with JObj Some a db Cons.IH [OF ok [OF sx]] show ?thesis
            by (simp add: dget_merge split: option.split)
        qed
      qed (use JObj Some in \<open>auto simp: merge_value_def split: option.split\<close>)
    qed
  qed (simp_all add: merge_value_leaf)
qed

definition merge_demo_override :: "json dict" where
  "merge_demo_override = [(''tokens'', JObj [(''access_token_ttl'', JInt 900)]), (''security'', JNull)]"

text \<open>C29. The deep merge, value by value: at every path the merged dictionary has the override's
  value if the override has one there, nothing where the override put a value that is no dictionary
  above the path, and the default's value everywhere else.\<close>

theorem merge_overlays:
  assumes "dict_ok b"
  shows "leaf_at p (JObj (merge_settings a b)) =
    (case leaf_at p (JObj b) of Some x \<Rightarrow> Some x
     | None \<Rightarrow> if blocked p (JObj b) then None else leaf_at p (JObj a))"
  using leaf_at_merge [of "JObj b" p "Some (JObj a)"] assms by (simp del: json_ok.simps split: option.split)

theorem merge_overlays_witness:
  "leaf_at [''tokens'', ''access_token_ttl''] (JObj (merge_settings default_settings merge_demo_override)) = Some (JInt 900)
   \<and> leaf_at [''tokens'', ''id_token_ttl''] (JObj (merge_settings default_settings merge_demo_override)) = Some (JInt 3600)
   \<and> leaf_at [''security'', ''lockout_threshold''] (JObj (merge_settings default_settings merge_demo_override)) = None"
proof -
  have ok: "dict_ok merge_demo_override" by code_simp
  show ?thesis unfolding merge_overlays [OF ok] by code_simp
qed

section \<open>Typed settings\<close>

text \<open>
  Settings with exactly the sections and fields of the models, each value admitted by its field's
  type and bounds. A tenant has none stored, or the table's default \<open>{}\<close>, or typed ones.
\<close>

definition typed_settings :: "json dict \<Rightarrow> bool" where
  "typed_settings s \<longleftrightarrow> list_all2 (\<lambda>(k, v) (k', fs). k = k' \<and> section_typed fs v) s section_models"

definition typed_stored :: "json option \<Rightarrow> bool" where
  "typed_stored s \<longleftrightarrow> (case s of None \<Rightarrow> True | Some (JObj d) \<Rightarrow> d = [] \<or> typed_settings d | Some _ \<Rightarrow> False)"

definition settings_typed :: "world \<Rightarrow> bool" where
  "settings_typed w \<longleftrightarrow>
     typed_settings (w_default_settings w)
     \<and> list_all (\<lambda>t. typed_stored (tn_settings t)) (w_tenants w)
     \<and> list_all (\<lambda>(k, s, until). typed_settings s) (w_settings_cache w)"

text \<open>The order and the keys of a typed dictionary are those of its model.\<close>

lemma typed_keys: "list_all2 (\<lambda>(k, v) (k', fs). k = k' \<and> R fs v) d ms \<Longrightarrow> map fst d = map fst ms"
  by (induction d ms rule: list_all2_induct) auto

lemma typed_update:
  "list_all2 (\<lambda>(k, v) (k', fs). k = k' \<and> R fs v) d ms \<Longrightarrow> map_of ms k = Some fs \<Longrightarrow> R fs v \<Longrightarrow>
   list_all2 (\<lambda>(k, v) (k', fs). k = k' \<and> R fs v) (dset k v d) ms"
  unfolding dset_def by (induction d ms rule: list_all2_induct) auto

lemma typed_value:
  "list_all2 (\<lambda>(k, v) (k', fs). k = k' \<and> R fs v) d ms \<Longrightarrow> map_of ms k = Some fs \<Longrightarrow> \<exists>v. dget d k = Some v \<and> R fs v"
  unfolding dget_def by (induction d ms rule: list_all2_induct) auto

lemma dset_dset: "dset k v (dset k u d) = dset k v d"
  by (simp add: dset_def update_last)

lemma field_leaf: "field_ok ty v \<Longrightarrow> v \<noteq> JObj d"
  by (cases ty; cases v) auto

lemma dict_eqI: "map fst a = map fst b \<Longrightarrow> distinct (map fst b) \<Longrightarrow> (\<And>k. dget a k = dget b k) \<Longrightarrow> a = b"
  using map_of_eqI [of a b] by (simp add: dget_def) (metis map_fst_zip map_of_zip_inject zip_map_fst_snd length_map)

lemma dget_None: "dget d k = None \<longleftrightarrow> k \<notin> set (map fst d)"
  by (simp add: dget_def map_of_eq_None_iff)

lemma keys_dset: "k \<in> set (map fst d) \<Longrightarrow> map fst (dset k v d) = map fst d"
  by (simp add: dset_def update_keys)

lemma keys_merge: "set (map fst b) \<subseteq> set (map fst a) \<Longrightarrow> map fst (merge_settings a b) = map fst a"
proof (induction b arbitrary: a)
  case (Cons x b)
  obtain k v where x: "x = (k, v)" by (cases x)
  let ?a = "dset k (merge_value (dget a k) v) a"
  have "map fst ?a = map fst a" using Cons.prems x by (intro keys_dset) simp
  moreover have "map fst (merge_settings ?a b) = map fst ?a"
    using Cons.prems x \<open>map fst ?a = map fst a\<close> by (intro Cons.IH) (simp del: list.set_map)
  ultimately show ?case using x by (simp add: merge_settings_Cons)
qed simp

lemma merge_section:
  assumes "section_typed fs u" "section_typed fs v" "distinct (map fst fs)"
  shows "merge_value (Some u) v = v"
proof -
  from assms obtain a b where ab: "u = JObj a" "v = JObj b"
      "list_all2 (\<lambda>(f, x) (f', ty). f = f' \<and> field_ok ty x) a fs" "list_all2 (\<lambda>(f, x) (f', ty). f = f' \<and> field_ok ty x) b fs"
    by (auto simp: section_typed_def split: json.splits)
  then have k: "map fst a = map fst fs" "map fst b = map fst fs" by (auto dest: typed_keys)
  have "merge_settings a b = b"
  proof (rule dict_eqI)
    show "map fst (merge_settings a b) = map fst b" using k by (subst keys_merge) auto
    show "distinct (map fst b)" using k assms(3) by simp
    show "dget (merge_settings a b) f = dget b f" for f
    proof (cases "dget b f")
      case None
      then have "dget a f = None" using k by (simp only: dget_None not_False_eq_True)
      with None k assms(3) show ?thesis by (simp add: dget_merge)
    next
      case (Some x)
      then have "f \<in> set (map fst fs)" using k by (metis dget_None option.distinct(1))
      then obtain ty where "map_of fs f = Some ty" by (metis map_of_eq_None_iff list.set_map not_None_eq)
      from typed_value [OF ab(4) this] Some have "field_ok ty x" by simp
      then have "merge_value (dget a f) x = x" by (simp add: merge_value_leaf field_leaf)
      with Some k assms(3) show ?thesis by (simp add: dget_merge)
    qed
  qed
  with ab show ?thesis by simp
qed

lemma section_models_ok:
  "distinct (map fst section_models)" "map_of section_models k = Some fs \<Longrightarrow> distinct (map fst fs)"
  "map fst section_models = setting_sections"
  by (auto simp: section_models_def setting_sections_def split: if_splits)

lemma default_settings_typed: "typed_settings default_settings"
  by code_simp

lemma merge_valid_update:
  assumes "typed_settings a" "valid_update u"
  shows "typed_settings (merge_settings a u)"
  using assms
proof (induction u arbitrary: a)
  case (Cons x u)
  obtain k v where x: "x = (k, v)" by (cases x)
  with Cons.prems(2) obtain fs where fs: "map_of section_models k = Some fs" "section_typed fs v" "valid_update u"
    by (auto simp: valid_update_def split: option.splits)
  from typed_value [OF Cons.prems(1) [unfolded typed_settings_def] fs(1)]
  obtain s where s: "dget a k = Some s" "section_typed fs s" by auto
  from merge_section [OF s(2) fs(2) section_models_ok(2) [OF fs(1)]]
  have "typed_settings (dset k (merge_value (dget a k) v) a)"
    using typed_update [OF Cons.prems(1) [unfolded typed_settings_def] fs(1,2)] s(1) by (simp add: typed_settings_def)
  with Cons.IH fs(3) x show ?case by (simp add: merge_settings_Cons)
qed simp

lemma typed_settings_keys: "typed_settings s \<Longrightarrow> map fst s = setting_sections"
  unfolding typed_settings_def section_models_ok(3) [symmetric] by (rule typed_keys)

lemma merge_typed:
  assumes a: "typed_settings a" and b: "typed_settings b"
  shows "merge_settings a b = b"
proof (rule dict_eqI)
  have k: "map fst a = setting_sections" "map fst b = setting_sections"
    using a b by (simp_all only: typed_settings_keys)
  then have d: "distinct (map fst b)" using section_models_ok(1,3) by simp
  then show "distinct (map fst b)" .
  show "map fst (merge_settings a b) = map fst b" using k by (subst keys_merge) auto
  show "dget (merge_settings a b) f = dget b f" for f
  proof (cases "dget b f")
    case None
    then have "dget a f = None" using k by (simp only: dget_None not_False_eq_True)
    with None d show ?thesis by (simp add: dget_merge)
  next
    case (Some x)
    then have "f \<in> set (map fst section_models)" using k section_models_ok(3) by (metis dget_None option.distinct(1))
    then obtain fs where fs: "map_of section_models f = Some fs" by (metis map_of_eq_None_iff list.set_map not_None_eq)
    from typed_value [OF a [unfolded typed_settings_def] fs] typed_value [OF b [unfolded typed_settings_def] fs] Some
    obtain y where "dget a f = Some y" "section_typed fs y" "section_typed fs x" by auto
    with Some d merge_section section_models_ok(2) [OF fs] show ?thesis by (simp add: dget_merge)
  qed
qed

lemma dget_response:
  "dget (settings_response s) k =
     (if k \<in> set setting_sections then Some (case dget s k of None \<Rightarrow> JObj [] | Some v \<Rightarrow> v) else None)"
  unfolding dget_def settings_response_def map_of_map_restrict by (simp add: restrict_map_def)

lemma response_typed:
  assumes "typed_settings s"
  shows "settings_response s = s"
proof (rule dict_eqI)
  have k: "map fst s = setting_sections"
    using assms by (rule typed_settings_keys)
  show "map fst (settings_response s) = map fst s" by (simp add: settings_response_def k comp_def)
  show "distinct (map fst s)" using k section_models_ok(1,3) by simp
  show "dget (settings_response s) f = dget s f" for f
    using dget_None [of s f] k by (auto simp: dget_response split: option.split)
qed

text \<open>What a tenant's settings are: the stored ones, or this process's defaults.\<close>

definition effective :: "conn \<Rightarrow> string \<Rightarrow> world \<Rightarrow> json dict" where
  "effective c tenant w =
     (case stored_settings c tenant w of Some (JObj s) \<Rightarrow> if s = [] then w_default_settings w else s
      | _ \<Rightarrow> w_default_settings w)"

lemma stored_typed:
  assumes "settings_typed w"
  shows "typed_stored (stored_settings c tenant w)"
proof (cases "tenant_row_of c tenant w")
  case (Some t)
  then have "t \<in> set (w_tenants w)" using sql_row_Some [of _ "tenants_of c w" t]
    by (auto simp: tenant_row_of_def tenants_of_def)
  with assms Some show ?thesis by (simp add: settings_typed_def stored_settings_def list_all_iff)
qed (simp add: stored_settings_def typed_stored_def)

lemma effective_typed: "settings_typed w \<Longrightarrow> typed_settings (effective c tenant w)"
  using stored_typed [of w c tenant]
  by (auto simp: effective_def typed_stored_def settings_typed_def split: option.splits json.splits)

lemma read_typed:
  assumes "settings_typed w"
  shows "\<exists>sh. read_settings c tenant w = Inr \<lparr>sr_settings = effective c tenant w, sr_tokens_shared = sh\<rparr>"
proof (cases "stored_settings c tenant w")
  case None
  with assms show ?thesis by (simp add: read_settings_def effective_def response_typed settings_typed_def Let_def)
next
  case (Some j)
  with stored_typed [OF assms, of c tenant] obtain s where s: "j = JObj s" "s = [] \<or> typed_settings s"
    by (auto simp: typed_stored_def split: json.splits)
  with Some assms show ?thesis
    by (auto simp: read_settings_def effective_def response_typed merge_typed settings_typed_def Let_def)
qed

section \<open>What an update does\<close>

lemma stored_after:
  "stored_settings c' t' (w\<lparr>w_tenants := sql_update (\<lambda>t. tn_id t = tenant \<and> rls_visible c (tn_id t))
        (\<lambda>t. t\<lparr>tn_settings := Some (JObj s)\<rparr>) (w_tenants w)\<rparr>) =
   (if t' = tenant \<and> rls_visible c tenant \<and> tenant_row_of c' t' w \<noteq> None then Some (JObj s)
    else stored_settings c' t' w)"
proof -
  have "tenants_of c' (w\<lparr>w_tenants := sql_update p (\<lambda>t. t\<lparr>tn_settings := x\<rparr>) (w_tenants w)\<rparr>)
      = sql_update p (\<lambda>t. t\<lparr>tn_settings := x\<rparr>) (tenants_of c' w)" for p x
    unfolding tenants_of_def sql_update_def by (simp add: filter_map comp_def if_distrib [of tn_id] cong: if_cong)
  then show ?thesis
    by (cases "sql_row (\<lambda>t. tn_id t = t') (tenants_of c' w)")
      (auto simp: stored_settings_def tenant_row_of_def sql_row_update_keep dest: sql_row_Some)
qed

lemma stored_blind [simp]:
  "stored_settings c t (w\<lparr>w_log := l\<rparr>) = stored_settings c t w"
  "stored_settings c t (w\<lparr>w_settings_cache := x\<rparr>) = stored_settings c t w"
  "stored_settings c t (w\<lparr>w_default_settings := d\<rparr>) = stored_settings c t w"
  "stored_settings c t (w\<lparr>w_now := n\<rparr>) = stored_settings c t w"
  by (simp_all add: stored_settings_def tenant_row_of_def tenants_of_def)

lemma tenant_row_blind [simp]:
  "tenant_row_of c t (w\<lparr>w_log := l\<rparr>) = tenant_row_of c t w"
  "tenant_row_of c t (w\<lparr>w_default_settings := d\<rparr>) = tenant_row_of c t w"
  by (simp_all add: tenant_row_of_def tenants_of_def)

lemma stored_store:
  "stored_settings c' t' (snd (store_settings c tenant s w)) =
   (if t' = tenant \<and> rls_visible c tenant \<and> tenant_row_of c' t' w \<noteq> None then Some (JObj s)
    else stored_settings c' t' w)"
  by (simp add: store_settings_def stored_after)

lemma defaults_store [simp]: "w_default_settings (snd (store_settings c tenant s w)) = w_default_settings w"
  by (simp add: store_settings_def)

lemma get_uncached: "get_tenant_settings c tenant False w = (read_settings c tenant w, w)"
  by (cases "read_settings c tenant w") (simp_all add: get_tenant_settings_def eff_simps)

lemma update_run:
  assumes "settings_typed w" and s: "s = merge_settings (effective c tenant w) u"
  obtains l where "update_tenant_settings c tenant u False w
    = (Inr s, (snd (store_settings c tenant s w))\<lparr>w_log := l\<rparr>)"
proof -
  from read_typed [OF assms(1), of c tenant] obtain sh
    where "read_settings c tenant w = Inr \<lparr>sr_settings = effective c tenant w, sr_tokens_shared = sh\<rparr>" by blast
  then show ?thesis
    by (intro that) (simp add: s update_tenant_settings_def get_uncached store_settings_def log_write_def eff_simps Let_def)
qed

lemma store_typed:
  assumes "settings_typed w" "typed_settings s"
  shows "settings_typed (snd (store_settings c tenant s w))"
  using assms by (auto simp: settings_typed_def store_settings_def sql_update_def list_all_iff typed_stored_def)

lemma typed_log [simp]: "settings_typed (w\<lparr>w_log := l\<rparr>) = settings_typed w"
  by (simp add: settings_typed_def)

lemma keeps_update [keeps_intros]: "valid_update u \<Longrightarrow> keeps settings_typed (update_tenant_settings c tenant u False)"
proof (rule keepsI)
  fix w
  assume *: "valid_update u" "settings_typed w"
  from update_run [OF *(2) refl] obtain l where "update_tenant_settings c tenant u False w =
    (Inr (merge_settings (effective c tenant w) u),
     (snd (store_settings c tenant (merge_settings (effective c tenant w) u) w))\<lparr>w_log := l\<rparr>)" .
  with * show "settings_typed (snd (update_tenant_settings c tenant u False w))"
    by (simp add: Let_def store_typed merge_valid_update effective_typed)
qed

text \<open>The section a request for new lifetimes writes, whatever the section read was.\<close>

lemma set_ttl_tokens:
  assumes "typed_settings s"
  obtains d where "dget s ''tokens'' = Some (JObj d)" "d \<noteq> []"
    "set_ttl ''id_token_ttl'' (Some (ts_id t)) (set_ttl ''refresh_token_ttl'' (Some (ts_refresh t))
       (set_ttl ''access_token_ttl'' (Some (ts_access t)) d)) = token_settings_json t"
proof -
  let ?fs = "the (map_of section_models ''tokens'')"
  have "map_of section_models ''tokens'' = Some ?fs" by (simp add: section_models_def)
  from typed_value [OF assms [unfolded typed_settings_def] this] obtain v
    where v: "dget s ''tokens'' = Some v" "section_typed ?fs v" by blast
  then obtain d x y z where d: "v = JObj d"
      "d = [(''access_token_ttl'', x), (''refresh_token_ttl'', y), (''id_token_ttl'', z)]"
    by (auto simp: section_typed_def section_models_def list_all2_Cons2 split: json.splits)
  show ?thesis by (rule that [of d]) (use v d in \<open>simp_all add: set_ttl_def dset_def token_settings_json_def\<close>)
qed

lemma tokens_update_valid:
  assumes "valid_token_settings t"
  shows "section_typed (the (map_of section_models ''tokens'')) (JObj (token_settings_json t))"
    and "valid_update [(''tokens'', JObj (token_settings_json t))]"
  using assms
  by (simp_all add: valid_update_def section_typed_def section_models_def token_settings_json_def valid_token_settings_def)

lemma log_blind_typed: "log_blind settings_typed"
  by (simp add: log_blind_def)

lemma list_all_setex: "list_all P c \<Longrightarrow> P (k, v, now + ttl) \<Longrightarrow> list_all P (cache_setex now k ttl v c)"
  unfolding cache_setex_def by (induction c) auto

lemma keeps_get: "keeps settings_typed (get_tenant_settings c tenant redis)"
proof (rule keepsI)
  fix w assume w: "settings_typed w"
  from read_typed [OF w, of c tenant] obtain sh
    where r: "read_settings c tenant w = Inr \<lparr>sr_settings = effective c tenant w, sr_tokens_shared = sh\<rparr>" by blast
  have "list_all (\<lambda>(k, s, until). typed_settings s)
      (cache_setex n k ttl (effective c tenant w) (w_settings_cache w))" for n k ttl
    using w effective_typed [OF w, of c tenant]
    by (simp add: settings_typed_def list_all_setex)
  with w r show "settings_typed (snd (get_tenant_settings c tenant redis w))"
    by (auto simp: get_tenant_settings_def eff_simps settings_typed_def split: option.split)
qed

lemma keeps_mfa: "keeps settings_typed (update_mfa_settings c tenant enabled required methods)"
  unfolding update_mfa_settings_def
  by (rule keeps_update)
    (simp add: valid_update_def section_typed_def section_models_def list_all_iff split: option.split list.split)

lemma typed_default_tokens:
  assumes "settings_typed w" "valid_token_settings t"
  shows "settings_typed (w\<lparr>w_default_settings := dset ''tokens'' (JObj (token_settings_json t)) (w_default_settings w)\<rparr>)"
proof -
  have "map_of section_models ''tokens'' = Some (the (map_of section_models ''tokens''))"
    by (simp add: section_models_def)
  from typed_update [where R = section_typed, OF _ this tokens_update_valid(1) [OF assms(2)]] assms(1)
  show ?thesis by (simp add: settings_typed_def typed_settings_def)
qed

text \<open>Where the section read is the shared object, the update of it is an update of the defaults.\<close>

definition defaults_after :: "conn \<Rightarrow> string \<Rightarrow> token_settings \<Rightarrow> world \<Rightarrow> world" where
  "defaults_after c tenant t w =
     (if stored_settings c tenant w \<in> {None, Some (JObj [])}
      then w\<lparr>w_default_settings := dset ''tokens'' (JObj (token_settings_json t)) (w_default_settings w)\<rparr> else w)"

lemma read_shared:
  assumes "settings_typed w"
  shows "read_settings c tenant w = Inr \<lparr>sr_settings = effective c tenant w,
     sr_tokens_shared = (stored_settings c tenant w \<in> {None, Some (JObj [])})\<rparr>"
proof -
  from assms obtain d where d: "dget (w_default_settings w) ''tokens'' = Some d"
    by (auto simp: settings_typed_def elim: set_ttl_tokens)
  show ?thesis
  proof (cases "stored_settings c tenant w")
    case None
    with d read_typed [OF assms, of c tenant] show ?thesis by (auto simp: read_settings_def Let_def)
  next
    case (Some j)
    with stored_typed [OF assms, of c tenant] obtain s where s: "j = JObj s" "s = [] \<or> typed_settings s"
      by (auto simp: typed_stored_def split: json.splits)
    moreover have "s \<noteq> []" "dget s ''tokens'' \<noteq> None" if "typed_settings s"
      using that by (auto elim: set_ttl_tokens)
    ultimately show ?thesis using Some d read_typed [OF assms, of c tenant] by (auto simp: read_settings_def Let_def)
  qed
qed

lemma token_update_run:
  assumes w: "settings_typed w"
  shows "update_token_settings c tenant (Some (ts_access t)) (Some (ts_refresh t)) (Some (ts_id t)) False w =
    update_tenant_settings c tenant [(''tokens'', JObj (token_settings_json t))] False (defaults_after c tenant t w)"
proof -
  obtain d where "dget (effective c tenant w) ''tokens'' = Some (JObj d)" "d \<noteq> []"
    "set_ttl ''id_token_ttl'' (Some (ts_id t)) (set_ttl ''refresh_token_ttl'' (Some (ts_refresh t))
       (set_ttl ''access_token_ttl'' (Some (ts_access t)) d)) = token_settings_json t"
    by (rule set_ttl_tokens [OF effective_typed [OF w, of c tenant]])
  then show ?thesis
    by (simp add: update_token_settings_def get_uncached read_shared [OF w] defaults_after_def eff_simps Let_def)
qed

lemma defaults_after_typed: "settings_typed w \<Longrightarrow> valid_token_settings t \<Longrightarrow> settings_typed (defaults_after c tenant t w)"
  by (simp add: defaults_after_def typed_default_tokens)

lemma keeps_token_settings:
  assumes t: "valid_token_settings t"
  shows "keeps settings_typed
    (update_token_settings c tenant (Some (ts_access t)) (Some (ts_refresh t)) (Some (ts_id t)) False)"
  by (rule keepsI)
    (simp add: token_update_run keepsD [OF keeps_update [OF tokens_update_valid(2) [OF t]]] defaults_after_typed t)

lemma keeps_active: "keeps settings_typed (set_tenant_active c tenant b)"
  by (auto simp: keeps_def set_tenant_active_def settings_typed_def sql_update_def list_all_iff)

lemmas settings_keeps = keeps_get keeps_mfa keeps_active keeps_log [OF log_blind_typed]

lemma keeps_admin_exact: "keeps P (require_admin_exact detail user)"
  by (simp add: require_admin_exact_def keeps_def)

lemma keeps_superadmin: "keeps P (require_superadmin user)"
  by (simp add: require_superadmin_def keeps_def)

lemma keeps_section_reply: "keeps P (section_reply k msg s)"
  by (simp add: section_reply_def keeps_def split: option.split)

lemmas endpoint_keeps = keeps_admin_exact keeps_superadmin keeps_section_reply settings_keeps

text \<open>Where a typed section is asked for, it is there.\<close>

lemma get_settings_run:
  assumes "settings_typed w"
  shows "\<exists>r. fst (get_tenant_settings c tenant redis w) = Inr r \<and> typed_settings (sr_settings r)"
proof (cases "if redis then cache_get (w_now w) (w_settings_cache w) (settings_key tenant) else None")
  case None
  with assms show ?thesis
    by (simp add: get_tenant_settings_def eff_simps read_shared effective_typed split: if_splits)
next
  case (Some s)
  then have "typed_settings s" using assms
    by (auto simp: settings_typed_def cache_get_def list_all_iff dest!: map_of_SomeD split: option.splits if_splits)
  with Some show ?thesis by (simp add: get_tenant_settings_def eff_simps)
qed

text \<open>C30. Settings keep their type: while the defaults, every stored and every cached value have
  exactly the sections and fields of the request models, within their bounds, reading settings
  always succeeds with such a value, and every endpoint that reads or writes them, called with a
  body the models admit, successful or refused, leaves it so.\<close>

theorem settings_stay_typed:
  assumes w: "settings_typed w"
  shows "(\<exists>s. fst (get_current_tenant_settings c user w) = Inr (Success (Some s) None 200) \<and> typed_settings s)
    \<and> settings_typed (snd (get_current_tenant_settings c user w))
    \<and> (valid_update u \<longrightarrow> settings_typed (snd (update_current_tenant_settings c u user w)))
    \<and> settings_typed (snd (mfa_endpoint c enabled required methods user w))
    \<and> (valid_token_settings t \<longrightarrow> settings_typed (snd (token_settings_endpoint c t user w)))
    \<and> (valid_update [(''password_policy'', JObj d)] \<longrightarrow> settings_typed (snd (password_policy_endpoint c d user w)))
    \<and> (valid_update [(''branding'', JObj d)] \<longrightarrow> settings_typed (snd (branding_endpoint c d user w)))
    \<and> settings_typed (snd (deactivate_tenant_endpoint c tenant user w))
    \<and> settings_typed (snd (activate_tenant_endpoint c tenant user w))"
proof (intro conjI impI)
  from get_settings_run [OF w, of c "td_tenant user" True]
  show "\<exists>s. fst (get_current_tenant_settings c user w) = Inr (Success (Some s) None 200) \<and> typed_settings s"
    by (cases "get_tenant_settings c (td_tenant user) True w") (auto simp: get_current_tenant_settings_def eff_simps)
  show "settings_typed (snd (get_current_tenant_settings c user w))"
    by (rule keepsD [where P = settings_typed, OF _ w]) (unfold get_current_tenant_settings_def, intro keeps_intros endpoint_keeps)
  show "settings_typed (snd (update_current_tenant_settings c u user w))" if "valid_update u"
    by (rule keepsD [where P = settings_typed, OF _ w]) (unfold update_current_tenant_settings_def, intro keeps_intros endpoint_keeps that)
  show "settings_typed (snd (mfa_endpoint c enabled required methods user w))"
    by (rule keepsD [where P = settings_typed, OF _ w]) (unfold mfa_endpoint_def, intro keeps_intros endpoint_keeps)
  show "settings_typed (snd (token_settings_endpoint c t user w))" if "valid_token_settings t"
    by (rule keepsD [where P = settings_typed, OF _ w])
      (unfold token_settings_endpoint_def, intro keeps_intros endpoint_keeps keeps_token_settings that)
  show "settings_typed (snd (password_policy_endpoint c d user w))" if "valid_update [(''password_policy'', JObj d)]"
    by (rule keepsD [where P = settings_typed, OF _ w])
      (unfold password_policy_endpoint_def update_password_policy_def, intro keeps_intros endpoint_keeps that)
  show "settings_typed (snd (branding_endpoint c d user w))" if "valid_update [(''branding'', JObj d)]"
    by (rule keepsD [where P = settings_typed, OF _ w]) (unfold branding_endpoint_def update_branding_def, intro keeps_intros endpoint_keeps that)
  show "settings_typed (snd (deactivate_tenant_endpoint c tenant user w))"
    by (rule keepsD [where P = settings_typed, OF _ w])
      (unfold deactivate_tenant_endpoint_def deactivate_tenant_def, intro keeps_intros endpoint_keeps)
  show "settings_typed (snd (activate_tenant_endpoint c tenant user w))"
    by (rule keepsD [where P = settings_typed, OF _ w]) (unfold activate_tenant_endpoint_def activate_tenant_def, intro keeps_intros endpoint_keeps)
qed

definition settings_demo :: world where
  "settings_demo = empty_world\<lparr>w_default_settings := default_settings,
     w_tenants := [\<lparr>tn_id = ''a'', tn_name = ''A'', tn_domain = ''a.com'', tn_root = ''r'', tn_settings = Some (JObj []),
                    tn_is_active = True, tn_created = 1\<rparr>,
                   \<lparr>tn_id = ''b'', tn_name = ''B'', tn_domain = ''b.com'', tn_root = ''r'', tn_settings = None,
                    tn_is_active = True, tn_created = 2\<rparr>]\<rparr>"

definition demo_ttls :: token_settings where
  "demo_ttls = \<lparr>ts_access = 300, ts_refresh = 3600, ts_id = 300\<rparr>"

lemma settings_demo_typed: "settings_typed settings_demo"
  by (simp add: settings_typed_def settings_demo_def empty_world_def default_settings_typed typed_stored_def)

definition settings_admin :: token_data where
  "settings_admin = \<lparr>td_email = ''a@a'', td_tenant = ''a'', td_policy = None, td_role = Some ''admin'',
     td_user = ''u'', td_exp = None, td_iat = None, td_aud = None\<rparr>"

theorem settings_stay_typed_witness:
  "settings_typed (snd (token_settings_endpoint (TenantConn ''a'') demo_ttls settings_admin settings_demo))"
proof -
  have "valid_token_settings demo_ttls" by code_simp
  with settings_stay_typed [OF settings_demo_typed, where t = demo_ttls] show ?thesis by blast
qed

lemma effective_after:
  assumes "typed_settings s"
  shows "effective c' t' ((snd (store_settings c tenant s w))\<lparr>w_log := l\<rparr>) =
    (if t' = tenant \<and> rls_visible c tenant \<and> tenant_row_of c' t' w \<noteq> None then s else effective c' t' w)"
proof -
  have "s \<noteq> []" using assms by (auto elim: set_ttl_tokens)
  moreover have "w_default_settings ((snd (store_settings c tenant s w))\<lparr>w_log := l\<rparr>) = w_default_settings w"
    by simp
  moreover have "stored_settings c' t' ((snd (store_settings c tenant s w))\<lparr>w_log := l\<rparr>)
      = (if t' = tenant \<and> rls_visible c tenant \<and> tenant_row_of c' t' w \<noteq> None then Some (JObj s)
         else stored_settings c' t' w)"
    by (simp add: stored_store)
  ultimately show ?thesis unfolding effective_def by (simp only: split: if_split) auto
qed

lemma tenant_row_visible: "tenant_row_of c t w \<noteq> None \<Longrightarrow> rls_visible c t"
  by (auto simp: tenant_row_of_def tenants_of_def dest: sql_row_Some)

lemma tenant_row_owner: "tenant_row_of c t w \<noteq> None \<Longrightarrow> tenant_row_of OwnerConn t w \<noteq> None"
  by (auto simp: tenant_row_of_def tenants_of_def sql_row_None dest: sql_row_Some)

lemma merge_update_at:
  assumes "typed_settings a" "valid_update u"
  shows "dget (merge_settings a u) k = (case dget u k of None \<Rightarrow> dget a k | Some v \<Rightarrow> Some v)"
proof (cases "dget u k")
  case None
  with assms show ?thesis by (simp add: dget_merge valid_update_def)
next
  case (Some v)
  then have "(k, v) \<in> set u" by (simp add: dget_def map_of_SomeD)
  with assms(2) obtain fs where fs: "map_of section_models k = Some fs" "section_typed fs v"
    by (fastforce simp: valid_update_def list_all_iff split: option.splits)
  from typed_value [OF assms(1) [unfolded typed_settings_def] fs(1)]
  obtain x where "dget a k = Some x" "section_typed fs x" by auto
  with Some fs assms(2) section_models_ok(2) [OF fs(1)] show ?thesis
    by (simp add: dget_merge valid_update_def merge_section)
qed

text \<open>What an admin's update answers is what the next read of the database gives, whoever
  reads: the sections sent replace the tenant's, the others stay, and the settings of every other
  tenant are untouched.\<close>

theorem settings_read_back:
  assumes w: "settings_typed w" and u: "valid_update u" "u \<noteq> []"
    and role: "td_role user \<in> {Some ''admin'', Some ''superadmin'', Some ''root''}"
    and row: "tenant_row_of c (td_tenant user) w \<noteq> None"
  defines "w' \<equiv> snd (update_current_tenant_settings c u user w)"
  shows "\<exists>s. fst (update_current_tenant_settings c u user w) = Inr (success_response s ''Settings updated successfully'')
    \<and> effective c (td_tenant user) w' = s \<and> effective OwnerConn (td_tenant user) w' = s
    \<and> (\<forall>k. dget s k = (case dget u k of None \<Rightarrow> dget (effective c (td_tenant user) w) k | Some v \<Rightarrow> Some v))
    \<and> (\<forall>t. t \<noteq> td_tenant user \<longrightarrow> effective OwnerConn t w' = effective OwnerConn t w)"
proof -
  define s where "s = merge_settings (effective c (td_tenant user) w) u"
  have s: "typed_settings s" unfolding s_def by (rule merge_valid_update [OF effective_typed [OF w] u(1)])
  from update_run [OF w s_def] obtain l
    where "update_tenant_settings c (td_tenant user) u False w
      = (Inr s, (snd (store_settings c (td_tenant user) s w))\<lparr>w_log := l\<rparr>)" .
  then have run: "update_current_tenant_settings c u user w
      = (Inr (success_response s ''Settings updated successfully''), (snd (store_settings c (td_tenant user) s w))\<lparr>w_log := l\<rparr>)"
    using role u(2) by (auto simp: update_current_tenant_settings_def require_admin_exact_def admin_roles_def eff_simps)
  have "dget s k = (case dget u k of None \<Rightarrow> dget (effective c (td_tenant user) w) k | Some v \<Rightarrow> Some v)" for k
    unfolding s_def by (rule merge_update_at [OF effective_typed [OF w] u(1)])
  then show ?thesis
    using run effective_after [OF s] tenant_row_visible [OF row] tenant_row_owner [OF row] row
    by (simp add: w'_def)
qed

theorem settings_read_back_witness:
  "dget (effective OwnerConn ''a'' (snd (update_current_tenant_settings (TenantConn ''a'')
      [(''tokens'', JObj (token_settings_json demo_ttls))] settings_admin settings_demo))) ''tokens''
   = Some (JObj (token_settings_json demo_ttls))"
proof -
  have "valid_update [(''tokens'', JObj (token_settings_json demo_ttls))]" by code_simp
  moreover have "tenant_row_of (TenantConn ''a'') (td_tenant settings_admin) settings_demo \<noteq> None" by code_simp
  ultimately show ?thesis
    using settings_read_back [OF settings_demo_typed, of "[(''tokens'', JObj (token_settings_json demo_ttls))]" settings_admin "TenantConn ''a''"]
    by (auto simp: settings_admin_def dget_Cons)
qed

text \<open>An update of the token lifetimes by the admin of a tenant that has none stored changes the
  defaults of the process: from then on every tenant without stored settings reads the lifetimes this
  tenant chose, though its own row is untouched.\<close>

theorem token_lifetimes_leak:
  assumes w: "settings_typed w" and t: "valid_token_settings t"
    and role: "td_role user \<in> {Some ''admin'', Some ''superadmin'', Some ''root''}"
    and own: "stored_settings c (td_tenant user) w \<in> {None, Some (JObj [])}"
    and other: "b \<noteq> td_tenant user" "stored_settings c' b w \<in> {None, Some (JObj [])}"
  defines "w' \<equiv> snd (token_settings_endpoint c t user w)"
  shows "fst (token_settings_endpoint c t user w) = Inr (success_response (JObj (token_settings_json t)) ''Token settings updated'')
    \<and> stored_settings c' b w' = stored_settings c' b w
    \<and> dget (effective c' b w') ''tokens'' = Some (JObj (token_settings_json t))
    \<and> (\<exists>r. fst (get_tenant_settings c' b False w') = Inr r
           \<and> dget (sr_settings r) ''tokens'' = Some (JObj (token_settings_json t)))"
proof -
  let ?tk = "JObj (token_settings_json t)"
  define w1 where "w1 = defaults_after c (td_tenant user) t w"
  have w1: "settings_typed w1" unfolding w1_def by (rule defaults_after_typed [OF w t])
  have u: "valid_update [(''tokens'', ?tk)]" by (rule tokens_update_valid(2) [OF t])
  define s where "s = merge_settings (effective c (td_tenant user) w1) [(''tokens'', ?tk)]"
  have s: "typed_settings s" unfolding s_def by (rule merge_valid_update [OF effective_typed [OF w1] u])
  have tk: "dget s ''tokens'' = Some ?tk"
    unfolding s_def by (simp add: merge_update_at [OF effective_typed [OF w1] u] dget_Cons)
  from update_run [OF w1 s_def] obtain l
    where "update_tenant_settings c (td_tenant user) [(''tokens'', ?tk)] False w1
      = (Inr s, (snd (store_settings c (td_tenant user) s w1))\<lparr>w_log := l\<rparr>)" .
  then have run: "token_settings_endpoint c t user w = (Inr (success_response ?tk ''Token settings updated''),
      (snd (store_settings c (td_tenant user) s w1))\<lparr>w_log := l\<rparr>)"
    using role tk
    by (auto simp: token_settings_endpoint_def require_admin_exact_def admin_roles_def section_reply_def eff_simps token_update_run [OF w] w1_def)
  have st: "stored_settings c' b w' = stored_settings c' b w"
    using other(1) own by (simp add: w'_def run stored_store w1_def defaults_after_def)
  have d: "w_default_settings w' = dset ''tokens'' ?tk (w_default_settings w)"
    using own by (simp add: w'_def run w1_def defaults_after_def)
  have e: "dget (effective c' b w') ''tokens'' = Some ?tk"
    using other(2) st d by (auto simp: effective_def dget_dset)
  have w': "settings_typed w'" by (simp add: w'_def run store_typed [OF w1 s])
  show ?thesis using run st e get_uncached [of c' b w'] read_shared [OF w', of c' b] by simp
qed

theorem token_lifetimes_leak_witness:
  "dget (effective OwnerConn ''b'' settings_demo) ''tokens'' = dget default_settings ''tokens''
   \<and> dget (effective OwnerConn ''b'' (snd (token_settings_endpoint (TenantConn ''a'') demo_ttls settings_admin settings_demo))) ''tokens''
   = Some (JObj (token_settings_json demo_ttls))"
proof -
  have v: "valid_token_settings demo_ttls" by code_simp
  have a: "stored_settings (TenantConn ''a'') (td_tenant settings_admin) settings_demo \<in> {None, Some (JObj [])}"
    by (simp add: stored_settings_def tenant_row_of_def tenants_of_def sql_row_def settings_demo_def settings_admin_def empty_world_def)
  have b: "stored_settings OwnerConn ''b'' settings_demo \<in> {None, Some (JObj [])}"
    by (simp add: stored_settings_def tenant_row_of_def tenants_of_def sql_row_def settings_demo_def empty_world_def)
  have "''b'' \<noteq> td_tenant settings_admin" by (simp add: settings_admin_def)
  from token_lifetimes_leak [OF settings_demo_typed v _ a this b] b
  show ?thesis by (auto simp: settings_admin_def effective_def settings_demo_def empty_world_def)
qed

section \<open>The cache of settings\<close>

text \<open>
  What the requests of a service do to the settings, and time passing. Each request comes over the
  connection of the caller's tenant, as the middleware makes sure.
\<close>

datatype settings_event =
    ReadSettings token_data
  | UpdateSettings "json dict" token_data
  | UpdateLifetimes token_settings token_data
  | Elapse nat

fun settings_step :: "settings_event \<Rightarrow> world \<Rightarrow> world" where
  "settings_step (ReadSettings user) w = snd (get_current_tenant_settings (TenantConn (td_tenant user)) user w)"
| "settings_step (UpdateSettings u user) w =
     snd (update_current_tenant_settings (TenantConn (td_tenant user)) u user w)"
| "settings_step (UpdateLifetimes t user) w = snd (token_settings_endpoint (TenantConn (td_tenant user)) t user w)"
| "settings_step (Elapse n) w = w\<lparr>w_now := w_now w + int n\<rparr>"

definition settings_in_force :: "world \<Rightarrow> string \<Rightarrow> json dict" where
  "settings_in_force w tenant =
     (case read_settings (TenantConn tenant) tenant w of Inl _ \<Rightarrow> [] | Inr r \<Rightarrow> sr_settings r)"

definition settings_cell :: "world \<Rightarrow> string \<Rightarrow> (json dict \<times> int) option" where
  "settings_cell w tenant = map_of (w_settings_cache w) (settings_key tenant)"

abbreviation same_cache :: "(string \<times> json dict \<times> int) list \<Rightarrow> world \<Rightarrow> bool" where
  "same_cache C w \<equiv> w_settings_cache w = C"

lemma log_blind_cache: "log_blind (same_cache C)"
  by (simp add: log_blind_def)

lemma keeps_update_blind:
  assumes "\<And>w ts. P w \<Longrightarrow> P (w\<lparr>w_tenants := ts\<rparr>)" "log_blind P"
  shows "keeps P (update_tenant_settings c tenant u False)"
proof -
  have "keeps P (get_tenant_settings c tenant False)" by (simp add: keeps_def get_uncached)
  moreover have "keeps P (store_settings c tenant s)" "keeps P (log_write l)" for s l
    using assms by (auto simp: keeps_def store_settings_def log_write_def log_blind_def)
  ultimately show ?thesis unfolding update_tenant_settings_def Let_def by (intro keeps_intros)
qed

lemma keeps_cache_update: "keeps (same_cache C) (update_tenant_settings c tenant u False)"
  by (rule keeps_update_blind) (simp_all add: log_blind_def)

lemma keeps_cache_tokens: "keeps (same_cache C) (update_token_settings c tenant a r i False)"
  unfolding update_token_settings_def
  by (auto simp: keeps_def get_uncached eff_simps Let_def keepsD [OF keeps_cache_update]
      split: sum.split option.split json.split)

lemma keeps_updates:
  assumes "\<And>u. keeps P (update_tenant_settings c (td_tenant user) u False)"
  shows "keeps P (update_current_tenant_settings c u user)"
  using assms unfolding update_current_tenant_settings_def by (intro keeps_intros keeps_admin_exact)

lemma keeps_lifetimes:
  assumes "\<And>a r i. keeps P (update_token_settings c (td_tenant user) a r i False)"
  shows "keeps P (token_settings_endpoint c t user)"
  using assms unfolding token_settings_endpoint_def by (intro keeps_intros keeps_admin_exact keeps_section_reply)

lemma cache_after_update:
  "w_settings_cache (snd (update_current_tenant_settings c u user w)) = w_settings_cache w"
  "w_settings_cache (snd (token_settings_endpoint c t user w)) = w_settings_cache w"
  by (rule keepsD [of "same_cache (w_settings_cache w)"], rule keeps_updates keeps_lifetimes,
      rule keeps_cache_update keeps_cache_tokens, rule refl)+

lemma get_current_run:
  "get_current_tenant_settings (TenantConn (td_tenant user)) user w =
     (case cache_get (w_now w) (w_settings_cache w) (settings_key (td_tenant user)) of
        Some s \<Rightarrow> (Inr (Success (Some s) None 200), w)
      | None \<Rightarrow>
          (case read_settings (TenantConn (td_tenant user)) (td_tenant user) w of
             Inl e \<Rightarrow> (Inl e, w)
           | Inr r \<Rightarrow> (Inr (Success (Some (sr_settings r)) None 200),
               w\<lparr>w_settings_cache := cache_setex (w_now w) (settings_key (td_tenant user)) 60 (sr_settings r)
                   (w_settings_cache w)\<rparr>)))"
  by (simp add: get_current_tenant_settings_def get_tenant_settings_def eff_simps split: option.split sum.split)

lemma settings_cell_step:
  assumes "settings_cell (settings_step e w) k = Some x"
  shows "settings_cell w k = Some x \<or> x = (settings_in_force w k, w_now w + 60)"
proof (cases e)
  case (ReadSettings user)
  with assms show ?thesis
    by (auto simp: get_current_run settings_cell_def settings_in_force_def settings_key_def cache_setex_def update_conv
        split: option.splits sum.splits if_splits)
qed (use assms in \<open>simp_all add: settings_cell_def cache_after_update\<close>)

interpretation settings_reads: timed_reads settings_in_force settings_cell w_now 60 settings_step
  by unfold_locales (rule settings_cell_step)

text \<open>Settings are at most a minute old: after any requests and any time, starting from an empty
  cache, what a user reads are the settings in force at some moment of the run less than 60 seconds
  ago. And as long as a cached value lasts, an update, though answered and stored, is not seen.\<close>

theorem settings_staleness:
  fixes es :: "settings_event list"
  assumes start: "w_settings_cache w = []"
  defines "now_w \<equiv> fold settings_step es w"
  assumes read: "fst (get_current_tenant_settings (TenantConn (td_tenant user)) user now_w) = Inr (Success (Some s) m 200)"
  shows "(\<exists>h \<in> set (trail settings_step es w). s = settings_in_force h (td_tenant user) \<and> w_now now_w < w_now h + 60)
    \<and> (settings_cell now_w (td_tenant user) = Some (s, until) \<and> w_now now_w < until \<longrightarrow>
        fst (get_current_tenant_settings (TenantConn (td_tenant user)) user
              (settings_step (UpdateSettings u admin) now_w)) = Inr (Success (Some s) None 200))"
proof (intro conjI impI)
  have l: "last (trail settings_step es w) = now_w" by (simp add: now_w_def trail_last)
  show "\<exists>h \<in> set (trail settings_step es w). s = settings_in_force h (td_tenant user) \<and> w_now now_w < w_now h + 60"
  proof (cases "cache_get (w_now now_w) (w_settings_cache now_w) (settings_key (td_tenant user))")
    case None
    with read have "s = settings_in_force now_w (td_tenant user)"
      by (auto simp: get_current_run settings_in_force_def split: sum.splits)
    moreover have "now_w \<in> set (trail settings_step es w)" using l by (metis last_in_set trail_nonempty)
    ultimately show ?thesis by (intro bexI [of _ now_w]) auto
  next
    case (Some v)
    then obtain n where "settings_cell now_w (td_tenant user) = Some (v, n)" "w_now now_w < n"
      by (auto simp: cache_get_def settings_cell_def split: option.splits if_splits)
    moreover have "s = v" using Some read by (simp add: get_current_run)
    moreover have "settings_cell w (td_tenant user) = None" by (simp add: settings_cell_def start)
    ultimately show ?thesis using settings_reads.bounded_staleness [of w "td_tenant user" es v n] l by simp
  qed
next
  assume c: "settings_cell now_w (td_tenant user) = Some (s, until) \<and> w_now now_w < until"
  have "keeps (\<lambda>x. w_now x = w_now now_w) (update_current_tenant_settings d u admin)" for d
    by (intro keeps_updates keeps_update_blind) (simp_all add: log_blind_def)
  then have "w_now (settings_step (UpdateSettings u admin) now_w) = w_now now_w" by (simp add: keeps_def)
  with c show "fst (get_current_tenant_settings (TenantConn (td_tenant user)) user
        (settings_step (UpdateSettings u admin) now_w)) = Inr (Success (Some s) None 200)"
    by (simp add: get_current_run cache_after_update cache_get_def settings_cell_def)
qed

theorem settings_staleness_witness:
  "fst (get_current_tenant_settings (TenantConn ''a'') settings_admin
     (settings_step (UpdateSettings [(''tokens'', JObj (token_settings_json demo_ttls))] settings_admin)
       (fold settings_step [ReadSettings settings_admin] settings_demo)))
   = Inr (Success (Some default_settings) None 200)"
proof -
  let ?w = "fold settings_step [ReadSettings settings_admin] settings_demo"
  have "w_settings_cache settings_demo = []" by (simp add: settings_demo_def empty_world_def)
  moreover have "effective (TenantConn ''a'') ''a'' settings_demo = default_settings"
    by (simp add: effective_def stored_settings_def tenant_row_of_def tenants_of_def sql_row_def settings_demo_def empty_world_def)
  moreover note read_shared [OF settings_demo_typed, of "TenantConn ''a''" "''a''"]
  moreover have "td_tenant settings_admin = ''a''" by (simp add: settings_admin_def)
  ultimately have cell: "settings_cell ?w (td_tenant settings_admin) = Some (default_settings, 60)" "w_now ?w = 0"
    using get_current_run [of settings_admin settings_demo]
    by (simp_all add: settings_cell_def cache_setex_def settings_demo_def empty_world_def)
  then have "fst (get_current_tenant_settings (TenantConn (td_tenant settings_admin)) settings_admin ?w)
      = Inr (Success (Some default_settings) None 200)"
    by (simp add: get_current_run cache_get_def settings_cell_def)
  from settings_staleness [where admin = settings_admin and u = "[(''tokens'', JObj (token_settings_json demo_ttls))]",
      OF \<open>w_settings_cache settings_demo = []\<close> this, of 60] cell
    \<open>td_tenant settings_admin = ''a''\<close>
  show ?thesis by simp
qed

section \<open>Administration of tenants\<close>

lemma deactivate_foreign:
  assumes "b \<noteq> a"
  shows "sql_update (\<lambda>t. tn_id t = b \<and> tn_id t = a) f ts = ts"
  using assms by (auto simp: sql_update_def intro: map_idI)

lemma superadmin_run:
  "td_role user \<in> {Some ''superadmin'', Some ''root''} \<Longrightarrow> require_superadmin user w = (Inr (), w)"
  "td_role user \<notin> {Some ''superadmin'', Some ''root''} \<Longrightarrow>
     require_superadmin user w = (Inl (HttpException 403 (Some ''Superadmin role required'')), w)"
  by (auto simp: require_superadmin_def)

text \<open>A superadmin administers one tenant only: over the connection of tenant a, deactivating or
  activating another tenant answers success and changes no tenant, looking it up answers not found,
  and the listing shows at most tenant a. On tenant a itself both work, and without the role all
  four are refused.\<close>

theorem superadmin_confined:
  assumes ab: "b \<noteq> a"
  shows "(td_role user \<in> {Some ''superadmin'', Some ''root''} \<longrightarrow>
      fst (deactivate_tenant_endpoint (TenantConn a) b user w) = Inr (Success None (Some ''Tenant deactivated'') 200)
      \<and> w_tenants (snd (deactivate_tenant_endpoint (TenantConn a) b user w)) = w_tenants w
      \<and> fst (activate_tenant_endpoint (TenantConn a) b user w) = Inr (Success None (Some ''Tenant activated'') 200)
      \<and> w_tenants (snd (activate_tenant_endpoint (TenantConn a) b user w)) = w_tenants w
      \<and> fst (get_tenant_endpoint (TenantConn a) b user w)
          = Inr (Failure (error_response ''NOT_FOUND'' ''Tenant'' 404 None None))
      \<and> (\<forall>r. fst (list_tenants_endpoint ilike (TenantConn a) pg n search user w) = Inr r
            \<longrightarrow> (\<forall>t \<in> set (pp_data r). tr_id t = a))
      \<and> (\<forall>t \<in> set (w_tenants (snd (deactivate_tenant_endpoint (TenantConn a) a user w))).
            tn_id t = a \<longrightarrow> \<not> tn_is_active t))
    \<and> (td_role user \<notin> {Some ''superadmin'', Some ''root''} \<longrightarrow>
      deactivate_tenant_endpoint c t user w = (Inl (HttpException 403 (Some ''Superadmin role required'')), w)
      \<and> activate_tenant_endpoint c t user w = (Inl (HttpException 403 (Some ''Superadmin role required'')), w)
      \<and> get_tenant_endpoint c t user w = (Inl (HttpException 403 (Some ''Superadmin role required'')), w)
      \<and> list_tenants_endpoint ilike c pg n search user w = (Inl (HttpException 403 (Some ''Superadmin role required'')), w))"
proof (rule conjI; rule impI)
  assume "td_role user \<in> {Some ''superadmin'', Some ''root''}"
  note r = superadmin_run(1) [OF this]
  have none: "tenant_row_of (TenantConn a) b w = None"
    using ab by (auto simp: tenant_row_of_def tenants_of_def sql_row_None)
  have l: "\<forall>t \<in> set (pp_data x). tr_id t = a"
    if "fst (list_tenants_endpoint ilike (TenantConn a) pg n search user w) = Inr x" for x
  proof
    fix t assume t: "t \<in> set (pp_data x)"
    let ?rows = "sort_key (\<lambda>t. - tn_created t) (sql_select (tenant_matches ilike search) (tenants_of (TenantConn a) w))"
    from that t obtain y k off where "y \<in> set (sql_page k off ?rows)" "tr_id t = tn_id y"
      unfolding list_tenants_endpoint_def list_tenants_def
      by (cases "row_count_ok n \<and> row_count_ok (page_offset pg n)") (auto simp: eff_simps r tenant_response_of_def)
    then show "tr_id t = a"
      by (auto simp: sql_page_def tenants_of_def sql_select_def dest!: in_set_takeD in_set_dropD)
  qed
  have "\<forall>t \<in> set (w_tenants (snd (deactivate_tenant_endpoint (TenantConn a) a user w))). tn_id t = a \<longrightarrow> \<not> tn_is_active t"
  proof -
    have "w_tenants (snd (deactivate_tenant_endpoint (TenantConn a) a user w))
        = sql_update (\<lambda>t. tn_id t = a \<and> rls_visible (TenantConn a) (tn_id t)) (\<lambda>t. t\<lparr>tn_is_active := False\<rparr>) (w_tenants w)"
      by (simp add: deactivate_tenant_endpoint_def deactivate_tenant_def set_tenant_active_def log_defs eff_simps r)
    then show ?thesis unfolding sql_update_def by (elim ssubst) (simp only: set_map, rule ballI, elim imageE, simp)
  qed
  with l show "fst (deactivate_tenant_endpoint (TenantConn a) b user w) = Inr (Success None (Some ''Tenant deactivated'') 200)
      \<and> w_tenants (snd (deactivate_tenant_endpoint (TenantConn a) b user w)) = w_tenants w
      \<and> fst (activate_tenant_endpoint (TenantConn a) b user w) = Inr (Success None (Some ''Tenant activated'') 200)
      \<and> w_tenants (snd (activate_tenant_endpoint (TenantConn a) b user w)) = w_tenants w
      \<and> fst (get_tenant_endpoint (TenantConn a) b user w)
          = Inr (Failure (error_response ''NOT_FOUND'' ''Tenant'' 404 None None))
      \<and> (\<forall>r. fst (list_tenants_endpoint ilike (TenantConn a) pg n search user w) = Inr r
            \<longrightarrow> (\<forall>t \<in> set (pp_data r). tr_id t = a))
      \<and> (\<forall>t \<in> set (w_tenants (snd (deactivate_tenant_endpoint (TenantConn a) a user w))).
            tn_id t = a \<longrightarrow> \<not> tn_is_active t)"
    by (simp add: deactivate_tenant_endpoint_def deactivate_tenant_def activate_tenant_endpoint_def activate_tenant_def
        get_tenant_endpoint_def get_tenant_def set_tenant_active_def log_defs eff_simps r deactivate_foreign [OF ab] none)
next
  assume "td_role user \<notin> {Some ''superadmin'', Some ''root''}"
  from superadmin_run(2) [OF this]
  show "deactivate_tenant_endpoint c t user w = (Inl (HttpException 403 (Some ''Superadmin role required'')), w)
      \<and> activate_tenant_endpoint c t user w = (Inl (HttpException 403 (Some ''Superadmin role required'')), w)
      \<and> get_tenant_endpoint c t user w = (Inl (HttpException 403 (Some ''Superadmin role required'')), w)
      \<and> list_tenants_endpoint ilike c pg n search user w = (Inl (HttpException 403 (Some ''Superadmin role required'')), w)"
    by (simp add: deactivate_tenant_endpoint_def activate_tenant_endpoint_def get_tenant_endpoint_def
        list_tenants_endpoint_def eff_simps)
qed

theorem superadmin_confined_witness:
  "fst (deactivate_tenant_endpoint (TenantConn ''a'') ''b'' (settings_admin\<lparr>td_role := Some ''root''\<rparr>) settings_demo)
     = Inr (Success None (Some ''Tenant deactivated'') 200)
   \<and> w_tenants (snd (deactivate_tenant_endpoint (TenantConn ''a'') ''b'' (settings_admin\<lparr>td_role := Some ''root''\<rparr>) settings_demo))
     = w_tenants settings_demo"
  using superadmin_confined [of "''b''" "''a''" "settings_admin\<lparr>td_role := Some ''root''\<rparr>" settings_demo] by simp

end
