(* ===== verification/Otp.thy ===== *)
theory Otp
  imports Tenant_Settings
begin

text \<open>
  One-time passwords (app/services/otp_service.py, app/api/v1/otp.py). Fernet, pyotp and the random
  generator are arguments. The queries name a table \<open>otp_secrets\<close> that no migration creates:
  \<open>w_otp_secrets\<close> is \<open>None\<close> for the shipped schema, and \<open>Some\<close> rows where a deployment has added
  such a table, with the columns the queries name and the default \<open>otpe_active_default\<close> for
  \<open>is_active\<close>.
\<close>

section \<open>The service\<close>

record otp_env =
  otpe_encrypt :: "nat \<Rightarrow> string \<Rightarrow> string"
  otpe_decrypt :: "string \<Rightarrow> exn + string"
  otpe_accepts :: "string \<Rightarrow> string \<Rightarrow> int \<Rightarrow> bool"
  otpe_uri :: "string \<Rightarrow> string \<Rightarrow> string \<Rightarrow> string"
  otpe_active_default :: bool

text \<open>
  \<open>otpe_encrypt n\<close> is encryption with the \<open>n\<close>-th random nonce; \<open>otpe_accepts secret code now\<close> is
  \<open>TOTP(secret, digits=8, interval=45).verify(code, valid_window=1)\<close> at that time.
\<close>

record otp_random =
  op_secret :: string
  op_codes :: "string list"
  op_nonce :: nat

record otp_provision =
  opr_secret :: string
  opr_uri :: string
  opr_backup_codes :: "string list"

definition otp_client_name :: "string option \<Rightarrow> string \<Rightarrow> world \<Rightarrow> string option" where
  "otp_client_name aud tenant w =
     map_option oc_name (sql_row (\<lambda>c. Some (oc_id c) = aud \<and> oc_tenant c = tenant \<and> oc_is_active c) (w_clients w))"

text \<open>\<open>COALESCE((settings->'mfa_enabled')::boolean, false)\<close>: a JSON null does not cast (PostgreSQL 17).\<close>

definition mfa_flag :: "json option \<Rightarrow> exn + bool" where
  "mfa_flag s =
     (case s of Some (JObj d) \<Rightarrow> (case dget d ''mfa_enabled'' of None \<Rightarrow> Inr False | Some (JBool b) \<Rightarrow> Inr b
                                  | Some _ \<Rightarrow> Inl (DbErr DataError))
      | _ \<Rightarrow> Inr False)"

definition verify_mfa_enabled_for_tenant :: "conn \<Rightarrow> string \<Rightarrow> bool svc" where
  "verify_mfa_enabled_for_tenant c tenant = (\<lambda>w.
     (case sql_row (\<lambda>t. tn_id t = tenant \<and> tn_is_active t) (tenants_of c w) of
        None \<Rightarrow> Inr False | Some t \<Rightarrow> mfa_flag (tn_settings t), w))"

definition need_client :: "string option \<Rightarrow> string \<Rightarrow> string svc" where
  "need_client aud tenant =
     ebind (eget (otp_client_name aud tenant)) (\<lambda>n.
     if ostr_true n then eret (the n) else eraise (AppErr (NotFoundError ''Client application not found'')))"

definition existing_otp :: "string \<Rightarrow> string \<Rightarrow> string \<Rightarrow> world \<Rightarrow> string option" where
  "existing_otp tenant email issuer w =
     map_option ot_secret
       (sql_row (\<lambda>r. ot_tenant r = tenant \<and> ot_email r = email \<and> ot_issuer r = issuer \<and> ot_is_active r) (w_totp_secrets w))"

definition insert_otp :: "otp_env \<Rightarrow> string \<Rightarrow> string \<Rightarrow> string \<Rightarrow> string \<Rightarrow> string list \<Rightarrow> unit svc" where
  "insert_otp V tenant email issuer secret backups = (\<lambda>w.
     case w_otp_secrets w of
       None \<Rightarrow> (Inl (DbErr OtherPostgresError), w)
     | Some rows \<Rightarrow> (Inr (), w\<lparr>w_otp_secrets := Some (rows @
           [\<lparr>ot_tenant = tenant, ot_email = email, ot_issuer = issuer, ot_secret = secret, ot_backups = backups,
             ot_is_active = otpe_active_default V, ot_updated = None, ot_last_used = None\<rparr>])\<rparr>))"

definition provision_stateless_otp ::
    "otp_env \<Rightarrow> otp_random \<Rightarrow> conn \<Rightarrow> string \<Rightarrow> string option \<Rightarrow> string \<Rightarrow> otp_provision svc" where
  "provision_stateless_otp V R c email aud tenant =
     ebind (verify_mfa_enabled_for_tenant c tenant) (\<lambda>on.
     if \<not> on then eraise (AppErr (AuthorizationError ''MFA is not enabled for this tenant'')) else
     ebind (need_client aud tenant) (\<lambda>issuer.
     ebind (eget (existing_otp tenant email issuer)) (\<lambda>existing.
     if ostr_true existing then eraise (AppErr (ConflictError ''OTP already provisioned for this user'')) else
     ethen (insert_otp V tenant email issuer (otpe_encrypt V (op_nonce R) (op_secret R))
              (map (\<lambda>(i, code). otpe_encrypt V (op_nonce R + i) code) (enumerate 1 (op_codes R))))
           (eret \<lparr>opr_secret = op_secret R, opr_uri = otpe_uri V (op_secret R) email issuer,
                  opr_backup_codes = op_codes R\<rparr>))))"

text \<open>The age of \<open>last_used_at\<close>, once \<open>updated_at\<close> is set; SQL NULL counts as not replayed.\<close>

definition is_replayed :: "int \<Rightarrow> otp_row \<Rightarrow> bool" where
  "is_replayed now r \<longleftrightarrow>
     ot_updated r \<noteq> None \<and> (case ot_last_used r of None \<Rightarrow> False | Some t \<Rightarrow> now - t < 45)"

definition otp_rows :: "world \<Rightarrow> exn + otp_row list" where
  "otp_rows w = (case w_otp_secrets w of None \<Rightarrow> Inl (DbErr OtherPostgresError) | Some rows \<Rightarrow> Inr rows)"

definition mark_otp_used :: "string \<Rightarrow> string \<Rightarrow> unit svc" where
  "mark_otp_used email issuer =
     emod (\<lambda>w. w\<lparr>w_otp_secrets := map_option (sql_update (\<lambda>r. ot_email r = email \<and> ot_issuer r = issuer)
                                   (\<lambda>r. r\<lparr>ot_updated := Some (w_now w)\<rparr>)) (w_otp_secrets w)\<rparr>)"

text \<open>A missing row is \<open>None\<close>, which \<open>row["otp_secret"]\<close> does not index.\<close>

definition verify_otp :: "otp_env \<Rightarrow> string option \<Rightarrow> string \<Rightarrow> string \<Rightarrow> string \<Rightarrow> bool svc" where
  "verify_otp V aud email code tenant =
     ebind (need_client aud tenant) (\<lambda>issuer.
     ebind (\<lambda>w. (otp_rows w, w)) (\<lambda>rows.
     ebind (eget w_now) (\<lambda>now.
     case sql_row (\<lambda>r. ot_email r = email \<and> ot_issuer r = issuer \<and> ot_is_active r) rows of
       None \<Rightarrow> eraise (PyErr TypeError)
     | Some r \<Rightarrow>
         if ot_secret r = [] then eraise (AppErr (NotFoundError ''OTP secret not found for the given user and issuer''))
         else if is_replayed now r then eraise (AppErr (AuthorizationError ''OTP used''))
         else ebind (elift (otpe_decrypt V (ot_secret r))) (\<lambda>secret.
              if otpe_accepts V secret code now then ethen (mark_otp_used email issuer) (eret True)
              else eret False))))"

section \<open>The endpoints\<close>

definition register_otp :: "otp_env \<Rightarrow> otp_random \<Rightarrow> conn \<Rightarrow> token_data \<Rightarrow> otp_provision reply svc" where
  "register_otp V R c user =
     ebind (provision_stateless_otp V R c (td_email user) (td_aud user) (td_tenant user)) (\<lambda>p.
     eret (success_response p ''OTP provisioned successfully''))"

definition verify_otp_endpoint :: "otp_env \<Rightarrow> string \<Rightarrow> token_data \<Rightarrow> bool reply svc" where
  "verify_otp_endpoint V code user =
     ebind (verify_otp V (td_aud user) (td_email user) code (td_tenant user)) (\<lambda>b.
     eret (success_response b ''OTP verified successfully''))"

section \<open>What an OTP run does\<close>

lemma need_client_run:
  "need_client aud tenant w =
     (if ostr_true (otp_client_name aud tenant w) then (Inr (the (otp_client_name aud tenant w)), w)
      else (Inl (AppErr (NotFoundError ''Client application not found'')), w))"
  by (simp add: need_client_def eff_simps)

lemma provision_ok:
  assumes "provision_stateless_otp V R c email aud tenant w = (Inr p, w')"
  obtains rows issuer row where "w_otp_secrets w = Some rows" "otp_client_name aud tenant w = Some issuer" "issuer \<noteq> []"
    "row = \<lparr>ot_tenant = tenant, ot_email = email, ot_issuer = issuer, ot_secret = otpe_encrypt V (op_nonce R) (op_secret R),
             ot_backups = map (\<lambda>(i, code). otpe_encrypt V (op_nonce R + i) code) (enumerate 1 (op_codes R)),
             ot_is_active = otpe_active_default V, ot_updated = None, ot_last_used = None\<rparr>"
    "w' = w\<lparr>w_otp_secrets := Some (rows @ [row])\<rparr>" "opr_secret p = op_secret R"
    "existing_otp tenant email issuer w = None \<or> existing_otp tenant email issuer w = Some []"
proof -
  from assms obtain issuer rows where "otp_client_name aud tenant w = Some issuer" "issuer \<noteq> []" "w_otp_secrets w = Some rows"
    "\<not> ostr_true (existing_otp tenant email issuer w)"
    by (auto simp: provision_stateless_otp_def verify_mfa_enabled_for_tenant_def need_client_run insert_otp_def
        eff_simps ostr_true_def split: sum.splits if_splits option.splits)
  with assms show ?thesis
    by (intro that [OF _ _ _ refl])
      (auto simp: provision_stateless_otp_def verify_mfa_enabled_for_tenant_def need_client_run insert_otp_def
        eff_simps ostr_true_def split: sum.splits if_splits option.splits)
qed

section \<open>Properties\<close>

lemma mfa_run: "snd (verify_mfa_enabled_for_tenant c tenant w) = w"
  by (simp add: verify_mfa_enabled_for_tenant_def)

text \<open>With the shipped schema one-time passwords do not work: neither registration nor verification
  ever succeeds or changes anything, and where all the checks pass, MFA on, the client known and
  nothing provisioned, what stops the registration is the missing table.\<close>

theorem otp_unavailable:
  assumes "w_otp_secrets w = None"
  shows "(\<exists>e. register_otp V R c user w = (Inl e, w)) \<and> (\<exists>e. verify_otp_endpoint V code user w = (Inl e, w))
    \<and> (fst (verify_mfa_enabled_for_tenant c (td_tenant user) w) = Inr True
        \<and> otp_client_name (td_aud user) (td_tenant user) w = Some issuer \<and> issuer \<noteq> [] \<and> w_totp_secrets w = []
        \<longrightarrow> register_otp V R c user w = (Inl (DbErr OtherPostgresError), w)
          \<and> verify_otp_endpoint V code user w = (Inl (DbErr OtherPostgresError), w))"
proof -
  obtain b where b: "verify_mfa_enabled_for_tenant c (td_tenant user) w = (b, w)" using mfa_run by (metis prod.collapse)
  have "(\<exists>e. register_otp V R c user w = (Inl e, w))"
    using assms b by (cases b)
      (auto simp: register_otp_def provision_stateless_otp_def need_client_run insert_otp_def eff_simps split: if_splits)
  moreover have "\<exists>e. verify_otp_endpoint V code user w = (Inl e, w)"
    using assms by (auto simp: verify_otp_endpoint_def verify_otp_def need_client_run otp_rows_def eff_simps)
  moreover have "register_otp V R c user w = (Inl (DbErr OtherPostgresError), w)
      \<and> verify_otp_endpoint V code user w = (Inl (DbErr OtherPostgresError), w)"
    if "fst (verify_mfa_enabled_for_tenant c (td_tenant user) w) = Inr True
      \<and> otp_client_name (td_aud user) (td_tenant user) w = Some issuer \<and> issuer \<noteq> [] \<and> w_totp_secrets w = []"
    using that assms b
    by (simp add: register_otp_def provision_stateless_otp_def need_client_run insert_otp_def existing_otp_def sql_row_def
        verify_otp_endpoint_def verify_otp_def otp_rows_def eff_simps)
  ultimately show ?thesis by blast
qed

definition otp_client :: client_row where
  "otp_client = \<lparr>oc_id = ''app'', oc_tenant = ''a'', oc_secret = [], oc_name = ''App'', oc_redirect_uris = [],
     oc_scopes = [], oc_is_active = True, oc_created = 0, oc_modified = 0\<rparr>"

definition otp_demo :: "otp_row list option \<Rightarrow> world" where
  "otp_demo rows = empty_world\<lparr>w_now := 100, w_otp_secrets := rows, w_clients := [otp_client],
     w_default_settings := default_settings,
     w_tenants := [\<lparr>tn_id = ''a'', tn_name = ''A'', tn_domain = ''a.com'', tn_root = ''r'',
                    tn_settings = Some (JObj [(''mfa_enabled'', JBool True)]), tn_is_active = True, tn_created = 1\<rparr>]\<rparr>"

definition otp_user :: token_data where
  "otp_user = \<lparr>td_email = ''x'', td_tenant = ''a'', td_policy = None, td_role = Some ''admin'', td_user = ''u'',
     td_exp = None, td_iat = None, td_aud = Some ''app''\<rparr>"

definition demo_otp_env :: otp_env where
  "demo_otp_env = \<lparr>otpe_encrypt = (\<lambda>n s. CHR ''e'' # s), otpe_decrypt = (\<lambda>s. Inr (tl s)), otpe_accepts = (\<lambda>s code n. code = s),
     otpe_uri = (\<lambda>s e i. s), otpe_active_default = True\<rparr>"

definition demo_random :: otp_random where
  "demo_random = \<lparr>op_secret = ''K'', op_codes = [''c1''], op_nonce = 0\<rparr>"

lemmas otp_demo_defs =
  otp_demo_def otp_client_def otp_user_def empty_world_def demo_otp_env_def demo_random_def

theorem otp_unavailable_witness:
  "register_otp demo_otp_env demo_random (TenantConn ''a'') otp_user (otp_demo None)
     = (Inl (DbErr OtherPostgresError), otp_demo None)"
proof -
  have "fst (verify_mfa_enabled_for_tenant (TenantConn ''a'') (td_tenant otp_user) (otp_demo None)) = Inr True"
    "otp_client_name (td_aud otp_user) (td_tenant otp_user) (otp_demo None) = Some ''App''"
    "w_totp_secrets (otp_demo None) = []" "w_otp_secrets (otp_demo None) = None"
    by (simp_all add: verify_mfa_enabled_for_tenant_def tenants_of_def sql_row_def mfa_flag_def dget_def
        otp_client_name_def otp_demo_defs)
  with otp_unavailable [of "otp_demo None" demo_otp_env demo_random "TenantConn ''a''" otp_user _ "''App''"]
  show ?thesis by simp
qed

text \<open>Where the table exists, the round trip of one-time passwords: after a user with no active
  secret has registered, verification accepts exactly the codes of the secret the registration
  answered, provided that decryption inverts encryption.\<close>

theorem otp_roundtrip:
  assumes crypt: "\<And>n s. otpe_decrypt V (otpe_encrypt V n s) = Inr s" "\<And>n s. otpe_encrypt V n s \<noteq> []"
    and active: "otpe_active_default V"
    and none: "\<forall>rows. w_otp_secrets w = Some rows \<longrightarrow> (\<forall>r \<in> set rows. ot_email r = td_email user \<longrightarrow> \<not> ot_is_active r)"
    and reg: "register_otp V R c user w = (Inr rep, w')"
  shows "\<exists>p. rep = success_response p ''OTP provisioned successfully'' \<and>
    fst (verify_otp_endpoint V code user w')
      = Inr (success_response (otpe_accepts V (opr_secret p) code (w_now w)) ''OTP verified successfully'')"
proof -
  from reg obtain p where p: "rep = success_response p ''OTP provisioned successfully''"
    and run: "provision_stateless_otp V R c (td_email user) (td_aud user) (td_tenant user) w = (Inr p, w')"
    by (auto simp: register_otp_def eff_simps split: prod.splits sum.splits)
  from run show ?thesis
  proof (rule provision_ok)
    fix rows issuer row
    assume a: "w_otp_secrets w = Some rows" "otp_client_name (td_aud user) (td_tenant user) w = Some issuer" "issuer \<noteq> []"
      "row = \<lparr>ot_tenant = td_tenant user, ot_email = td_email user, ot_issuer = issuer,
               ot_secret = otpe_encrypt V (op_nonce R) (op_secret R),
               ot_backups = map (\<lambda>(i, code). otpe_encrypt V (op_nonce R + i) code) (enumerate 1 (op_codes R)),
               ot_is_active = otpe_active_default V, ot_updated = None, ot_last_used = None\<rparr>"
      "w' = w\<lparr>w_otp_secrets := Some (rows @ [row])\<rparr>" "opr_secret p = op_secret R"
    have old: "sql_row (\<lambda>r. ot_email r = td_email user \<and> ot_issuer r = issuer \<and> ot_is_active r) rows = None"
      using none a(1) by (auto simp: sql_row_None)
    have "otp_client_name (td_aud user) (td_tenant user) w' = Some issuer"
      using a(2,5) by (simp add: otp_client_name_def)
    moreover have "sql_row (\<lambda>r. ot_email r = td_email user \<and> ot_issuer r = issuer \<and> ot_is_active r) (rows @ [row]) = Some row"
      using old a(4) active by (simp add: sql_row_append) (simp add: sql_row_def)
    ultimately have "fst (verify_otp_endpoint V code user w')
      = Inr (success_response (otpe_accepts V (op_secret R) code (w_now w)) ''OTP verified successfully'')"
      using a(3,4,5) crypt
      by (simp add: verify_otp_endpoint_def verify_otp_def need_client_run otp_rows_def is_replayed_def mark_otp_used_def eff_simps)
    with p a(6) show ?thesis by auto
  qed
qed

theorem otp_roundtrip_witness:
  "fst (verify_otp_endpoint demo_otp_env ''K'' otp_user
      (snd (register_otp demo_otp_env demo_random (TenantConn ''a'') otp_user (otp_demo (Some [])))))
   = Inr (success_response True ''OTP verified successfully'')"
proof -
  let ?r = "register_otp demo_otp_env demo_random (TenantConn ''a'') otp_user (otp_demo (Some []))"
  have "fst ?r = Inr (success_response \<lparr>opr_secret = ''K'', opr_uri = ''K'', opr_backup_codes = [''c1'']\<rparr> ''OTP provisioned successfully'')"
    by (simp add: register_otp_def provision_stateless_otp_def verify_mfa_enabled_for_tenant_def tenants_of_def sql_row_def
        mfa_flag_def dget_def need_client_run otp_client_name_def existing_otp_def insert_otp_def eff_simps otp_demo_defs)
  then have "?r = (Inr (success_response \<lparr>opr_secret = ''K'', opr_uri = ''K'', opr_backup_codes = [''c1'']\<rparr> ''OTP provisioned successfully''), snd ?r)"
    by (metis prod.collapse)
  from otp_roundtrip [OF _ _ _ _ this, of "''K''"] show ?thesis
    by (auto simp: demo_otp_env_def otp_demo_def success_response_def)
qed

section \<open>Replays\<close>

text \<open>The column the replay check reads is written by no operation.\<close>

definition never_used :: "world \<Rightarrow> bool" where
  "never_used w \<longleftrightarrow> (case w_otp_secrets w of None \<Rightarrow> True | Some rows \<Rightarrow> \<forall>r \<in> set rows. ot_last_used r = None)"

lemma keeps_never_used:
  "keeps never_used (register_otp V R c user)" "keeps never_used (verify_otp_endpoint V code user)"
proof -
  have mfa: "keeps never_used (verify_mfa_enabled_for_tenant c (td_tenant user))" by (simp add: keeps_def mfa_run)
  have client: "keeps never_used (need_client (td_aud user) (td_tenant user))" by (simp add: keeps_def need_client_run)
  have ins: "keeps never_used (insert_otp V t e i s b)" for t e i s b
    by (auto simp: keeps_def insert_otp_def never_used_def split: option.splits)
  have mark: "keeps never_used (mark_otp_used e i)" for e i
    by (auto simp: keeps_def mark_otp_used_def never_used_def set_sql_update split: option.splits if_splits)
  have rows: "keeps never_used (\<lambda>w. (otp_rows w, w))" by (simp add: keeps_def)
  show "keeps never_used (register_otp V R c user)"
    unfolding register_otp_def provision_stateless_otp_def by (intro keeps_intros mfa client ins)
  show "keeps never_used (verify_otp_endpoint V code user)"
    unfolding verify_otp_endpoint_def verify_otp_def by (intro keeps_intros client mark rows)
qed

lemma verify_ok:
  assumes "verify_otp_endpoint V code user w = (Inr (success_response True m), w')"
  obtains rows issuer r secret where "w_otp_secrets w = Some rows" "otp_client_name (td_aud user) (td_tenant user) w = Some issuer"
    "issuer \<noteq> []" "sql_row (\<lambda>r. ot_email r = td_email user \<and> ot_issuer r = issuer \<and> ot_is_active r) rows = Some r"
    "ot_secret r \<noteq> []" "otpe_decrypt V (ot_secret r) = Inr secret" "otpe_accepts V secret code (w_now w)"
    "w' = w\<lparr>w_otp_secrets := Some (sql_update (\<lambda>r. ot_email r = td_email user \<and> ot_issuer r = issuer)
                                  (\<lambda>r. r\<lparr>ot_updated := Some (w_now w)\<rparr>) rows)\<rparr>"
  using assms
  by (auto simp: verify_otp_endpoint_def verify_otp_def need_client_run otp_rows_def mark_otp_used_def success_response_def
      eff_simps ostr_true_def split: option.splits if_splits sum.splits)

lemma verify_again:
  assumes nu: "never_used w" and ok: "fst (verify_otp_endpoint V code user w) = Inr (success_response True m)"
  shows "fst (verify_otp_endpoint V code user (snd (verify_otp_endpoint V code user w))) = Inr (success_response True m)"
proof -
  from ok have run: "verify_otp_endpoint V code user w
      = (Inr (success_response True m), snd (verify_otp_endpoint V code user w))" by (metis prod.collapse)
  have m: "m = ''OTP verified successfully''"
    using ok by (auto simp: verify_otp_endpoint_def eff_simps success_response_def split: prod.splits sum.splits)
  from run show ?thesis
  proof (rule verify_ok)
    fix rows issuer r secret
    let ?f = "\<lambda>r. r\<lparr>ot_updated := Some (w_now w)\<rparr>"
    let ?w = "snd (verify_otp_endpoint V code user w)"
    assume a: "w_otp_secrets w = Some rows" "otp_client_name (td_aud user) (td_tenant user) w = Some issuer"
      "issuer \<noteq> []" "sql_row (\<lambda>r. ot_email r = td_email user \<and> ot_issuer r = issuer \<and> ot_is_active r) rows = Some r"
      "ot_secret r \<noteq> []" "otpe_decrypt V (ot_secret r) = Inr secret" "otpe_accepts V secret code (w_now w)"
      "?w = w\<lparr>w_otp_secrets := Some (sql_update (\<lambda>r. ot_email r = td_email user \<and> ot_issuer r = issuer) ?f rows)\<rparr>"
    have "sql_row (\<lambda>r. ot_email r = td_email user \<and> ot_issuer r = issuer \<and> ot_is_active r)
        (sql_update (\<lambda>r. ot_email r = td_email user \<and> ot_issuer r = issuer) ?f rows) = Some (?f r)"
      using a(4) sql_row_Some [OF a(4)] by (simp add: sql_row_update_keep)
    moreover have "ot_last_used r = None"
      using nu a(1) sql_row_Some [OF a(4)] by (simp add: never_used_def)
    moreover have "otp_client_name (td_aud user) (td_tenant user) ?w = Some issuer"
      using a(2,8) by (simp add: otp_client_name_def)
    ultimately show ?thesis
      using a m by (simp add: verify_otp_endpoint_def verify_otp_def need_client_run otp_rows_def is_replayed_def
          mark_otp_used_def eff_simps)
  qed
qed

text \<open>A one-time password works more than once: no operation ever writes the time the replay
  check reads, so a code that is accepted is accepted again, as often as it is presented.\<close>

theorem otp_replayed:
  assumes "never_used w" "fst (verify_otp_endpoint V code user w) = Inr (success_response True m)"
  shows "fst (verify_otp_endpoint V code user (((\<lambda>w. snd (verify_otp_endpoint V code user w)) ^^ n) w))
    = Inr (success_response True m)"
proof -
  let ?v = "\<lambda>w. snd (verify_otp_endpoint V code user w)"
  have "never_used ((?v ^^ n) w) \<and> fst (verify_otp_endpoint V code user ((?v ^^ n) w)) = Inr (success_response True m)"
    using assms by (induction n) (simp_all add: verify_again keepsD [OF keeps_never_used(2)])
  then show ?thesis ..
qed

definition otp_demo_row :: otp_row where
  "otp_demo_row = \<lparr>ot_tenant = ''a'', ot_email = ''x'', ot_issuer = ''App'', ot_secret = ''eK'', ot_backups = [],
     ot_is_active = True, ot_updated = None, ot_last_used = None\<rparr>"

theorem otp_replayed_witness:
  "fst (verify_otp_endpoint demo_otp_env ''K'' otp_user
     (((\<lambda>w. snd (verify_otp_endpoint demo_otp_env ''K'' otp_user w)) ^^ 7) (otp_demo (Some [otp_demo_row]))))
   = Inr (success_response True ''OTP verified successfully'')"
proof (rule otp_replayed)
  show "never_used (otp_demo (Some [otp_demo_row]))"
    by (simp add: never_used_def otp_demo_def otp_demo_row_def)
  show "fst (verify_otp_endpoint demo_otp_env ''K'' otp_user (otp_demo (Some [otp_demo_row])))
      = Inr (success_response True ''OTP verified successfully'')"
    by (simp add: verify_otp_endpoint_def verify_otp_def need_client_run otp_client_name_def otp_rows_def sql_row_def
        is_replayed_def mark_otp_used_def eff_simps otp_demo_row_def otp_demo_defs)
qed

section \<open>Settings and one-time passwords\<close>

lemma update_drops_flag:
  assumes run: "update_tenant_settings c tenant u False w = (Inr s, w')"
    and u: "distinct (map fst u)" "''mfa_enabled'' \<notin> set (map fst u)"
  shows "dget s ''mfa_enabled'' = None" "\<exists>l. w' = (snd (store_settings c tenant s w))\<lparr>w_log := l\<rparr>"
proof -
  from run obtain r where r: "read_settings c tenant w = Inr r" "s = merge_settings (sr_settings r) u"
    and w': "\<exists>l. w' = (snd (store_settings c tenant s w))\<lparr>w_log := l\<rparr>"
    by (auto simp: update_tenant_settings_def get_uncached store_settings_def log_write_def eff_simps Let_def split: sum.splits)
  then have "\<exists>d. sr_settings r = settings_response d"
    by (auto simp: read_settings_def Let_def split: option.splits json.splits)
  then have "dget (sr_settings r) ''mfa_enabled'' = None" by (auto simp: dget_response setting_sections_def)
  moreover have "dget u ''mfa_enabled'' = None" using u(2) by (simp only: dget_None not_False_eq_True)
  ultimately show "dget s ''mfa_enabled'' = None" using r(2) u(1) by (simp add: dget_merge)
  show "\<exists>l. w' = (snd (store_settings c tenant s w))\<lparr>w_log := l\<rparr>" by (rule w')
qed

text \<open>Every update of a tenant's settings switches its one-time passwords off: what is stored has
  the six sections only, not the flag the service reads, so whatever the update asked for, \<open>mfa\<close>
  enabled included, the next registration of any user of the tenant is refused.\<close>

theorem settings_update_disables_otp:
  assumes upd: "update_current_tenant_settings c u admin w = (Inr rep, w')" and u: "valid_update u"
    and user: "td_tenant user = td_tenant admin"
  shows "register_otp V R c user w' = (Inl (AppErr (AuthorizationError ''MFA is not enabled for this tenant'')), w')"
proof -
  from upd obtain s where run: "update_tenant_settings c (td_tenant admin) u False w = (Inr s, w')"
    by (auto simp: update_current_tenant_settings_def require_admin_exact_def eff_simps split: if_splits sum.splits prod.splits)
  have keys: "distinct (map fst u)" "''mfa_enabled'' \<notin> set (map fst u)"
    using u by (auto simp: valid_update_def list_all_iff section_models_def split: option.splits if_splits)
  note flag = update_drops_flag [OF run keys]
  have "fst (verify_mfa_enabled_for_tenant c (td_tenant user) w') = Inr False"
  proof (cases "sql_row (\<lambda>t. tn_id t = td_tenant admin \<and> tn_is_active t) (tenants_of c w')")
    case None
    with user show ?thesis by (simp add: verify_mfa_enabled_for_tenant_def)
  next
    case (Some t)
    from flag(2) obtain l where "w' = (snd (store_settings c (td_tenant admin) s w))\<lparr>w_log := l\<rparr>" ..
    then have "w_tenants w' = sql_update (\<lambda>t. tn_id t = td_tenant admin \<and> rls_visible c (tn_id t))
        (\<lambda>t. t\<lparr>tn_settings := Some (JObj s)\<rparr>) (w_tenants w)" by (simp add: store_settings_def)
    moreover have "t \<in> set (w_tenants w')" using sql_row_Some [OF Some] by (simp add: tenants_of_def)
    ultimately obtain x where "t = (if tn_id x = td_tenant admin \<and> rls_visible c (tn_id x) then x\<lparr>tn_settings := Some (JObj s)\<rparr> else x)"
      by (auto simp only: set_sql_update)
    then have "tn_settings t = Some (JObj s)"
      using sql_row_Some [OF Some] by (cases "tn_id x = td_tenant admin \<and> rls_visible c (tn_id x)") (auto simp: tenants_of_def)
    with Some flag(1) user show ?thesis by (simp add: verify_mfa_enabled_for_tenant_def mfa_flag_def)
  qed
  then have "verify_mfa_enabled_for_tenant c (td_tenant user) w' = (Inr False, w')" using mfa_run by (metis prod.collapse)
  then show ?thesis by (simp add: register_otp_def provision_stateless_otp_def eff_simps)
qed

definition mfa_on :: "json dict" where
  "mfa_on = [(''mfa'', JObj [(''enabled'', JBool True), (''required_for_admins'', JBool True), (''methods'', JArr [])])]"

theorem settings_update_disables_otp_witness:
  "fst (register_otp demo_otp_env demo_random (TenantConn ''a'') otp_user (otp_demo (Some [])))
     = Inr (success_response \<lparr>opr_secret = ''K'', opr_uri = ''K'', opr_backup_codes = [''c1'']\<rparr> ''OTP provisioned successfully'')
   \<and> fst (register_otp demo_otp_env demo_random (TenantConn ''a'') otp_user
          (snd (update_current_tenant_settings (TenantConn ''a'') mfa_on otp_user (otp_demo (Some [])))))
     = Inl (AppErr (AuthorizationError ''MFA is not enabled for this tenant''))"
proof
  show "fst (register_otp demo_otp_env demo_random (TenantConn ''a'') otp_user (otp_demo (Some [])))
     = Inr (success_response \<lparr>opr_secret = ''K'', opr_uri = ''K'', opr_backup_codes = [''c1'']\<rparr> ''OTP provisioned successfully'')"
    by (simp add: register_otp_def provision_stateless_otp_def verify_mfa_enabled_for_tenant_def tenants_of_def sql_row_def
        mfa_flag_def dget_def need_client_run otp_client_name_def existing_otp_def insert_otp_def eff_simps otp_demo_defs)
  let ?u = "update_current_tenant_settings (TenantConn ''a'') mfa_on otp_user (otp_demo (Some []))"
  have "\<exists>rep. fst ?u = Inr rep"
    by (simp add: update_current_tenant_settings_def require_admin_exact_def admin_roles_def update_tenant_settings_def
        get_uncached read_settings_def stored_settings_def tenant_row_of_def tenants_of_def sql_row_def store_settings_def
        log_write_def eff_simps Let_def mfa_on_def otp_demo_defs)
  then obtain rep where u: "?u = (Inr rep, snd ?u)" by (metis prod.collapse)
  have "valid_update mfa_on" by code_simp
  from settings_update_disables_otp [OF u this, of otp_user] show
    "fst (register_otp demo_otp_env demo_random (TenantConn ''a'') otp_user (snd ?u))
     = Inl (AppErr (AuthorizationError ''MFA is not enabled for this tenant''))" by simp
qed

end
