(* ===== verification/Oidc.thy ===== *)
theory Oidc
  imports Federation
begin

text \<open>
  The OpenID Connect provider: clients, authorization codes, refresh tokens and id tokens
  (app/sso/oidc/services.py), and the endpoints of app/sso/oidc/endpoints.py. A page is what it is
  rendered from; the forms of the templates are in \<open>Sign_In_Flow\<close>. SHA-256 with base64, base64 decoding and the
  random values of a request are arguments, and so is the text of an exception; the form or JSON body of a request is a dictionary of
  strings. None of the tables of this theory but \<open>users\<close> and \<open>user_policies\<close> is under row level
  security.
\<close>

section \<open>The environment of the endpoints\<close>

record oidc_env =
  oe_auth :: auth_env
  oe_fed :: fed_env
  oe_s256 :: "string \<Rightarrow> string"
  oe_b64decode :: "string \<Rightarrow> string option"
  oe_base_url :: string
  oe_domain :: string
  oe_exc_text :: "exn \<Rightarrow> string"

abbreviation oe_tokens :: "oidc_env \<Rightarrow> tok_env" where
  "oe_tokens V \<equiv> ae_tokens (oe_auth V)"

record oidc_fresh =
  of_code :: string
  of_code_id :: string
  of_hex :: string
  of_ns :: nat
  of_ns_id :: nat
  of_txn :: string
  of_state :: string
  of_nonce :: string
  of_ids :: fresh_ids

section \<open>Clients (OIDCService)\<close>

text \<open>The secret is compared only when one is given.\<close>

definition validate_client :: "oidc_env \<Rightarrow> string option \<Rightarrow> string option \<Rightarrow> client_row option svc" where
  "validate_client V client_id secret =
     ebind (eget (\<lambda>w. sql_row (\<lambda>c. Some (oc_id c) = client_id \<and> oc_is_active c) (w_clients w))) (\<lambda>row.
     case row of None \<Rightarrow> eret None
     | Some c \<Rightarrow>
         if ostr_true secret \<and> \<not> ae_checkpw (oe_auth V) (the secret) (oc_secret c) then eret None
         else eret (Some c))"

definition validate_redirect_uri :: "string \<Rightarrow> string \<Rightarrow> bool svc" where
  "validate_redirect_uri client_id uri =
     eget (\<lambda>w. case sql_row (\<lambda>c. oc_id c = client_id \<and> oc_is_active c) (w_clients w) of
                 None \<Rightarrow> False
               | Some c \<Rightarrow> if oc_redirect_uris c = [] then False else uri \<in> set (oc_redirect_uris c))"

section \<open>Authorization codes\<close>

text \<open>The constraints of migration 0010, column lengths left out; the expiry is ten minutes.\<close>

definition insert_code :: "code_row \<Rightarrow> unit svc" where
  "insert_code r = (\<lambda>w.
     if \<exists>x \<in> set (w_codes w). ac_id x = ac_id r \<or> ac_code x = ac_code r
     then (Inl (DbErr UniqueViolationError), w)
     else if (\<forall>c \<in> set (w_clients w). oc_id c \<noteq> ac_client r) \<or> (\<forall>u \<in> set (w_users w). us_id u \<noteq> ac_user r)
             \<or> (\<forall>t \<in> set (w_tenants w). tn_id t \<noteq> ac_tenant r)
     then (Inl (DbErr ForeignKeyViolationError), w)
     else (Inr (), w\<lparr>w_codes := w_codes w @ [r]\<rparr>))"

definition store_authorization_code ::
    "string \<Rightarrow> string \<Rightarrow> string \<Rightarrow> string \<Rightarrow> string \<Rightarrow> string \<Rightarrow> string \<Rightarrow>
     string option \<Rightarrow> string option \<Rightarrow> string option \<Rightarrow> unit svc" where
  "store_authorization_code code_id code client_id user_id tenant_id redirect_uri scope challenge cmethod nonce =
     ebind (eget w_now) (\<lambda>now.
     insert_code \<lparr>ac_id = code_id, ac_code = code, ac_client = client_id, ac_user = user_id,
       ac_tenant = tenant_id, ac_redirect_uri = redirect_uri, ac_scope = scope, ac_challenge = challenge,
       ac_method = cmethod, ac_nonce = nonce, ac_used = False, ac_expires = now + 10 * 60\<rparr>)"

definition pkce_ok :: "(string \<Rightarrow> string) \<Rightarrow> code_row \<Rightarrow> string option \<Rightarrow> bool" where
  "pkce_ok s256 r verifier \<longleftrightarrow>
     (if ostr_true (ac_challenge r)
      then ostr_true verifier \<and>
           Some (if ac_method r = Some ''S256'' then rstrip_char (CHR ''='') (s256 (the verifier)) else the verifier)
             = ac_challenge r
      else True)"

text \<open>The check and the update are two statements; another request can run in between.\<close>

definition read_code ::
    "oidc_env \<Rightarrow> string \<Rightarrow> string \<Rightarrow> string \<Rightarrow> string option \<Rightarrow> code_row option svc" where
  "read_code V code client_id redirect_uri verifier =
     ebind (eget (\<lambda>w. sql_row (\<lambda>r. ac_code r = code \<and> ac_client r = client_id \<and> ac_redirect_uri r = redirect_uri
                                  \<and> \<not> ac_used r \<and> w_now w < ac_expires r) (w_codes w))) (\<lambda>row.
     case row of None \<Rightarrow> eret None
     | Some r \<Rightarrow> eret (if pkce_ok (oe_s256 V) r verifier then Some r else None))"

definition mark_code_used :: "string \<Rightarrow> unit svc" where
  "mark_code_used code =
     emod (\<lambda>w. w\<lparr>w_codes := sql_update (\<lambda>r. ac_code r = code) (\<lambda>r. r\<lparr>ac_used := True\<rparr>) (w_codes w)\<rparr>)"

definition validate_authorization_code ::
    "oidc_env \<Rightarrow> string \<Rightarrow> string \<Rightarrow> string \<Rightarrow> string option \<Rightarrow> code_row option svc" where
  "validate_authorization_code V code client_id redirect_uri verifier =
     ebind (read_code V code client_id redirect_uri verifier) (\<lambda>row.
     case row of None \<Rightarrow> eret None | Some r \<Rightarrow> ethen (mark_code_used code) (eret (Some r)))"

section \<open>Id tokens and refresh tokens\<close>

definition id_payload ::
    "oidc_env \<Rightarrow> int \<Rightarrow> string \<Rightarrow> string \<Rightarrow> string \<Rightarrow> string \<Rightarrow> string option \<Rightarrow> string \<Rightarrow> string \<Rightarrow>
     string option \<Rightarrow> json dict" where
  "id_payload V now user_id email tenant_id client_id nonce first last_nm role =
     [(''iss'', JStr (rstrip_char (CHR ''/'') (oe_base_url V))), (''sub'', JStr user_id), (''aud'', JStr client_id),
      (''exp'', JInt (now + 3600)), (''iat'', JInt now), (''email'', JStr email),
      (''email_verified'', JBool True), (''tenant_id'', JStr tenant_id)]
     @ (if ostr_true nonce then [(''nonce'', JStr (the nonce))] else [])
     @ (if first \<noteq> [] \<and> last_nm \<noteq> []
        then [(''name'', JStr (first @ '' '' @ last_nm)), (''given_name'', JStr first), (''family_name'', JStr last_nm)]
        else [])
     @ (if ostr_true role then [(''role'', JStr (the role))] else [])"

definition create_id_token ::
    "oidc_env \<Rightarrow> nat \<Rightarrow> string \<Rightarrow> string \<Rightarrow> string \<Rightarrow> string \<Rightarrow> string option \<Rightarrow> string \<Rightarrow> string \<Rightarrow>
     string option \<Rightarrow> string svc" where
  "create_id_token V ns user_id email tenant_id client_id nonce first last_nm role =
     ebind (eget w_now) (\<lambda>now.
     elift (create_jwt_token (oe_tokens V) ns
              (id_payload V now user_id email tenant_id client_id nonce first last_nm role)))"

text \<open>Seven days; the scope is not stored.\<close>

definition insert_refresh :: "refresh_row \<Rightarrow> unit svc" where
  "insert_refresh r = (\<lambda>w.
     if \<exists>x \<in> set (w_refresh w). rt_jti x = rt_jti r then (Inl (DbErr UniqueViolationError), w)
     else if (\<forall>u \<in> set (w_users w). us_id u \<noteq> rt_user r) \<or> (\<forall>t \<in> set (w_tenants w). tn_id t \<noteq> rt_tenant r)
     then (Inl (DbErr ForeignKeyViolationError), w)
     else (Inr (), w\<lparr>w_refresh := w_refresh w @ [r]\<rparr>))"

definition refresh_id :: "string \<Rightarrow> string \<Rightarrow> string" where
  "refresh_id user_id hex = user_id @ ''-refresh-'' @ hex"

definition create_refresh_token :: "string \<Rightarrow> string \<Rightarrow> string \<Rightarrow> string \<Rightarrow> string \<Rightarrow> string svc" where
  "create_refresh_token hex user_id tenant_id client_id scope =
     ebind (eget w_now) (\<lambda>now.
     ethen (insert_refresh \<lparr>rt_jti = refresh_id user_id hex, rt_user = user_id, rt_tenant = tenant_id,
              rt_client = client_id, rt_expires = now + 7 * 86400, rt_revoked = False, rt_created = now\<rparr>)
           (eret (refresh_id user_id hex)))"

definition refresh_valid :: "world \<Rightarrow> string \<Rightarrow> string \<Rightarrow> refresh_row \<Rightarrow> bool" where
  "refresh_valid w jti client_id r \<longleftrightarrow>
     rt_jti r = jti \<and> rt_client r = client_id \<and> \<not> rt_revoked r \<and> w_now w < rt_expires r"

definition validate_refresh_token :: "string \<Rightarrow> string \<Rightarrow> refresh_row option svc" where
  "validate_refresh_token jti client_id = eget (\<lambda>w. sql_row (refresh_valid w jti client_id) (w_refresh w))"

definition revoke_refresh_token :: "string \<Rightarrow> unit svc" where
  "revoke_refresh_token jti =
     emod (\<lambda>w. w\<lparr>w_refresh := sql_update (\<lambda>r. rt_jti r = jti) (\<lambda>r. r\<lparr>rt_revoked := True\<rparr>) (w_refresh w)\<rparr>)"

section \<open>Helpers of the endpoints\<close>

definition token_is_revoked :: "bloom_query \<Rightarrow> string option \<Rightarrow> world \<Rightarrow> bool" where
  "token_is_revoked q jti w \<longleftrightarrow> ostr_true jti \<and> is_revoked q (the jti) w"

definition client_matches_token :: "json dict \<Rightarrow> string \<Rightarrow> bool" where
  "client_matches_token p client_id \<longleftrightarrow>
     (case dget p ''aud'' of
        None \<Rightarrow> dget p ''client_id'' = Some (JStr client_id)
      | Some JNull \<Rightarrow> dget p ''client_id'' = Some (JStr client_id)
      | Some (JArr xs) \<Rightarrow> JStr client_id \<in> set xs
      | Some v \<Rightarrow> v = JStr client_id)"

definition extract_client_credentials ::
    "oidc_env \<Rightarrow> string option \<Rightarrow> string dict \<Rightarrow> string option \<times> string option" where
  "extract_client_credentials V auth data =
     (let given = (dget data ''client_id'', dget data ''client_secret'');
          header = (case auth of None \<Rightarrow> [] | Some a \<Rightarrow> a) in
      if starts_with header ''Basic ''
      then (case oe_b64decode V (drop 6 header) of
              None \<Rightarrow> given
            | Some s \<Rightarrow> (case split1 (CHR '':'') s of None \<Rightarrow> given | Some (a, b) \<Rightarrow> (Some a, Some b)))
      else given)"

text \<open>A decoding that maps PyJWT's errors to \<open>None\<close> and lets the others through.\<close>

definition try_decode :: "tok_env \<Rightarrow> int \<Rightarrow> string \<Rightarrow> exn + json dict option" where
  "try_decode E now t =
     (case te_decode E t (plain_opts True now) of
        Inr p \<Rightarrow> Inr (Some p)
      | Inl (JwtErr _) \<Rightarrow> Inr None
      | Inl e \<Rightarrow> Inl e)"

definition get_session_user :: "tok_env \<Rightarrow> string option \<Rightarrow> string option \<Rightarrow> json dict option svc" where
  "get_session_user E cookie auth =
     (let t = (if ostr_true cookie then cookie
               else if ostr_true auth \<and> starts_with (the auth) ''Bearer ''
               then Some (split_all (CHR '' '') (the auth) ! 1) else None) in
      if \<not> ostr_true t then eret None
      else ebind (eget w_now) (\<lambda>now. elift (try_decode E now (the t))))"

definition provider_callback_uri :: "oidc_env \<Rightarrow> string \<Rightarrow> string" where
  "provider_callback_uri V pid =
     rstrip_char (CHR ''/'') (oe_base_url V) @ ''/api/v1/oidc/federation/callback/'' @ pid"

definition issuer_of :: "oidc_env \<Rightarrow> string \<Rightarrow> string" where
  "issuer_of V tenant = ''https://'' @ oe_domain V @ ''/'' @ tenant"

definition build_session_payload :: "oidc_env \<Rightarrow> int \<Rightarrow> user_row \<Rightarrow> string \<Rightarrow> string \<Rightarrow> json dict" where
  "build_session_payload V now u tenant client_id =
     [(''sub'', JStr (us_email u)), (''iss'', JStr (issuer_of V tenant)), (''aud'', JStr client_id),
      (''user_id'', JStr (us_id u)), (''tenant_id'', JStr tenant), (''first_name'', JStr (us_first u)),
      (''last_name'', JStr (us_last u)), (''role'', json_opt (us_role u)),
      (''exp'', JInt (now + 3600)), (''iat'', JInt now)]"

text \<open>\<open>scope.split()\<close>, with the blank as the only white space.\<close>

definition py_words :: "string \<Rightarrow> string list" where
  "py_words s = filter (\<lambda>x. x \<noteq> []) (split_all (CHR '' '') s)"

section \<open>What the endpoints answer\<close>

record authz_params =
  ap_client :: string
  ap_redirect :: string
  ap_response_type :: string
  ap_scope :: string
  ap_state :: "string option"
  ap_nonce :: "string option"
  ap_challenge :: "string option"
  ap_method :: "string option"

record session_cookie =
  ck_value :: string
  ck_secure :: bool

datatype oidc_out =
    ErrorPage string string int
  | LoginPage string authz_params "string option"
  | ConsentPage string authz_params string "string list" "session_cookie option"
  | ChooserPage string authz_params "provider_row list"
  | RedirectTo url
  | ApiSuccess "json dict"
  | ApiError string string int
  | JsonOut "json dict" int

definition oauth_error :: "string \<Rightarrow> string \<Rightarrow> int \<Rightarrow> oidc_out" where
  "oauth_error code description st =
     JsonOut [(''error'', JStr code), (''error_description'', JStr description)] st"

definition set_session_cookie :: "oidc_env \<Rightarrow> string \<Rightarrow> session_cookie" where
  "set_session_cookie V t = \<lparr>ck_value = t, ck_secure = starts_with (oe_base_url V) ''https://''\<rparr>"

section \<open>GET /authorize\<close>

definition begin_federated_authorization ::
    "oidc_env \<Rightarrow> oidc_fresh \<Rightarrow> provider_row \<Rightarrow> string \<Rightarrow> authz_params \<Rightarrow> oidc_out svc" where
  "begin_federated_authorization V N p tenant a =
     ethen (create_federation_auth_transaction
              \<lparr>ft_id = of_txn N, ft_tenant = tenant, ft_provider = ip_id p, ft_client = ap_client a,
               ft_redirect_uri = ap_redirect a, ft_scope = ap_scope a, ft_state = ap_state a,
               ft_nonce = ap_nonce a, ft_challenge = ap_challenge a, ft_method = ap_method a,
               ft_upstream_state = of_state N, ft_upstream_nonce = Some (of_nonce N),
               ft_expires = 0, ft_consumed = None\<rparr>)
     (ebind (build_provider_authorize_url (oe_fed V) p (provider_callback_uri V (ip_id p))
               (of_state N) (Some (of_nonce N))) (\<lambda>u. eret (RedirectTo u)))"

definition is_api_request :: "string \<Rightarrow> bool" where
  "is_api_request accept \<longleftrightarrow> contains_sub ''application/json'' accept \<and> \<not> contains_sub ''text/html'' accept"

text \<open>\<open>if user\<close>: no user, or an empty payload, counts as not signed in.\<close>

definition signed_in :: "json dict option \<Rightarrow> json dict option" where
  "signed_in u = (if u = Some [] then None else u)"

definition claim_json :: "json dict \<Rightarrow> string \<Rightarrow> json" where
  "claim_json p k = (case dget p k of None \<Rightarrow> JNull | Some v \<Rightarrow> v)"

definition claim_text :: "json dict \<Rightarrow> string \<Rightarrow> string" where
  "claim_text p k = (case claim_str p k of None \<Rightarrow> [] | Some s \<Rightarrow> s)"

definition authorize_api :: "client_row \<Rightarrow> authz_params \<Rightarrow> json dict option \<Rightarrow> oidc_out svc" where
  "authorize_api c a user =
     (case user of
        Some u \<Rightarrow> eret (ApiSuccess
          [(''status'', JStr ''consent_required''), (''client_name'', JStr (oc_name c)),
           (''scopes'', JArr (map JStr (py_words (ap_scope a)))), (''user_email'', claim_json u ''sub'')])
      | None \<Rightarrow>
          ebind (list_enabled_identity_providers (oc_tenant c) ''oidc'') (\<lambda>ps.
          eret (ApiSuccess
            [(''status'', JStr ''login_required''), (''client_name'', JStr (oc_name c)),
             (''login_url'', JStr ''/api/v1/oidc/login''),
             (''federation_providers'', JArr (map (\<lambda>p. JObj [(''id'', JStr (ip_id p)), (''name'', JStr (ip_name p)),
                (''issuer_url'', JStr (ip_issuer p))]) ps))])))"

definition authorize_federated ::
    "oidc_env \<Rightarrow> oidc_fresh \<Rightarrow> client_row \<Rightarrow> authz_params \<Rightarrow> string option \<Rightarrow> oidc_out svc" where
  "authorize_federated V N c a provider_id =
     ebind (list_enabled_identity_providers (oc_tenant c) ''oidc'') (\<lambda>ps.
     if ostr_true provider_id
     then (case find (\<lambda>p. Some (ip_id p) = provider_id) ps of
             None \<Rightarrow> eret (ErrorPage ''Unknown identity provider'' ''invalid_identity_provider'' 400)
           | Some p \<Rightarrow> begin_federated_authorization V N p (oc_tenant c) a)
     else if length ps = 1 then begin_federated_authorization V N (ps ! 0) (oc_tenant c) a
     else if 1 < length ps then eret (ChooserPage (oc_name c) a ps)
     else eret (LoginPage (oc_name c) a None))"

definition authorize_endpoint ::
    "oidc_env \<Rightarrow> oidc_fresh \<Rightarrow> string \<Rightarrow> string option \<Rightarrow> string option \<Rightarrow> authz_params \<Rightarrow>
     string option \<Rightarrow> bool \<Rightarrow> oidc_out svc" where
  "authorize_endpoint V N accept cookie auth a provider_id local_login =
     (let api = is_api_request accept in
      ebind (validate_client V (Some (ap_client a)) None) (\<lambda>client.
      case client of
        None \<Rightarrow> eret (if api then ApiError ''invalid_client'' ''Unknown client'' 400
                       else ErrorPage ''Invalid Client'' ''invalid_client'' 400)
      | Some c \<Rightarrow>
          ebind (validate_redirect_uri (ap_client a) (ap_redirect a)) (\<lambda>ok.
          if \<not> ok
          then eret (if api then ApiError ''invalid_redirect_uri'' ''Invalid redirect URI'' 400
                     else ErrorPage ''Invalid Redirect'' ''invalid_redirect_uri'' 400)
          else
            ebind (get_session_user (oe_tokens V) cookie auth) (\<lambda>u0.
            let user = signed_in u0 in
            if api then authorize_api c a user
            else (case user of
                    Some u \<Rightarrow> eret (ConsentPage (oc_name c) a (claim_text u ''sub'') (py_words (ap_scope a)) None)
                  | None \<Rightarrow>
                      if \<not> local_login then authorize_federated V N c a provider_id
                      else eret (LoginPage (oc_name c) a None))))))"

section \<open>POST /login\<close>

definition login_user :: "conn \<Rightarrow> string \<Rightarrow> string \<Rightarrow> user_row option svc" where
  "login_user c email tenant =
     eget (\<lambda>w. sql_row (\<lambda>u. us_email u = email \<and> us_tenant u = tenant) (users_of c w))"

text \<open>\<open>a\<close> holds the form: absent optional fields are empty strings and reach the page as \<open>None\<close>.\<close>

definition form_params :: "authz_params \<Rightarrow> authz_params" where
  "form_params a = a\<lparr>ap_state := (if ostr_true (ap_state a) then ap_state a else None),
     ap_nonce := (if ostr_true (ap_nonce a) then ap_nonce a else None),
     ap_challenge := (if ostr_true (ap_challenge a) then ap_challenge a else None),
     ap_method := (if ostr_true (ap_method a) then ap_method a else None)\<rparr>"

definition login_submit ::
    "oidc_env \<Rightarrow> oidc_fresh \<Rightarrow> conn \<Rightarrow> string \<Rightarrow> string \<Rightarrow> authz_params \<Rightarrow> oidc_out svc" where
  "login_submit V N c email password a =
     ebind (validate_client V (Some (ap_client a)) None) (\<lambda>client.
     case client of
       None \<Rightarrow> eret (ErrorPage ''Unknown Client'' ''invalid_client'' 400)
     | Some cl \<Rightarrow>
         ebind (login_user c email (oc_tenant cl)) (\<lambda>row.
         case row of
           None \<Rightarrow> eret (LoginPage (oc_name cl) (form_params a) (Some ''Invalid email or password''))
         | Some u \<Rightarrow>
             if \<not> ae_checkpw (oe_auth V) password (us_password u)
             then ethen (log_audit ''login_failed''
                    [(''resource'', jstr ''/oidc/login''), (''user_id'', jstr (us_id u)),
                     (''tenant_id'', jstr (oc_tenant cl)), (''decision'', jstr ''Invalid password'')])
                    (eret (LoginPage (oc_name cl) (form_params a) (Some ''Invalid email or password'')))
             else if \<not> us_is_active u
             then eret (LoginPage (oc_name cl) (form_params a) (Some ''Account is disabled''))
             else if \<not> us_email_verified u
             then eret (LoginPage (oc_name cl) (form_params a) (Some ''Please verify your email before signing in''))
             else
               ebind (eget w_now) (\<lambda>now.
               ebind (elift (create_jwt_token (oe_tokens V) (of_ns N)
                        (build_session_payload V now u (oc_tenant cl) (ap_client a)))) (\<lambda>t.
               ethen (log_audit ''login_success''
                    [(''resource'', jstr ''/oidc/login''), (''user_id'', jstr (us_id u)),
                     (''tenant_id'', jstr (oc_tenant cl)), (''decision'', jstr ''User authenticated'')])
               (eret (ConsentPage (oc_name cl) (form_params a) (us_email u) (py_words (ap_scope a))
                        (Some (set_session_cookie V t))))))))"

section \<open>GET /federation/callback\<close>

definition txn_params :: "fed_txn_row \<Rightarrow> authz_params" where
  "txn_params t =
     \<lparr>ap_client = ft_client t, ap_redirect = ft_redirect_uri t, ap_response_type = ''code'', ap_scope = ft_scope t,
      ap_state = ft_state t, ap_nonce = ft_nonce t, ap_challenge = ft_challenge t, ap_method = ft_method t\<rparr>"

text \<open>The exchange and the resolution of the user; \<open>except Exception\<close> turns every failure into \<open>None\<close>.\<close>

definition callback_user ::
    "oidc_env \<Rightarrow> oidc_fresh \<Rightarrow> fed_txn_row \<Rightarrow> provider_row \<Rightarrow> string \<Rightarrow> string \<Rightarrow> user_row option svc" where
  "callback_user V N txn p pid code =
     etry (ebind (exchange_code_for_provider_tokens (oe_fed V) p code (provider_callback_uri V pid)) (\<lambda>tokens.
           ebind (resolve_or_provision_from_provider_tokens (oe_fed V) (of_ids N) OwnerConn (ft_tenant txn) p tokens)
             (\<lambda>r. eret (Some (fst r)))))
       (\<lambda>e. ethen (log_error ''federation callback failed'') (eret None))"

definition callback_finish ::
    "oidc_env \<Rightarrow> oidc_fresh \<Rightarrow> fed_txn_row \<Rightarrow> provider_row \<Rightarrow> string \<Rightarrow> user_row \<Rightarrow> oidc_out svc" where
  "callback_finish V N txn p pid u =
     ethen (consume_federation_auth_transaction (ft_id txn))
     (ebind (validate_client V (Some (ft_client txn)) None) (\<lambda>client.
      case client of
        None \<Rightarrow> eret (ErrorPage ''Client no longer available'' ''invalid_client'' 400)
      | Some cl \<Rightarrow>
          ebind (eget w_now) (\<lambda>now.
          ebind (elift (create_jwt_token (oe_tokens V) (of_ns N)
                   (build_session_payload V now u (ft_tenant txn) (ft_client txn)))) (\<lambda>t.
          ethen (log_audit ''federated_login_success''
               [(''resource'', jstr (''/oidc/federation/callback/'' @ pid)), (''user_id'', jstr (us_id u)),
                (''tenant_id'', jstr (ft_tenant txn)),
                (''decision'', jstr (''broker='' @ ip_issuer p @ '' client='' @ ft_client txn))])
          (eret (ConsentPage (oc_name cl) (txn_params txn) (us_email u)
                   (py_words (if ft_scope txn \<noteq> [] then ft_scope txn else ''openid''))
                   (Some (set_session_cookie V t))))))))"

definition federation_callback ::
    "oidc_env \<Rightarrow> oidc_fresh \<Rightarrow> string \<Rightarrow> string option \<Rightarrow> string option \<Rightarrow> string option \<Rightarrow> oidc_out svc" where
  "federation_callback V N pid code state err =
     (if ostr_true err then eret (ErrorPage ''External sign-in failed'' (the err) 400)
      else if \<not> ostr_true code \<or> \<not> ostr_true state
      then eret (ErrorPage ''Invalid federation callback'' ''invalid_callback'' 400)
      else
        ebind (get_federation_auth_transaction_by_state pid (the state)) (\<lambda>row.
        case row of
          None \<Rightarrow> eret (ErrorPage ''Expired or unknown sign-in request'' ''invalid_transaction'' 400)
        | Some txn \<Rightarrow>
            ebind (get_identity_provider (ft_tenant txn) pid) (\<lambda>prow.
            case prow of
              None \<Rightarrow> eret (ErrorPage ''Identity provider unavailable'' ''identity_provider_unavailable'' 400)
            | Some p \<Rightarrow>
                if \<not> ip_enabled p
                then eret (ErrorPage ''Identity provider unavailable'' ''identity_provider_unavailable'' 400)
                else
                  ebind (callback_user V N txn p pid (the code)) (\<lambda>urow.
                  case urow of
                    None \<Rightarrow> eret (ErrorPage ''Federated sign-in failed'' ''federation_callback_failed'' 400)
                  | Some u \<Rightarrow> callback_finish V N txn p pid u))))"

section \<open>POST /consent\<close>

text \<open>\<open>user[k]\<close> as the argument of a column that is NOT NULL.\<close>

definition claim_column :: "json dict \<Rightarrow> string \<Rightarrow> exn + string" where
  "claim_column p k =
     (case dget p k of
        None \<Rightarrow> Inl (PyErr KeyError)
      | Some (JStr s) \<Rightarrow> Inr s
      | Some JNull \<Rightarrow> Inl (DbErr NotNullViolationError)
      | Some _ \<Rightarrow> Inl (DbErr DataError))"

definition state_param :: "authz_params \<Rightarrow> (string \<times> string) list" where
  "state_param a = (if ostr_true (ap_state a) then [(''state'', the (ap_state a))] else [])"

definition consent_submit ::
    "oidc_env \<Rightarrow> oidc_fresh \<Rightarrow> string option \<Rightarrow> string option \<Rightarrow> string \<Rightarrow> authz_params \<Rightarrow> oidc_out svc" where
  "consent_submit V N cookie auth action a =
     ebind (get_session_user (oe_tokens V) cookie auth) (\<lambda>u0.
     case signed_in u0 of
       None \<Rightarrow> eret (RedirectTo \<lparr>url_base = ''/api/v1/oidc/authorize?client_id='' @ ap_client a @ ''&redirect_uri=''
           @ ap_redirect a @ ''&response_type='' @ ap_response_type a @ ''&scope='' @ ap_scope a @ ''&state=''
           @ (case ap_state a of None \<Rightarrow> [] | Some s \<Rightarrow> s), url_query = []\<rparr>)
     | Some u \<Rightarrow>
         if action = ''deny''
         then eret (RedirectTo \<lparr>url_base = ap_redirect a, url_query =
                [(''error'', ''access_denied''), (''error_description'', ''User denied the request'')] @ state_param a\<rparr>)
         else
           ebind (elift (claim_column u ''user_id'')) (\<lambda>user_id.
           ebind (elift (claim_column u ''tenant_id'')) (\<lambda>tenant_id.
           ethen (store_authorization_code (of_code_id N) (of_code N) (ap_client a) user_id tenant_id
                    (ap_redirect a) (ap_scope a) (ap_challenge (form_params a)) (ap_method (form_params a))
                    (ap_nonce (form_params a)))
          (ethen (log_audit ''consent_granted''
                    [(''resource'', jstr ''/oidc/consent''), (''user_id'', jstr user_id), (''tenant_id'', jstr tenant_id),
                     (''decision'', jstr (''Granted access to '' @ ap_client a))])
          (eret (RedirectTo \<lparr>url_base = ap_redirect a, url_query = [(''code'', of_code N)] @ state_param a\<rparr>))))))"

section \<open>POST /token\<close>

definition access_payload ::
    "oidc_env \<Rightarrow> int \<Rightarrow> string \<Rightarrow> user_row \<Rightarrow> string \<Rightarrow> string \<Rightarrow> json dict \<Rightarrow> int dict \<Rightarrow> json dict \<Rightarrow> json dict" where
  "access_payload V now issuer_tenant u tenant aud scope pol extra =
     [(''sub'', JStr (us_email u)), (''iss'', JStr (issuer_of V issuer_tenant)), (''user_id'', JStr (us_id u)),
      (''tenant_id'', JStr tenant), (''aud'', JStr aud), (''role'', json_opt (us_role u))]
     @ scope @ [(''policy'', policy_json pol)] @ extra @ [(''exp'', JInt (now + 3600)), (''iat'', JInt now)]"

definition token_user :: "conn \<Rightarrow> string \<Rightarrow> user_row option svc" where
  "token_user c user_id = eget (\<lambda>w. sql_row (\<lambda>u. us_id u = user_id) (users_of c w))"

definition bearer_fields :: "string \<Rightarrow> json dict" where
  "bearer_fields t = [(''access_token'', JStr t), (''token_type'', JStr ''Bearer''), (''expires_in'', JInt 3600)]"

definition issue_code_tokens ::
    "oidc_env \<Rightarrow> oidc_fresh \<Rightarrow> conn \<Rightarrow> string \<Rightarrow> string \<Rightarrow> code_row \<Rightarrow> user_row \<Rightarrow> oidc_out svc" where
  "issue_code_tokens V N c client_id client_tenant r u =
     ebind (fetch_user_policies (ae_cast (oe_auth V)) c (us_id u) (ac_tenant r)) (\<lambda>pol.
     ebind (eget w_now) (\<lambda>now.
     ebind (elift (create_jwt_token (oe_tokens V) (of_ns N)
              (access_payload V now client_tenant u (ac_tenant r) client_id [(''scope'', JStr (ac_scope r))] pol []))) (\<lambda>t.
     ebind (create_refresh_token (of_hex N) (us_id u) (ac_tenant r) client_id (ac_scope r)) (\<lambda>rt.
     ebind (if contains_sub ''openid'' (ac_scope r)
            then ebind (create_id_token V (of_ns_id N) (us_id u) (us_email u) (ac_tenant r) client_id (ac_nonce r)
                          (us_first u) (us_last u) (us_role u)) (\<lambda>i. eret [(''id_token'', JStr i)])
            else eret []) (\<lambda>idt.
     ethen (log_audit ''token_issued''
              [(''resource'', jstr ''/oidc/token''), (''user_id'', jstr (us_id u)),
               (''tenant_id'', jstr (ac_tenant r)), (''decision'', jstr ''authorization_code grant'')])
     (eret (JsonOut (bearer_fields t @ [(''refresh_token'', JStr rt), (''scope'', JStr (ac_scope r))] @ idt) 200)))))))"

definition grant_authorization_code ::
    "oidc_env \<Rightarrow> oidc_fresh \<Rightarrow> conn \<Rightarrow> string \<Rightarrow> string \<Rightarrow> string dict \<Rightarrow> oidc_out svc" where
  "grant_authorization_code V N c client_id client_tenant data =
     (if \<not> ostr_true (dget data ''code'') \<or> \<not> ostr_true (dget data ''redirect_uri'')
      then ethen (log_error ''invalid request'')
                 (eret (oauth_error ''invalid_request'' ''Missing code or redirect_uri'' 400))
      else
        ebind (validate_authorization_code V (the (dget data ''code'')) client_id (the (dget data ''redirect_uri''))
                 (dget data ''code_verifier'')) (\<lambda>row.
        case row of
          None \<Rightarrow> ethen (log_error ''invalid grant'')
                        (eret (oauth_error ''invalid_grant'' ''Invalid or expired authorization code'' 400))
        | Some r \<Rightarrow>
            ebind (token_user c (ac_user r)) (\<lambda>urow.
            case urow of
              None \<Rightarrow> eret (oauth_error ''invalid_grant'' ''User not found'' 400)
            | Some u \<Rightarrow> issue_code_tokens V N c client_id client_tenant r u)))"

definition issue_refreshed_tokens ::
    "oidc_env \<Rightarrow> oidc_fresh \<Rightarrow> conn \<Rightarrow> string \<Rightarrow> string \<Rightarrow> refresh_row \<Rightarrow> user_row \<Rightarrow> oidc_out svc" where
  "issue_refreshed_tokens V N c client_id client_tenant r u =
     ebind (fetch_user_policies (ae_cast (oe_auth V)) c (us_id u) (rt_tenant r)) (\<lambda>pol.
     ebind (eget w_now) (\<lambda>now.
     ebind (elift (create_jwt_token (oe_tokens V) (of_ns N)
              (access_payload V now client_tenant u (rt_tenant r) client_id [] pol []))) (\<lambda>t.
     ebind (create_refresh_token (of_hex N) (us_id u) (rt_tenant r) client_id ''openid'') (\<lambda>rt.
     eret (JsonOut (bearer_fields t @ [(''refresh_token'', JStr rt)]) 200)))))"

definition grant_refresh_token ::
    "oidc_env \<Rightarrow> oidc_fresh \<Rightarrow> conn \<Rightarrow> string \<Rightarrow> string \<Rightarrow> string dict \<Rightarrow> oidc_out svc" where
  "grant_refresh_token V N c client_id client_tenant data =
     (if \<not> ostr_true (dget data ''refresh_token'')
      then eret (oauth_error ''invalid_request'' ''Missing refresh_token'' 400)
      else
        ebind (validate_refresh_token (the (dget data ''refresh_token'')) client_id) (\<lambda>row.
        case row of
          None \<Rightarrow> eret (oauth_error ''invalid_grant'' ''Invalid or expired refresh token'' 400)
        | Some r \<Rightarrow>
            ebind (token_user c (rt_user r)) (\<lambda>urow.
            case urow of
              None \<Rightarrow> eret (oauth_error ''invalid_grant'' ''User not found'' 400)
            | Some u \<Rightarrow>
                ethen (revoke_refresh_token (the (dget data ''refresh_token'')))
                      (issue_refreshed_tokens V N c client_id client_tenant r u))))"

definition client_payload :: "oidc_env \<Rightarrow> int \<Rightarrow> string \<Rightarrow> string \<Rightarrow> json dict" where
  "client_payload V now client_id tenant =
     [(''sub'', JStr client_id), (''iss'', JStr (issuer_of V tenant)), (''client_id'', JStr client_id),
      (''aud'', JStr client_id), (''tenant_id'', JStr tenant), (''grant_type'', JStr ''client_credentials''),
      (''exp'', JInt (now + 3600)), (''iat'', JInt now)]"

definition grant_client_credentials :: "oidc_env \<Rightarrow> oidc_fresh \<Rightarrow> string \<Rightarrow> string \<Rightarrow> oidc_out svc" where
  "grant_client_credentials V N client_id client_tenant =
     ebind (eget w_now) (\<lambda>now.
     ebind (elift (create_jwt_token (oe_tokens V) (of_ns N) (client_payload V now client_id client_tenant))) (\<lambda>t.
     ethen (log_audit ''token_issued''
              [(''resource'', jstr ''/oidc/token''), (''user_id'', jstr client_id),
               (''tenant_id'', jstr client_tenant), (''decision'', jstr ''client_credentials grant'')])
     (eret (JsonOut (bearer_fields t) 200))))"

definition issue_exchanged_tokens ::
    "oidc_env \<Rightarrow> oidc_fresh \<Rightarrow> conn \<Rightarrow> string \<Rightarrow> string \<Rightarrow> user_row \<Rightarrow> provider_row \<Rightarrow> json dict \<Rightarrow> oidc_out svc" where
  "issue_exchanged_tokens V N c tenant audience u p claims =
     (let scope = (if ostr_true (claim_str claims ''scope'') then the (claim_str claims ''scope'')
                   else ''openid profile email'') in
      ebind (fetch_user_policies (ae_cast (oe_auth V)) c (us_id u) tenant) (\<lambda>pol.
      ebind (eget w_now) (\<lambda>now.
      ebind (elift (create_jwt_token (oe_tokens V) (of_ns N)
               (access_payload V now tenant u tenant audience [(''scope'', JStr scope)] pol
                  [(''amr'', JArr [JStr ''broker'']), (''broker_iss'', JStr (ip_issuer p))]))) (\<lambda>t.
      ebind (create_refresh_token (of_hex N) (us_id u) tenant audience scope) (\<lambda>rt.
      ebind (if ''openid'' \<in> set (py_words scope)
             then ebind (create_id_token V (of_ns_id N) (us_id u) (us_email u) tenant audience None
                           (us_first u) (us_last u) (us_role u)) (\<lambda>i. eret [(''id_token'', JStr i)])
             else eret []) (\<lambda>idt.
      ethen (log_audit ''token_exchanged''
               [(''resource'', jstr ''/oidc/token''), (''user_id'', jstr (us_id u)), (''tenant_id'', jstr tenant),
                (''decision'', jstr (''broker='' @ ip_issuer p @ '' audience='' @ audience))])
      (eret (JsonOut (bearer_fields t
               @ [(''refresh_token'', JStr rt),
                  (''issued_token_type'', JStr ''urn:ietf:params:oauth:token-type:access_token''),
                  (''scope'', JStr scope)] @ idt) 200))))))))"

definition exchange_user ::
    "oidc_env \<Rightarrow> oidc_fresh \<Rightarrow> conn \<Rightarrow> string \<Rightarrow> string \<Rightarrow> string \<Rightarrow> string option \<Rightarrow>
     (string + user_row \<times> provider_row \<times> json dict) svc" where
  "exchange_user V N c tenant subject_token audience hint =
     etry (ebind (resolve_or_provision_federated_user (oe_fed V) (of_ids N) c tenant subject_token audience hint)
             (\<lambda>r. eret (Inr r)))
       (\<lambda>e. ethen (log_error ''token exchange failed'') (eret (Inl (oe_exc_text V e))))"

definition grant_token_exchange ::
    "oidc_env \<Rightarrow> oidc_fresh \<Rightarrow> conn \<Rightarrow> string \<Rightarrow> string \<Rightarrow> string dict \<Rightarrow> oidc_out svc" where
  "grant_token_exchange V N c client_id client_tenant data =
     (let requested = dget data ''audience'';
          audience = (if ostr_true requested then the requested else client_id) in
      if ostr_true requested \<and> the requested \<noteq> client_id
      then eret (oauth_error ''invalid_target'' ''Token exchange audience must match the authenticated client'' 400)
      else if \<not> ostr_true (dget data ''subject_token'')
      then eret (oauth_error ''invalid_request'' ''Missing subject_token'' 400)
      else
        ebind (exchange_user V N c client_tenant (the (dget data ''subject_token'')) audience (dget data ''issuer_hint'')) (\<lambda>res.
        case res of
          Inl msg \<Rightarrow> eret (oauth_error ''invalid_grant'' msg 400)
        | Inr (u, p, claims) \<Rightarrow> issue_exchanged_tokens V N c client_tenant audience u p claims))"

text \<open>The grant that answers an authenticated client.\<close>

definition token_grant ::
    "oidc_env \<Rightarrow> oidc_fresh \<Rightarrow> conn \<Rightarrow> string \<Rightarrow> string \<Rightarrow> string dict \<Rightarrow> oidc_out svc" where
  "token_grant V N c cid tenant data =
     (let grant = dget data ''grant_type'' in
      if grant = Some ''authorization_code'' then grant_authorization_code V N c cid tenant data
      else if grant = Some ''refresh_token'' then grant_refresh_token V N c cid tenant data
      else if grant = Some ''client_credentials'' then grant_client_credentials V N cid tenant
      else if grant = Some ''urn:ietf:params:oauth:grant-type:token-exchange''
      then grant_token_exchange V N c cid tenant data
      else eret (oauth_error ''unsupported_grant_type''
             (''Grant type '' @ quoted (case grant of None \<Rightarrow> ''None'' | Some g \<Rightarrow> g) @ '' not supported'') 400))"

definition token_endpoint ::
    "oidc_env \<Rightarrow> oidc_fresh \<Rightarrow> conn \<Rightarrow> string option \<Rightarrow> string dict \<Rightarrow> oidc_out svc" where
  "token_endpoint V N c auth data =
     (let (client_id, secret) = extract_client_credentials V auth data in
      ebind (validate_client V client_id secret) (\<lambda>client.
      case client of
        None \<Rightarrow> ethen (log_error ''invalid client'')
                      (eret (oauth_error ''invalid_client'' ''Invalid client credentials'' 401))
      | Some cl \<Rightarrow> token_grant V N c (the client_id) (oc_tenant cl) data))"

section \<open>GET /userinfo\<close>

definition userinfo :: "tok_env \<Rightarrow> conn \<Rightarrow> string option \<Rightarrow> oidc_out svc" where
  "userinfo E c auth =
     (let header = (case auth of None \<Rightarrow> [] | Some a \<Rightarrow> a) in
      if \<not> starts_with header ''Bearer ''
      then eret (oauth_error ''invalid_token'' ''Missing or invalid Authorization header'' 401)
      else
        ebind (eget w_now) (\<lambda>now.
        ebind (elift (try_decode E now (drop 7 header))) (\<lambda>payload.
        case payload of
          None \<Rightarrow> eret (oauth_error ''invalid_token'' ''Invalid or expired token'' 401)
        | Some p \<Rightarrow>
            if \<not> ostr_true (claim_str p ''user_id'') then eret (JsonOut [(''sub'', claim_json p ''sub'')] 200)
            else
              ebind (token_user c (the (claim_str p ''user_id''))) (\<lambda>row.
              case row of
                None \<Rightarrow> eret (oauth_error ''invalid_token'' ''User not found'' 401)
              | Some u \<Rightarrow> eret (JsonOut
                  [(''sub'', JStr (us_id u)), (''email'', JStr (us_email u)),
                   (''email_verified'', JBool (us_email_verified u)),
                   (''name'', JStr (us_first u @ '' '' @ us_last u)), (''given_name'', JStr (us_first u)),
                   (''family_name'', JStr (us_last u)), (''role'', json_opt (us_role u)),
                   (''tenant_id'', claim_json p ''tenant_id'')] 200)))))"

section \<open>POST /introspect\<close>

definition inactive :: oidc_out where
  "inactive = JsonOut [(''active'', JBool False)] 200"

definition introspect_jwt :: "bloom_query \<Rightarrow> json dict \<Rightarrow> string \<Rightarrow> world \<Rightarrow> oidc_out" where
  "introspect_jwt q p client_id w =
     (if \<not> client_matches_token p client_id then inactive
      else if token_is_revoked q (claim_str p ''jti'') w then inactive
      else JsonOut
        [(''active'', JBool True), (''scope'', claim_json p ''scope''), (''client_id'', JStr client_id),
         (''username'', claim_json p ''sub''), (''token_type'', JStr ''access_token''), (''exp'', claim_json p ''exp''),
         (''iat'', claim_json p ''iat''), (''sub'', claim_json p ''sub''), (''aud'', claim_json p ''aud''),
         (''iss'', claim_json p ''iss''), (''jti'', claim_json p ''jti''), (''tenant_id'', claim_json p ''tenant_id'')] 200)"

definition introspect_refresh :: "string \<Rightarrow> string \<Rightarrow> oidc_out svc" where
  "introspect_refresh token client_id =
     ebind (validate_refresh_token token client_id) (\<lambda>row.
     case row of
       None \<Rightarrow> eret inactive
     | Some r \<Rightarrow> eret (JsonOut
         [(''active'', JBool True), (''client_id'', JStr (rt_client r)), (''token_type'', JStr ''refresh_token''),
          (''sub'', JStr (rt_user r)), (''exp'', JInt (rt_expires r)), (''iat'', JInt (rt_created r)),
          (''jti'', JStr (rt_jti r)), (''tenant_id'', JStr (rt_tenant r))] 200))"

definition introspect ::
    "bloom_query \<Rightarrow> oidc_env \<Rightarrow> string option \<Rightarrow> string dict \<Rightarrow> oidc_out svc" where
  "introspect q V auth data =
     (let (client_id, secret) = extract_client_credentials V auth data in
      if \<not> ostr_true (dget data ''token'') then eret (oauth_error ''invalid_request'' ''Missing token'' 400)
      else
        ebind (validate_client V client_id secret) (\<lambda>client.
        case client of
          None \<Rightarrow> eret (oauth_error ''invalid_client'' ''Invalid client credentials'' 401)
        | Some cl \<Rightarrow>
            let t = the (dget data ''token'') in
            if dget data ''token_type_hint'' = Some ''refresh_token'' then introspect_refresh t (oc_id cl)
            else
              ebind (eget w_now) (\<lambda>now.
              case try_decode (oe_tokens V) now t of
                Inl e \<Rightarrow> ethen (log_error ''introspection failed for JWT token'') (eret inactive)
              | Inr (Some p) \<Rightarrow> eget (introspect_jwt q p (oc_id cl))
              | Inr None \<Rightarrow> introspect_refresh t (oc_id cl))))"

section \<open>GET and POST /logout\<close>

definition hint_user :: "tok_env \<Rightarrow> string option \<Rightarrow> (string option \<times> string option) svc" where
  "hint_user E hint =
     (if \<not> ostr_true hint then eret (None, None)
      else ebind (eget w_now) (\<lambda>now. ebind (elift (try_decode E now (the hint))) (\<lambda>payload.
        case payload of None \<Rightarrow> eret (None, None)
        | Some p \<Rightarrow> eret (ostr_or (claim_str p ''user_id'') (claim_str p ''sub''), claim_str p ''tenant_id''))))"

definition cookie_user :: "tok_env \<Rightarrow> string option \<Rightarrow> string option \<times> string option \<Rightarrow> (string option \<times> string option) svc" where
  "cookie_user E cookie known =
     (if ostr_true (fst known) \<or> \<not> ostr_true cookie then eret known
      else ebind (eget w_now) (\<lambda>now. ebind (elift (try_decode E now (the cookie))) (\<lambda>payload.
        case payload of None \<Rightarrow> eret known
        | Some p \<Rightarrow> eret (claim_str p ''user_id'', claim_str p ''tenant_id''))))"

definition logout_redirect :: "string option \<Rightarrow> string option \<Rightarrow> string" where
  "logout_redirect target state =
     (if ostr_true state \<and> ostr_true target
      then the target @ (if CHR ''?'' \<in> set (the target) then ''&'' else ''?'') @ ''state='' @ the state
      else if ostr_true target then the target else ''/'')"

definition end_session ::
    "tok_env \<Rightarrow> string option \<Rightarrow> string option \<Rightarrow> string option \<Rightarrow> string option \<Rightarrow> oidc_out svc" where
  "end_session E hint cookie target state =
     ebind (hint_user E hint) (\<lambda>known.
     ebind (cookie_user E cookie known) (\<lambda>(user, tenant).
     ethen (if ostr_true user \<and> ostr_true tenant
            then etry (ebind (revoke_all_sessions (the user) (the tenant) ''oidc_logout'' None) (\<lambda>n.
                         log_audit ''oidc_logout''
                           [(''user_id'', map_option JStr user), (''tenant_id'', map_option JStr tenant),
                            (''resource'', jstr ''/oidc/logout''),
                            (''decision'', jstr (''Revoked '' @ digits_of n @ '' sessions''))]))
                   (\<lambda>e. log_error ''Failed to revoke sessions during logout'')
            else eret ())
           (eret (RedirectTo \<lparr>url_base = logout_redirect target state, url_query = []\<rparr>))))"

section \<open>Effects that leave codes and refresh tokens alone\<close>

definition token_blind :: "(world \<Rightarrow> bool) \<Rightarrow> bool" where
  "token_blind P \<longleftrightarrow> (\<forall>w w'. w_codes w' = w_codes w \<longrightarrow> w_refresh w' = w_refresh w \<longrightarrow> P w \<longrightarrow> P w')"

lemma token_blindD:
  "token_blind P \<Longrightarrow> P w \<Longrightarrow> w_codes w' = w_codes w \<Longrightarrow> w_refresh w' = w_refresh w \<Longrightarrow> P w'"
  unfolding token_blind_def by blast

lemma token_blind_log: "token_blind P \<Longrightarrow> log_blind P"
  unfolding log_blind_def by (auto elim: token_blindD)

lemma keeps_blind_emod:
  "token_blind P \<Longrightarrow> (\<And>w. w_codes (f w) = w_codes w) \<Longrightarrow> (\<And>w. w_refresh (f w) = w_refresh w) \<Longrightarrow> keeps P (emod f)"
  by (rule keeps_emod) (blast dest: token_blindD)

lemma keeps_blind:
  "token_blind P \<Longrightarrow> (\<And>w. w_codes (snd (m w)) = w_codes w) \<Longrightarrow> (\<And>w. w_refresh (snd (m w)) = w_refresh w) \<Longrightarrow> keeps P m"
  by (rule keepsI) (blast dest: token_blindD)

lemma keeps_blind_basic [keeps_intros]:
  assumes "token_blind P"
  shows "keeps P (fetch_user_policies cast c user tenant)" "keeps P (insert_user c u)" "keeps P (upsert_link l)"
    "keeps P (get_signing_key F t k)" "keeps P (validate_client V ocid sec)" "keeps P (token_user c uid)"
    "keeps P (validate_refresh_token j cid)" "keeps P (read_code V code cid uri ver)"
  using assms
  by (intro keeps_blind;
      auto simp: fetch_user_policies_def insert_user_def upsert_link_def Let_def get_signing_key_def
        validate_client_def token_user_def validate_refresh_token_def read_code_def eff_simps split: sum.split option.split)+

lemma keeps_blind_discovery [keeps_intros]:
  assumes "token_blind P"
  shows "keeps P (resolve_discovery F p)"
  unfolding resolve_discovery_def using assms by (intro keeps_intros keeps_blind_emod) auto

lemma keeps_blind_endpoint [keeps_intros]:
  "token_blind P \<Longrightarrow> keeps P (provider_endpoint F p g n)"
  unfolding provider_endpoint_def by (intro keeps_intros)

lemma keeps_blind_verify [keeps_intros]: "token_blind P \<Longrightarrow> keeps P (verify_jwt F t p aud)"
  unfolding verify_jwt_def by (intro keeps_intros)

lemma keeps_blind_broker [keeps_intros]:
  "token_blind P \<Longrightarrow> keeps P (validate_broker_subject_token F tenant t aud hint)"
  unfolding validate_broker_subject_token_def Let_def by (intro keeps_intros)

lemma keeps_blind_resolve [keeps_intros]:
  assumes "token_blind P"
  shows "keeps P (find_or_create_local_user N c tenant p claims)"
proof -
  have "keeps P (match_by_email c tenant p claims)"
    unfolding match_by_email_def by (intro keeps_intros)
  moreover have "keeps P (provision_user N c tenant p claims s)" for s
    unfolding provision_user_def using assms by (intro keeps_intros)
  ultimately have "keeps P (link_or_provision N c tenant p claims s)" for s
    unfolding link_or_provision_def using assms by (intro keeps_intros)
  then show ?thesis unfolding find_or_create_local_user_def by (intro keeps_intros)
qed

lemma keeps_blind_exchange [keeps_intros]:
  assumes "token_blind P"
  shows "keeps P (exchange_user V N c tenant t aud hint)"
  unfolding exchange_user_def resolve_or_provision_federated_user_def
  using assms token_blind_log [OF assms] by (intro keeps_intros)

lemma keeps_session_user [keeps_intros]: "keeps P (get_session_user E cookie auth)"
  unfolding get_session_user_def Let_def by (intro keeps_intros)

lemma keeps_id_token [keeps_intros]: "keeps P (create_id_token V ns u e t cid n f l r)"
  unfolding create_id_token_def by (intro keeps_intros)

text \<open>A predicate that in addition survives new refresh tokens.\<close>

definition refresh_stable :: "(world \<Rightarrow> bool) \<Rightarrow> bool" where
  "refresh_stable P \<longleftrightarrow> (\<forall>r. keeps P (insert_refresh r))"

lemma keeps_create_refresh [keeps_intros]:
  "refresh_stable P \<Longrightarrow> keeps P (create_refresh_token h u t cid sc)"
  unfolding create_refresh_token_def refresh_stable_def by (intro keeps_intros) auto

lemma keeps_issue [keeps_intros]:
  assumes "token_blind P" "refresh_stable P"
  shows "keeps P (issue_code_tokens V N c cid ct r u)" "keeps P (issue_refreshed_tokens V N c cid ct rr u)"
    "keeps P (issue_exchanged_tokens V N c ct aud u p claims)" "keeps P (grant_client_credentials V N cid ct)"
  unfolding issue_code_tokens_def issue_refreshed_tokens_def issue_exchanged_tokens_def Let_def
    grant_client_credentials_def
  by (intro keeps_intros assms token_blind_log [OF assms(1)])+

lemma keeps_token_endpoint:
  assumes "token_blind P" "refresh_stable P" "\<And>code. keeps P (mark_code_used code)" "\<And>j. keeps P (revoke_refresh_token j)"
  shows "keeps P (token_endpoint V N c auth data)"
proof -
  note lb = token_blind_log [OF assms(1)]
  have code: "keeps P (grant_authorization_code V N c cid ct data)" for cid ct
    unfolding grant_authorization_code_def validate_authorization_code_def
    using assms lb by (intro keeps_intros)
  have ref: "keeps P (grant_refresh_token V N c cid ct data)" for cid ct
    unfolding grant_refresh_token_def using assms by (intro keeps_intros)
  have exch: "keeps P (grant_token_exchange V N c cid ct data)" for cid ct
    unfolding grant_token_exchange_def Let_def using assms lb by (intro keeps_intros)
  show ?thesis
    unfolding token_endpoint_def token_grant_def Let_def using assms lb code ref exch by (intro keeps_intros)
qed

section \<open>Redeeming a code\<close>

definition code_used :: "code_row \<Rightarrow> code_row" where
  "code_used r = r\<lparr>ac_used := True\<rparr>"

definition after_code :: "string \<Rightarrow> world \<Rightarrow> world" where
  "after_code code w = w\<lparr>w_codes := sql_update (\<lambda>r. ac_code r = code) code_used (w_codes w)\<rparr>"

lemma mark_code_run: "mark_code_used code w = (Inr (), after_code code w)"
  by (simp add: mark_code_used_def after_code_def code_used_def [abs_def])

lemma validate_client_pure: "\<exists>x. validate_client V cid s w = (Inr x, w)"
  by (auto simp: validate_client_def eff_simps split: option.split)

lemma validate_client_Some:
  "validate_client V cid s w = (Inr (Some cl), w') \<longleftrightarrow>
     w' = w \<and> sql_row (\<lambda>c. Some (oc_id c) = cid \<and> oc_is_active c) (w_clients w) = Some cl
     \<and> (ostr_true s \<longrightarrow> ae_checkpw (oe_auth V) (the s) (oc_secret cl))"
  by (auto simp: validate_client_def eff_simps split: option.split)

lemma client_ident: "validate_client V cid s w = (Inr (Some cl), w') \<Longrightarrow> cid = Some (oc_id cl)"
  by (auto simp: validate_client_Some dest: sql_row_Some)

lemma read_code_Some:
  "read_code V code cid uri ver w = (Inr (Some r), w') \<longleftrightarrow>
     w' = w \<and> pkce_ok (oe_s256 V) r ver
     \<and> sql_row (\<lambda>r. ac_code r = code \<and> ac_client r = cid \<and> ac_redirect_uri r = uri \<and> \<not> ac_used r \<and> w_now w < ac_expires r)
         (w_codes w) = Some r"
  by (auto simp: read_code_def eff_simps split: option.split)

lemma read_code_pure: "\<exists>x. read_code V code cid uri ver w = (Inr x, w)"
  by (auto simp: read_code_def eff_simps split: option.split)

lemma oauth_error_not_ok [simp]:
  "st \<noteq> 200 \<Longrightarrow> oauth_error a b st \<noteq> JsonOut d 200" "st \<noteq> 200 \<Longrightarrow> JsonOut d 200 \<noteq> oauth_error a b st"
  by (simp_all add: oauth_error_def)

lemma token_ok:
  assumes "token_endpoint V N c auth data w = (Inr (JsonOut d 200), w')"
  obtains cl where
    "validate_client V (fst (extract_client_credentials V auth data)) (snd (extract_client_credentials V auth data)) w
      = (Inr (Some cl), w)"
    "token_grant V N c (oc_id cl) (oc_tenant cl) data w = (Inr (JsonOut d 200), w')"
proof -
  let ?x = "extract_client_credentials V auth data"
  obtain y where y: "validate_client V (fst ?x) (snd ?x) w = (Inr y, w)" using validate_client_pure by blast
  have te: "token_endpoint V N c auth data w =
      (case y of None \<Rightarrow> ethen (log_error ''invalid client'')
                      (eret (oauth_error ''invalid_client'' ''Invalid client credentials'' 401)) w
       | Some cl \<Rightarrow> token_grant V N c (the (fst ?x)) (oc_tenant cl) data w)"
    using y by (cases ?x) (simp add: token_endpoint_def ebind_run Let_def split: option.split)
  show thesis
  proof (cases y)
    case None
    with te assms show ?thesis by (simp add: eff_simps)
  next
    case (Some cl)
    then have "the (fst ?x) = oc_id cl" using client_ident [of V "fst ?x"] y by fastforce
    with te Some assms y that show ?thesis by simp
  qed
qed

lemma code_grant_ok:
  assumes "grant_authorization_code V N c cid ct data w = (Inr (JsonOut d 200), w')"
  obtains code uri r u where
    "dget data ''code'' = Some code" "dget data ''redirect_uri'' = Some uri"
    "read_code V code cid uri (dget data ''code_verifier'') w = (Inr (Some r), w)"
    "sql_row (\<lambda>u. us_id u = ac_user r) (users_of c w) = Some u"
    "issue_code_tokens V N c cid ct r u (after_code code w) = (Inr (JsonOut d 200), w')"
proof -
  from assms have "ostr_true (dget data ''code'')" "ostr_true (dget data ''redirect_uri'')"
    by (auto simp: grant_authorization_code_def eff_simps split: if_splits)
  then obtain code uri where d: "dget data ''code'' = Some code" "dget data ''redirect_uri'' = Some uri" "code \<noteq> []" "uri \<noteq> []"
    by (auto simp: ostr_true_def split: option.splits)
  obtain y where y: "read_code V code cid uri (dget data ''code_verifier'') w = (Inr y, w)"
    using read_code_pure by blast
  show thesis
  proof (cases y)
    case None
    with assms d y show ?thesis
      by (simp add: grant_authorization_code_def validate_authorization_code_def eff_simps)
  next
    case (Some r)
    have users: "users_of c (after_code code w) = users_of c w" by (simp add: after_code_def users_of_def)
    show ?thesis
    proof (cases "sql_row (\<lambda>u. us_id u = ac_user r) (users_of c w)")
      case None
      with assms d y Some users show ?thesis
        by (simp add: grant_authorization_code_def validate_authorization_code_def token_user_def mark_code_run eff_simps)
    next
      case u: (Some u)
      with assms d y Some users
      have "issue_code_tokens V N c cid ct r u (after_code code w) = (Inr (JsonOut d 200), w')"
        by (simp add: grant_authorization_code_def validate_authorization_code_def token_user_def mark_code_run eff_simps)
      with that d y Some u show ?thesis by blast
    qed
  qed
qed

section \<open>Codes and refresh tokens are redeemed once\<close>

definition spent_code :: "world \<Rightarrow> string option \<Rightarrow> bool" where
  "spent_code w = spent_in ac_code ac_used (w_codes w)"

definition spent_refresh :: "world \<Rightarrow> string option \<Rightarrow> bool" where
  "spent_refresh w = spent_in rt_jti rt_revoked (w_refresh w)"

lemma spent_blind: "token_blind (\<lambda>w. spent_code w c)" "token_blind (\<lambda>w. spent_refresh w c)"
  by (simp_all add: token_blind_def spent_code_def spent_refresh_def)

lemma spent_stable: "refresh_stable (\<lambda>w. spent_code w c)" "refresh_stable (\<lambda>w. spent_refresh w c)"
  by (auto simp: refresh_stable_def keeps_def insert_refresh_def spent_code_def spent_refresh_def
        intro!: spent_in_append)

lemma spent_after_code:
  "spent_code w c \<Longrightarrow> spent_code (after_code code w) c"
  "r \<in> set (w_codes w) \<Longrightarrow> ac_code r = code \<Longrightarrow> spent_code (after_code code w) (Some code)"
  unfolding spent_code_def after_code_def
  by (simp_all add: spent_in_update spent_in_mark code_used_def)

lemma spent_writes:
  "keeps (\<lambda>w. spent_code w c) (mark_code_used code)" "keeps (\<lambda>w. spent_refresh w c) (mark_code_used code)"
  "keeps (\<lambda>w. spent_code w c) (revoke_refresh_token j)" "keeps (\<lambda>w. spent_refresh w c) (revoke_refresh_token j)"
  "keeps (\<lambda>w. spent_code w c) (insert_code r)" "keeps (\<lambda>w. spent_refresh w c) (insert_code r)"
  by (auto simp: keeps_def mark_code_run spent_after_code revoke_refresh_token_def insert_code_def spent_code_def
        spent_refresh_def after_code_def code_used_def intro!: spent_in_append spent_in_update)

lemma spent_token:
  "keeps (\<lambda>w. spent_code w c) (token_endpoint V N cn auth data)"
  "keeps (\<lambda>w. spent_refresh w c) (token_endpoint V N cn auth data)"
  by (intro keeps_token_endpoint spent_blind spent_stable spent_writes)+

lemma spent_consent:
  "keeps (\<lambda>w. spent_code w c) (consent_submit V N ck auth act a)"
  "keeps (\<lambda>w. spent_refresh w c) (consent_submit V N ck auth act a)"
  unfolding consent_submit_def store_authorization_code_def
  by (intro keeps_intros spent_writes token_blind_log [OF spent_blind(1)] token_blind_log [OF spent_blind(2)])+

text \<open>Requests that can create or redeem codes, each arriving at an instant of its own.\<close>

datatype oidc_event =
    ConsentEvent oidc_fresh "string option" "string option" string authz_params
  | TokenEvent oidc_fresh conn "string option" "string dict"

fun run_event :: "oidc_env \<Rightarrow> int \<times> oidc_event \<Rightarrow> world \<Rightarrow> world" where
  "run_event V (t, ConsentEvent N ck auth act a) w = snd (consent_submit V N ck auth act a (w\<lparr>w_now := t\<rparr>))"
| "run_event V (t, TokenEvent N c auth data) w = snd (token_endpoint V N c auth data (w\<lparr>w_now := t\<rparr>))"

definition answered_ok :: "exn + oidc_out \<Rightarrow> bool" where
  "answered_ok r = (case r of Inr (JsonOut d st) \<Rightarrow> st = 200 | _ \<Rightarrow> False)"

text \<open>A token request that is answered with tokens, under a grant.\<close>

fun grant_wins :: "oidc_env \<Rightarrow> string \<Rightarrow> int \<times> oidc_event \<Rightarrow> world \<Rightarrow> bool" where
  "grant_wins V g (t, TokenEvent N c auth data) w \<longleftrightarrow>
     dget data ''grant_type'' = Some g \<and> answered_ok (fst (token_endpoint V N c auth data (w\<lparr>w_now := t\<rparr>)))"
| "grant_wins V g (t, ConsentEvent N ck auth act a) w \<longleftrightarrow> False"

fun presented :: "string \<Rightarrow> int \<times> oidc_event \<Rightarrow> string option" where
  "presented k (t, TokenEvent N c auth data) = dget data k"
| "presented k (t, ConsentEvent N ck auth act a) = None"

lemma answered_okE:
  assumes "answered_ok (fst p)"
  obtains d w' where "p = (Inr (JsonOut d 200), w')"
  using assms by (cases p) (auto simp: answered_ok_def split: sum.splits oidc_out.splits)

lemma spent_now [simp]:
  "spent_code (w\<lparr>w_now := t\<rparr>) = spent_code w" "spent_refresh (w\<lparr>w_now := t\<rparr>) = spent_refresh w"
  by (simp_all add: spent_code_def spent_refresh_def)

text \<open>Events with the shape of a winning one.\<close>

lemma grant_winsE:
  assumes "grant_wins V g e s"
  obtains t N cn auth data d w' and cl :: client_row where "e = (t, TokenEvent N cn auth data)"
    "dget data ''grant_type'' = Some g" "run_event V e s = w'"
    "token_grant V N cn (oc_id cl) (oc_tenant cl) data (s\<lparr>w_now := t\<rparr>) = (Inr (JsonOut d 200), w')"
proof -
  from assms obtain t N cn auth data d w' where e: "e = (t, TokenEvent N cn auth data)"
    "dget data ''grant_type'' = Some g" "token_endpoint V N cn auth data (s\<lparr>w_now := t\<rparr>) = (Inr (JsonOut d 200), w')"
    by (cases "(''code'', e)" rule: presented.cases) (auto elim!: answered_okE)
  obtain cl :: client_row where
    "token_grant V N cn (oc_id cl) (oc_tenant cl) data (s\<lparr>w_now := t\<rparr>) = (Inr (JsonOut d 200), w')"
    by (rule token_ok [OF e(3)]) (rule that)
  with e that show thesis by simp
qed

lemma spent_run:
  "spent_code s c \<Longrightarrow> spent_code (run_event V e s) c" "spent_refresh s c \<Longrightarrow> spent_refresh (run_event V e s) c"
  by (cases "(''code'', e)" rule: presented.cases;
      auto intro!: keepsD [OF spent_consent(1)] keepsD [OF spent_token(1)]
        keepsD [OF spent_consent(2)] keepsD [OF spent_token(2)])+

lemma code_win:
  assumes "grant_wins V ''authorization_code'' e s"
  shows "spent_code (run_event V e s) (presented ''code'' e)" "\<not> spent_code s (presented ''code'' e)"
proof -
  obtain t N cn auth data d w' and cl :: client_row where e: "e = (t, TokenEvent N cn auth data)"
    "dget data ''grant_type'' = Some ''authorization_code''" "run_event V e s = w'"
    "token_grant V N cn (oc_id cl) (oc_tenant cl) data (s\<lparr>w_now := t\<rparr>) = (Inr (JsonOut d 200), w')"
    by (rule grant_winsE [OF assms]) (rule that)
  then have "grant_authorization_code V N cn (oc_id cl) (oc_tenant cl) data (s\<lparr>w_now := t\<rparr>) = (Inr (JsonOut d 200), w')"
    by (simp add: token_grant_def)
  then obtain code uri r u where k: "dget data ''code'' = Some code" "dget data ''redirect_uri'' = Some uri"
      "read_code V code (oc_id cl) uri (dget data ''code_verifier'') (s\<lparr>w_now := t\<rparr>) = (Inr (Some r), s\<lparr>w_now := t\<rparr>)"
      "sql_row (\<lambda>u. us_id u = ac_user r) (users_of cn (s\<lparr>w_now := t\<rparr>)) = Some u"
      "issue_code_tokens V N cn (oc_id cl) (oc_tenant cl) r u (after_code code (s\<lparr>w_now := t\<rparr>)) = (Inr (JsonOut d 200), w')"
    by (rule code_grant_ok) (rule that)
  have r: "r \<in> set (w_codes s)" "ac_code r = code" "\<not> ac_used r"
    using sql_row_Some [OF k(3) [unfolded read_code_Some, THEN conjunct2, THEN conjunct2]] by auto
  have "spent_code (after_code code (s\<lparr>w_now := t\<rparr>)) (Some code)"
    using r by (intro spent_after_code(2) [of r]) simp_all
  from keepsD [OF keeps_issue(1) [OF spent_blind(1) spent_stable(1)] this] k(5)
  have "spent_code w' (Some code)" by (metis snd_conv)
  then show "spent_code (run_event V e s) (presented ''code'' e)" using e k(1) by simp
  show "\<not> spent_code s (presented ''code'' e)" using e(1) k(1) r by (auto simp: spent_code_def spent_in_def)
qed

definition after_refresh :: "string \<Rightarrow> world \<Rightarrow> world" where
  "after_refresh jti w = w\<lparr>w_refresh := sql_update (\<lambda>r. rt_jti r = jti) (\<lambda>r. r\<lparr>rt_revoked := True\<rparr>) (w_refresh w)\<rparr>"

lemma revoke_refresh_run: "revoke_refresh_token jti w = (Inr (), after_refresh jti w)"
  by (simp add: revoke_refresh_token_def after_refresh_def)

lemma spent_after_refresh:
  "r \<in> set (w_refresh w) \<Longrightarrow> rt_jti r = jti \<Longrightarrow> spent_refresh (after_refresh jti w) (Some jti)"
  unfolding spent_refresh_def after_refresh_def by (simp add: spent_in_mark)

lemma refresh_grant_ok:
  assumes "grant_refresh_token V N c cid ct data w = (Inr (JsonOut d 200), w')"
  obtains jti r u where "dget data ''refresh_token'' = Some jti"
    "sql_row (refresh_valid w jti cid) (w_refresh w) = Some r"
    "sql_row (\<lambda>u. us_id u = rt_user r) (users_of c w) = Some u"
    "issue_refreshed_tokens V N c cid ct r u (after_refresh jti w) = (Inr (JsonOut d 200), w')"
proof -
  from assms obtain jti where j: "dget data ''refresh_token'' = Some jti" "jti \<noteq> []"
    by (auto simp: grant_refresh_token_def ostr_true_def eff_simps split: if_splits option.splits)
  obtain r where r: "sql_row (refresh_valid w jti cid) (w_refresh w) = Some r"
    using assms j by (auto simp: grant_refresh_token_def validate_refresh_token_def eff_simps split: option.splits)
  obtain u where u: "sql_row (\<lambda>u. us_id u = rt_user r) (users_of c w) = Some u"
    using assms j r by (auto simp: grant_refresh_token_def validate_refresh_token_def token_user_def eff_simps
          split: option.splits)
  have "issue_refreshed_tokens V N c cid ct r u (after_refresh jti w) = (Inr (JsonOut d 200), w')"
    using assms j r u
    by (simp add: grant_refresh_token_def validate_refresh_token_def token_user_def revoke_refresh_run eff_simps)
  with that j r u show thesis by blast
qed

lemma refresh_win:
  assumes "grant_wins V ''refresh_token'' e s"
  shows "spent_refresh (run_event V e s) (presented ''refresh_token'' e)"
    "\<not> spent_refresh s (presented ''refresh_token'' e)"
proof -
  obtain t N cn auth data d w' and cl :: client_row where e: "e = (t, TokenEvent N cn auth data)"
    "dget data ''grant_type'' = Some ''refresh_token''" "run_event V e s = w'"
    "token_grant V N cn (oc_id cl) (oc_tenant cl) data (s\<lparr>w_now := t\<rparr>) = (Inr (JsonOut d 200), w')"
    by (rule grant_winsE [OF assms]) (rule that)
  then have "grant_refresh_token V N cn (oc_id cl) (oc_tenant cl) data (s\<lparr>w_now := t\<rparr>) = (Inr (JsonOut d 200), w')"
    by (simp add: token_grant_def)
  then obtain jti r u where k: "dget data ''refresh_token'' = Some jti"
      "sql_row (refresh_valid (s\<lparr>w_now := t\<rparr>) jti (oc_id cl)) (w_refresh (s\<lparr>w_now := t\<rparr>)) = Some r"
      "sql_row (\<lambda>u. us_id u = rt_user r) (users_of cn (s\<lparr>w_now := t\<rparr>)) = Some u"
      "issue_refreshed_tokens V N cn (oc_id cl) (oc_tenant cl) r u (after_refresh jti (s\<lparr>w_now := t\<rparr>)) = (Inr (JsonOut d 200), w')"
    by (rule refresh_grant_ok) (rule that)
  have r: "r \<in> set (w_refresh s)" "rt_jti r = jti" "\<not> rt_revoked r"
    using sql_row_Some [OF k(2)] by (auto simp: refresh_valid_def)
  have "spent_refresh (after_refresh jti (s\<lparr>w_now := t\<rparr>)) (Some jti)"
    using r by (intro spent_after_refresh [of r]) simp_all
  from keepsD [OF keeps_issue(2) [OF spent_blind(2) spent_stable(2)] this] k(4)
  have "spent_refresh w' (Some jti)" by (metis snd_conv)
  then show "spent_refresh (run_event V e s) (presented ''refresh_token'' e)" using e k(1) by simp
  show "\<not> spent_refresh s (presented ''refresh_token'' e)" using e(1) k(1) r by (auto simp: spent_refresh_def spent_in_def)
qed

interpretation codes: one_time "run_event V" "grant_wins V ''authorization_code''" spent_code "presented ''code''" for V
  by unfold_locales (use code_win spent_run in blast)+

interpretation refresh_tokens: one_time "run_event V" "grant_wins V ''refresh_token''" spent_refresh "presented ''refresh_token''" for V
  by unfold_locales (use refresh_win spent_run in blast)+

text \<open>C15. An authorization code is redeemed at most once: in any sequence of consent submissions and
  token requests, of any clients and grants and at any instants, at most one authorization code
  request that presents the code is answered with tokens. A refresh token that was stored is used at
  most once in the same sense.\<close>

theorem one_time_credentials:
  "length (filter (\<lambda>e. presented ''code'' e = Some code)
     (winners (run_event V) (grant_wins V ''authorization_code'') es w)) \<le> 1
   \<and> length (filter (\<lambda>e. presented ''refresh_token'' e = Some jti)
     (winners (run_event V) (grant_wins V ''refresh_token'') es w)) \<le> 1"
  using codes.at_most_once refresh_tokens.at_most_once by blast

section \<open>Rotation of refresh tokens\<close>

text \<open>
  What a client may hold, abstractly: a set of live tokens. A rotation takes one out and puts a
  new one in; a failed one leaves the set alone or loses the token.
\<close>

definition live_refresh :: "world \<Rightarrow> string set" where
  "live_refresh w = rt_jti ` set (filter (\<lambda>r. \<not> rt_revoked r) (w_refresh w))"

definition rotates :: "bool \<Rightarrow> string \<Rightarrow> string \<Rightarrow> string set \<Rightarrow> string set \<Rightarrow> bool" where
  "rotates ok old new S S' \<longleftrightarrow>
     (if ok then old \<in> S \<and> new \<notin> S \<and> S' = insert new (S - {old}) else S' = S \<or> S' = S - {old})"

lemma live_after_refresh: "live_refresh (after_refresh jti w) = live_refresh w - {jti}"
proof -
  have "rt_jti ` set (filter (\<lambda>r. \<not> rt_revoked r) (sql_update (\<lambda>r. rt_jti r = jti) (\<lambda>r. r\<lparr>rt_revoked := True\<rparr>) t))
      = rt_jti ` set (filter (\<lambda>r. \<not> rt_revoked r) t) - {jti}" for t
    by (induction t) (auto simp: sql_update_def)
  then show ?thesis by (simp add: live_refresh_def after_refresh_def)
qed

lemma live_append:
  "\<not> rt_revoked r \<Longrightarrow> live_refresh (w\<lparr>w_refresh := w_refresh w @ [r]\<rparr>) = insert (rt_jti r) (live_refresh w)"
  by (simp add: live_refresh_def)

lemma fetch_policies_pure: "\<exists>x. fetch_user_policies cast c u t w = (x, w)"
  by (auto simp: fetch_user_policies_def split: sum.split)

lemma create_refresh_run:
  assumes "create_refresh_token h u t cid sc w = (r, w')"
  shows "(case r of Inl e \<Rightarrow> w' = w
     | Inr j \<Rightarrow> j = refresh_id u h \<and> j \<notin> rt_jti ` set (w_refresh w)
         \<and> live_refresh w' = insert j (live_refresh w))"
proof (cases "refresh_id u h \<in> rt_jti ` set (w_refresh w)")
  case True
  then have "\<exists>x \<in> set (w_refresh w). rt_jti x = refresh_id u h" by auto
  with assms show ?thesis by (auto simp: create_refresh_token_def insert_refresh_def eff_simps)
next
  case False
  then have "\<not> (\<exists>x \<in> set (w_refresh w). rt_jti x = refresh_id u h)" by (metis imageI)
  with assms show ?thesis
    by (auto simp: create_refresh_token_def insert_refresh_def eff_simps live_append False split: if_splits) blast
qed

lemma issue_refreshed_live:
  assumes "issue_refreshed_tokens V N c cid ct r u w = (res, w')"
  shows "if answered_ok res
         then live_refresh w' = insert (refresh_id (us_id u) (of_hex N)) (live_refresh w)
              \<and> refresh_id (us_id u) (of_hex N) \<notin> rt_jti ` set (w_refresh w)
         else live_refresh w' = live_refresh w"
proof -
  obtain x where x: "fetch_user_policies (ae_cast (oe_auth V)) c (us_id u) (rt_tenant r) w = (x, w)"
    using fetch_policies_pure by blast
  obtain y v where y: "create_refresh_token (of_hex N) (us_id u) (rt_tenant r) cid ''openid'' w = (y, v)"
    by (metis prod.exhaust)
  note run = create_refresh_run [OF y]
  show ?thesis
  proof (cases y)
    case (Inl e)
    with assms x y run show ?thesis
      by (auto simp: issue_refreshed_tokens_def ebind_run answered_ok_def split: sum.splits)
  next
    case (Inr j)
    with assms x y run show ?thesis
      by (auto simp: issue_refreshed_tokens_def ebind_run answered_ok_def split: sum.splits)
  qed
qed

text \<open>C22. The refresh grant refines the rotation of a set of live tokens: a request that is answered
  with tokens took the presented token out of the set and put one new token in; any other request
  adds none and takes out at most the presented one.\<close>

theorem refresh_grant_refines_rotation:
  assumes "grant_refresh_token V N c cid ct data w = (res, w')" "dget data ''refresh_token'' = Some jti"
  shows "\<exists>user. rotates (answered_ok res) jti (refresh_id user (of_hex N)) (live_refresh w) (live_refresh w')"
proof (cases "\<exists>r u. sql_row (refresh_valid w jti cid) (w_refresh w) = Some r
          \<and> sql_row (\<lambda>u. us_id u = rt_user r) (users_of c w) = Some u \<and> jti \<noteq> []")
  case True
  then obtain r u where r: "sql_row (refresh_valid w jti cid) (w_refresh w) = Some r"
    "sql_row (\<lambda>u. us_id u = rt_user r) (users_of c w) = Some u" "jti \<noteq> []" by blast
  then have "issue_refreshed_tokens V N c cid ct r u (after_refresh jti w) = (res, w')"
    using assms
    by (simp add: grant_refresh_token_def validate_refresh_token_def token_user_def revoke_refresh_run eff_simps)
  note live = issue_refreshed_live [OF this, unfolded live_after_refresh]
  have "jti \<in> live_refresh w"
    using sql_row_Some [OF r(1)] by (auto simp: live_refresh_def refresh_valid_def)
  moreover have "rt_jti ` set (w_refresh (after_refresh jti w)) = rt_jti ` set (w_refresh w)"
    by (simp add: after_refresh_def key_image_update)
  moreover have "live_refresh w \<subseteq> rt_jti ` set (w_refresh w)" by (auto simp: live_refresh_def)
  ultimately show ?thesis using live by (intro exI [of _ "us_id u"]) (auto simp: rotates_def split: if_splits)
next
  case False
  with assms have "w' = w \<and> \<not> answered_ok res"
    by (auto simp: grant_refresh_token_def validate_refresh_token_def token_user_def eff_simps answered_ok_def
          oauth_error_def split: if_splits option.splits)
  then show ?thesis by (simp add: rotates_def)
qed

section \<open>What a code buys\<close>

lemma access_claims:
  assumes "\<And>k. k \<in> fst ` set scope \<union> fst ` set extra \<Longrightarrow> k \<in> {''scope'', ''amr'', ''broker_iss''}"
  shows "claim_str (access_payload V n it u t a scope pol extra) ''sub'' = Some (us_email u)"
    "claim_str (access_payload V n it u t a scope pol extra) ''user_id'' = Some (us_id u)"
    "claim_str (access_payload V n it u t a scope pol extra) ''tenant_id'' = Some t"
    "claim_str (access_payload V n it u t a scope pol extra) ''role'' = us_role u"
    "claim_str (access_payload V n it u t a scope pol extra) ''aud'' = Some a"
    "claim_int (access_payload V n it u t a scope pol extra) ''exp'' = Some (n + 3600)"
    "claim_policy (access_payload V n it u t a scope pol extra) = Some pol"
proof -
  have out: "map_of scope k = None" "map_of extra k = None" if "k \<notin> {''scope'', ''amr'', ''broker_iss''}" for k
    using assms that by (auto simp: map_of_eq_None_iff)
  show "claim_str (access_payload V n it u t a scope pol extra) ''sub'' = Some (us_email u)"
    "claim_str (access_payload V n it u t a scope pol extra) ''user_id'' = Some (us_id u)"
    "claim_str (access_payload V n it u t a scope pol extra) ''tenant_id'' = Some t"
    "claim_str (access_payload V n it u t a scope pol extra) ''role'' = us_role u"
    "claim_str (access_payload V n it u t a scope pol extra) ''aud'' = Some a"
    "claim_int (access_payload V n it u t a scope pol extra) ''exp'' = Some (n + 3600)"
    by (simp_all add: access_payload_def claim_str_def claim_int_def dget_def json_opt_def out map_add_def split: option.split)
  show "claim_policy (access_payload V n it u t a scope pol extra) = Some pol"
    by (rule claim_policy_json) (simp add: access_payload_def dget_def out map_add_def)
qed

lemma issue_code_token:
  assumes "issue_code_tokens V N c cid ct r u w = (Inr (JsonOut d 200), w')"
  obtains pol t where "fst (fetch_user_policies (ae_cast (oe_auth V)) c (us_id u) (ac_tenant r) w) = Inr pol"
    "create_jwt_token (oe_tokens V) (of_ns N)
       (access_payload V (w_now w) ct u (ac_tenant r) cid [(''scope'', JStr (ac_scope r))] pol []) = Inr t"
    "dget d ''access_token'' = Some (JStr t)"
proof -
  obtain x where x: "fetch_user_policies (ae_cast (oe_auth V)) c (us_id u) (ac_tenant r) w = (x, w)"
    using fetch_policies_pure by blast
  from assms x obtain pol where pol: "x = Inr pol" by (cases x) (auto simp: issue_code_tokens_def eff_simps)
  obtain t where t: "create_jwt_token (oe_tokens V) (of_ns N)
       (access_payload V (w_now w) ct u (ac_tenant r) cid [(''scope'', JStr (ac_scope r))] pol []) = Inr t"
    using assms x pol by (auto simp: issue_code_tokens_def eff_simps split: sum.splits)
  have "\<exists>rest. d = bearer_fields t @ rest"
    using assms x pol t
    by (auto simp: issue_code_tokens_def ebind_run ethen_run simp del: append_assoc split: sum.splits prod.splits)
  then have "dget d ''access_token'' = Some (JStr t)" by (auto simp: bearer_fields_def dget_def)
  with that x pol t show thesis by simp
qed

text \<open>The access token of a code grant, with the code, the client and the user behind it.\<close>

lemma code_grant_issues:
  assumes "env_law (oe_tokens V)"
    and "token_endpoint V N c auth data w = (Inr (JsonOut d 200), w')"
    and "dget data ''grant_type'' = Some ''authorization_code''"
    and "w_now w \<le> now" "now < w_now w + 3600"
    and "\<forall>u \<in> set (w_users w). us_email u \<noteq> [] \<and> us_id u \<noteq> []" "\<forall>r \<in> set (w_codes w). ac_tenant r \<noteq> []"
  shows "\<exists>cl \<in> set (w_clients w). \<exists>r \<in> set (w_codes w). \<exists>u \<in> set (users_of c w). \<exists>t td pol.
     oc_is_active cl \<and> Some (oc_id cl) = fst (extract_client_credentials V auth data)
     \<and> Some (ac_code r) = dget data ''code'' \<and> ac_client r = oc_id cl
     \<and> Some (ac_redirect_uri r) = dget data ''redirect_uri'' \<and> \<not> ac_used r \<and> w_now w < ac_expires r
     \<and> pkce_ok (oe_s256 V) r (dget data ''code_verifier'')
     \<and> us_id u = ac_user r \<and> dget d ''access_token'' = Some (JStr t)
     \<and> verify_token (oe_tokens V) now t = Inr td
     \<and> td_email td = us_email u \<and> td_user td = ac_user r \<and> td_tenant td = ac_tenant r \<and> td_role td = us_role u
     \<and> td_aud td = Some (oc_id cl) \<and> td_policy td = Some pol
     \<and> fst (fetch_user_policies (ae_cast (oe_auth V)) c (ac_user r) (ac_tenant r) w) = Inr pol"
proof -
  let ?x = "extract_client_credentials V auth data"
  obtain cl where cl: "validate_client V (fst ?x) (snd ?x) w = (Inr (Some cl), w)"
    "token_grant V N c (oc_id cl) (oc_tenant cl) data w = (Inr (JsonOut d 200), w')"
    by (rule token_ok [OF assms(2)]) (rule that)
  then have "grant_authorization_code V N c (oc_id cl) (oc_tenant cl) data w = (Inr (JsonOut d 200), w')"
    using assms(3) by (simp add: token_grant_def)
  then obtain code uri r u where k: "dget data ''code'' = Some code" "dget data ''redirect_uri'' = Some uri"
      "read_code V code (oc_id cl) uri (dget data ''code_verifier'') w = (Inr (Some r), w)"
      "sql_row (\<lambda>u. us_id u = ac_user r) (users_of c w) = Some u"
      "issue_code_tokens V N c (oc_id cl) (oc_tenant cl) r u (after_code code w) = (Inr (JsonOut d 200), w')"
    by (rule code_grant_ok) (rule that)
  obtain pol t where t: "fst (fetch_user_policies (ae_cast (oe_auth V)) c (us_id u) (ac_tenant r) (after_code code w)) = Inr pol"
    "create_jwt_token (oe_tokens V) (of_ns N)
       (access_payload V (w_now (after_code code w)) (oc_tenant cl) u (ac_tenant r) (oc_id cl) [(''scope'', JStr (ac_scope r))] pol []) = Inr t"
    "dget d ''access_token'' = Some (JStr t)"
    by (rule issue_code_token [OF k(5)]) (rule that)
  have same: "w_now (after_code code w) = w_now w"
    "fst (fetch_user_policies cast c x y (after_code code w)) = fst (fetch_user_policies cast c x y w)" for cast x y
    by (simp_all add: after_code_def fetch_user_policies_def policies_of_def split: sum.split)
  let ?p = "access_payload V (w_now w) (oc_tenant cl) u (ac_tenant r) (oc_id cl) [(''scope'', JStr (ac_scope r))] pol []"
  obtain j where j: "te_decode (oe_tokens V) t (plain_opts ve n) = Inr (dset ''jti'' (JStr j) ?p)"
    if "\<not> ve \<or> unexpired n (dset ''jti'' (JStr j) ?p)" for ve n
    by (rule created_token [OF assms(1) t(2) [unfolded same]]) (rule that)
  have claims: "claim_str ?p ''sub'' = Some (us_email u)" "claim_str ?p ''user_id'' = Some (us_id u)"
    "claim_str ?p ''tenant_id'' = Some (ac_tenant r)" "claim_str ?p ''role'' = us_role u"
    "claim_str ?p ''aud'' = Some (oc_id cl)" "claim_int ?p ''exp'' = Some (w_now w + 3600)" "claim_policy ?p = Some pol"
    by (rule access_claims; simp)+
  have dec: "te_decode (oe_tokens V) t (plain_opts True now) = Inr (dset ''jti'' (JStr j) ?p)"
    by (rule j) (simp add: unexpired_def claims assms(5))
  note row = sql_row_Some [OF k(3) [unfolded read_code_Some, THEN conjunct2, THEN conjunct2]]
  have u: "u \<in> set (users_of c w)" "us_id u = ac_user r" using sql_row_Some [OF k(4)] by auto
  have ne: "us_email u \<noteq> []" "us_id u \<noteq> []" "ac_tenant r \<noteq> []"
    using assms(6,7) u(1) row users_of_subset [of c w] by auto
  have "\<exists>td. verify_token (oe_tokens V) now t = Inr td \<and> td_email td = us_email u \<and> td_user td = ac_user r
     \<and> td_tenant td = ac_tenant r \<and> td_role td = us_role u \<and> td_aud td = Some (oc_id cl) \<and> td_policy td = Some pol"
    using dec ne u(2) by (simp add: verify_token_def claims ostr_or_def Let_def)
  moreover have "cl \<in> set (w_clients w)" "oc_is_active cl" "Some (oc_id cl) = fst ?x"
    using cl(1) sql_row_Some [of _ "w_clients w" cl] by (auto simp: validate_client_Some)
  moreover have "pkce_ok (oe_s256 V) r (dget data ''code_verifier'')" using k(3) by (simp add: read_code_Some)
  ultimately show ?thesis using row u t(1,3) same(2) k(1,2)
    by (intro bexI [of _ cl] bexI [of _ r] bexI [of _ u] exI [of _ t]) auto
qed


section \<open>Signing in and out\<close>


lemma try_decode_ok: "te_decode E t (plain_opts True now) = Inr p \<Longrightarrow> try_decode E now t = Inr (Some p)"
  by (simp add: try_decode_def)

text \<open>Ending a session at the provider ends it on this node: with a valid id token (or any valid
  token) as hint, every open session of its subject is closed, the tokens of these sessions are
  revoked, introspection reports them inactive to whoever may ask, and the browser is sent on.\<close>

theorem end_session_revokes:
  assumes "te_decode E (t # ts) (plain_opts True (w_now w)) = Inr p"
    and "ostr_or (claim_str p ''user_id'') (claim_str p ''sub'') = Some user" "user \<noteq> []"
    and "claim_str p ''tenant_id'' = Some tenant" "tenant \<noteq> []" "bloom_law q"
  shows "\<exists>w'. end_session E (Some (t # ts)) cookie target state w
         = (Inr (RedirectTo \<lparr>url_base = logout_redirect target state, url_query = []\<rparr>), w')
     \<and> sql_select (open_sessions_of user tenant None) (w_sessions w') = []
     \<and> (\<forall>s \<in> set (w_sessions w). open_sessions_of user tenant None s \<and> ss_jti s \<noteq> [] \<longrightarrow>
          (\<forall>p' cid. claim_str p' ''jti'' = Some (ss_jti s) \<longrightarrow> introspect_jwt q p' cid w' = inactive))"
proof -
  let ?R = "revoke_all_sessions user tenant ''oidc_logout'' None w"
  note run = revoke_all_run [where user = user and tenant = tenant and reason = "''oidc_logout''" and exclude = None and w = w]
  obtain n v where v: "?R = (Inr n, v)" using run(1) by (cases ?R) auto
  have hint: "hint_user E (Some (t # ts)) w = (Inr (Some user, Some tenant), w)"
    using assms(1,2,4) by (simp add: hint_user_def eff_simps try_decode_ok)
  then obtain l where e: "end_session E (Some (t # ts)) cookie target state w
      = (Inr (RedirectTo \<lparr>url_base = logout_redirect target state, url_query = []\<rparr>), v\<lparr>w_log := l\<rparr>)"
    using assms(3,5) v by (simp add: end_session_def cookie_user_def eff_simps log_audit_run)
  have "filter (open_sessions_of user tenant None) (w_sessions v) = []"
    using run(2) v update_closes [of "open_sessions_of user tenant None"]
    by (simp add: open_sessions_of_def)
  moreover have "ss_jti s \<in> set (w_bloom v)" if "s \<in> set (w_sessions w)" "open_sessions_of user tenant None s" for s
    using run(3) v that by auto
  ultimately show ?thesis
    using e bloom_mem [OF assms(6)]
    by (intro exI [of _ "v\<lparr>w_log := l\<rparr>"])
       (auto simp: sql_select_def introspect_jwt_def token_is_revoked_def is_revoked_def inactive_def)
qed

section \<open>What the endpoints leave open\<close>

text \<open>The client credentials grant asks for no secret: knowing the public id of an active client
  is enough to be issued a token of that client.\<close>

theorem client_credentials_without_secret:
  assumes "sql_row (\<lambda>c. Some (oc_id c) = Some cid \<and> oc_is_active c) (w_clients w) = Some cl"
    and "create_jwt_token (oe_tokens V) (of_ns N) (client_payload V (w_now w) cid (oc_tenant cl)) = Inr t"
  shows "fst (token_endpoint V N c None [(''grant_type'', ''client_credentials''), (''client_id'', cid)] w)
     = Inr (JsonOut (bearer_fields t) 200)"
proof -
  have "extract_client_credentials V None [(''grant_type'', ''client_credentials''), (''client_id'', cid)] = (Some cid, None)"
    by (simp add: extract_client_credentials_def starts_with_def dget_def)
  moreover have "validate_client V (Some cid) None w = (Inr (Some cl), w)"
    using assms(1) by (simp add: validate_client_Some)
  ultimately show ?thesis
    using assms(2)
    by (simp add: token_endpoint_def token_grant_def grant_client_credentials_def ebind_run ethen_run log_audit_run dget_def)
qed

text \<open>The user info endpoint ignores revocation: its path is public, so the middleware lets every
  request through, and the endpoint answers a token that decodes with the user's data whatever has
  been revoked.\<close>

theorem userinfo_ignores_revocation:
  assumes "te_decode E t (plain_opts True (w_now w)) = Inr p" "claim_str p ''user_id'' = Some uid" "uid \<noteq> []"
    and "sql_row (\<lambda>u. us_id u = uid) (users_of c w) = Some u"
  shows "middle_ware q E h ''/api/v1/oidc/userinfo'' (Some (''Bearer '' @ t)) (w\<lparr>w_bloom := revoked\<rparr>) = Inr None
     \<and> (\<exists>d. fst (userinfo E c (Some (''Bearer '' @ t)) (w\<lparr>w_bloom := revoked\<rparr>)) = Inr (JsonOut d 200)
          \<and> dget d ''email'' = Some (JStr (us_email u)))"
proof
  have "is_public ''/api/v1/oidc/userinfo''" by code_simp
  then show "middle_ware q E h ''/api/v1/oidc/userinfo'' (Some (''Bearer '' @ t)) (w\<lparr>w_bloom := revoked\<rparr>) = Inr None"
    by (simp add: middle_ware_def)
  have "users_of c (w\<lparr>w_bloom := revoked\<rparr>) = users_of c w" by (simp add: users_of_def)
  then show "\<exists>d. fst (userinfo E c (Some (''Bearer '' @ t)) (w\<lparr>w_bloom := revoked\<rparr>)) = Inr (JsonOut d 200)
          \<and> dget d ''email'' = Some (JStr (us_email u))"
    using assms by (simp add: userinfo_def starts_with_def token_user_def try_decode_ok ebind_run dget_def)
qed

text \<open>The registered redirect addresses protect the authorization endpoint only: there an address
  that is not registered is refused, but the consent form, which the browser submits, sends a fresh
  code to any address it names.\<close>

theorem redirect_checked_at_authorize_only:
  assumes "sql_row (\<lambda>c. oc_id c = ap_client a \<and> oc_is_active c) (w_clients w) = Some cl"
    and "ap_redirect a \<notin> set (oc_redirect_uris cl)"
    and "ostr_true cookie" "te_decode (oe_tokens V) (the cookie) (plain_opts True (w_now w)) = Inr u"
    and "dget u ''user_id'' = Some (JStr uid)" "dget u ''tenant_id'' = Some (JStr tid)"
    and "\<exists>x \<in> set (w_users w). us_id x = uid" "\<exists>x \<in> set (w_tenants w). tn_id x = tid"
    and "\<forall>x \<in> set (w_codes w). ac_id x \<noteq> of_code_id N \<and> ac_code x \<noteq> of_code N" "act \<noteq> ''deny''"
  shows "fst (authorize_endpoint V N accept cookie auth a pid local w)
       \<in> {Inr (ApiError ''invalid_redirect_uri'' ''Invalid redirect URI'' 400),
          Inr (ErrorPage ''Invalid Redirect'' ''invalid_redirect_uri'' 400)}
     \<and> fst (consent_submit V N cookie auth act a w)
       = Inr (RedirectTo \<lparr>url_base = ap_redirect a, url_query = [(''code'', of_code N)] @ state_param a\<rparr>)"
proof
  have cl: "validate_client V (Some (ap_client a)) None w = (Inr (Some cl), w)"
    using assms(1) by (simp add: validate_client_Some)
  have ok: "validate_redirect_uri (ap_client a) (ap_redirect a) w = (Inr False, w)"
    using assms(1,2) by (simp add: validate_redirect_uri_def)
  show "fst (authorize_endpoint V N accept cookie auth a pid local w)
       \<in> {Inr (ApiError ''invalid_redirect_uri'' ''Invalid redirect URI'' 400),
          Inr (ErrorPage ''Invalid Redirect'' ''invalid_redirect_uri'' 400)}"
    using cl ok by (simp add: authorize_endpoint_def ebind_run Let_def)
  have "u \<noteq> []" using assms(5) by auto
  then have su: "get_session_user (oe_tokens V) cookie auth w = (Inr (Some u), w)" "signed_in (Some u) = Some u"
    using assms(3,4) by (simp_all add: get_session_user_def ebind_run try_decode_ok signed_in_def)
  have "\<exists>x \<in> set (w_clients w). oc_id x = ap_client a" using sql_row_Some [OF assms(1)] by blast
  then have "fst (store_authorization_code (of_code_id N) (of_code N) (ap_client a) uid tid (ap_redirect a) sc ch me no w)
      = Inr ()" for sc ch me no
    using assms(7-9) by (auto simp: store_authorization_code_def insert_code_def ebind_run)
  then obtain v where "store_authorization_code (of_code_id N) (of_code N) (ap_client a) uid tid (ap_redirect a) (ap_scope a)
      (ap_challenge (form_params a)) (ap_method (form_params a)) (ap_nonce (form_params a)) w = (Inr (), v)"
    by (metis prod.collapse)
  then show "fst (consent_submit V N cookie auth act a w)
       = Inr (RedirectTo \<lparr>url_base = ap_redirect a, url_query = [(''code'', of_code N)] @ state_param a\<rparr>)"
    using su assms(5,6,10) by (simp add: consent_submit_def ebind_run ethen_run claim_column_def log_audit_run)
qed

text \<open>
  Two requests whose checks both run before either update both get the code's row: single use
  holds for requests that follow one another, not for requests that overlap.
\<close>

lemma overlapping_redemptions:
  assumes "fst (read_code V code cid uri ver w) = Inr (Some r)"
  shows "let w1 = snd (read_code V code cid uri ver w); (second, w2) = read_code V code cid uri ver w1;
             w3 = snd (mark_code_used code w2); w4 = snd (mark_code_used code w3)
         in second = Inr (Some r) \<and> spent_code w4 (Some code)"
proof -
  have r: "read_code V code cid uri ver w = (Inr (Some r), w)"
    using assms read_code_pure [of V code cid uri ver w] by auto
  then have "r \<in> set (w_codes w)" "ac_code r = code" by (auto simp: read_code_Some dest: sql_row_Some)
  then show ?thesis using r spent_after_code by (simp add: mark_code_run)
qed

section \<open>The endpoints at work\<close>

text \<open>A token library that knows the given tokens, signed by a manager with HS256.\<close>

definition hs_entry :: "string \<Rightarrow> string \<Rightarrow> json dict \<Rightarrow> string \<times> json dict \<times> string \<times> string \<times> json dict" where
  "hs_entry t jti p = (t, dset ''jti'' (JStr jti) p, ''s'', ''HS256'', [(''jti'', JStr jti)])"

definition hs_tokens :: "jwt_table \<Rightarrow> tok_env" where
  "hs_tokens tbl = manager_env (table_jwt tbl []) (demo_instant 0 [])
     (demo_manager\<lparr>km_algorithm := ''HS256'', km_secret := ''s''\<rparr>) None"

lemma hs_tokens_law: "distinct (map fst tbl) \<Longrightarrow> env_law (hs_tokens tbl)"
  unfolding hs_tokens_def
proof (rule hs256_env_law)
  fix ve now p
  assume "\<not> ve \<or> unexpired now p"
  then show "jl_claims (table_jwt tbl []) (plain_opts ve now) p = None"
    by (auto simp: table_jwt_def plain_opts_def unexpired_def claim_int_def split: option.splits json.splits)
qed (simp_all add: jwt_law_table)

definition demo_code_claims :: "json dict" where
  "demo_code_claims =
     [(''sub'', JStr ''a@x''), (''iss'', JStr ''https://hex/t1''), (''user_id'', JStr ''u1''), (''tenant_id'', JStr ''t1''),
      (''aud'', JStr ''app''), (''role'', JStr ''member''), (''scope'', JStr ''api''),
      (''policy'', JObj [(''doc'', JInt 1)]), (''exp'', JInt 3700), (''iat'', JInt 100)]"

definition demo_refresh_claims :: "json dict" where
  "demo_refresh_claims = ddel ''scope'' demo_code_claims"

definition demo_client_claims :: "json dict" where
  "demo_client_claims =
     [(''sub'', JStr ''app''), (''iss'', JStr ''https://hex/t1''), (''client_id'', JStr ''app''), (''aud'', JStr ''app''),
      (''tenant_id'', JStr ''t1''), (''grant_type'', JStr ''client_credentials''), (''exp'', JInt 3700), (''iat'', JInt 100)]"

definition demo_session_claims :: "json dict" where
  "demo_session_claims =
     [(''sub'', JStr ''a@x''), (''iss'', JStr ''https://hex/t1''), (''aud'', JStr ''app''), (''user_id'', JStr ''u1''),
      (''tenant_id'', JStr ''t1''), (''first_name'', JStr []), (''last_name'', JStr []), (''role'', JStr ''member''),
      (''exp'', JInt 3700), (''iat'', JInt 100)]"

definition demo_oidc :: oidc_env where
  "demo_oidc =
     \<lparr>oe_auth = demo_auth\<lparr>ae_tokens := hs_tokens
        [hs_entry ''code-at'' ''u1-7'' demo_code_claims, hs_entry ''refresh-at'' ''u1-7'' demo_refresh_claims,
         hs_entry ''client-at'' ''app-7'' demo_client_claims, hs_entry ''cookie'' ''u1-7'' demo_session_claims]\<rparr>,
      oe_fed = \<lparr>fe_get = (\<lambda>_ _. Inl HttpxTimeout), fe_post = (\<lambda>_ _ _. Inl HttpxTimeout),
                fe_unverified = (\<lambda>_. Inl (JwtErr DecodeError)), fe_jwk = (\<lambda>_ _. Inl HttpxTimeout),
                fe_hmac_decode = (\<lambda>_ _ _ _. Inl (JwtErr DecodeError)), fe_key_decode = (\<lambda>_ _ _ _. Inl (JwtErr DecodeError))\<rparr>,
      oe_s256 = (\<lambda>v. v @ ''=''), oe_b64decode = (\<lambda>_. None), oe_base_url = ''https://iam'', oe_domain = ''hex'',
      oe_exc_text = (\<lambda>_. [])\<rparr>"

lemma demo_oidc_law: "env_law (oe_tokens demo_oidc)"
  by (simp add: demo_oidc_def hs_tokens_law hs_entry_def)

definition demo_fresh :: oidc_fresh where
  "demo_fresh = \<lparr>of_code = ''c9'', of_code_id = ''i9'', of_hex = ''h9'', of_ns = 7, of_ns_id = 8, of_txn = ''x9'',
     of_state = ''st9'', of_nonce = ''n9'', of_ids = demo_ids\<rparr>"

definition demo_client :: client_row where
  "demo_client = \<lparr>oc_id = ''app'', oc_tenant = ''t1'', oc_secret = ''cs'', oc_name = ''App'',
     oc_redirect_uris = [''https://app/cb''], oc_scopes = [''openid''], oc_is_active = True, oc_created = 0, oc_modified = 0\<rparr>"

definition demo_code :: code_row where
  "demo_code = \<lparr>ac_id = ''i1'', ac_code = ''c1'', ac_client = ''app'', ac_user = ''u1'', ac_tenant = ''t1'',
     ac_redirect_uri = ''https://app/cb'', ac_scope = ''api'', ac_challenge = Some ''v'', ac_method = Some ''S256'',
     ac_nonce = None, ac_used = False, ac_expires = 200\<rparr>"

definition demo_refresh :: refresh_row where
  "demo_refresh = \<lparr>rt_jti = ''r1'', rt_user = ''u1'', rt_tenant = ''t1'', rt_client = ''app'', rt_expires = 300,
     rt_revoked = False, rt_created = 0\<rparr>"

definition oidc_demo :: world where
  "oidc_demo = policy_demo\<lparr>w_clients := [demo_client], w_codes := [demo_code], w_refresh := [demo_refresh]\<rparr>"

definition demo_code_request :: "string \<Rightarrow> string dict" where
  "demo_code_request verifier =
     [(''grant_type'', ''authorization_code''), (''client_id'', ''app''), (''client_secret'', ''cs''), (''code'', ''c1''),
      (''redirect_uri'', ''https://app/cb''), (''code_verifier'', verifier)]"

definition demo_refresh_request :: "string dict" where
  "demo_refresh_request =
     [(''grant_type'', ''refresh_token''), (''client_id'', ''app''), (''client_secret'', ''cs''), (''refresh_token'', ''r1'')]"

lemma demo_code_grant:
  "fst (token_endpoint demo_oidc demo_fresh (TenantConn ''t1'') None (demo_code_request ''v'') oidc_demo)
     = Inr (JsonOut (bearer_fields ''code-at'' @ [(''refresh_token'', JStr ''u1-refresh-h9''), (''scope'', JStr ''api'')]) 200)"
  "\<not> answered_ok (fst (token_endpoint demo_oidc demo_fresh (TenantConn ''t1'') None (demo_code_request ''w'') oidc_demo))"
  by code_simp+

lemma demo_refresh_grant:
  "answered_ok (fst (grant_refresh_token demo_oidc demo_fresh (TenantConn ''t1'') ''app'' ''t1'' demo_refresh_request oidc_demo))"
  by code_simp

text \<open>The second of two equal redemptions loses.\<close>

lemma demo_redeemed_once:
  "map fst (winners (run_event demo_oidc) (grant_wins demo_oidc ''authorization_code'')
     [(100, TokenEvent demo_fresh (TenantConn ''t1'') None (demo_code_request ''v'')),
      (101, TokenEvent demo_fresh (TenantConn ''t1'') None (demo_code_request ''v''))] oidc_demo) = [100]"
  by code_simp


theorem refresh_grant_refines_rotation_witness:
  "\<exists>user. rotates True ''r1'' (refresh_id user ''h9'') (live_refresh oidc_demo)
     (live_refresh (snd (grant_refresh_token demo_oidc demo_fresh (TenantConn ''t1'') ''app'' ''t1'' demo_refresh_request oidc_demo)))"
proof -
  let ?r = "grant_refresh_token demo_oidc demo_fresh (TenantConn ''t1'') ''app'' ''t1'' demo_refresh_request oidc_demo"
  have "dget demo_refresh_request ''refresh_token'' = Some ''r1''" "?r = (fst ?r, snd ?r)"
    by (simp_all add: demo_refresh_request_def dget_def)
  from refresh_grant_refines_rotation [OF this(2,1)] demo_refresh_grant show ?thesis
    by (simp add: demo_fresh_def)
qed

definition demo_params :: "string \<Rightarrow> authz_params" where
  "demo_params uri = \<lparr>ap_client = ''app'', ap_redirect = uri, ap_response_type = ''code'', ap_scope = ''openid'',
     ap_state = Some ''xyz'', ap_nonce = Some [], ap_challenge = Some [], ap_method = Some []\<rparr>"


definition id_claims :: "json dict" where
  "id_claims = dset ''jti'' (JStr ''u1-7'') demo_session_claims"

lemma demo_cookie: "te_decode (oe_tokens demo_oidc) ''cookie'' (plain_opts True (w_now oidc_demo)) = Inr id_claims"
  by code_simp

theorem end_session_revokes_witness:
  "\<exists>w'. sql_select (open_sessions_of ''u1'' ''t1'' None) (w_sessions w') = []
     \<and> introspect_jwt exact_bloom [(''jti'', JStr ''j1'')] ''app'' w' = inactive"
proof -
  have c: "ostr_or (claim_str id_claims ''user_id'') (claim_str id_claims ''sub'') = Some ''u1''"
    "claim_str id_claims ''tenant_id'' = Some ''t1''"
    by code_simp+
  have s: "demo_session ''j1'' ''u1'' ''t1'' 10 \<in> set (w_sessions oidc_demo)"
    "open_sessions_of ''u1'' ''t1'' None (demo_session ''j1'' ''u1'' ''t1'' 10)"
    "claim_str [(''jti'', JStr ''j1'')] ''jti'' = Some (ss_jti (demo_session ''j1'' ''u1'' ''t1'' 10))"
    by (simp_all add: oidc_demo_def policy_demo_def demo_session_def open_sessions_of_def claim_str_def dget_def)
  show ?thesis
    using end_session_revokes [OF demo_cookie c(1) _ c(2) _ bloom_law_exact, of None None None] s
    by (auto simp: demo_session_def)
qed

theorem client_credentials_without_secret_witness:
  "fst (token_endpoint demo_oidc demo_fresh (TenantConn ''t1'') None
     [(''grant_type'', ''client_credentials''), (''client_id'', ''app'')] oidc_demo)
   = Inr (JsonOut (bearer_fields ''client-at'') 200)"
proof (rule client_credentials_without_secret [where cl = demo_client])
  show "sql_row (\<lambda>c. Some (oc_id c) = Some ''app'' \<and> oc_is_active c) (w_clients oidc_demo) = Some demo_client"
    by (simp add: oidc_demo_def demo_client_def sql_row_def)
  show "create_jwt_token (oe_tokens demo_oidc) (of_ns demo_fresh)
      (client_payload demo_oidc (w_now oidc_demo) ''app'' (oc_tenant demo_client)) = Inr ''client-at''"
    by code_simp
qed

theorem userinfo_ignores_revocation_witness:
  "\<exists>d. fst (userinfo (oe_tokens demo_oidc) (TenantConn ''t1'') (Some ''Bearer cookie'') (oidc_demo\<lparr>w_bloom := [''u1-7'']\<rparr>))
     = Inr (JsonOut d 200)"
proof -
  have "claim_str id_claims ''user_id'' = Some ''u1''"
    "sql_row (\<lambda>u. us_id u = ''u1'') (users_of (TenantConn ''t1'') oidc_demo) = Some (hd (w_users policy_demo))"
    by (code_simp, simp add: oidc_demo_def policy_demo_def users_of_def sql_row_def)
  from userinfo_ignores_revocation [OF demo_cookie this(1) _ this(2), of exact_bloom no_html "[''u1-7'']"]
  show ?thesis by auto
qed

theorem redirect_checked_at_authorize_only_witness:
  "fst (consent_submit demo_oidc demo_fresh (Some ''cookie'') None ''allow'' (demo_params ''https://evil/'') oidc_demo)
   = Inr (RedirectTo \<lparr>url_base = ''https://evil/'', url_query = [(''code'', ''c9''), (''state'', ''xyz'')]\<rparr>)"
proof -
  let ?a = "demo_params ''https://evil/''"
  have "sql_row (\<lambda>c. oc_id c = ap_client ?a \<and> oc_is_active c) (w_clients oidc_demo) = Some demo_client"
    "ap_redirect ?a \<notin> set (oc_redirect_uris demo_client)" "ostr_true (Some ''cookie'')"
    by (simp_all add: demo_params_def oidc_demo_def demo_client_def sql_row_def)
  moreover have "te_decode (oe_tokens demo_oidc) (the (Some ''cookie'')) (plain_opts True (w_now oidc_demo)) = Inr id_claims"
    using demo_cookie by simp
  moreover have "dget id_claims ''user_id'' = Some (JStr ''u1'')" "dget id_claims ''tenant_id'' = Some (JStr ''t1'')"
    by code_simp+
  moreover have "\<exists>x \<in> set (w_users oidc_demo). us_id x = ''u1''" "\<exists>x \<in> set (w_tenants oidc_demo). tn_id x = ''t1''"
    "\<forall>x \<in> set (w_codes oidc_demo). ac_id x \<noteq> of_code_id demo_fresh \<and> ac_code x \<noteq> of_code demo_fresh" "''allow'' \<noteq> ''deny''"
    by (simp_all add: oidc_demo_def policy_demo_def demo_code_def demo_fresh_def)
  ultimately show ?thesis
    using redirect_checked_at_authorize_only [of ?a oidc_demo demo_client "Some ''cookie''" demo_oidc id_claims "''u1''" "''t1''"
        demo_fresh "''allow''"]
    by (simp add: demo_params_def state_param_def demo_fresh_def)
qed

end
