(* ===== verification/Clients.thy ===== *)
theory Clients
  imports Oidc
begin

text \<open>
  Management of OpenID Connect clients (app/sso/oidc/clients.py). The random values and bcrypt's
  hash are arguments. The table is not under row level security: what keeps tenants apart is the
  tenant of the token in every statement. No endpoint looks at the caller's role.
\<close>

section \<open>Clients and their secrets\<close>

record client_random =
  cr_hex :: string
  cr_secret :: string
  cr_salt :: string

definition generate_client_id :: "client_random \<Rightarrow> string" where
  "generate_client_id N = ''client_'' @ cr_hex N"

definition hash_client_secret :: "(string \<Rightarrow> string \<Rightarrow> string) \<Rightarrow> client_random \<Rightarrow> string" where
  "hash_client_secret bcrypt N = bcrypt (cr_salt N) (cr_secret N)"

record client_view =
  cw_id :: string
  cw_secret :: "string option"
  cw_name :: string
  cw_redirect_uris :: "string list"
  cw_scopes :: "string list"
  cw_meta :: "(bool \<times> int \<times> int) option"

text \<open>
  \<open>cw_secret\<close> is shown by registration only; \<open>cw_meta\<close>, the flag and the two times, by the two
  reading endpoints.
\<close>

definition client_view_of :: "client_row \<Rightarrow> client_view" where
  "client_view_of c =
     \<lparr>cw_id = oc_id c, cw_secret = None, cw_name = oc_name c, cw_redirect_uris = oc_redirect_uris c,
      cw_scopes = oc_scopes c, cw_meta = Some (oc_is_active c, oc_created c, oc_modified c)\<rparr>"

definition own_client :: "string \<Rightarrow> string \<Rightarrow> client_row \<Rightarrow> bool" where
  "own_client client_id tenant c \<longleftrightarrow> oc_id c = client_id \<and> oc_tenant c = tenant"

definition insert_client :: "client_row \<Rightarrow> unit svc" where
  "insert_client r = (\<lambda>w.
     if \<exists>c \<in> set (w_clients w). oc_id c = oc_id r then (Inl (DbErr UniqueViolationError), w)
     else if \<forall>t \<in> set (w_tenants w). tn_id t \<noteq> oc_tenant r then (Inl (DbErr ForeignKeyViolationError), w)
     else (Inr (), w\<lparr>w_clients := w_clients w @ [r]\<rparr>))"

definition client_audit :: "string \<Rightarrow> string \<Rightarrow> token_data \<Rightarrow> string \<Rightarrow> unit svc" where
  "client_audit resource action auth decision =
     log_audit action [(''user_id'', jstr (td_user auth)), (''resource'', jstr resource),
       (''tenant_id'', jstr (td_tenant auth)), (''decision'', jstr decision)]"

definition no_client :: "'a reply" where
  "no_client = Failure (error_response ''not_found'' ''Client not found'' 404 None None)"

section \<open>The endpoints\<close>

definition register_client ::
    "(string \<Rightarrow> string \<Rightarrow> string) \<Rightarrow> client_random \<Rightarrow> string \<Rightarrow> string list \<Rightarrow> string list \<Rightarrow> token_data \<Rightarrow>
     client_view reply svc" where
  "register_client bcrypt N name uris scopes auth =
     ebind (eget w_now) (\<lambda>now.
     ethen (insert_client \<lparr>oc_id = generate_client_id N, oc_tenant = td_tenant auth, oc_secret = hash_client_secret bcrypt N,
              oc_name = name, oc_redirect_uris = uris, oc_scopes = scopes, oc_is_active = True, oc_created = now,
              oc_modified = now\<rparr>)
    (ethen (client_audit ''/oidc/clients'' ''client_registered'' auth (''Client '' @ quoted name @ '' registered''))
    (eret (created_response \<lparr>cw_id = generate_client_id N, cw_secret = Some (cr_secret N), cw_name = name,
             cw_redirect_uris = uris, cw_scopes = scopes, cw_meta = None\<rparr> ''Client registered successfully''))))"

definition list_clients :: "token_data \<Rightarrow> client_view list reply svc" where
  "list_clients auth =
     ebind (eget (\<lambda>w. sort_key (\<lambda>c. - oc_created c) (sql_select (\<lambda>c. oc_tenant c = td_tenant auth) (w_clients w)))) (\<lambda>cs.
     eret (success_response (map client_view_of cs) (''Found '' @ digits_of (length cs) @ '' clients'')))"

definition find_client :: "string \<Rightarrow> token_data \<Rightarrow> client_row option svc" where
  "find_client client_id auth = eget (\<lambda>w. sql_row (own_client client_id (td_tenant auth)) (w_clients w))"

definition get_client :: "string \<Rightarrow> token_data \<Rightarrow> client_view reply svc" where
  "get_client client_id auth =
     ebind (find_client client_id auth) (\<lambda>c.
     case c of None \<Rightarrow> eret no_client | Some r \<Rightarrow> eret (Success (Some (client_view_of r)) None 200))"

text \<open>An empty list or name counts as not given.\<close>

definition update_client ::
    "string \<Rightarrow> string option \<Rightarrow> string list option \<Rightarrow> string list option \<Rightarrow> token_data \<Rightarrow> client_view reply svc" where
  "update_client client_id name uris scopes auth =
     ebind (find_client client_id auth) (\<lambda>c.
     case c of None \<Rightarrow> eret no_client
     | Some r \<Rightarrow>
        (let nm = (if ostr_true name then the name else oc_name r);
             us = (case uris of Some (u # ur) \<Rightarrow> u # ur | _ \<Rightarrow> oc_redirect_uris r);
             ss = (case scopes of Some (s # sr) \<Rightarrow> s # sr | _ \<Rightarrow> oc_scopes r) in
         ethen (emod (\<lambda>w. w\<lparr>w_clients := sql_update (own_client client_id (td_tenant auth))
                        (\<lambda>x. x\<lparr>oc_name := nm, oc_redirect_uris := us, oc_scopes := ss, oc_modified := w_now w\<rparr>) (w_clients w)\<rparr>))
        (ethen (client_audit (''/oidc/clients/'' @ client_id) ''client_updated'' auth ''Client configuration updated'')
        (eret (success_response \<lparr>cw_id = client_id, cw_secret = None, cw_name = nm, cw_redirect_uris = us, cw_scopes = ss,
                 cw_meta = None\<rparr> ''Client updated successfully'')))))"

definition rotate_client_secret ::
    "(string \<Rightarrow> string \<Rightarrow> string) \<Rightarrow> client_random \<Rightarrow> string \<Rightarrow> token_data \<Rightarrow> (string \<times> string) reply svc" where
  "rotate_client_secret bcrypt N client_id auth =
     ebind (find_client client_id auth) (\<lambda>c.
     case c of None \<Rightarrow> eret no_client
     | Some r \<Rightarrow>
         ethen (emod (\<lambda>w. w\<lparr>w_clients := sql_update (own_client client_id (td_tenant auth))
                        (\<lambda>x. x\<lparr>oc_secret := hash_client_secret bcrypt N, oc_modified := w_now w\<rparr>) (w_clients w)\<rparr>))
        (ethen (client_audit (''/oidc/clients/'' @ client_id) ''client_secret_rotated'' auth ''Client secret rotated'')
        (eret (success_response (client_id, cr_secret N) ''Client secret rotated successfully''))))"

text \<open>
  The delete takes with it the client's codes and federation transactions and clears it from the
  invitations (foreign keys of migrations 0010, 0011 and 0020); refresh tokens do not refer to it.
\<close>

definition drop_client :: "string \<Rightarrow> string \<Rightarrow> world \<Rightarrow> world" where
  "drop_client client_id tenant w =
     w\<lparr>w_clients := sql_delete (own_client client_id tenant) (w_clients w),
       w_codes := sql_delete (\<lambda>r. ac_client r = client_id) (w_codes w),
       w_txns := sql_delete (\<lambda>r. ft_client r = client_id) (w_txns w),
       w_invites := sql_update (\<lambda>r. iv_client r = Some client_id) (\<lambda>r. r\<lparr>iv_client := None\<rparr>) (w_invites w)\<rparr>"

definition delete_client :: "string \<Rightarrow> token_data \<Rightarrow> client_view reply svc" where
  "delete_client client_id auth =
     ebind (find_client client_id auth) (\<lambda>c.
     case c of None \<Rightarrow> eret no_client
     | Some r \<Rightarrow>
         ethen (emod (drop_client client_id (td_tenant auth)))
        (ethen (client_audit (''/oidc/clients/'' @ client_id) ''client_deleted'' auth ''Client deleted'')
        (eret (Success None (Some ''Client deleted successfully'') 200))))"

section \<open>What the operations do\<close>

lemma client_audit_run: "\<exists>l. client_audit r a auth d w = (Inr (), w\<lparr>w_log := l\<rparr>)"
  unfolding client_audit_def log_audit_run by blast

lemma find_client_run: "find_client cid auth w = (Inr (sql_row (own_client cid (td_tenant auth)) (w_clients w)), w)"
  by (simp add: find_client_def)

text \<open>Identifiers of clients are unique: the primary key.\<close>

definition client_keys :: "world \<Rightarrow> bool" where
  "client_keys w \<longleftrightarrow> distinct (map oc_id (w_clients w))"

lemma client_unique:
  "client_keys w \<Longrightarrow> c \<in> set (w_clients w) \<Longrightarrow> d \<in> set (w_clients w) \<Longrightarrow> oc_id c = oc_id d \<Longrightarrow> c = d"
  by (auto simp: client_keys_def distinct_map inj_on_def)

lemma register_run:
  assumes "register_client bcrypt N name uris scopes auth w = (Inr rep, w1)"
  obtains row v where "oc_id row = generate_client_id N" "oc_tenant row = td_tenant auth" "oc_is_active row"
    "oc_secret row = hash_client_secret bcrypt N" "w_clients w1 = w_clients w @ [row]"
    "\<forall>c \<in> set (w_clients w). oc_id c \<noteq> generate_client_id N"
    "rep = created_response v ''Client registered successfully''" "cw_id v = generate_client_id N"
    "cw_secret v = Some (cr_secret N)"
proof -
  let ?row = "\<lparr>oc_id = generate_client_id N, oc_tenant = td_tenant auth, oc_secret = hash_client_secret bcrypt N,
      oc_name = name, oc_redirect_uris = uris, oc_scopes = scopes, oc_is_active = True, oc_created = w_now w,
      oc_modified = w_now w\<rparr>"
  have new: "insert_client ?row w = (Inr (), w\<lparr>w_clients := w_clients w @ [?row]\<rparr>)"
    "\<forall>c \<in> set (w_clients w). oc_id c \<noteq> generate_client_id N"
    using assms by (auto simp: register_client_def insert_client_def eff_simps split: if_splits)
  obtain l where "w1 = w\<lparr>w_clients := w_clients w @ [?row], w_log := l\<rparr>"
    using assms new(1) by (auto simp: register_client_def client_audit_def log_audit_run eff_simps)
  with new assms show ?thesis
    by (intro that [of ?row "\<lparr>cw_id = generate_client_id N, cw_secret = Some (cr_secret N), cw_name = name,
             cw_redirect_uris = uris, cw_scopes = scopes, cw_meta = None\<rparr>"])
      (auto simp: register_client_def client_audit_def log_audit_run eff_simps)
qed

text \<open>C28. The secrets of a client, from registration to rotation: the client_id and secret answered by
  a registration authenticate the client; a rotation by the same tenant succeeds, the secret it
  answers authenticates, and every other secret, the old one included, is refused unless bcrypt takes
  it for the new one.\<close>

theorem client_secret_lifecycle:
  fixes N2 :: client_random
  assumes bcrypt: "\<And>salt x. ae_checkpw (oe_auth V) x (bcrypt salt x)"
    and reg: "register_client bcrypt N name uris scopes auth w = (Inr rep, w1)"
  defines "w2 \<equiv> snd (rotate_client_secret bcrypt N2 (generate_client_id N) auth w1)"
  shows "\<exists>v c1 c2. rep = created_response v ''Client registered successfully'' \<and> cw_id v = generate_client_id N
    \<and> validate_client V (Some (cw_id v)) (cw_secret v) w1 = (Inr (Some c1), w1) \<and> oc_tenant c1 = td_tenant auth
    \<and> fst (rotate_client_secret bcrypt N2 (generate_client_id N) auth w1)
        = Inr (success_response (cw_id v, cr_secret N2) ''Client secret rotated successfully'')
    \<and> validate_client V (Some (cw_id v)) (Some (cr_secret N2)) w2 = (Inr (Some c2), w2) \<and> oc_tenant c2 = td_tenant auth
    \<and> (\<forall>s. s \<noteq> [] \<and> \<not> ae_checkpw (oe_auth V) s (hash_client_secret bcrypt N2)
          \<longrightarrow> validate_client V (Some (cw_id v)) (Some s) w2 = (Inr None, w2))"
  using reg
proof (rule register_run)
  fix row v
  assume r: "oc_id row = generate_client_id N" "oc_tenant row = td_tenant auth" "oc_is_active row"
    "oc_secret row = hash_client_secret bcrypt N" "w_clients w1 = w_clients w @ [row]"
    "\<forall>c \<in> set (w_clients w). oc_id c \<noteq> generate_client_id N"
    "rep = created_response v ''Client registered successfully''" "cw_id v = generate_client_id N"
    "cw_secret v = Some (cr_secret N)"
  let ?own = "own_client (generate_client_id N) (td_tenant auth)"
  let ?new = "\<lambda>x. x\<lparr>oc_secret := hash_client_secret bcrypt N2, oc_modified := w_now w1\<rparr>"
  have old: "sql_row (\<lambda>c. oc_id c = generate_client_id N \<and> P c) (w_clients w) = None" for P
    using r(6) by (simp add: sql_row_None)
  have find: "sql_row (\<lambda>c. Some (oc_id c) = Some (generate_client_id N) \<and> oc_is_active c) (w_clients w1) = Some row"
    using old r(1,3,5) by (simp add: sql_row_append) (simp add: sql_row_def)
  have own: "sql_row ?own (w_clients w1) = Some row"
    using old [of "\<lambda>c. oc_tenant c = td_tenant auth"] r(1,2,5)
    unfolding own_client_def [abs_def] by (simp add: sql_row_append) (simp add: sql_row_def)
  obtain l where w2: "rotate_client_secret bcrypt N2 (generate_client_id N) auth w1
      = (Inr (success_response (generate_client_id N, cr_secret N2) ''Client secret rotated successfully''),
         w1\<lparr>w_clients := sql_update ?own ?new (w_clients w1), w_log := l\<rparr>)"
    using own by (simp add: rotate_client_secret_def find_client_run client_audit_def log_audit_run eff_simps)
  have "sql_row (\<lambda>c. Some (oc_id c) = Some (generate_client_id N) \<and> oc_is_active c) (w_clients w2) = Some (?new row)"
    using find r(1,2) by (simp add: w2_def w2 sql_row_update_keep own_client_def)
  with find r w2 bcrypt show ?thesis
    by (intro exI [of _ v] exI [of _ row] exI [of _ "?new row"])
      (auto simp: validate_client_def hash_client_secret_def w2_def eff_simps)
qed

definition client_admin :: "string \<Rightarrow> token_data" where
  "client_admin t = \<lparr>td_email = ''a@a'', td_tenant = t, td_policy = None, td_role = None, td_user = ''u'', td_exp = None,
     td_iat = None, td_aud = None\<rparr>"

definition client_values :: "string \<Rightarrow> string \<Rightarrow> client_random" where
  "client_values h s = \<lparr>cr_hex = h, cr_secret = s, cr_salt = ''x''\<rparr>"

lemma client_demo_register:
  "\<exists>rep w1. register_client (\<lambda>_ s. s) (client_values ''01'' ''s1'') ''New'' [] [] (client_admin ''t1'') oidc_demo = (Inr rep, w1)"
  by (simp add: register_client_def insert_client_def client_audit_def log_audit_run generate_client_id_def eff_simps
      client_admin_def client_values_def oidc_demo_def demo_client_def policy_demo_def empty_world_def)

theorem client_secret_lifecycle_witness:
  "\<exists>w2. validate_client demo_oidc (Some ''client_01'') (Some ''s1'') w2 = (Inr None, w2)
    \<and> fst (validate_client demo_oidc (Some ''client_01'') (Some ''s2'') w2) \<noteq> Inr None"
proof -
  obtain rep w1 where r: "register_client (\<lambda>_ s. s) (client_values ''01'' ''s1'') ''New'' [] [] (client_admin ''t1'') oidc_demo
      = (Inr rep, w1)" using client_demo_register by blast
  have b: "ae_checkpw (oe_auth demo_oidc) x ((\<lambda>_ s. s) salt x)" for salt x :: string
    by (simp add: demo_oidc_def demo_auth_def)
  have n: "\<not> ae_checkpw (oe_auth demo_oidc) ''s1'' (hash_client_secret (\<lambda>_ s. s) (client_values ''02'' ''s2''))"
    by (simp add: demo_oidc_def demo_auth_def hash_client_secret_def client_values_def)
  have i: "generate_client_id (client_values ''01'' ''s1'') = ''client_01''" "cr_secret (client_values ''02'' ''s2'') = ''s2''"
    by (simp_all add: generate_client_id_def client_values_def)
  from client_secret_lifecycle [OF b r, of "client_values ''02'' ''s2''"] n i show ?thesis
    by (auto intro!: exI [of _ "snd (rotate_client_secret (\<lambda>_ s. s) (client_values ''02'' ''s2'') ''client_01'' (client_admin ''t1'') w1)"])
qed

section \<open>Tenants apart\<close>

lemma list_clients_own:
  "\<exists>cs m. fst (list_clients auth w) = Inr (success_response cs m)
    \<and> set cs = client_view_of ` {c \<in> set (w_clients w). oc_tenant c = td_tenant auth}"
  by (auto simp: list_clients_def sql_select_def eff_simps)

lemma others_update:
  "filter (\<lambda>c. oc_tenant c \<noteq> t) (sql_update (own_client cid t) f cs) = filter (\<lambda>c. oc_tenant c \<noteq> t) cs"
  if "\<And>c. oc_tenant (f c) = oc_tenant c"
  using that by (induction cs) (auto simp: sql_update_def own_client_def)

lemma others_delete: "filter (\<lambda>c. oc_tenant c \<noteq> t) (sql_delete (own_client cid t) cs) = filter (\<lambda>c. oc_tenant c \<noteq> t) cs"
  by (induction cs) (auto simp: sql_delete_def own_client_def)

abbreviation others :: "string \<Rightarrow> world \<Rightarrow> client_row list" where
  "others t w \<equiv> filter (\<lambda>c. oc_tenant c \<noteq> t) (w_clients w)"

lemma others_keeps:
  "keeps (\<lambda>w. others (td_tenant auth) w = C) (register_client bcrypt N name uris scopes auth)"
  "keeps (\<lambda>w. others (td_tenant auth) w = C) (update_client cid nm us ss auth)"
  "keeps (\<lambda>w. others (td_tenant auth) w = C) (rotate_client_secret bcrypt N cid auth)"
  "keeps (\<lambda>w. others (td_tenant auth) w = C) (delete_client cid auth)"
proof -
  have aud: "keeps (\<lambda>w. others (td_tenant auth) w = C) (client_audit r a auth d)" for r a d
    by (simp add: keeps_def client_audit_def log_audit_run)
  have ins: "keeps (\<lambda>w. others (td_tenant auth) w = C) (insert_client row)" if "oc_tenant row = td_tenant auth" for row
    using that by (simp add: keeps_def insert_client_def)
  have find: "keeps (\<lambda>w. others (td_tenant auth) w = C) (find_client cid auth)" by (simp add: keeps_def find_client_run)
  show "keeps (\<lambda>w. others (td_tenant auth) w = C) (register_client bcrypt N name uris scopes auth)"
    unfolding register_client_def by (intro keeps_intros aud ins) simp
  show "keeps (\<lambda>w. others (td_tenant auth) w = C) (update_client cid nm us ss auth)"
    unfolding update_client_def Let_def by (intro keeps_intros aud find) (simp add: others_update)
  show "keeps (\<lambda>w. others (td_tenant auth) w = C) (rotate_client_secret bcrypt N cid auth)"
    unfolding rotate_client_secret_def by (intro keeps_intros aud find) (simp add: others_update)
  show "keeps (\<lambda>w. others (td_tenant auth) w = C) (delete_client cid auth)"
    unfolding delete_client_def by (intro keeps_intros aud find) (simp add: drop_client_def others_delete)
qed

text \<open>Clients of another tenant are out of reach: no operation of a user changes one, a listing
  shows the user's tenant's and no other, and reading, updating, rotating or deleting one answers
  not found and changes nothing. No role is asked for: all this is open to every user of the tenant.\<close>

theorem clients_apart:
  assumes foreign: "client_keys w" "c \<in> set (w_clients w)" "oc_tenant c \<noteq> td_tenant auth"
  shows "others (td_tenant auth) (snd (register_client bcrypt N name uris scopes auth w)) = others (td_tenant auth) w
    \<and> others (td_tenant auth) (snd (update_client cid nm us ss auth w)) = others (td_tenant auth) w
    \<and> others (td_tenant auth) (snd (rotate_client_secret bcrypt N cid auth w)) = others (td_tenant auth) w
    \<and> others (td_tenant auth) (snd (delete_client cid auth w)) = others (td_tenant auth) w
    \<and> (\<exists>cs m. fst (list_clients auth w) = Inr (success_response cs m)
         \<and> set cs = client_view_of ` {c \<in> set (w_clients w). oc_tenant c = td_tenant auth})
    \<and> get_client (oc_id c) auth w = (Inr no_client, w)
    \<and> update_client (oc_id c) nm us ss auth w = (Inr no_client, w)
    \<and> rotate_client_secret bcrypt N (oc_id c) auth w = (Inr no_client, w)
    \<and> delete_client (oc_id c) auth w = (Inr no_client, w)"
proof -
  have "sql_row (own_client (oc_id c) (td_tenant auth)) (w_clients w) = None"
    using foreign client_unique [of w] by (fastforce simp: sql_row_None own_client_def)
  then show ?thesis
    using keepsD [OF others_keeps(1)] keepsD [OF others_keeps(2)] keepsD [OF others_keeps(3)] keepsD [OF others_keeps(4)]
      list_clients_own [of auth w]
    by (simp add: get_client_def update_client_def rotate_client_secret_def delete_client_def find_client_run eff_simps)
qed

theorem clients_apart_witness:
  "delete_client ''app'' (client_admin ''t2'') oidc_demo = (Inr no_client, oidc_demo)"
proof -
  have "client_keys oidc_demo" "demo_client \<in> set (w_clients oidc_demo)" "oc_tenant demo_client \<noteq> td_tenant (client_admin ''t2'')"
    "oc_id demo_client = ''app''"
    by (simp_all add: client_keys_def oidc_demo_def demo_client_def client_admin_def)
  with clients_apart [of oidc_demo demo_client "client_admin ''t2''"] show ?thesis by simp
qed

section \<open>Deleting a client\<close>

text \<open>A deleted client is gone for good: no code, federation transaction or invitation refers to it
  any more, it no longer authenticates with any secret, and no request for tokens that names it
  succeeds, the refresh tokens it still has included. Everything of other clients stays.\<close>

theorem client_deletion_withdraws:
  assumes keys: "client_keys w" and row: "c \<in> set (w_clients w)" "own_client cid (td_tenant auth) c"
  defines "w' \<equiv> snd (delete_client cid auth w)"
  shows "fst (delete_client cid auth w) = Inr (Success None (Some ''Client deleted successfully'') 200)
    \<and> (\<forall>r \<in> set (w_codes w'). ac_client r \<noteq> cid) \<and> (\<forall>r \<in> set (w_txns w'). ft_client r \<noteq> cid)
    \<and> (\<forall>r \<in> set (w_invites w'). iv_client r \<noteq> Some cid) \<and> length (w_invites w') = length (w_invites w)
    \<and> validate_client V (Some cid) s w' = (Inr None, w')
    \<and> (fst (extract_client_credentials V basic data) = Some cid
        \<longrightarrow> \<not> (\<exists>d x. token_endpoint V N conn basic data w' = (Inr (JsonOut d 200), x)))
    \<and> (\<forall>k. k \<noteq> cid \<longrightarrow> filter (\<lambda>r. ac_client r = k) (w_codes w') = filter (\<lambda>r. ac_client r = k) (w_codes w)
            \<and> validate_client V (Some k) s w' = (fst (validate_client V (Some k) s w), w'))
    \<and> w_refresh w' = w_refresh w"
proof -
  obtain r where "sql_row (own_client cid (td_tenant auth)) (w_clients w) = Some r"
    using row by (metis not_Some_eq sql_row_None)
  then obtain l where run: "delete_client cid auth w = (Inr (Success None (Some ''Client deleted successfully'') 200),
      (drop_client cid (td_tenant auth) w)\<lparr>w_log := l\<rparr>)"
    by (simp add: delete_client_def find_client_run client_audit_def log_audit_run eff_simps)
  have own: "own_client cid (td_tenant auth) x \<longleftrightarrow> oc_id x = cid" if "x \<in> set (w_clients w)" for x
  proof
    assume "oc_id x = cid"
    with row(2) client_unique [OF keys row(1) that] have "c = x" by (simp add: own_client_def)
    with row(2) show "own_client cid (td_tenant auth) x" by simp
  qed (simp add: own_client_def)
  have cs: "w_clients w' = filter (\<lambda>x. oc_id x \<noteq> cid) (w_clients w)"
  proof -
    have "w_clients w' = sql_delete (own_client cid (td_tenant auth)) (w_clients w)" by (simp add: w'_def run drop_client_def)
    also have "\<dots> = filter (\<lambda>x. oc_id x \<noteq> cid) (w_clients w)"
      unfolding sql_delete_def by (rule filter_cong) (simp_all only: own)
    finally show ?thesis .
  qed
  have gone: "validate_client V (Some cid) s w' = (Inr None, w')" for s
  proof -
    have "sql_row (\<lambda>c. Some (oc_id c) = Some cid \<and> oc_is_active c) (w_clients w') = None"
      by (auto simp: cs sql_row_None)
    then show ?thesis by (simp add: validate_client_def eff_simps)
  qed
  have other: "validate_client V (Some k) s w' = (fst (validate_client V (Some k) s w), w')" if "k \<noteq> cid" for k
  proof -
    have "sql_row (\<lambda>c. oc_id c = k \<and> oc_is_active c) (filter (\<lambda>x. oc_id x \<noteq> cid) cs)
        = sql_row (\<lambda>c. oc_id c = k \<and> oc_is_active c) cs" for cs :: "client_row list"
      using that by (induction cs) (auto simp: sql_row_def)
    then show ?thesis by (simp add: validate_client_def eff_simps cs split: option.split)
  qed
  have tok: "\<not> (\<exists>d x. token_endpoint V N conn basic data w' = (Inr (JsonOut d 200), x))"
    if "fst (extract_client_credentials V basic data) = Some cid"
    using that gone by (auto elim!: token_ok)
  have inv: "\<forall>r \<in> set (w_invites w'). iv_client r \<noteq> Some cid"
    using all_sql_update [of "w_invites w" "\<lambda>r. iv_client r = Some cid" "\<lambda>r. iv_client r \<noteq> Some cid" "\<lambda>r. r\<lparr>iv_client := None\<rparr>"]
    by (simp add: w'_def run drop_client_def)
  have codes: "filter (\<lambda>r. ac_client r = k) (sql_delete (\<lambda>r. ac_client r = cid) t) = filter (\<lambda>r. ac_client r = k) t"
    if "k \<noteq> cid" for k and t :: "code_row list" using that by (induction t) (auto simp: sql_delete_def)
  show ?thesis
    using inv gone other tok codes run
    by (auto simp: w'_def run drop_client_def set_sql_delete)
qed

theorem client_deletion_withdraws_witness:
  "w_codes (snd (delete_client ''app'' (client_admin ''t1'') oidc_demo)) = []
   \<and> \<not> (\<exists>d x. token_endpoint demo_oidc demo_fresh (TenantConn ''t1'') None demo_refresh_request
          (snd (delete_client ''app'' (client_admin ''t1'') oidc_demo)) = (Inr (JsonOut d 200), x))"
proof -
  have k: "client_keys oidc_demo" "demo_client \<in> set (w_clients oidc_demo)" "own_client ''app'' (td_tenant (client_admin ''t1'')) demo_client"
    by (simp_all add: client_keys_def oidc_demo_def demo_client_def client_admin_def own_client_def)
  have e: "fst (extract_client_credentials demo_oidc None demo_refresh_request) = Some ''app''" by code_simp
  have c: "w_codes (snd (delete_client ''app'' (client_admin ''t1'') oidc_demo)) = []" by code_simp
  from client_deletion_withdraws [OF k, where V = demo_oidc and basic = None and data = demo_refresh_request] e c
  show ?thesis by simp
qed

end
