(* ===== verification/Accounts.thy ===== *)
theory Accounts
  imports Clients Tenant_Settings
begin

text \<open>
  How accounts come to be: sign-up by form and by API, invitations (app/sso/oidc/signup.py), the
  verification of email addresses (app/api/v1/onboarding.py). A rendered page is
  what it is rendered from, and the mails a request hands to its background tasks are part of its
  answer. The public endpoints run on the owner's connection, which no row level security binds.
\<close>

section \<open>The environment\<close>

record account_env =
  ac_oidc :: oidc_env
  ac_hash :: "string \<Rightarrow> string \<Rightarrow> exn + string"
  ac_base_url :: string
  ac_exc_text :: "exn \<Rightarrow> string"
  ac_exc_name :: "exn \<Rightarrow> string"

text \<open>
  \<open>ac_hash salt password\<close> is \<open>bcrypt.hashpw\<close> with a fresh salt; \<open>ac_exc_text\<close> and \<open>ac_exc_name\<close> are the text
  of an exception and the name of its class.
\<close>

abbreviation ac_tokens :: "account_env \<Rightarrow> tok_env" where
  "ac_tokens A \<equiv> oe_tokens (ac_oidc A)"

record account_random =
  ar_id :: string
  ar_salt :: string
  ar_tenant :: string

datatype mail =
    VerificationMail string string string string string "string option"
  | InvitationMail string string string string string int "string option"

text \<open>
  \<open>VerificationMail\<close>: first and last name, address, user, tenant, token; \<open>InvitationMail\<close>: address,
  inviter, organization, role, token, expiry, client.
\<close>

section \<open>Invitations in the database\<close>

definition pending_invite :: "json option \<Rightarrow> world \<Rightarrow> exn + invitation_row option" where
  "pending_invite ivt w =
     (case ivt of
        Some (JStr s) \<Rightarrow> Inr (sql_row (\<lambda>i. iv_id i = s \<and> iv_accepted i = None \<and> w_now w < iv_expires i) (w_invites w))
      | None \<Rightarrow> Inr None
      | Some JNull \<Rightarrow> Inr None
      | Some _ \<Rightarrow> Inl (DbErr DataError))"

text \<open>The token of an invitation, read as the \<open>try\<close> blocks do: \<open>Inl\<close> when anything in them raises.\<close>

definition invite_of_token :: "account_env \<Rightarrow> string \<Rightarrow> world \<Rightarrow> exn + invitation_row option" where
  "invite_of_token A t w =
     (case decode_purpose_token (ac_tokens A) (w_now w) t (Some ''invitation'') of
        Inl e \<Rightarrow> Inl e
      | Inr p \<Rightarrow> pending_invite (dget p ''invitation_id'') w)"

definition mark_invite :: "string \<Rightarrow> world \<Rightarrow> world" where
  "mark_invite ivt w =
     w\<lparr>w_invites := sql_update (\<lambda>i. iv_id i = ivt) (\<lambda>i. i\<lparr>iv_accepted := Some (w_now w)\<rparr>) (w_invites w)\<rparr>"

definition accept_invite :: "account_env \<Rightarrow> string \<Rightarrow> unit svc" where
  "accept_invite A t =
     emod (\<lambda>w. case decode_purpose_token (ac_tokens A) (w_now w) t (Some ''invitation'') of
                 Inl e \<Rightarrow> w
               | Inr p \<Rightarrow> (case dget p ''invitation_id'' of Some (JStr s) \<Rightarrow> mark_invite s w | _ \<Rightarrow> w))"

section \<open>Sign-up\<close>

record signup_page_data =
  sp_client_name :: "string option"
  sp_client_id :: "string option"
  sp_redirect_uri :: "string option"
  sp_inv_email :: "string option"
  sp_inv_token :: "string option"
  sp_error :: "string option"

datatype signup_view = SignupPage signup_page_data | VerificationSent string

definition signup_page ::
    "account_env \<Rightarrow> string option \<Rightarrow> string option \<Rightarrow> string option \<Rightarrow> signup_view svc" where
  "signup_page A client_id redirect_uri invitation =
     ebind (if ostr_true client_id then validate_client (ac_oidc A) client_id None else eret None) (\<lambda>client.
     ebind (eget (\<lambda>w. if ostr_true invitation
                      then (case invite_of_token A (the invitation) w of Inr (Some i) \<Rightarrow> if iv_id i = [] then None else Some i
                            | _ \<Rightarrow> None)
                      else None)) (\<lambda>ivt.
     eret (SignupPage \<lparr>sp_client_name = map_option oc_name client, sp_client_id = client_id, sp_redirect_uri = redirect_uri,
             sp_inv_email = map_option iv_email ivt,
             sp_inv_token = (if ivt = None then None else invitation), sp_error = None\<rparr>)))"

definition new_user_row ::
    "string \<Rightarrow> string \<Rightarrow> string \<Rightarrow> string \<Rightarrow> string \<Rightarrow> string \<Rightarrow> string option \<Rightarrow> int \<Rightarrow> user_row" where
  "new_user_row user_id tenant email hash first last_nm role now =
     \<lparr>us_id = user_id, us_tenant = tenant, us_email = email, us_password = hash, us_first = first, us_last = last_nm,
      us_role = role, us_is_active = True, us_email_verified = False, us_created = now, us_modified = now\<rparr>"

definition email_taken :: "conn \<Rightarrow> string \<Rightarrow> string \<Rightarrow> world \<Rightarrow> bool" where
  "email_taken c email tenant w = (sql_row (\<lambda>u. us_email u = email \<and> us_tenant u = tenant) (users_of c w) \<noteq> None)"

text \<open>What both sign-ups do once all checks have passed: the row, and the invitation accepted.\<close>

definition open_account ::
    "account_env \<Rightarrow> account_random \<Rightarrow> string \<Rightarrow> string \<Rightarrow> string \<Rightarrow> string \<Rightarrow> string \<Rightarrow> string \<Rightarrow> string option \<Rightarrow>
     unit svc" where
  "open_account A N tenant email password first last_nm token role =
     ebind (elift (ac_hash A (ar_salt N) password)) (\<lambda>hash.
     ebind (eget w_now) (\<lambda>now.
     ethen (insert_user OwnerConn (new_user_row (ar_id N) tenant email hash first last_nm role now))
           (if token \<noteq> [] then accept_invite A token else eret ())))"

definition registered_audit :: "account_random \<Rightarrow> string \<Rightarrow> string \<Rightarrow> string \<Rightarrow> unit svc" where
  "registered_audit N tenant resource decision =
     log_audit ''user_registered'' [(''user_id'', jstr (ar_id N)), (''resource'', jstr resource),
       (''tenant_id'', jstr tenant), (''decision'', jstr decision)]"

definition verification_token :: "account_env \<Rightarrow> account_random \<Rightarrow> string \<Rightarrow> string svc" where
  "verification_token A N tenant =
     ebind (eget w_now) (\<lambda>now. elift (create_verification_token (ac_tokens A) now (ar_id N) tenant))"

record signup_form =
  sf_email :: string
  sf_password :: string
  sf_confirm :: string
  sf_first :: string
  sf_last :: string
  sf_client :: string
  sf_redirect_uri :: string
  sf_token :: string

text \<open>The page again with an error; the form's empty fields stay empty strings.\<close>

definition signup_again :: "signup_form \<Rightarrow> client_row option \<Rightarrow> string \<Rightarrow> (signup_view \<times> mail list) svc" where
  "signup_again f client err =
     eret (SignupPage \<lparr>sp_client_name = map_option oc_name client, sp_client_id = Some (sf_client f),
             sp_redirect_uri = Some (sf_redirect_uri f), sp_inv_email = None, sp_inv_token = None, sp_error = Some err\<rparr>, [])"

definition no_org :: string where
  "no_org = ''Unable to determine organization. Please use a valid signup link.''"

definition signup_register ::
    "account_env \<Rightarrow> account_random \<Rightarrow> signup_form \<Rightarrow> client_row option \<Rightarrow> invitation_row option \<Rightarrow>
     (signup_view \<times> mail list) svc" where
  "signup_register A N f client ivt =
     (let tenant = (case ivt of Some i \<Rightarrow> Some (iv_tenant i) | None \<Rightarrow> map_option oc_tenant client);
          role = (case ivt of Some i \<Rightarrow> iv_role i | None \<Rightarrow> None);
          email = (case ivt of Some i \<Rightarrow> iv_email i | None \<Rightarrow> sf_email f) in
      if \<not> ostr_true tenant then signup_again f client no_org
      else ebind (eget (email_taken OwnerConn email (the tenant))) (\<lambda>taken.
           if taken then signup_again f client ''An account with this email already exists''
           else ethen (open_account A N (the tenant) email (sf_password f) (sf_first f) (sf_last f) (sf_token f) role)
               (ebind (verification_token A N (the tenant)) (\<lambda>vt.
                ethen (registered_audit N (the tenant) ''/oidc/signup'' (''User '' @ email @ '' registered''))
                (eret (VerificationSent email,
                       [VerificationMail (sf_first f) (sf_last f) email (ar_id N) (the tenant) (Some vt)]))))))"

definition signup_submit ::
    "account_env \<Rightarrow> account_random \<Rightarrow> signup_form \<Rightarrow> (signup_view \<times> mail list) svc" where
  "signup_submit A N f =
     ebind (if sf_client f \<noteq> [] then validate_client (ac_oidc A) (Some (sf_client f)) None else eret None) (\<lambda>client.
     if sf_password f \<noteq> sf_confirm f then signup_again f client ''Passwords do not match''
     else if length (sf_password f) < 8 then signup_again f client ''Password must be at least 8 characters''
     else if sf_token f = [] then signup_register A N f client None
     else ebind (eget (invite_of_token A (sf_token f))) (\<lambda>r.
          case r of
            Inl _ \<Rightarrow> signup_again f client ''Invalid invitation token''
          | Inr None \<Rightarrow> signup_again f client ''Invalid or expired invitation''
          | Inr (Some i) \<Rightarrow> signup_register A N f client (Some i)))"

record signup_request =
  sr_email :: string
  sr_password :: string
  sr_first :: string
  sr_last :: string
  sr_token :: "string option"

record signup_reply =
  sy_user :: string
  sy_email :: string

definition signup_error :: "string \<Rightarrow> string \<Rightarrow> int \<Rightarrow> (signup_reply reply \<times> mail list) svc" where
  "signup_error code msg st = eret (Failure (error_response code msg st None None), [])"

definition account_created :: string where
  "account_created = ''Account created. Please verify your email via the verification link we sent.''"

text \<open>Here the address of the request is registered, with an invitation or without.\<close>

definition signup_api_register ::
    "account_env \<Rightarrow> account_random \<Rightarrow> signup_request \<Rightarrow> string option \<Rightarrow> string option \<Rightarrow>
     (signup_reply reply \<times> mail list) svc" where
  "signup_api_register A N q tenant role =
     (if \<not> ostr_true tenant then signup_error ''invalid_request'' ''Unable to determine organization'' 400
      else ebind (eget (email_taken OwnerConn (sr_email q) (the tenant))) (\<lambda>taken.
           if taken then signup_error ''user_exists'' ''An account with this email already exists'' 409
           else if length (sr_password q) < 8 then signup_error ''weak_password'' ''Password must be at least 8 characters'' 400
           else ethen (open_account A N (the tenant) (sr_email q) (sr_password q) (sr_first q) (sr_last q)
                         (case sr_token q of None \<Rightarrow> [] | Some t \<Rightarrow> t) role)
               (ethen (registered_audit N (the tenant) ''/oidc/signup/api'' (''User '' @ sr_email q @ '' registered via API''))
               (ebind (verification_token A N (the tenant)) (\<lambda>vt.
                eret (created_response \<lparr>sy_user = ar_id N, sy_email = sr_email q\<rparr> account_created,
                      [VerificationMail (sr_first q) (sr_last q) (sr_email q) (ar_id N) (the tenant) (Some vt)]))))))"

definition signup_api ::
    "account_env \<Rightarrow> account_random \<Rightarrow> signup_request \<Rightarrow> string option \<Rightarrow> (signup_reply reply \<times> mail list) svc" where
  "signup_api A N q client_id =
     ebind (if ostr_true client_id then validate_client (ac_oidc A) client_id None else eret None) (\<lambda>client.
     if \<not> ostr_true (sr_token q) then signup_api_register A N q (map_option oc_tenant client) None
     else ebind (eget (invite_of_token A (the (sr_token q)))) (\<lambda>r.
          case r of
            Inl _ \<Rightarrow> signup_error ''invalid_token'' ''Invalid invitation token'' 400
          | Inr None \<Rightarrow> signup_error ''invalid_invitation'' ''Invalid or expired invitation'' 400
          | Inr (Some i) \<Rightarrow> signup_api_register A N q (Some (iv_tenant i)) (iv_role i)))"

section \<open>Invitations\<close>

record invitation_request =
  iq_email :: string
  iq_role :: "string option"
  iq_client :: "string option"

record invitation_reply =
  il_id :: string
  il_email :: string
  il_expires :: int
  il_link :: string

definition insert_invite :: "invitation_row \<Rightarrow> unit svc" where
  "insert_invite r = (\<lambda>w.
     if \<exists>i \<in> set (w_invites w). iv_id i = iv_id r \<or> (iv_tenant i = iv_tenant r \<and> iv_email i = iv_email r)
     then (Inl (DbErr UniqueViolationError), w)
     else if (\<forall>t \<in> set (w_tenants w). tn_id t \<noteq> iv_tenant r)
             \<or> (case iv_client r of None \<Rightarrow> False | Some k \<Rightarrow> \<forall>c \<in> set (w_clients w). oc_id c \<noteq> k)
     then (Inl (DbErr ForeignKeyViolationError), w)
     else (Inr (), w\<lparr>w_invites := w_invites w @ [r]\<rparr>))"

definition invite_payload :: "string \<Rightarrow> int \<Rightarrow> json dict" where
  "invite_payload iid now =
     [(''invitation_id'', JStr iid), (''purpose'', JStr ''invitation''), (''exp'', JInt (now + 7 * 86400)), (''iat'', JInt now)]"

definition open_invite :: "string \<Rightarrow> string \<Rightarrow> world \<Rightarrow> bool" where
  "open_invite email tenant w =
     (sql_row (\<lambda>i. iv_email i = email \<and> iv_tenant i = tenant \<and> iv_accepted i = None \<and> w_now w < iv_expires i) (w_invites w)
        \<noteq> None)"

definition new_invite :: "account_random \<Rightarrow> invitation_request \<Rightarrow> token_data \<Rightarrow> int \<Rightarrow> invitation_row" where
  "new_invite N q auth now =
     \<lparr>iv_id = ar_id N, iv_tenant = td_tenant auth, iv_client = iq_client q, iv_email = iq_email q, iv_role = iq_role q,
      iv_invited_by = td_user auth, iv_expires = now + 7 * 86400, iv_accepted = None, iv_created = now\<rparr>"

definition invitation_mail ::
    "invitation_request \<Rightarrow> token_data \<Rightarrow> tenant_row option \<Rightarrow> client_row option \<Rightarrow> string \<Rightarrow> int \<Rightarrow> mail" where
  "invitation_mail q auth tn cl jwt expires =
     InvitationMail (iq_email q) (if td_email auth = [] then ''An administrator'' else td_email auth)
       (case tn of None \<Rightarrow> ''your organization'' | Some t \<Rightarrow> tn_name t)
       (if ostr_true (iq_role q) then the (iq_role q) else ''member'') jwt expires (map_option oc_name cl)"

definition create_invitation ::
    "account_env \<Rightarrow> account_random \<Rightarrow> conn \<Rightarrow> invitation_request \<Rightarrow> token_data \<Rightarrow>
     (invitation_reply reply \<times> mail list) svc" where
  "create_invitation A N c q auth =
     ebind (eget (open_invite (iq_email q) (td_tenant auth))) (\<lambda>pending.
     if pending
     then eret (Failure (error_response ''invitation_exists'' ''A pending invitation already exists for this email'' 409 None None), [])
     else ebind (eget (email_taken c (iq_email q) (td_tenant auth))) (\<lambda>taken.
     if taken
     then eret (Failure (error_response ''user_exists'' ''A user with this email already exists'' 409 None None), [])
     else ebind (eget w_now) (\<lambda>now.
     ethen (insert_invite (new_invite N q auth now))
    (ebind (elift (create_purpose_token (ac_tokens A) (invite_payload (ar_id N) now))) (\<lambda>jwt.
     ethen (log_audit ''invitation_created'' [(''user_id'', jstr (td_user auth)), (''resource'', jstr ''/oidc/invite''),
              (''tenant_id'', jstr (td_tenant auth)), (''decision'', jstr (''Invited '' @ iq_email q))])
    (ebind (eget (tenant_row_of c (td_tenant auth))) (\<lambda>tn.
     ebind (if ostr_true (iq_client q) then validate_client (ac_oidc A) (iq_client q) None else eret None) (\<lambda>cl.
     eret (created_response \<lparr>il_id = ar_id N, il_email = iq_email q, il_expires = now + 7 * 86400,
             il_link = ac_base_url A @ ''/api/v1/oidc/signup?invitation='' @ jwt\<rparr> ''Invitation created successfully'',
           [invitation_mail q auth tn cl jwt (now + 7 * 86400)])))))))))"

text \<open>Despite its description the listing has the accepted and the expired ones too.\<close>

definition list_invitations :: "token_data \<Rightarrow> invitation_row list reply svc" where
  "list_invitations auth =
     ebind (eget (\<lambda>w. sort_key (\<lambda>i. - iv_created i) (sql_select (\<lambda>i. iv_tenant i = td_tenant auth) (w_invites w)))) (\<lambda>rows.
     eret (success_response rows (''Found '' @ digits_of (length rows) @ '' invitations'')))"

definition revoke_invitation :: "string \<Rightarrow> token_data \<Rightarrow> unit reply svc" where
  "revoke_invitation iid auth =
     ethen (emod (\<lambda>w. w\<lparr>w_invites :=
              sql_delete (\<lambda>i. iv_id i = iid \<and> iv_tenant i = td_tenant auth \<and> iv_accepted i = None) (w_invites w)\<rparr>))
    (ethen (log_audit ''invitation_revoked'' [(''user_id'', jstr (td_user auth)), (''resource'', jstr (''/oidc/invitations/'' @ iid)),
              (''tenant_id'', jstr (td_tenant auth)), (''decision'', jstr ''Invitation deleted'')])
    (eret (Success None (Some ''Invitation revoked'') 204)))"

section \<open>Verification of email addresses\<close>

datatype verify_view = VerifiedPage | VerifiedReply | InvalidLinkPage

text \<open>A token without a purpose passes, and so does one whose user does not exist.\<close>

definition verify_claims :: "json dict \<Rightarrow> exn + string option" where
  "verify_claims p =
     (if dget p ''purpose'' \<notin> {None, Some JNull, Some (JStr ''email_verify'')} then Inl (PyErr (ValueError ''Invalid token purpose''))
      else case dget p ''user_id'' of
             None \<Rightarrow> Inl (PyErr KeyError)
           | Some (JStr u) \<Rightarrow> Inr (Some u)
           | Some JNull \<Rightarrow> Inr None
           | Some _ \<Rightarrow> Inl (DbErr DataError))"

definition set_verified :: "string option \<Rightarrow> string option \<Rightarrow> world \<Rightarrow> world" where
  "set_verified u tenant w =
     w\<lparr>w_users := sql_update (\<lambda>r. Some (us_id r) = u \<and> Some (us_tenant r) = tenant) (\<lambda>r. r\<lparr>us_email_verified := True\<rparr>)
                  (w_users w)\<rparr>"

definition tenant_of_user :: "string option \<Rightarrow> world \<Rightarrow> string option" where
  "tenant_of_user user w = map_option us_tenant (sql_row (\<lambda>r. Some (us_id r) = user) (w_users w))"

definition verify_email :: "account_env \<Rightarrow> bool \<Rightarrow> string \<Rightarrow> verify_view svc" where
  "verify_email A html t =
     etry (ebind (eget w_now) (\<lambda>now.
           ebind (elift (decode_purpose_token (ac_tokens A) now t None)) (\<lambda>p.
           ebind (elift (verify_claims p)) (\<lambda>user.
           ebind (eget (tenant_of_user user)) (\<lambda>tenant.
           ethen (emod (set_verified user tenant))
          (ethen (log_audit ''Email Verification'' [(''user_id'', map_option JStr user), (''resource'', jstr ''/email/verify''),
                    (''tenant_id'', map_option JStr tenant), (''decision'', jstr ''Email Verified'')])
          (eret (if html then VerifiedPage else VerifiedReply))))))))
       (\<lambda>_. if html then eret InvalidLinkPage else eraise (HttpException 400 (Some ''Invalid or expired token'')))"

section \<open>What a sign-up does\<close>

definition invites_after :: "account_env \<Rightarrow> string \<Rightarrow> world \<Rightarrow> invitation_row list" where
  "invites_after A t w =
     (case decode_purpose_token (ac_tokens A) (w_now w) t (Some ''invitation'') of
        Inl e \<Rightarrow> w_invites w
      | Inr p \<Rightarrow> (case dget p ''invitation_id'' of Some (JStr s) \<Rightarrow> w_invites (mark_invite s w) | _ \<Rightarrow> w_invites w))"

lemma accept_run: "accept_invite A t w = (Inr (), w\<lparr>w_invites := invites_after A t w\<rparr>)"
  by (simp add: accept_invite_def invites_after_def mark_invite_def split: sum.split option.split json.split)

text \<open>The account row an opening adds, and the only two ways it can go.\<close>

lemma open_account_cases:
  obtains (refused) e where "open_account A N tenant email pw fn ln token role w = (Inl e, w)"
  | (opened) hash where "ac_hash A (ar_salt N) pw = Inr hash"
      "open_account A N tenant email pw fn ln token role w = (Inr (),
         w\<lparr>w_users := w_users w @ [new_user_row (ar_id N) tenant email hash fn ln role (w_now w)],
           w_invites := (if token = [] then w_invites w else invites_after A token w)\<rparr>)"
proof (cases "ac_hash A (ar_salt N) pw")
  case (Inl e)
  then show thesis by (intro refused) (simp add: open_account_def eff_simps)
next
  case (Inr hash)
  let ?u = "new_user_row (ar_id N) tenant email hash fn ln role (w_now w)"
  let ?w = "w\<lparr>w_users := w_users w @ [?u]\<rparr>"
  have ins: "(\<exists>e. insert_user OwnerConn ?u w = (Inl e, w)) \<or> insert_user OwnerConn ?u w = (Inr (), ?w)"
    by (simp add: insert_user_def)
  have "invites_after A token ?w = invites_after A token w"
    by (simp add: invites_after_def mark_invite_def split: sum.split option.split json.split)
  with Inr ins refused opened show thesis
    by (cases "token = []") (auto simp: open_account_def accept_run eff_simps)
qed

text \<open>What follows the opening only reads and logs.\<close>

definition log_only :: "'a svc \<Rightarrow> bool" where
  "log_only m \<longleftrightarrow> (\<forall>w. \<exists>r l. m w = (r, w\<lparr>w_log := l\<rparr>))"

lemma open_then_cases:
  assumes "log_only tail_steps"
  obtains (failed) e where "ethen (open_account A N tenant email pw fn ln token role) tail_steps w = (Inl e, w)"
  | (opened) hash r l w1 where "ac_hash A (ar_salt N) pw = Inr hash" "fst (tail_steps w1) = r"
      "ethen (open_account A N tenant email pw fn ln token role) tail_steps w = (r,
         w\<lparr>w_users := w_users w @ [new_user_row (ar_id N) tenant email hash fn ln role (w_now w)],
           w_invites := (if token = [] then w_invites w else invites_after A token w), w_log := l\<rparr>)"
proof (cases rule: open_account_cases [of A N tenant email pw fn ln token role w])
  case (refused e)
  then show thesis using failed by (simp add: ethen_run)
next
  case (opened hash)
  let ?w = "w\<lparr>w_users := w_users w @ [new_user_row (ar_id N) tenant email hash fn ln role (w_now w)],
           w_invites := (if token = [] then w_invites w else invites_after A token w)\<rparr>"
  obtain r l where rl: "tail_steps ?w = (r, ?w\<lparr>w_log := l\<rparr>)" using assms unfolding log_only_def by blast
  show thesis
    by (rule that(2) [OF opened(1), of ?w r l]) (simp_all add: ethen_run opened(2) rl)
qed

lemma log_onlyI: "(\<And>w. \<exists>r l. m w = (r, w\<lparr>w_log := l\<rparr>)) \<Longrightarrow> log_only m"
  by (simp add: log_only_def)

lemma same_log: "\<exists>l. w = w\<lparr>w_log := l\<rparr>" for w :: world
  by (rule exI [of _ "w_log w"]) simp

lemma log_only_basic [simp]: "log_only (eret x)" "log_only (eraise e)"
  by (auto simp: log_only_def same_log)

lemma log_only_log [simp]: "log_only (log_audit a kvs)"
  unfolding log_only_def log_audit_run by blast

lemma log_only_then: "log_only m \<Longrightarrow> log_only k \<Longrightarrow> log_only (ethen m k)"
  unfolding log_only_def ethen_run
proof
  fix w
  assume "\<forall>w. \<exists>r l. m w = (r, w\<lparr>w_log := l\<rparr>)" "\<forall>w. \<exists>r l. k w = (r, w\<lparr>w_log := l\<rparr>)"
  then obtain r l r2 l2 where "m w = (r, w\<lparr>w_log := l\<rparr>)" "k (w\<lparr>w_log := l\<rparr>) = (r2, w\<lparr>w_log := l, w_log := l2\<rparr>)" by metis
  then show "\<exists>r l. (case m w of (Inl e, s') \<Rightarrow> (Inl e, s') | (Inr x, s') \<Rightarrow> k s') = (r, w\<lparr>w_log := l\<rparr>)"
    by (cases r) auto
qed

lemma log_only_token: "(\<And>vt. log_only (k vt)) \<Longrightarrow> log_only (ebind (verification_token A N t) k)"
  unfolding log_only_def ebind_run verification_token_def eget_run elift_run
  by (auto split: sum.split simp: same_log)

definition signup_email :: "signup_form \<Rightarrow> invitation_row option \<Rightarrow> string" where
  "signup_email f ivt = (case ivt of Some i \<Rightarrow> iv_email i | None \<Rightarrow> sf_email f)"

definition invited_role :: "invitation_row option \<Rightarrow> string option" where
  "invited_role ivt = (case ivt of Some i \<Rightarrow> iv_role i | None \<Rightarrow> None)"

definition tenant_of_signup :: "client_row option \<Rightarrow> invitation_row option \<Rightarrow> string option" where
  "tenant_of_signup client ivt = (case ivt of Some i \<Rightarrow> Some (iv_tenant i) | None \<Rightarrow> map_option oc_tenant client)"

text \<open>The outcomes of the form once the checks of the password and the invitation have passed.\<close>

lemma signup_register_cases:
  obtains (page) p where "signup_register A N f client ivt w = (Inr (SignupPage p, []), w)"
  | (failed) e where "signup_register A N f client ivt w = (Inl e, w)"
  | (opened) r tenant hash l where "tenant_of_signup client ivt = Some tenant" "ac_hash A (ar_salt N) (sf_password f) = Inr hash"
      "signup_register A N f client ivt w = (r,
         w\<lparr>w_users := w_users w @ [new_user_row (ar_id N) tenant (signup_email f ivt) hash (sf_first f) (sf_last f)
                                     (invited_role ivt) (w_now w)],
           w_invites := (if sf_token f = [] then w_invites w else invites_after A (sf_token f) w), w_log := l\<rparr>)"
      "\<And>v ms. r = Inr (v, ms) \<Longrightarrow> v = VerificationSent (signup_email f ivt) \<and>
         (\<exists>vt. ms = [VerificationMail (sf_first f) (sf_last f) (signup_email f ivt) (ar_id N) tenant (Some vt)])"
proof -
  let ?t = "tenant_of_signup client ivt" and ?e = "signup_email f ivt" and ?r = "invited_role ivt"
  note defs = tenant_of_signup_def signup_email_def invited_role_def
  consider (no) "\<not> ostr_true ?t \<or> email_taken OwnerConn ?e (the ?t) w"
    | (yes) "ostr_true ?t" "\<not> email_taken OwnerConn ?e (the ?t) w" by blast
  then show thesis
  proof cases
    case no
    have "\<exists>p. signup_register A N f client ivt w = (Inr (SignupPage p, []), w)"
      using no by (auto simp: signup_register_def defs signup_again_def Let_def eff_simps)
    then show ?thesis using page by blast
  next
    case yes
    then obtain tenant where t: "?t = Some tenant" by (auto simp: ostr_true_def split: option.splits)
    let ?tail = "ebind (verification_token A N tenant) (\<lambda>vt.
         ethen (registered_audit N tenant ''/oidc/signup'' (''User '' @ ?e @ '' registered''))
         (eret (VerificationSent ?e, [VerificationMail (sf_first f) (sf_last f) ?e (ar_id N) tenant (Some vt)])))"
    have run: "signup_register A N f client ivt w =
      ethen (open_account A N tenant ?e (sf_password f) (sf_first f) (sf_last f) (sf_token f) ?r) ?tail w"
      using yes t by (simp add: signup_register_def defs Let_def ebind_run)
    have lo: "log_only ?tail" by (intro log_only_token log_only_then) (simp_all add: registered_audit_def)
    have res: "v = VerificationSent ?e \<and> (\<exists>vt. ms = [VerificationMail (sf_first f) (sf_last f) ?e (ar_id N) tenant (Some vt)])"
      if "fst (?tail w1) = Inr (v, ms)" for w1 v ms
      using that by (auto simp: registered_audit_def log_audit_run verification_token_def eff_simps split: sum.splits)
    show ?thesis
    proof (cases rule: open_then_cases [OF lo, of A N tenant ?e "sf_password f" "sf_first f" "sf_last f" "sf_token f" ?r w])
      case (1 e)
      then show ?thesis using run that(2) by simp
    next
      case opened: (2 hash r l w1)
      show ?thesis by (rule that(3) [OF t opened(1), of r l]) (use opened run res in auto)
    qed
  qed
qed

lemma signup_api_register_cases:
  obtains (error) e where "signup_api_register A N q tenant role w = (Inr (Failure e, []), w)"
  | (failed) e where "signup_api_register A N q tenant role w = (Inl e, w)"
  | (opened) r t hash l where "tenant = Some t" "ac_hash A (ar_salt N) (sr_password q) = Inr hash" "8 \<le> length (sr_password q)"
      "signup_api_register A N q tenant role w = (r,
         w\<lparr>w_users := w_users w @ [new_user_row (ar_id N) t (sr_email q) hash (sr_first q) (sr_last q) role (w_now w)],
           w_invites := (if ostr_true (sr_token q) then invites_after A (the (sr_token q)) w else w_invites w), w_log := l\<rparr>)"
      "\<And>v ms. r = Inr (v, ms) \<Longrightarrow> v = created_response \<lparr>sy_user = ar_id N, sy_email = sr_email q\<rparr> account_created \<and>
         (\<exists>vt. ms = [VerificationMail (sr_first q) (sr_last q) (sr_email q) (ar_id N) t (Some vt)])"
proof -
  let ?e = "sr_email q" and ?token = "case sr_token q of None \<Rightarrow> [] | Some t \<Rightarrow> t"
  consider (no) "\<not> ostr_true tenant \<or> email_taken OwnerConn ?e (the tenant) w \<or> length (sr_password q) < 8"
    | (yes) "ostr_true tenant" "\<not> email_taken OwnerConn ?e (the tenant) w" "8 \<le> length (sr_password q)" by linarith
  then show thesis
  proof cases
    case no
    have "\<exists>e. signup_api_register A N q tenant role w = (Inr (Failure e, []), w)"
      using no by (auto simp: signup_api_register_def signup_error_def eff_simps)
    then show ?thesis using error by blast
  next
    case yes
    then obtain t where t: "tenant = Some t" by (auto simp: ostr_true_def split: option.splits)
    let ?tail = "ethen (registered_audit N t ''/oidc/signup/api'' (''User '' @ ?e @ '' registered via API''))
         (ebind (verification_token A N t) (\<lambda>vt. eret (created_response \<lparr>sy_user = ar_id N, sy_email = ?e\<rparr> account_created,
            [VerificationMail (sr_first q) (sr_last q) ?e (ar_id N) t (Some vt)])))"
    have run: "signup_api_register A N q tenant role w =
      ethen (open_account A N t ?e (sr_password q) (sr_first q) (sr_last q) ?token role) ?tail w"
      using yes t by (simp add: signup_api_register_def ebind_run)
    have lo: "log_only ?tail" by (intro log_only_token log_only_then) (simp_all add: registered_audit_def)
    have res: "v = created_response \<lparr>sy_user = ar_id N, sy_email = ?e\<rparr> account_created
        \<and> (\<exists>vt. ms = [VerificationMail (sr_first q) (sr_last q) ?e (ar_id N) t (Some vt)])"
      if "fst (?tail w1) = Inr (v, ms)" for w1 v ms
      using that by (auto simp: registered_audit_def log_audit_run verification_token_def eff_simps split: sum.splits)
    have tok: "(?token = []) = (\<not> ostr_true (sr_token q))" "ostr_true (sr_token q) \<Longrightarrow> ?token = the (sr_token q)"
      by (auto simp: ostr_true_def split: option.splits)
    show ?thesis
    proof (cases rule: open_then_cases [OF lo, of A N t ?e "sr_password q" "sr_first q" "sr_last q" ?token role w])
      case (1 e)
      then show ?thesis using run that(2) by simp
    next
      case opened: (2 hash r l w1)
      show ?thesis
        by (rule that(3) [OF t opened(1) yes(3), of r l]) (use opened run res tok in \<open>auto split: if_splits\<close>)
    qed
  qed
qed

lemma invite_Some:
  assumes "invite_of_token A t w = Inr (Some i)"
  shows "i \<in> set (w_invites w)" "iv_accepted i = None" "w_now w < iv_expires i"
    "invites_after A t w = w_invites (mark_invite (iv_id i) w)"
    "\<exists>p. te_decode (ac_tokens A) t (plain_opts True (w_now w)) = Inr p \<and> dget p ''invitation_id'' = Some (JStr (iv_id i))"
proof -
  from assms obtain p s where p: "decode_purpose_token (ac_tokens A) (w_now w) t (Some ''invitation'') = Inr p"
      "dget p ''invitation_id'' = Some (JStr s)"
      "sql_row (\<lambda>i. iv_id i = s \<and> iv_accepted i = None \<and> w_now w < iv_expires i) (w_invites w) = Some i"
    by (auto simp: invite_of_token_def pending_invite_def split: sum.splits option.splits json.splits)
  from sql_row_Some [OF p(3)] have "i \<in> set (w_invites w) \<and> iv_id i = s \<and> iv_accepted i = None \<and> w_now w < iv_expires i" .
  with p show "i \<in> set (w_invites w)" "iv_accepted i = None" "w_now w < iv_expires i"
    "invites_after A t w = w_invites (mark_invite (iv_id i) w)"
    "\<exists>p. te_decode (ac_tokens A) t (plain_opts True (w_now w)) = Inr p \<and> dget p ''invitation_id'' = Some (JStr (iv_id i))"
    by (auto simp: invites_after_def decode_purpose_token_def split: sum.splits if_splits)
qed

lemma marked: "\<forall>j \<in> set (w_invites (mark_invite s w)). iv_id j = s \<longrightarrow> iv_accepted j = Some (w_now w)"
  unfolding mark_invite_def by (simp, rule all_sql_update) simp_all

definition form_client :: "account_env \<Rightarrow> signup_form \<Rightarrow> client_row option svc" where
  "form_client A f = (if sf_client f \<noteq> [] then validate_client (ac_oidc A) (Some (sf_client f)) None else eret None)"

lemma form_client_run:
  obtains client where "form_client A f w = (Inr client, w)"
    "\<And>cl. client = Some cl \<Longrightarrow> cl \<in> set (w_clients w) \<and> oc_id cl = sf_client f \<and> oc_is_active cl"
proof -
  obtain y where y: "validate_client (ac_oidc A) (Some (sf_client f)) None w = (Inr y, w)"
    using validate_client_pure by blast
  show thesis
  proof (cases "sf_client f = []")
    case True
    then show thesis by (intro that [of None]) (simp_all add: form_client_def)
  next
    case False
    with y show thesis
      by (intro that [of y]) (auto simp: form_client_def validate_client_Some dest: sql_row_Some)
  qed
qed

lemma signup_submit_cases:
  obtains (page) p where "signup_submit A N f w = (Inr (SignupPage p, []), w)"
  | (register) client ivt where "sf_password f = sf_confirm f" "8 \<le> length (sf_password f)"
      "if sf_token f = [] then ivt = None else (\<exists>i. ivt = Some i \<and> invite_of_token A (sf_token f) w = Inr (Some i))"
      "\<And>cl. client = Some cl \<Longrightarrow> cl \<in> set (w_clients w) \<and> oc_id cl = sf_client f \<and> oc_is_active cl"
      "signup_submit A N f w = signup_register A N f client ivt w"
proof (rule form_client_run [of A f w])
  fix client
  assume c: "form_client A f w = (Inr client, w)"
    and cl: "\<And>cl. client = Some cl \<Longrightarrow> cl \<in> set (w_clients w) \<and> oc_id cl = sf_client f \<and> oc_is_active cl"
  note run = signup_submit_def [of A N f, folded form_client_def]
  consider (bad) "sf_password f \<noteq> sf_confirm f \<or> length (sf_password f) < 8"
    | (plain) "sf_password f = sf_confirm f" "8 \<le> length (sf_password f)" "sf_token f = []"
    | (token) "sf_password f = sf_confirm f" "8 \<le> length (sf_password f)" "sf_token f \<noteq> []" by linarith
  then show thesis
  proof cases
    case bad
    then have "\<exists>p. signup_submit A N f w = (Inr (SignupPage p, []), w)"
      by (auto simp: run ebind_run c signup_again_def)
    then show ?thesis using page by blast
  next
    case plain
    then show ?thesis by (intro register [OF plain(1,2) _ cl, of None]) (simp_all add: run ebind_run c)
  next
    case token
    show ?thesis
    proof (cases "\<exists>i. invite_of_token A (sf_token f) w = Inr (Some i)")
      case False
      then have "\<exists>p. signup_submit A N f w = (Inr (SignupPage p, []), w)"
        using token by (auto simp: run ebind_run c signup_again_def split: sum.split option.split)
      then show ?thesis using page by blast
    next
      case True
      then obtain i where i: "invite_of_token A (sf_token f) w = Inr (Some i)" ..
      then show ?thesis using token by (intro register [OF token(1,2) _ cl, of "Some i"]) (simp_all add: run ebind_run c)
    qed
  qed
qed

text \<open>C19. The sign-up form creates what it announces and nothing else: a page with an error leaves the
  database as it was; when the verification is announced, exactly one user has been added, unverified,
  with the hash of the password that was entered twice and has eight characters, in the tenant and
  with the role and address of a pending invitation, which is accepted by it, or without an invitation
  in the tenant of an active client, with no role and the address entered; and one mail goes to it.\<close>

theorem signup_form_faithful:
  assumes run: "signup_submit A N f w = (Inr (v, ms), w')"
  shows "(\<forall>p. v = SignupPage p \<longrightarrow> w' = w \<and> ms = [])
    \<and> (\<forall>e. v = VerificationSent e \<longrightarrow>
        (\<exists>ivt tenant hash vt. sf_password f = sf_confirm f \<and> 8 \<le> length (sf_password f)
          \<and> ac_hash A (ar_salt N) (sf_password f) = Inr hash \<and> e = signup_email f ivt
          \<and> (if sf_token f = [] then ivt = None else (\<exists>i. ivt = Some i \<and> invite_of_token A (sf_token f) w = Inr (Some i)))
          \<and> (case ivt of Some i \<Rightarrow> tenant = iv_tenant i
             | None \<Rightarrow> (\<exists>cl \<in> set (w_clients w). oc_id cl = sf_client f \<and> oc_is_active cl \<and> tenant = oc_tenant cl))
          \<and> w_users w' = w_users w @ [new_user_row (ar_id N) tenant e hash (sf_first f) (sf_last f) (invited_role ivt) (w_now w)]
          \<and> (\<forall>i. ivt = Some i \<longrightarrow> (\<forall>j \<in> set (w_invites w'). iv_id j = iv_id i \<longrightarrow> iv_accepted j = Some (w_now w)))
          \<and> ms = [VerificationMail (sf_first f) (sf_last f) e (ar_id N) tenant (Some vt)]))"
proof (cases rule: signup_submit_cases [of A N f w])
  case (page p)
  with run show ?thesis by auto
next
  case reg: (register client ivt)
  show ?thesis
  proof (cases rule: signup_register_cases [of A N f client ivt w])
    case (page p)
    with run reg(5) show ?thesis by auto
  next
    case (failed e)
    with run reg(5) show ?thesis by simp
  next
    case op: (opened r tenant hash l)
    with run reg(5) have r: "r = Inr (v, ms)" and w': "w' = w\<lparr>w_users := w_users w @ [new_user_row (ar_id N) tenant
        (signup_email f ivt) hash (sf_first f) (sf_last f) (invited_role ivt) (w_now w)],
        w_invites := (if sf_token f = [] then w_invites w else invites_after A (sf_token f) w), w_log := l\<rparr>" by simp_all
    from op(4) [OF r] obtain vt where vm: "v = VerificationSent (signup_email f ivt)"
      "ms = [VerificationMail (sf_first f) (sf_last f) (signup_email f ivt) (ar_id N) tenant (Some vt)]" by blast
    have te: "case ivt of Some i \<Rightarrow> tenant = iv_tenant i
        | None \<Rightarrow> (\<exists>cl \<in> set (w_clients w). oc_id cl = sf_client f \<and> oc_is_active cl \<and> tenant = oc_tenant cl)"
      using op(1) reg(4) by (auto simp: tenant_of_signup_def split: option.splits)
    have ac: "\<forall>j \<in> set (w_invites w'). iv_id j = iv_id i \<longrightarrow> iv_accepted j = Some (w_now w)" if "ivt = Some i" for i
    proof -
      from that reg(3) have "sf_token f \<noteq> []" "invite_of_token A (sf_token f) w = Inr (Some i)" by (auto split: if_splits)
      then show ?thesis using invite_Some(4) marked [of "iv_id i" w] by (simp add: w')
    qed
    show ?thesis
      using vm te ac reg(1,2,3) op(2) by (intro conjI allI impI exI [of _ ivt] exI [of _ tenant] exI [of _ hash] exI [of _ vt])
        (simp_all add: w')
  qed
qed

section \<open>A demonstration\<close>

definition demo_invite :: invitation_row where
  "demo_invite = \<lparr>iv_id = ''i1'', iv_tenant = ''t1'', iv_client = Some ''app'', iv_email = ''new@x'', iv_role = Some ''member'',
     iv_invited_by = ''u1'', iv_expires = 1000, iv_accepted = None, iv_created = 0\<rparr>"

definition plain_entry :: "string \<Rightarrow> json dict \<Rightarrow> string \<times> json dict \<times> string \<times> string \<times> json dict" where
  "plain_entry t p = (t, p, ''s'', ''HS256'', [])"

definition demo_accounts :: account_env where
  "demo_accounts =
     \<lparr>ac_oidc = demo_oidc\<lparr>oe_auth := demo_auth\<lparr>ae_tokens := hs_tokens
        [plain_entry ''it'' (invite_payload ''i1'' 100), plain_entry ''it2'' (invite_payload ''n9'' 100),
         plain_entry ''vt'' (verification_payload 100 ''n9'' ''t1''),
         plain_entry ''at'' [(''user_id'', JStr ''u1'')]]\<rparr>\<rparr>,
      ac_hash = (\<lambda>salt pw. Inr pw), ac_base_url = ''https://iam'', ac_exc_text = (\<lambda>_. []), ac_exc_name = (\<lambda>_. [])\<rparr>"

definition demo_account_random :: account_random where
  "demo_account_random = \<lparr>ar_id = ''n9'', ar_salt = ''s'', ar_tenant = ''t9''\<rparr>"

definition demo_form :: "string \<Rightarrow> signup_form" where
  "demo_form t = \<lparr>sf_email = ''me@x'', sf_password = ''12345678'', sf_confirm = ''12345678'', sf_first = ''N'', sf_last = ''W'',
     sf_client = ''app'', sf_redirect_uri = [], sf_token = t\<rparr>"

definition account_demo :: world where
  "account_demo = oidc_demo\<lparr>w_invites := [demo_invite]\<rparr>"

lemma demo_form_run:
  "fst (signup_submit demo_accounts demo_account_random (demo_form ''it'') account_demo)
     = Inr (VerificationSent ''new@x'', [VerificationMail ''N'' ''W'' ''new@x'' ''n9'' ''t1'' (Some ''vt'')])"
  by code_simp

theorem signup_form_faithful_witness:
  "\<exists>u. w_users (snd (signup_submit demo_accounts demo_account_random (demo_form ''it'') account_demo))
        = w_users account_demo @ [u] \<and> us_email u = ''new@x'' \<and> us_role u = Some ''member'' \<and> \<not> us_email_verified u"
proof -
  let ?r = "signup_submit demo_accounts demo_account_random (demo_form ''it'') account_demo"
  have i: "invite_of_token demo_accounts ''it'' account_demo = Inr (Some demo_invite)" by code_simp
  have "?r = (Inr (VerificationSent ''new@x'', [VerificationMail ''N'' ''W'' ''new@x'' ''n9'' ''t1'' (Some ''vt'')]), snd ?r)"
    by (metis demo_form_run prod.collapse)
  from signup_form_faithful [OF this] i show ?thesis
    by (auto simp: demo_form_def new_user_row_def invited_role_def demo_invite_def)
qed

section \<open>Invitations are used once\<close>

lemma signup_api_cases:
  obtains (error) e where "signup_api A N q cid w = (Inr (Failure e, []), w)"
  | (register) tenant role where "signup_api A N q cid w = signup_api_register A N q tenant role w"
      "if ostr_true (sr_token q)
       then (\<exists>i. invite_of_token A (the (sr_token q)) w = Inr (Some i) \<and> tenant = Some (iv_tenant i) \<and> role = iv_role i)
       else role = None \<and> (\<forall>t. tenant = Some t \<longrightarrow>
              (\<exists>cl \<in> set (w_clients w). Some (oc_id cl) = cid \<and> oc_is_active cl \<and> t = oc_tenant cl))"
proof -
  obtain y where y: "validate_client (ac_oidc A) cid None w = (Inr y, w)" using validate_client_pure by blast
  define client where "client = (if ostr_true cid then y else None)"
  have c: "(if ostr_true cid then validate_client (ac_oidc A) cid None else eret None) w = (Inr client, w)"
    using y by (simp add: client_def)
  have cl: "\<exists>cl \<in> set (w_clients w). Some (oc_id cl) = cid \<and> oc_is_active cl \<and> t = oc_tenant cl"
    if "map_option oc_tenant client = Some t" for t
  proof -
    from that obtain z where z: "y = Some z" "t = oc_tenant z" by (auto simp: client_def split: if_splits)
    with y have "sql_row (\<lambda>c. Some (oc_id c) = cid \<and> oc_is_active c) (w_clients w) = Some z" by (simp add: validate_client_Some)
    from sql_row_Some [OF this] z show ?thesis by blast
  qed
  show thesis
  proof (cases "ostr_true (sr_token q)")
    case False
    then show ?thesis
      using cl by (intro register [of "map_option oc_tenant client" None]) (simp_all add: signup_api_def ebind_run c)
  next
    case True
    show ?thesis
    proof (cases "\<exists>i. invite_of_token A (the (sr_token q)) w = Inr (Some i)")
      case False
      then have "\<exists>e. signup_api A N q cid w = (Inr (Failure e, []), w)"
        using True by (auto simp: signup_api_def ebind_run c signup_error_def split: sum.split option.split)
      then show ?thesis using error by blast
    next
      case t: True
      then obtain i where i: "invite_of_token A (the (sr_token q)) w = Inr (Some i)" ..
      then show ?thesis using True
        by (intro register [of "Some (iv_tenant i)" "iv_role i"]) (simp_all add: signup_api_def ebind_run c)
    qed
  qed
qed

datatype account_event =
    FormSignup account_random signup_form
  | ApiSignup account_random signup_request "string option"
  | Invite account_random conn invitation_request token_data
  | Withdraw string token_data
  | DropClient string token_data
  | Wait nat

fun account_step :: "account_env \<Rightarrow> account_event \<Rightarrow> world \<Rightarrow> world" where
  "account_step A (FormSignup N f) w = snd (signup_submit A N f w)"
| "account_step A (ApiSignup N q cid) w = snd (signup_api A N q cid w)"
| "account_step A (Invite N c q auth) w = snd (create_invitation A N c q auth w)"
| "account_step A (Withdraw iid auth) w = snd (revoke_invitation iid auth w)"
| "account_step A (DropClient cid auth) w = snd (delete_client cid auth w)"
| "account_step A (Wait n) w = w\<lparr>w_now := w_now w + int n\<rparr>"

fun event_token :: "account_event \<Rightarrow> string" where
  "event_token (FormSignup N f) = sf_token f"
| "event_token (ApiSignup N q cid) = (case sr_token q of None \<Rightarrow> [] | Some t \<Rightarrow> t)"
| "event_token _ = []"

text \<open>
  The invitation a token speaks of, its expiry left aside; an event wins with it when it presents a
  token and adds a user. What the token library promises: the expiry only decides whether a token is
  read, not what is read.
\<close>

definition ticket :: "account_env \<Rightarrow> account_event \<Rightarrow> string option" where
  "ticket A e =
     (case te_decode (ac_tokens A) (event_token e) (plain_opts False 0) of
        Inr p \<Rightarrow> (case dget p ''invitation_id'' of Some (JStr s) \<Rightarrow> Some s | _ \<Rightarrow> None)
      | Inl _ \<Rightarrow> None)"

definition admits :: "account_env \<Rightarrow> account_event \<Rightarrow> world \<Rightarrow> bool" where
  "admits A e w \<longleftrightarrow> event_token e \<noteq> [] \<and> w_users (account_step A e w) \<noteq> w_users w"

definition accepted_invite :: "world \<Rightarrow> string option \<Rightarrow> bool" where
  "accepted_invite w c \<longleftrightarrow> spent_in iv_id (\<lambda>i. iv_accepted i \<noteq> None) (w_invites w) c"

definition expiry_only :: "tok_env \<Rightarrow> bool" where
  "expiry_only E \<longleftrightarrow> (\<forall>t now p. te_decode E t (plain_opts True now) = Inr p \<longrightarrow> te_decode E t (plain_opts False 0) = Inr p)"

lemma signup_step:
  assumes "event_token e = t" "e = FormSignup N f \<or> e = ApiSignup N q cid"
  obtains (same) "w_users (account_step A e w) = w_users w" "w_invites (account_step A e w) = w_invites w"
  | (plain) "t = []" "w_invites (account_step A e w) = w_invites w"
  | (invited) i where "t \<noteq> []" "invite_of_token A t w = Inr (Some i)" "w_invites (account_step A e w) = invites_after A t w"
  using assms(2)
proof
  assume e: "e = FormSignup N f"
  then have t: "t = sf_token f" using assms(1) by simp
  show thesis
  proof (cases rule: signup_submit_cases [of A N f w])
    case (page p)
    then show ?thesis using e by (intro same) simp_all
  next
    case reg: (register client ivt)
    show ?thesis
    proof (cases rule: signup_register_cases [of A N f client ivt w])
      case (page p)
      then show ?thesis using e reg(5) by (intro same) simp_all
    next
      case (failed x)
      then show ?thesis using e reg(5) by (intro same) simp_all
    next
      case op: (opened r tenant hash l)
      show ?thesis
      proof (cases "t = []")
        case True
        then show ?thesis using e reg(5) op(3) t by (intro plain) simp_all
      next
        case False
        with t reg(3) obtain i where "invite_of_token A t w = Inr (Some i)" by auto
        then show ?thesis using e reg(5) op(3) t False by (intro invited) simp_all
      qed
    qed
  qed
next
  assume e: "e = ApiSignup N q cid"
  then have t: "(t = []) = (\<not> ostr_true (sr_token q))" "ostr_true (sr_token q) \<Longrightarrow> t = the (sr_token q)"
    using assms(1) by (auto simp: ostr_true_def split: option.splits)
  show thesis
  proof (cases rule: signup_api_cases [of A N q cid w])
    case (error x)
    then show ?thesis using e by (intro same) simp_all
  next
    case reg: (register tenant role)
    show ?thesis
    proof (cases rule: signup_api_register_cases [of A N q tenant role w])
      case (error x)
      then show ?thesis using e reg(1) by (intro same) simp_all
    next
      case (failed x)
      then show ?thesis using e reg(1) by (intro same) simp_all
    next
      case op: (opened r tn hash l)
      show ?thesis
      proof (cases "t = []")
        case True
        then show ?thesis using e reg(1) op(4) t by (intro plain) simp_all
      next
        case False
        with t reg(2) obtain i where "invite_of_token A t w = Inr (Some i)" by auto
        then show ?thesis using e reg(1) op(4) t False by (intro invited) simp_all
      qed
    qed
  qed
qed

lemma spent_in_delete:
  assumes "\<And>r. p r \<Longrightarrow> \<not> mark r" "spent_in key mark t c"
  shows "spent_in key mark (sql_delete p t) c"
proof -
  from assms(2) obtain r where r: "r \<in> set t" "Some (key r) = c" "\<forall>r \<in> set t. Some (key r) = c \<longrightarrow> mark r"
    by (auto simp: spent_in_def)
  then have "r \<in> set (sql_delete p t)" using assms(1) by (auto simp: set_sql_delete)
  with r show ?thesis unfolding spent_in_def by (intro conjI bexI [of _ r]) (simp_all add: set_sql_delete)
qed

lemma other_step_accepted:
  assumes "event_token e = []" "\<And>N f. e \<noteq> FormSignup N f" "\<And>N q c. e \<noteq> ApiSignup N q c"
    "accepted_invite w c"
  shows "accepted_invite (account_step A e w) c"
proof (cases e)
  case (Invite N d q auth)
  have ins: "keeps (\<lambda>w. accepted_invite w c) (insert_invite r)" for r
    by (auto simp: keeps_def insert_invite_def accepted_invite_def split: option.splits intro!: spent_in_append)
  have lb: "log_blind (\<lambda>w. accepted_invite w c)" by (simp add: log_blind_def accepted_invite_def)
  have vc: "keeps (\<lambda>w. accepted_invite w c) (validate_client (ac_oidc A) (iq_client q) None)"
    unfolding keeps_def by (metis validate_client_pure snd_conv)
  have "keeps (\<lambda>w. accepted_invite w c) (create_invitation A N d q auth)"
    unfolding create_invitation_def by (intro keeps_intros ins lb vc)
  from keepsD [OF this assms(4)] show ?thesis using Invite by simp
next
  case (Withdraw iid auth)
  have "spent_in iv_id (\<lambda>i. iv_accepted i \<noteq> None) (sql_delete (\<lambda>i. iv_id i = iid \<and> iv_tenant i = t \<and> iv_accepted i = None) tb) c"
    if "spent_in iv_id (\<lambda>i. iv_accepted i \<noteq> None) tb c" for t and tb :: "invitation_row list"
    using that by (intro spent_in_delete) auto
  with assms(4) Withdraw show ?thesis
    by (simp add: accepted_invite_def revoke_invitation_def log_audit_run eff_simps)
next
  case (DropClient cid auth)
  have "spent_in iv_id (\<lambda>i. iv_accepted i \<noteq> None) (w_invites (drop_client cid t w)) c" for t
    using assms(4) unfolding accepted_invite_def drop_client_def by (simp add: spent_in_update)
  with assms(4) DropClient show ?thesis
    by (simp add: accepted_invite_def delete_client_def find_client_run client_audit_def log_audit_run eff_simps split: option.split)
qed (use assms in \<open>simp_all add: accepted_invite_def\<close>)

lemma invites_after_accepted:
  assumes "invite_of_token A t w = Inr (Some i)" "accepted_invite w c"
  shows "spent_in iv_id (\<lambda>i. iv_accepted i \<noteq> None) (invites_after A t w) c"
  using assms(2) unfolding invite_Some(4) [OF assms(1)] accepted_invite_def mark_invite_def by (simp add: spent_in_update)

lemma ticket_of_invite:
  assumes "expiry_only (ac_tokens A)" "invite_of_token A (event_token e) w = Inr (Some i)"
  shows "ticket A e = Some (iv_id i)"
  using invite_Some(5) [OF assms(2)] assms(1) by (auto simp: ticket_def expiry_only_def)

text \<open>Only a sign-up adds users, and with a token only with a pending invitation.\<close>

lemma admits_signup:
  assumes "admits A e w"
  obtains i where "invite_of_token A (event_token e) w = Inr (Some i)"
    "w_invites (account_step A e w) = invites_after A (event_token e) w"
proof -
  have "\<exists>N f q cid. e = FormSignup N f \<or> e = ApiSignup N q cid"
    using assms by (cases e) (auto simp: admits_def)
  then obtain N f q cid where e: "e = FormSignup N f \<or> e = ApiSignup N q cid" by blast
  show thesis by (rule signup_step [OF refl e, of A w]) (use assms that in \<open>auto simp: admits_def\<close>)
qed

lemma invitations_one_time:
  assumes law: "expiry_only (ac_tokens A)"
  shows "one_time (account_step A) (admits A) accepted_invite (ticket A)"
proof
  fix e w
  assume "admits A e w"
  then obtain i where i: "invite_of_token A (event_token e) w = Inr (Some i)"
    "w_invites (account_step A e w) = invites_after A (event_token e) w" by (rule admits_signup)
  have "spent_in iv_id (\<lambda>i. iv_accepted i \<noteq> None) (w_invites (mark_invite (iv_id i) w)) (Some (iv_id i))"
    unfolding mark_invite_def by (simp, rule spent_in_mark [OF _ _ invite_Some(1) [OF i(1)]]) simp_all
  then show "accepted_invite (account_step A e w) (ticket A e)"
    by (simp add: accepted_invite_def i(2) invite_Some(4) [OF i(1)] ticket_of_invite [OF law i(1)])
next
  fix w e
  assume a: "accepted_invite w (ticket A e)"
  show "\<not> admits A e w"
  proof
    assume "admits A e w"
    then obtain i where i: "invite_of_token A (event_token e) w = Inr (Some i)" by (rule admits_signup)
    from a ticket_of_invite [OF law i] have "\<forall>r \<in> set (w_invites w). iv_id r = iv_id i \<longrightarrow> iv_accepted r \<noteq> None"
      by (simp add: accepted_invite_def spent_in_def)
    with invite_Some(1,2) [OF i] show False by blast
  qed
next
  fix w c e
  assume a: "accepted_invite w c"
  have signup: "accepted_invite (account_step A e w) c" if "e = FormSignup N f \<or> e = ApiSignup N q cid" for N f q cid
    by (rule signup_step [OF refl that, of A w])
      (use a invites_after_accepted [OF _ a] in \<open>auto simp: accepted_invite_def\<close>)
  show "accepted_invite (account_step A e w) c"
  proof (cases "\<exists>N f. e = FormSignup N f \<or> (\<exists>q cid. e = ApiSignup N q cid)")
    case True
    then show ?thesis using signup by blast
  next
    case False
    then have "event_token e = []" by (cases e) auto
    then show ?thesis by (rule other_step_accepted [OF _ _ _ a]) (use False in blast)+
  qed
qed

text \<open>C18. An invitation lets in one user: in any sequence of sign-ups by form and by API, new and
  withdrawn invitations, deletions of clients and passing time, at most one sign-up that presents a
  token of a given invitation adds a user.\<close>

theorem invitation_admits_once:
  assumes "expiry_only (ac_tokens A)"
  shows "length (filter (\<lambda>e. ticket A e = c) (winners (account_step A) (admits A) es w)) \<le> 1"
  by (rule one_time.at_most_once [OF invitations_one_time [OF assms]])

lemma hs_tokens_expiry: "expiry_only (hs_tokens tbl)"
  unfolding expiry_only_def hs_tokens_def manager_env_def
  by (auto simp: decode_token_def table_jwt_def plain_opts_def eff_simps oor_def Let_def
      split: sum.splits option.splits if_splits json.splits)

theorem invitation_admits_once_witness:
  "length (winners (account_step demo_accounts) (admits demo_accounts)
      [FormSignup demo_account_random (demo_form ''it''), FormSignup (demo_account_random\<lparr>ar_id := ''n10''\<rparr>) (demo_form ''it'')]
      account_demo) \<le> 1"
proof -
  have "expiry_only (ac_tokens demo_accounts)" by (simp add: demo_accounts_def hs_tokens_expiry)
  from invitation_admits_once [OF this, of "ticket demo_accounts (FormSignup demo_account_random (demo_form ''it''))"
      "[FormSignup demo_account_random (demo_form ''it''), FormSignup (demo_account_random\<lparr>ar_id := ''n10''\<rparr>) (demo_form ''it'')]" account_demo]
  show ?thesis by (simp add: ticket_def split: if_splits)
qed

section \<open>What an invitation is good for\<close>

lemma insert_invite_ok:
  assumes "insert_invite r w = (Inr (), w')"
  shows "w' = w\<lparr>w_invites := w_invites w @ [r]\<rparr>" "\<forall>i \<in> set (w_invites w). iv_id i \<noteq> iv_id r"
    "\<exists>t \<in> set (w_tenants w). tn_id t = iv_tenant r"
  using assms by (auto simp: insert_invite_def split: if_splits option.splits)

lemma create_invitation_ok:
  assumes "create_invitation A N c q auth w = (Inr (created_response il m, ms), w1)"
  obtains t l where "create_purpose_token (ac_tokens A) (invite_payload (ar_id N) (w_now w)) = Inr t"
    "il_link il = ac_base_url A @ ''/api/v1/oidc/signup?invitation='' @ t" "il_email il = iq_email q"
    "w1 = w\<lparr>w_invites := w_invites w @ [new_invite N q auth (w_now w)], w_log := l\<rparr>"
    "\<forall>i \<in> set (w_invites w). iv_id i \<noteq> ar_id N" "\<exists>t \<in> set (w_tenants w). tn_id t = td_tenant auth"
proof -
  let ?row = "new_invite N q auth (w_now w)"
  have no: "\<not> open_invite (iq_email q) (td_tenant auth) w" "\<not> email_taken c (iq_email q) (td_tenant auth) w"
    using assms by (auto simp: create_invitation_def eff_simps created_response_def split: if_splits)
  obtain x w2 where ins: "insert_invite ?row w = (x, w2)" by fastforce
  have x: "x = Inr ()" using assms no ins by (cases x) (auto simp: create_invitation_def eff_simps)
  note i = insert_invite_ok [OF ins [unfolded x]]
  obtain t where t: "create_purpose_token (ac_tokens A) (invite_payload (ar_id N) (w_now w)) = Inr t"
    using assms no ins x by (auto simp: create_invitation_def eff_simps split: sum.splits)
  let ?cl = "if ostr_true (iq_client q) then validate_client (ac_oidc A) (iq_client q) None else eret None"
  have cl: "\<exists>y. ?cl s = (Inr y, s)" for s
    using validate_client_pure by (cases "ostr_true (iq_client q)") auto
  define l where "l = w_log w2 @ [log_entry_of ''INFO'' (''AUDIT: '' @ ''invitation_created'')
      (some_items [(''action'', jstr ''invitation_created''), (''user_id'', jstr (td_user auth)),
        (''resource'', jstr ''/oidc/invite''), (''tenant_id'', jstr (td_tenant auth)),
        (''decision'', jstr (''Invited '' @ iq_email q))]) False]"
  obtain y where y: "?cl (w2\<lparr>w_log := l\<rparr>) = (Inr y, w2\<lparr>w_log := l\<rparr>)" using cl by blast
  have "create_invitation A N c q auth w = (Inr (created_response \<lparr>il_id = ar_id N, il_email = iq_email q, il_expires = w_now w + 7 * 86400,
        il_link = ac_base_url A @ ''/api/v1/oidc/signup?invitation='' @ t\<rparr> ''Invitation created successfully'',
      [invitation_mail q auth (tenant_row_of c (td_tenant auth) (w2\<lparr>w_log := l\<rparr>)) y t (w_now w + 7 * 86400)]), w2\<lparr>w_log := l\<rparr>)"
    using no ins x t y by (simp add: create_invitation_def log_audit_run ebind_run ethen_run l_def del: tenant_row_blind)
  with assms i t show ?thesis
    by (intro that [of t l]) (auto simp: created_response_def new_invite_def)
qed

lemma invite_token_decodes:
  assumes "env_law (ac_tokens A)" "create_purpose_token (ac_tokens A) (invite_payload iid now0) = Inr t" "now < now0 + 7 * 86400"
  shows "decode_purpose_token (ac_tokens A) now t (Some ''invitation'') = Inr (invite_payload iid now0)"
proof -
  have "unexpired now (invite_payload iid now0)"
    using assms(3) by (simp add: unexpired_def invite_payload_def claim_int_def dget_def)
  with env_decode [OF assms(1), of "invite_payload iid now0" "[]" t True now] assms(2)
  have "te_decode (ac_tokens A) t (plain_opts True now) = Inr (invite_payload iid now0)"
    by (simp add: create_purpose_token_def)
  then show ?thesis by (simp add: decode_purpose_token_def invite_payload_def claim_str_def dget_def)
qed

lemma insert_user_new:
  assumes "\<forall>x \<in> set (w_users w). us_id x \<noteq> us_id u \<and> \<not> (us_tenant x = us_tenant u \<and> us_email x = us_email u)"
    "\<exists>t \<in> set (w_tenants w). tn_id t = us_tenant u"
  shows "insert_user OwnerConn u w = (Inr (), w\<lparr>w_users := w_users w @ [u]\<rparr>)"
  using assms by (auto simp: insert_user_def)

lemma open_account_new:
  assumes "ac_hash A (ar_salt N) pw = Inr hash" "\<exists>t \<in> set (w_tenants w). tn_id t = tenant"
    "\<forall>u \<in> set (w_users w). us_id u \<noteq> ar_id N \<and> \<not> (us_tenant u = tenant \<and> us_email u = email)"
  shows "\<exists>w'. open_account A N tenant email pw fn ln token role w = (Inr (), w')
    \<and> w_users w' = w_users w @ [new_user_row (ar_id N) tenant email hash fn ln role (w_now w)]"
proof -
  let ?u = "new_user_row (ar_id N) tenant email hash fn ln role (w_now w)"
  have "insert_user OwnerConn ?u w = (Inr (), w\<lparr>w_users := w_users w @ [?u]\<rparr>)"
    by (rule insert_user_new) (use assms in \<open>simp_all add: new_user_row_def\<close>)
  with assms(1) show ?thesis by (simp add: open_account_def accept_run eff_simps)
qed

lemma ethen_log_only_users:
  assumes "m w = (Inr (), w')" "log_only k"
  shows "w_users (snd (ethen m k w)) = w_users w'"
proof -
  obtain r l where "k w' = (r, w'\<lparr>w_log := l\<rparr>)" using assms(2) unfolding log_only_def by blast
  with assms(1) show ?thesis by (simp add: ethen_run)
qed

lemma signup_api_register_new:
  assumes "tenant \<noteq> []" "8 \<le> length (sr_password r)" "ac_hash A (ar_salt N) (sr_password r) = Inr hash"
    and t: "\<exists>t \<in> set (w_tenants w). tn_id t = tenant"
    and f: "\<forall>u \<in> set (w_users w). us_id u \<noteq> ar_id N \<and> \<not> (us_tenant u = tenant \<and> us_email u = sr_email r)"
  shows "w_users (snd (signup_api_register A N r (Some tenant) role w))
    = w_users w @ [new_user_row (ar_id N) tenant (sr_email r) hash (sr_first r) (sr_last r) role (w_now w)]"
proof -
  have nt: "\<not> email_taken OwnerConn (sr_email r) tenant w"
    using f by (auto simp: email_taken_def users_of_def sql_row_None dest: sql_row_Some)
  let ?open = "open_account A N tenant (sr_email r) (sr_password r) (sr_first r) (sr_last r)
        (case sr_token r of None \<Rightarrow> [] | Some t \<Rightarrow> t) role"
  let ?tail = "ethen (registered_audit N tenant ''/oidc/signup/api'' (''User '' @ sr_email r @ '' registered via API''))
      (ebind (verification_token A N tenant) (\<lambda>vt.
       eret (created_response \<lparr>sy_user = ar_id N, sy_email = sr_email r\<rparr> account_created,
             [VerificationMail (sr_first r) (sr_last r) (sr_email r) (ar_id N) tenant (Some vt)])))"
  obtain w' where w': "?open w = (Inr (), w')"
      "w_users w' = w_users w @ [new_user_row (ar_id N) tenant (sr_email r) hash (sr_first r) (sr_last r) role (w_now w)]"
    using open_account_new [OF assms(3) t f] by blast
  have lo: "log_only ?tail" by (intro log_only_token log_only_then) (simp_all add: registered_audit_def)
  have "signup_api_register A N r (Some tenant) role w = ethen ?open ?tail w"
    using assms(1,2) nt by (simp add: signup_api_register_def ebind_run)
  then show ?thesis
    using ethen_log_only_users [where m = ?open and w = w and k = ?tail, OF w'(1) lo] w'(2) by simp
qed

text \<open>Whoever is signed in can give any role to any address: every user of a tenant, of whatever
  role, who creates an invitation gets a link that within seven days lets the API register an address
  of choice, not the invited one, as a user of the tenant with the role the inviter wrote into it.\<close>

theorem invitation_escalates:
  assumes law: "env_law (ac_tokens A)" and ne: "\<And>p h. te_sign (ac_tokens A) p h \<noteq> Inr []"
    and create: "create_invitation A N c q auth w = (Inr (created_response il m, ms), w1)"
    and time: "d < 7 * 86400" and ten: "td_tenant auth \<noteq> []"
    and pw: "8 \<le> length (sr_password r)" "ac_hash A (ar_salt N2) (sr_password r) = Inr hash"
    and fresh: "\<forall>u \<in> set (w_users w). us_id u \<noteq> ar_id N2 \<and> \<not> (us_tenant u = td_tenant auth \<and> us_email u = sr_email r)"
  shows "\<exists>t. il_link il = ac_base_url A @ ''/api/v1/oidc/signup?invitation='' @ t
    \<and> w_users (snd (signup_api A N2 (r\<lparr>sr_token := Some t\<rparr>) None (w1\<lparr>w_now := w_now w1 + int d\<rparr>)))
      = w_users w @ [new_user_row (ar_id N2) (td_tenant auth) (sr_email r) hash (sr_first r) (sr_last r) (iq_role q) (w_now w + int d)]"
proof -
  obtain t l where t: "create_purpose_token (ac_tokens A) (invite_payload (ar_id N) (w_now w)) = Inr t"
    "il_link il = ac_base_url A @ ''/api/v1/oidc/signup?invitation='' @ t"
    "w1 = w\<lparr>w_invites := w_invites w @ [new_invite N q auth (w_now w)], w_log := l\<rparr>"
    "\<forall>i \<in> set (w_invites w). iv_id i \<noteq> ar_id N" "\<exists>t \<in> set (w_tenants w). tn_id t = td_tenant auth"
    by (rule create_invitation_ok [OF create]) (rule that)
  let ?w = "w1\<lparr>w_now := w_now w1 + int d\<rparr>" and ?row = "new_invite N q auth (w_now w)"
  have "t \<noteq> []" using ne t(1) by (auto simp: create_purpose_token_def)
  then have "ostr_true (Some t)" by simp
  have "decode_purpose_token (ac_tokens A) (w_now ?w) t (Some ''invitation'') = Inr (invite_payload (ar_id N) (w_now w))"
    by (rule invite_token_decodes [OF law t(1)]) (use time t(3) in simp)
  moreover have "sql_row (\<lambda>i. iv_id i = ar_id N \<and> iv_accepted i = None \<and> w_now ?w < iv_expires i) (w_invites ?w) = Some ?row"
  proof -
    have "sql_row (\<lambda>i. iv_id i = ar_id N \<and> iv_accepted i = None \<and> w_now ?w < iv_expires i) (w_invites w) = None"
      using t(4) by (simp add: sql_row_None)
    then show ?thesis using time t(3) by (simp add: sql_row_append) (simp add: sql_row_def new_invite_def)
  qed
  ultimately have i: "invite_of_token A t ?w = Inr (Some ?row)"
    by (simp add: invite_of_token_def pending_invite_def invite_payload_def dget_def)
  have s: "signup_api A N2 (r\<lparr>sr_token := Some t\<rparr>) None ?w
      = signup_api_register A N2 (r\<lparr>sr_token := Some t\<rparr>) (Some (td_tenant auth)) (iq_role q) ?w"
    using i \<open>t \<noteq> []\<close> by (simp add: signup_api_def ebind_run new_invite_def)
  have "w_users (snd (signup_api_register A N2 (r\<lparr>sr_token := Some t\<rparr>) (Some (td_tenant auth)) (iq_role q) ?w))
      = w_users ?w @ [new_user_row (ar_id N2) (td_tenant auth) (sr_email (r\<lparr>sr_token := Some t\<rparr>)) hash
          (sr_first (r\<lparr>sr_token := Some t\<rparr>)) (sr_last (r\<lparr>sr_token := Some t\<rparr>)) (iq_role q) (w_now ?w)]"
    by (rule signup_api_register_new) (use ten pw fresh t(3,5) in simp_all)
  with s t(2,3) show ?thesis by auto
qed

lemma hs_sign: "te_sign (hs_tokens tbl) p h = Inr t \<Longrightarrow> t \<in> fst ` set tbl"
proof -
  assume a: "te_sign (hs_tokens tbl) p h = Inr t"
  have up: "py_upper ''HS256'' = ''HS256''" by (simp add: py_upper_def upper_char_def)
  from a obtain e where "find (\<lambda>(t, e). e = (p, ''s'', ''HS256'', h)) tbl = Some (t, e)"
    using up by (auto simp: hs_tokens_def manager_env_def sign_token_def table_jwt_def eff_simps oor_def none_if_empty_def Let_def
        demo_manager_def split: option.splits)
  then show ?thesis using sql_row_Some [of "\<lambda>(t, e). e = (p, ''s'', ''HS256'', h)" tbl "(t, e)"]
    by (force simp: sql_row_def)
qed

definition demo_request :: signup_request where
  "demo_request = \<lparr>sr_email = ''evil@x'', sr_password = ''12345678'', sr_first = ''E'', sr_last = ''V'', sr_token = None\<rparr>"

definition demo_invitation :: invitation_request where
  "demo_invitation = \<lparr>iq_email = ''nobody@x'', iq_role = Some ''superadmin'', iq_client = None\<rparr>"

lemma demo_invitation_run:
  "fst (create_invitation demo_accounts demo_account_random (TenantConn ''t1'') demo_invitation (client_admin ''t1'') account_demo)
   = Inr (created_response \<lparr>il_id = ''n9'', il_email = ''nobody@x'', il_expires = 604900,
        il_link = ''https://iam/api/v1/oidc/signup?invitation=it2''\<rparr> ''Invitation created successfully'',
      [InvitationMail ''nobody@x'' ''a@a'' ''T'' ''superadmin'' ''it2'' 604900 None])"
  by code_simp

theorem invitation_escalates_witness:
  "\<exists>t w1 u. w_users (snd (signup_api demo_accounts (demo_account_random\<lparr>ar_id := ''n11''\<rparr>) (demo_request\<lparr>sr_token := Some t\<rparr>) None w1))
     = w_users account_demo @ [u] \<and> us_role u = Some ''superadmin'' \<and> us_email u = ''evil@x''"
proof -
  let ?c = "create_invitation demo_accounts demo_account_random (TenantConn ''t1'') demo_invitation (client_admin ''t1'') account_demo"
  have run: "?c = (Inr (created_response \<lparr>il_id = ''n9'', il_email = ''nobody@x'', il_expires = 604900,
        il_link = ''https://iam/api/v1/oidc/signup?invitation=it2''\<rparr> ''Invitation created successfully'',
      [InvitationMail ''nobody@x'' ''a@a'' ''T'' ''superadmin'' ''it2'' 604900 None]), snd ?c)"
    by (metis demo_invitation_run prod.collapse)
  have law: "env_law (ac_tokens demo_accounts)" by (simp add: demo_accounts_def hs_tokens_law plain_entry_def)
  have ne: "te_sign (ac_tokens demo_accounts) p h \<noteq> Inr []" for p h
    by (auto simp: demo_accounts_def plain_entry_def dest!: hs_sign)
  have ten: "td_tenant (client_admin ''t1'') \<noteq> []" by (simp add: client_admin_def)
  have pw: "8 \<le> length (sr_password demo_request)" "ac_hash demo_accounts (ar_salt (demo_account_random\<lparr>ar_id := ''n11''\<rparr>)) (sr_password demo_request) = Inr ''12345678''"
    by (simp_all add: demo_request_def demo_accounts_def)
  have fresh: "\<forall>u \<in> set (w_users account_demo). us_id u \<noteq> ar_id (demo_account_random\<lparr>ar_id := ''n11''\<rparr>)
      \<and> \<not> (us_tenant u = td_tenant (client_admin ''t1'') \<and> us_email u = sr_email demo_request)"
    by (simp add: account_demo_def oidc_demo_def policy_demo_def demo_request_def)
  have "(3 :: nat) < 7 * 86400" by simp
  from invitation_escalates [OF law ne run this ten pw fresh] show ?thesis
    by (fastforce simp: new_user_row_def demo_invitation_def demo_request_def)
qed

text \<open>An invitation that has run out, or was accepted by a user who is gone, stands in the way of a
  new one: the check for pending invitations lets the request through, the unique key of the table
  then refuses it, and nothing is changed.\<close>

theorem old_invitation_blocks:
  assumes old: "i \<in> set (w_invites w)" "iv_tenant i = td_tenant auth" "iv_email i = iq_email q"
    and closed: "\<not> open_invite (iq_email q) (td_tenant auth) w" "\<not> email_taken c (iq_email q) (td_tenant auth) w"
  shows "create_invitation A N c q auth w = (Inl (DbErr UniqueViolationError), w)"
proof -
  have "insert_invite (new_invite N q auth (w_now w)) w = (Inl (DbErr UniqueViolationError), w)"
    using old by (auto simp: insert_invite_def new_invite_def)
  with closed show ?thesis by (simp add: create_invitation_def eff_simps)
qed

theorem old_invitation_blocks_witness:
  "create_invitation demo_accounts demo_account_random (TenantConn ''t1'') (demo_invitation\<lparr>iq_email := ''new@x''\<rparr>) (client_admin ''t1'')
     (account_demo\<lparr>w_now := 2000\<rparr>) = (Inl (DbErr UniqueViolationError), account_demo\<lparr>w_now := 2000\<rparr>)"
proof (rule old_invitation_blocks [where i = demo_invite])
  show "demo_invite \<in> set (w_invites (account_demo\<lparr>w_now := 2000\<rparr>))" by (simp add: account_demo_def)
  show "iv_tenant demo_invite = td_tenant (client_admin ''t1'')" by (simp add: demo_invite_def client_admin_def)
  show "iv_email demo_invite = iq_email (demo_invitation\<lparr>iq_email := ''new@x''\<rparr>)" by (simp add: demo_invite_def)
  show "\<not> open_invite (iq_email (demo_invitation\<lparr>iq_email := ''new@x''\<rparr>)) (td_tenant (client_admin ''t1'')) (account_demo\<lparr>w_now := 2000\<rparr>)"
    "\<not> email_taken (TenantConn ''t1'') (iq_email (demo_invitation\<lparr>iq_email := ''new@x''\<rparr>)) (td_tenant (client_admin ''t1'')) (account_demo\<lparr>w_now := 2000\<rparr>)"
    by code_simp+
qed

section \<open>Verification of addresses\<close>

definition verified_only :: "string option \<Rightarrow> world \<Rightarrow> world \<Rightarrow> bool" where
  "verified_only u w w' \<longleftrightarrow>
     w_users w' = map (\<lambda>r. if Some (us_id r) = u \<and> Some (us_tenant r) = tenant_of_user u w
                          then r\<lparr>us_email_verified := True\<rparr> else r) (w_users w)"

lemma verify_email_run:
  assumes "decode_purpose_token (ac_tokens A) (w_now w) t None = Inr p" "verify_claims p = Inr u"
  shows "\<exists>l. verify_email A html t w = (Inr (if html then VerifiedPage else VerifiedReply), (set_verified u (tenant_of_user u w) w)\<lparr>w_log := l\<rparr>)"
  using assms by (simp add: verify_email_def log_audit_run eff_simps) blast

lemma verify_email_fail:
  assumes "decode_purpose_token (ac_tokens A) (w_now w) t None = Inl e
    \<or> (\<exists>p. decode_purpose_token (ac_tokens A) (w_now w) t None = Inr p \<and> verify_claims p = Inl e)"
  shows "verify_email A html t w
    = (if html then (Inr InvalidLinkPage, w) else (Inl (HttpException 400 (Some ''Invalid or expired token'')), w))"
  using assms by (auto simp: verify_email_def eff_simps)

lemma readable_token_verifies:
  assumes p: "te_decode (ac_tokens A) t (plain_opts True (w_now w)) = Inr p" "verify_claims p = Inr (Some user)"
  shows "fst (verify_email A html t w) = Inr (if html then VerifiedPage else VerifiedReply)
    \<and> verified_only (Some user) w (snd (verify_email A html t w))"
proof -
  have "decode_purpose_token (ac_tokens A) (w_now w) t None = Inr p" by (simp add: decode_purpose_token_def p(1))
  then obtain l where "verify_email A html t w
      = (Inr (if html then VerifiedPage else VerifiedReply), (set_verified (Some user) (tenant_of_user (Some user) w) w)\<lparr>w_log := l\<rparr>)"
    using verify_email_run [OF _ p(2), of A w t html] by blast
  then show ?thesis by (simp add: verified_only_def set_verified_def sql_update_def)
qed

lemma issued_token_verifies:
  assumes law: "env_law (ac_tokens A)"
    and c: "create_verification_token (ac_tokens A) now0 user tenant = Inr t" "w_now w < now0 + 24 * 3600"
  shows "fst (verify_email A html t w) = Inr (if html then VerifiedPage else VerifiedReply)
    \<and> verified_only (Some user) w (snd (verify_email A html t w))"
proof (rule readable_token_verifies)
  have "unexpired (w_now w) (verification_payload now0 user tenant)"
    using c(2) by (simp add: unexpired_def verification_payload_def claim_int_def dget_def)
  with env_decode [OF law, of "verification_payload now0 user tenant" "[]" t True "w_now w"] c(1)
  show "te_decode (ac_tokens A) t (plain_opts True (w_now w)) = Inr (verification_payload now0 user tenant)"
    by (simp add: create_verification_token_def create_purpose_token_def)
  show "verify_claims (verification_payload now0 user tenant) = Inr (Some user)"
    by (simp add: verify_claims_def verification_payload_def dget_def)
qed

text \<open>What verifies an address: a verification token the service issued does within 24 hours, and
  an invitation never; but so does every token that says no purpose, an access token above all, and
  for a user who does not exist success is answered too. Only the flag of the user named is written;
  an unreadable or expired token changes nothing.\<close>

theorem email_verification:
  assumes law: "env_law (ac_tokens A)"
  shows "(create_verification_token (ac_tokens A) now0 user tenant = Inr t \<and> w_now w < now0 + 24 * 3600 \<longrightarrow>
        fst (verify_email A html t w) = Inr (if html then VerifiedPage else VerifiedReply)
        \<and> verified_only (Some user) w (snd (verify_email A html t w)))
    \<and> (\<forall>p. te_decode (ac_tokens A) t (plain_opts True (w_now w)) = Inr p \<longrightarrow>
        (dget p ''purpose'' = None \<and> dget p ''user_id'' = Some (JStr user) \<longrightarrow>
           fst (verify_email A html t w) = Inr (if html then VerifiedPage else VerifiedReply)
           \<and> verified_only (Some user) w (snd (verify_email A html t w)))
        \<and> (dget p ''purpose'' = Some (JStr ''invitation'') \<longrightarrow> snd (verify_email A html t w) = w
           \<and> fst (verify_email A html t w) \<noteq> Inr VerifiedReply \<and> fst (verify_email A html t w) \<noteq> Inr VerifiedPage))
    \<and> (\<forall>e. te_decode (ac_tokens A) t (plain_opts True (w_now w)) = Inl e \<longrightarrow> snd (verify_email A html t w) = w
        \<and> fst (verify_email A html t w) \<noteq> Inr VerifiedReply \<and> fst (verify_email A html t w) \<noteq> Inr VerifiedPage)"
proof -
  have bad: "snd (verify_email A html t w) = w \<and> fst (verify_email A html t w) \<noteq> Inr VerifiedReply
      \<and> fst (verify_email A html t w) \<noteq> Inr VerifiedPage"
    if "te_decode (ac_tokens A) t (plain_opts True (w_now w)) = Inl e
      \<or> (\<exists>p. te_decode (ac_tokens A) t (plain_opts True (w_now w)) = Inr p \<and> verify_claims p = Inl e)" for e
  proof -
    have "decode_purpose_token (ac_tokens A) (w_now w) t None = te_decode (ac_tokens A) t (plain_opts True (w_now w))"
      by (simp add: decode_purpose_token_def split: sum.split)
    with that have "verify_email A html t w
        = (if html then (Inr InvalidLinkPage, w) else (Inl (HttpException 400 (Some ''Invalid or expired token'')), w))"
      by (intro verify_email_fail [of A w t e]) simp
    then show ?thesis by simp
  qed
  note ok = readable_token_verifies [of A t w _ user html]
  note issued = issued_token_verifies [OF law, of now0 user tenant t w html]
  show ?thesis using ok bad issued by (auto simp: verify_claims_def)
qed

theorem email_verification_witness:
  "map us_email_verified (w_users (snd (verify_email demo_accounts False ''at''
      (account_demo\<lparr>w_users := map (\<lambda>u. u\<lparr>us_email_verified := False\<rparr>) (w_users account_demo)\<rparr>)))) = [True]"
proof -
  let ?w = "account_demo\<lparr>w_users := map (\<lambda>u. u\<lparr>us_email_verified := False\<rparr>) (w_users account_demo)\<rparr>"
  have law: "env_law (ac_tokens demo_accounts)" by (simp add: demo_accounts_def hs_tokens_law plain_entry_def)
  have d: "te_decode (ac_tokens demo_accounts) ''at'' (plain_opts True (w_now ?w)) = Inr [(''user_id'', JStr ''u1'')]" by code_simp
  from email_verification [OF law, of _ _ _ "''at''" ?w False] d have "verified_only (Some ''u1'') ?w (snd (verify_email demo_accounts False ''at'' ?w))"
    by (simp add: dget_def)
  then show ?thesis by (simp add: verified_only_def tenant_of_user_def account_demo_def oidc_demo_def policy_demo_def sql_row_def)
qed

end
