(* ===== verification/Onboarding.thy ===== *)
theory Onboarding
  imports Accounts
begin

text \<open>
  The onboarding of tenants (app/services/onboarding.py, app/api/v1/onboarding.py) and the listing of
  users (app/api/v1/users.py). Onboarding runs on the owner's connection, in one transaction.
\<close>

section \<open>Onboarding of tenants\<close>

text \<open>
  A transaction: when it is left by an exception the database is as before; the log, which is not in
  it, keeps its entries.
\<close>

definition atomically :: "'a svc \<Rightarrow> 'a svc" where
  "atomically m = (\<lambda>w. case m w of (Inl e, w') \<Rightarrow> (Inl e, w\<lparr>w_log := w_log w'\<rparr>) | (Inr x, w') \<Rightarrow> (Inr x, w'))"

definition logged :: "account_env \<Rightarrow> string \<Rightarrow> 'a svc \<Rightarrow> 'a svc" where
  "logged A msg m =
     etry m (\<lambda>e. ethen (log_write (log_entry_of ''ERROR'' msg [(''exception'', JStr (ac_exc_text A e))] True)) (eraise e))"

definition insert_tenant :: "tenant_row \<Rightarrow> unit svc" where
  "insert_tenant r = (\<lambda>w.
     if \<exists>t \<in> set (w_tenants w). tn_id t = tn_id r \<or> tn_domain t = tn_domain r then (Inl (DbErr UniqueViolationError), w)
     else (Inr (), w\<lparr>w_tenants := w_tenants w @ [r]\<rparr>))"

definition create_tenant :: "account_random \<Rightarrow> string \<Rightarrow> string \<Rightarrow> string \<Rightarrow> string svc" where
  "create_tenant N name domain root =
     ebind (eget w_now) (\<lambda>now.
     ethen (insert_tenant \<lparr>tn_id = ar_tenant N, tn_name = name, tn_domain = domain, tn_root = root,
              tn_settings = Some (JObj []), tn_is_active = True, tn_created = now\<rparr>)
           (eret (ar_tenant N)))"

record root_user =
  ru_email :: string
  ru_password :: string
  ru_first :: string
  ru_last :: string
  ru_role :: string

definition create_user :: "account_env \<Rightarrow> account_random \<Rightarrow> string \<Rightarrow> root_user \<Rightarrow> string svc" where
  "create_user A N tenant u =
     ebind (elift (ac_hash A (ar_salt N) (ru_password u))) (\<lambda>hash.
     ebind (eget w_now) (\<lambda>now.
     ethen (insert_user OwnerConn (new_user_row (ar_id N) tenant (ru_email u) hash (ru_first u) (ru_last u) (Some (ru_role u)) now))
           (eret (ar_id N))))"

text \<open>A plain \<open>INSERT\<close>: a second row of the same key is refused.\<close>

definition insert_new_policy :: "string \<times> string \<times> string \<Rightarrow> policy_doc \<Rightarrow> unit svc" where
  "insert_new_policy k d = (\<lambda>w.
     case policy_insert_error OwnerConn w k of
       Some e \<Rightarrow> (Inl e, w)
     | None \<Rightarrow> if policy_at (w_policies w) k \<noteq> None then (Inl (DbErr UniqueViolationError), w)
               else (Inr (), w\<lparr>w_policies := insert_row (w_now w) k d (w_policies w)\<rparr>))"

definition assign_policies :: "string \<Rightarrow> string \<Rightarrow> (string \<times> policy_doc) list \<Rightarrow> unit svc" where
  "assign_policies tenant user ps = eiter (\<lambda>(pid, d). insert_new_policy (tenant, user, pid) d) ps"

definition default_policies :: "(string \<times> policy_doc) list" where
  "default_policies =
     [(''admin_access'', \<lparr>pd_resource = ''all'', pd_actions = [''manage'', ''write'', ''archive'', ''delete''], pd_conditions = []\<rparr>)]"

text \<open>The statement names columns \<open>policy_id\<close> and \<open>policy\<close>, which \<open>tenant_policies\<close> does not have.\<close>

definition create_tenant_policies :: "string \<Rightarrow> (string \<times> json) list \<Rightarrow> bool svc" where
  "create_tenant_policies tenant ps = (if ps = [] then eret True else eraise (DbErr OtherPostgresError))"

record onboarding_request =
  oq_name :: string
  oq_domain :: string
  oq_user :: root_user
  oq_policies :: "(string \<times> json) list option"

record onboarding_result =
  on_tenant :: string
  on_user :: string

definition onboard_steps :: "account_env \<Rightarrow> account_random \<Rightarrow> onboarding_request \<Rightarrow> (string \<times> string) svc" where
  "onboard_steps A N q =
     ebind (logged A (''Failed to create tenant for '' @ ru_email (oq_user q))
              (ebind (create_tenant N (oq_name q) (oq_domain q) (ru_email (oq_user q))) (\<lambda>t.
               ethen (log_info (''Created tenant: '' @ t)) (eret t)))) (\<lambda>tenant.
     ebind (logged A (''Unable to create user for tenant: '' @ tenant)
              (ebind (create_user A N tenant (oq_user q)) (\<lambda>u.
               ethen (log_info (''Created user: '' @ u @ '' for tenant: '' @ tenant)) (eret u)))) (\<lambda>user.
     ethen (logged A (''Failed to assign default policies to user: '' @ user)
              (ethen (assign_policies tenant user default_policies)
                     (log_info (''Assigned default policies to user: '' @ user))))
    (ethen (case oq_policies q of
              Some (p # ps) \<Rightarrow>
                logged A (''Failed to create tenant policies for tenant: '' @ tenant)
                  (ethen (create_tenant_policies tenant (p # ps))
                         (log_info (''Created tenant-level policies for tenant: '' @ tenant)))
            | _ \<Rightarrow> eret ())
           (eret (tenant, user)))))"

definition onboard_tenant ::
    "account_env \<Rightarrow> account_random \<Rightarrow> onboarding_request \<Rightarrow> (onboarding_result \<times> mail list) svc" where
  "onboard_tenant A N q =
     etry (ebind (atomically (onboard_steps A N q)) (\<lambda>(tenant, user).
           ethen (log_info (''Verification email sent to: '' @ ru_email (oq_user q)))
                 (eret (\<lparr>on_tenant = tenant, on_user = user\<rparr>,
                        [VerificationMail (ru_first (oq_user q)) (ru_last (oq_user q)) (ru_email (oq_user q)) user tenant None]))))
       (\<lambda>e. ethen (force_error (''Tenant onboarding failed: '' @ ac_exc_name A e @ '': '' @ ac_exc_text A e)) (eraise e))"

definition tenant_onboarding ::
    "account_env \<Rightarrow> account_random \<Rightarrow> onboarding_request \<Rightarrow> (onboarding_result reply \<times> mail list) svc" where
  "tenant_onboarding A N q =
     ebind (onboard_tenant A N q) (\<lambda>(r, ms).
     ethen (if on_tenant r \<noteq> []
            then log_audit ''onboarding'' [(''user_id'', jstr (on_user r)), (''resource'', jstr ''/tenant/onboarding''),
                   (''tenant_id'', jstr (on_tenant r)), (''decision'', jstr ''New Tenant Onboarded'')]
            else eret ())
           (eret (success_response r ''Onboarding initiated. Check email for verification.'', ms)))"

section \<open>Users\<close>

text \<open>No statement writes \<open>last_login\<close>, so it is always null.\<close>

record user_view =
  uv_id :: string
  uv_email :: string
  uv_first :: string
  uv_last :: string
  uv_full_name :: string
  uv_role :: "string option"
  uv_is_active :: bool
  uv_created :: int
  uv_verified :: "bool option"

definition user_view_of :: "user_row \<Rightarrow> user_view" where
  "user_view_of u =
     \<lparr>uv_id = us_id u, uv_email = us_email u, uv_first = us_first u, uv_last = us_last u,
      uv_full_name = us_first u @ '' '' @ us_last u, uv_role = us_role u, uv_is_active = us_is_active u,
      uv_created = us_created u, uv_verified = None\<rparr>"

definition user_matches :: "(string \<Rightarrow> string \<Rightarrow> bool) \<Rightarrow> string option \<Rightarrow> user_row \<Rightarrow> bool" where
  "user_matches ilike search u \<longleftrightarrow>
     (ostr_true search \<longrightarrow>
        (let p = ''%'' @ the search @ ''%'' in ilike (us_email u) p \<or> ilike (us_first u) p \<or> ilike (us_last u) p))"

definition list_tenant_users ::
    "(string \<Rightarrow> string \<Rightarrow> bool) \<Rightarrow> conn \<Rightarrow> nat \<Rightarrow> nat \<Rightarrow> string option \<Rightarrow> token_data \<Rightarrow> user_view page_reply reply svc" where
  "list_tenant_users ilike c page page_size search user =
     ebind (eget (\<lambda>w. sql_count (user_matches ilike search) (users_of c w))) (\<lambda>cnt.
     ebind (eget (\<lambda>w. sql_page page_size (nat (page_offset (int page) (int page_size)))
                        (sort_key (\<lambda>u. - us_created u) (sql_select (user_matches ilike search) (users_of c w))))) (\<lambda>rows.
     ethen (log_info (''Listed '' @ digits_of (length rows) @ '' users for tenant '' @ td_tenant user))
           (eret (success_response \<lparr>pp_data = map user_view_of rows,
                    pp_pagination = pagination_info (int page) (int page_size) (int cnt)\<rparr>
                  (''Found '' @ digits_of cnt @ '' users'')))))"

definition get_user_by_id :: "conn \<Rightarrow> string \<Rightarrow> user_view reply svc" where
  "get_user_by_id c user_id =
     ebind (eget (\<lambda>w. sql_row (\<lambda>u. us_id u = user_id) (users_of c w))) (\<lambda>row.
     case row of
       None \<Rightarrow> eret (not_found_response (''User '' @ quoted user_id))
     | Some u \<Rightarrow> eret (Success (Some ((user_view_of u)\<lparr>uv_verified := Some (us_email_verified u)\<rparr>)) None 200))"

section \<open>Onboarding leaves a whole tenant or none\<close>

definition root_row :: "account_random \<Rightarrow> onboarding_request \<Rightarrow> string \<Rightarrow> int \<Rightarrow> user_row" where
  "root_row N q hash now =
     new_user_row (ar_id N) (ar_tenant N) (ru_email (oq_user q)) hash (ru_first (oq_user q)) (ru_last (oq_user q))
       (Some (ru_role (oq_user q))) now"

definition tenant_of_onboarding :: "account_random \<Rightarrow> onboarding_request \<Rightarrow> int \<Rightarrow> tenant_row" where
  "tenant_of_onboarding N q now =
     \<lparr>tn_id = ar_tenant N, tn_name = oq_name q, tn_domain = oq_domain q, tn_root = ru_email (oq_user q),
      tn_settings = Some (JObj []), tn_is_active = True, tn_created = now\<rparr>"

definition admin_policy :: policy_doc where
  "admin_policy = \<lparr>pd_resource = ''all'', pd_actions = [''manage'', ''write'', ''archive'', ''delete''], pd_conditions = []\<rparr>"

definition onboarded :: "account_random \<Rightarrow> onboarding_request \<Rightarrow> string \<Rightarrow> world \<Rightarrow> world" where
  "onboarded N q hash w =
     w\<lparr>w_tenants := w_tenants w @ [tenant_of_onboarding N q (w_now w)],
       w_users := w_users w @ [root_row N q hash (w_now w)],
       w_policies := w_policies w @ [new_policy_row (w_now w) (ar_tenant N, ar_id N, ''admin_access'') admin_policy]\<rparr>"

lemma logged_ok: "logged A msg m w = (Inr x, w') \<longleftrightarrow> m w = (Inr x, w')"
  by (auto simp: logged_def log_write_def eff_simps split: prod.splits sum.splits)

lemma atomically_cases:
  obtains (failed) e l where "atomically m w = (Inl e, w\<lparr>w_log := l\<rparr>)"
  | (completed) x w' where "m w = (Inr x, w')" "atomically m w = (Inr x, w')"
proof (cases "m w")
  case (Pair r w')
  show thesis
  proof (cases r)
    case (Inl e)
    with Pair show thesis by (intro failed [of e "w_log w'"]) (simp add: atomically_def)
  next
    case (Inr x)
    with Pair show thesis by (intro completed [of x w']) (simp_all add: atomically_def)
  qed
qed

lemma insert_tenant_ok:
  assumes "insert_tenant r w = (Inr u, w')"
  shows "w' = w\<lparr>w_tenants := w_tenants w @ [r]\<rparr>"
    "\<And>t. t \<in> set (w_tenants w) \<Longrightarrow> tn_id t \<noteq> tn_id r \<and> tn_domain t \<noteq> tn_domain r"
  using assms by (auto simp: insert_tenant_def split: if_splits)

lemma insert_new_policy_ok:
  assumes "insert_new_policy k d w = (Inr u, w')"
  shows "w' = w\<lparr>w_policies := w_policies w @ [new_policy_row (w_now w) k d]\<rparr>"
  using assms by (auto simp: insert_new_policy_def policy_at_def insert_row_def split: option.splits if_splits)

lemma logged_phase:
  assumes "logged A msg (ebind m (\<lambda>x. ethen (log_info (s x)) (eret x))) w = (Inr y, w')"
  obtains w1 l where "m w = (Inr y, w1)" "w' = w1\<lparr>w_log := l\<rparr>"
proof -
  from assms obtain x w1 where m: "m w = (Inr x, w1)" "ethen (log_info (s x)) (eret x) w1 = (Inr y, w')"
    unfolding logged_ok ebind_ok by blast
  from m(2) have "x = y" "w' = w1\<lparr>w_log := w_log w1 @ [log_entry_of ''INFO'' (s x) [] False]\<rparr>"
    by (auto simp: eff_simps)
  with m(1) that show thesis by blast
qed

lemma logged_phase_unit:
  assumes "logged A msg (ethen m (log_info s)) w = (Inr y, w')"
  obtains x w1 l where "m w = (Inr x, w1)" "w' = w1\<lparr>w_log := l\<rparr>"
proof -
  from assms obtain x w1 where m: "m w = (Inr x, w1)" "log_info s w1 = (Inr y, w')"
    unfolding logged_ok ethen_ok by blast
  from m(2) have "w' = w1\<lparr>w_log := w_log w1 @ [log_entry_of ''INFO'' s [] False]\<rparr>" by (simp add: eff_simps)
  with m(1) that show thesis by blast
qed

text \<open>The steps of the transaction, when all of them succeed.\<close>

lemma onboard_steps_ok:
  assumes "onboard_steps A N q w = (Inr r, w')"
  obtains hash l where "ac_hash A (ar_salt N) (ru_password (oq_user q)) = Inr hash"
    "r = (ar_tenant N, ar_id N)" "w' = (onboarded N q hash w)\<lparr>w_log := l\<rparr>" "oq_policies q \<in> {None, Some []}"
    "\<And>t. t \<in> set (w_tenants w) \<Longrightarrow> tn_id t \<noteq> ar_tenant N \<and> tn_domain t \<noteq> oq_domain q"
    "\<And>u. u \<in> set (w_users w) \<Longrightarrow> us_id u \<noteq> ar_id N"
proof -
  let ?trow = "tenant_of_onboarding N q (w_now w)" and ?k = "(ar_tenant N, ar_id N, ''admin_access'')"
  have none: "oq_policies q \<in> {None, Some []}"
  proof (rule ccontr)
    assume "oq_policies q \<notin> {None, Some []}"
    then obtain x xs where "oq_policies q = Some (x # xs)" by (cases "oq_policies q"; cases "the (oq_policies q)") auto
    with assms show False by (simp add: onboard_steps_def logged_ok ebind_ok ethen_ok create_tenant_policies_def)
  qed
  then have nop: "(case oq_policies q of None \<Rightarrow> eret () | Some [] \<Rightarrow> eret ()
      | Some (p # ps) \<Rightarrow> f p ps) = (eret () :: unit svc)" for f by auto
  from assms obtain t u x w1 w2 where
      p1: "logged A (''Failed to create tenant for '' @ ru_email (oq_user q))
              (ebind (create_tenant N (oq_name q) (oq_domain q) (ru_email (oq_user q))) (\<lambda>t.
               ethen (log_info (''Created tenant: '' @ t)) (eret t))) w = (Inr t, w1)"
    and p2: "logged A (''Unable to create user for tenant: '' @ t)
              (ebind (create_user A N t (oq_user q)) (\<lambda>u.
               ethen (log_info (''Created user: '' @ u @ '' for tenant: '' @ t)) (eret u))) w1 = (Inr u, w2)"
    and p3: "logged A (''Failed to assign default policies to user: '' @ u)
              (ethen (assign_policies t u default_policies)
                     (log_info (''Assigned default policies to user: '' @ u))) w2 = (Inr x, w')"
    and r: "r = (t, u)"
    unfolding onboard_steps_def ebind_ok ethen_ok nop by (auto simp: nop)
  obtain w1' l1 where t1: "create_tenant N (oq_name q) (oq_domain q) (ru_email (oq_user q)) w = (Inr t, w1')"
    "w1 = w1'\<lparr>w_log := l1\<rparr>" by (rule logged_phase [OF p1])
  obtain w2' l2 where t2: "create_user A N t (oq_user q) w1 = (Inr u, w2')" "w2 = w2'\<lparr>w_log := l2\<rparr>"
    by (rule logged_phase [OF p2])
  obtain u3 w3 l3 where t3: "assign_policies t u default_policies w2 = (Inr u3, w3)" "w' = w3\<lparr>w_log := l3\<rparr>"
    by (rule logged_phase_unit [OF p3])
  from t1 have tu: "t = ar_tenant N" and tenant: "insert_tenant ?trow w = (Inr (), w1')"
    by (auto simp: create_tenant_def ebind_ok ethen_ok tenant_of_onboarding_def)
  from t2 tu obtain hash where hash: "ac_hash A (ar_salt N) (ru_password (oq_user q)) = Inr hash" and uu: "u = ar_id N"
    and user: "insert_user OwnerConn (root_row N q hash (w_now w1)) w1 = (Inr (), w2')"
    by (auto simp: create_user_def ebind_ok ethen_ok root_row_def)
  from t3(1) tu uu have pol: "insert_new_policy ?k admin_policy w2 = (Inr (), w3)"
    by (auto simp: assign_policies_def default_policies_def admin_policy_def ethen_ok)
  have rest: "r = (ar_tenant N, ar_id N)" using r tu uu by simp
  note t = insert_tenant_ok [OF tenant]
  note u = insert_user_run [OF user]
  note p = insert_new_policy_ok [OF pol]
  show thesis
  proof (rule that [OF hash rest _ none])
    show "w' = (onboarded N q hash w)\<lparr>w_log := l3\<rparr>"
      using t3(2) p u(1) t(1) t1(2) t2(2) by (simp add: onboarded_def)
    show "tn_id x \<noteq> ar_tenant N \<and> tn_domain x \<noteq> oq_domain q" if "x \<in> set (w_tenants w)" for x
      using t(2) [OF that] by (simp add: tenant_of_onboarding_def)
    show "us_id x \<noteq> ar_id N" if "x \<in> set (w_users w)" for x
      using u(2) that t(1) t1(2) by (force simp: root_row_def new_user_row_def)
  qed
qed

lemma onboard_tenant_cases:
  obtains (failed) e l where "onboard_tenant A N q w = (Inl e, w\<lparr>w_log := l\<rparr>)"
  | (completed) hash l where "ac_hash A (ar_salt N) (ru_password (oq_user q)) = Inr hash"
      "onboard_tenant A N q w = (Inr (\<lparr>on_tenant = ar_tenant N, on_user = ar_id N\<rparr>,
         [VerificationMail (ru_first (oq_user q)) (ru_last (oq_user q)) (ru_email (oq_user q)) (ar_id N) (ar_tenant N) None]),
         (onboarded N q hash w)\<lparr>w_log := l\<rparr>)"
      "oq_policies q \<in> {None, Some []}"
      "\<And>t. t \<in> set (w_tenants w) \<Longrightarrow> tn_id t \<noteq> ar_tenant N \<and> tn_domain t \<noteq> oq_domain q"
      "\<And>u. u \<in> set (w_users w) \<Longrightarrow> us_id u \<noteq> ar_id N"
proof (cases rule: atomically_cases [of "onboard_steps A N q" w])
  case (failed e l)
  then have "\<exists>e l. onboard_tenant A N q w = (Inl e, w\<lparr>w_log := l\<rparr>)"
    by (simp add: onboard_tenant_def eff_simps) (intro exI, rule refl)
  with that(1) show ?thesis by blast
next
  case (completed r w')
  obtain hash l where o: "ac_hash A (ar_salt N) (ru_password (oq_user q)) = Inr hash"
    "r = (ar_tenant N, ar_id N)" "w' = (onboarded N q hash w)\<lparr>w_log := l\<rparr>" "oq_policies q \<in> {None, Some []}"
    "\<And>t. t \<in> set (w_tenants w) \<Longrightarrow> tn_id t \<noteq> ar_tenant N \<and> tn_domain t \<noteq> oq_domain q"
    "\<And>u. u \<in> set (w_users w) \<Longrightarrow> us_id u \<noteq> ar_id N"
    by (rule onboard_steps_ok [OF completed(1)]) (rule that)
  have "\<exists>l. onboard_tenant A N q w = (Inr (\<lparr>on_tenant = ar_tenant N, on_user = ar_id N\<rparr>,
       [VerificationMail (ru_first (oq_user q)) (ru_last (oq_user q)) (ru_email (oq_user q)) (ar_id N) (ar_tenant N) None]),
       (onboarded N q hash w)\<lparr>w_log := l\<rparr>)"
    using completed(2) o(2, 3) by (simp add: onboard_tenant_def eff_simps) (intro exI, rule refl)
  with that(2) [OF o(1) _ o(4)] o(5,6) show ?thesis by blast
qed

text \<open>C31. Onboarding leaves a whole tenant or none of it: it either raises, and then no table is
  changed, or it adds exactly the tenant, its root user, with the role the public request asks for
  and its address unverified, and the policy that lets it do everything, and answers with their
  keys; a request with policies of its own never succeeds.\<close>

theorem onboarding_all_or_nothing:
  "(\<exists>e l. onboard_tenant A N q w = (Inl e, w\<lparr>w_log := l\<rparr>))
   \<or> (\<exists>hash l. ac_hash A (ar_salt N) (ru_password (oq_user q)) = Inr hash
        \<and> onboard_tenant A N q w = (Inr (\<lparr>on_tenant = ar_tenant N, on_user = ar_id N\<rparr>,
             [VerificationMail (ru_first (oq_user q)) (ru_last (oq_user q)) (ru_email (oq_user q)) (ar_id N) (ar_tenant N) None]),
           (onboarded N q hash w)\<lparr>w_log := l\<rparr>)
        \<and> oq_policies q \<in> {None, Some []}
        \<and> {ar_tenant N} \<inter> tn_id ` set (w_tenants w) = {} \<and> {oq_domain q} \<inter> tn_domain ` set (w_tenants w) = {}
        \<and> {ar_id N} \<inter> us_id ` set (w_users w) = {})"
proof (cases rule: onboard_tenant_cases [of A N q w])
  case (failed e l)
  then show ?thesis by blast
next
  case (completed hash l)
  have "{ar_tenant N} \<inter> tn_id ` set (w_tenants w) = {}" "{oq_domain q} \<inter> tn_domain ` set (w_tenants w) = {}"
    "{ar_id N} \<inter> us_id ` set (w_users w) = {}"
    using completed(4) [THEN conjunct1] completed(4) [THEN conjunct2] completed(5) by (force simp: image_iff)+
  with completed(1-3) show ?thesis by blast
qed

section \<open>The pages of the user list\<close>

text \<open>The list of users, walked page by page up to the last page it announces, shows every user the
  connection sees that matches the search, newest first and each once; on a tenant's connection
  these are users of that tenant only, whatever tenant the token names; and reading it changes no
  table.\<close>

theorem user_pages_cover:
  fixes ilike search c w n
  defines "found \<equiv> sort_key (\<lambda>u. - us_created u) (sql_select (user_matches ilike search) (users_of c w))"
  defines "shown \<equiv> \<lambda>i. map user_view_of (sql_page n (i * n) found)"
  assumes "0 < n"
  shows "(\<forall>i. \<exists>m l. list_tenant_users ilike c (Suc i) n search user w = (Inr (success_response
            \<lparr>pp_data = shown i, pp_pagination = pagination_info (int (Suc i)) (int n) (int (length found))\<rparr> m), w\<lparr>w_log := l\<rparr>))
    \<and> concat (map shown [0..<nat (total_pages (int (length found)) (int n))]) = map user_view_of found
    \<and> (\<forall>t. c = TenantConn t \<longrightarrow> us_tenant ` set found \<subseteq> {t})"
proof -
  have run: "\<exists>m l. list_tenant_users ilike c (Suc i) n search user w = (Inr (success_response
            \<lparr>pp_data = shown i, pp_pagination = pagination_info (int (Suc i)) (int n) (int (length found))\<rparr> m), w\<lparr>w_log := l\<rparr>)" for i
    by (simp add: list_tenant_users_def eff_simps found_def shown_def page_offset_def nat_mult_distrib sql_count_def sql_select_def)
       blast
  have pages: "concat (map shown [0..<nat (total_pages (int (length found)) (int n))]) = map user_view_of found"
    using arg_cong [OF pages_cover [OF assms(3), of found], of "map user_view_of"]
    by (simp add: shown_def [abs_def] map_concat comp_def)
  have own: "\<forall>t. c = TenantConn t \<longrightarrow> us_tenant ` set found \<subseteq> {t}"
    by (auto simp: found_def sql_select_def users_of_def)
  show ?thesis using run pages own by blast
qed

theorem user_pages_cover_witness:
  "concat (map (\<lambda>i. map user_view_of (sql_page 1 (i * 1) (w_users account_demo))) [0..<1]) = map user_view_of (w_users account_demo)"
proof -
  have f: "sort_key (\<lambda>u. - us_created u) (sql_select (user_matches (\<lambda>_ _. False) None) (users_of (TenantConn ''t1'') account_demo))
      = w_users account_demo"
    by code_simp
  have "nat (total_pages (int (length (w_users account_demo))) (int 1)) = 1" by code_simp
  with user_pages_cover [where n = 1 and ilike = "\<lambda>_ _. False" and search = None and c = "TenantConn ''t1''"
      and w = account_demo, unfolded f] show ?thesis by simp
qed

end
