(* ===== verification/Url_Encoding.thy ===== *)
theory Url_Encoding
  imports Iam_Prelude
begin

text \<open>
  Percent-encoding and query strings as \<open>urllib.parse\<close> writes and reads them: \<open>quote_plus\<close>,
  \<open>urlencode\<close>, \<open>unquote\<close>, \<open>unquote_plus\<close>, \<open>parse_qsl\<close>. A string is the sequence of its UTF-8 bytes.
  The service uses them for the links of its pages, for the links it mails and for the passwords in
  its connection strings.
\<close>

section \<open>Query strings\<close>

definition hex_digit :: "nat \<Rightarrow> char" where
  "hex_digit n = (if n < 10 then char_of (48 + n) else char_of (55 + n))"

definition hex_value :: "char \<Rightarrow> nat option" where
  "hex_value c =
     (let n = of_char c :: nat in
      if 48 \<le> n \<and> n \<le> 57 then Some (n - 48)
      else if 65 \<le> n \<and> n \<le> 70 then Some (n - 55)
      else if 97 \<le> n \<and> n \<le> 102 then Some (n - 87) else None)"

definition alpha_char :: "char \<Rightarrow> bool" where
  "alpha_char c = (let n = of_char c :: nat in (65 \<le> n \<and> n \<le> 90) \<or> (97 \<le> n \<and> n \<le> 122))"

definition decimal_char :: "char \<Rightarrow> bool" where
  "decimal_char c = (let n = of_char c :: nat in 48 \<le> n \<and> n \<le> 57)"

definition unreserved_char :: "char \<Rightarrow> bool" where
  "unreserved_char c \<longleftrightarrow> alpha_char c \<or> decimal_char c \<or> c \<in> set ''_.-~''"

definition quote_char :: "char \<Rightarrow> string" where
  "quote_char c =
     (if unreserved_char c then [c] else if c = CHR '' '' then ''+''
      else [CHR ''%'', hex_digit (of_char c div 16), hex_digit (of_char c mod 16)])"

definition quote_plus :: "string \<Rightarrow> string" where
  "quote_plus s = concat (map quote_char s)"

definition quote_pair :: "string \<times> string \<Rightarrow> string" where
  "quote_pair p = quote_plus (fst p) @ CHR ''='' # quote_plus (snd p)"

definition urlencode :: "string dict \<Rightarrow> string" where
  "urlencode ps = py_join ''&'' (map quote_pair ps)"

fun unquote :: "string \<Rightarrow> string" where
  "unquote (c # a # b # r) =
     (if c = CHR ''%''
      then (case (hex_value a, hex_value b) of
              (Some x, Some y) \<Rightarrow> char_of (16 * x + y) # unquote r
            | _ \<Rightarrow> c # unquote (a # b # r))
      else c # unquote (a # b # r))"
| "unquote s = s"

definition unquote_plus :: "string \<Rightarrow> string" where
  "unquote_plus s = unquote (map (\<lambda>c. if c = CHR ''+'' then CHR '' '' else c) s)"

definition parse_pair :: "string \<Rightarrow> string \<times> string" where
  "parse_pair p =
     (unquote_plus (takeWhile (\<lambda>c. c \<noteq> CHR ''='') p), unquote_plus (drop 1 (dropWhile (\<lambda>c. c \<noteq> CHR ''='') p)))"

text \<open>\<open>parse_qsl(qs, keep_blank_values=True)\<close>, which the framework applies to a request's query.\<close>

definition parse_qsl :: "string \<Rightarrow> string dict" where
  "parse_qsl qs = map parse_pair (filter (\<lambda>p. p \<noteq> []) (split_all (CHR ''&'') qs))"

section \<open>Decoding what was encoded\<close>

lemma hex_value_digit: "n < 16 \<Longrightarrow> hex_value (hex_digit n) = Some n"
  by (auto simp: hex_value_def hex_digit_def Let_def)

lemma hex_digit_plain: "n < 16 \<Longrightarrow> hex_digit n \<notin> {CHR ''+'', CHR ''%'', CHR ''='', CHR ''&''}"
  using hex_value_digit [of n] by (auto simp: hex_value_def Let_def)

lemma unreserved_plain: "unreserved_char c \<Longrightarrow> c \<notin> {CHR ''+'', CHR ''%'', CHR ''='', CHR ''&''}"
  by (auto simp: unreserved_char_def alpha_char_def decimal_char_def Let_def)

lemma nibbles: "(of_char c :: nat) div 16 < 16" "(of_char c :: nat) mod 16 < 16"
  "char_of (16 * ((of_char c :: nat) div 16) + of_char c mod 16) = (c :: char)"
proof -
  have "(of_char c :: nat) < 256" by simp
  then show "(of_char c :: nat) div 16 < 16" by (intro less_mult_imp_div_less) simp
  show "(of_char c :: nat) mod 16 < 16" by simp
  show "char_of (16 * ((of_char c :: nat) div 16) + of_char c mod 16) = c" by simp
qed

lemma quote_char_plain: "d \<in> {CHR ''='', CHR ''&''} \<Longrightarrow> d \<notin> set (quote_char c)"
  using unreserved_plain [of c] hex_digit_plain [OF nibbles(1), of c] hex_digit_plain [OF nibbles(2), of c]
  by (auto simp: quote_char_def)

lemma quote_plus_plain: "d \<in> {CHR ''='', CHR ''&''} \<Longrightarrow> d \<notin> set (quote_plus s)"
  using quote_char_plain by (auto simp: quote_plus_def)

lemma unquote_cons: "c \<noteq> CHR ''%'' \<Longrightarrow> unquote (c # s) = c # unquote s"
  by (cases s; cases "tl s") auto

lemma unquote_plain: "CHR ''%'' \<notin> set s \<Longrightarrow> unquote s = s"
  by (induction s) (auto simp: unquote_cons)

lemma unquote_quoted: "unquote_plus (quote_char c @ s) = c # unquote_plus s"
proof -
  have h: "hex_digit (of_char c div 16) \<noteq> CHR ''+''" "hex_digit (of_char c mod 16) \<noteq> CHR ''+''"
    using hex_digit_plain [OF nibbles(1), of c] hex_digit_plain [OF nibbles(2), of c] by auto
  show ?thesis
    using unreserved_plain [of c] h
    by (auto simp: quote_char_def unquote_plus_def unquote_cons hex_value_digit nibbles)
qed

interpretation percent: text_codec quote_plus unquote_plus "\<lambda>s. s" "\<lambda>_. True"
proof
  show "unquote_plus (quote_plus s) = s" for s
  proof (induction s)
    case Nil
    show ?case by (simp add: quote_plus_def unquote_plus_def)
  next
    case (Cons c s)
    then show ?case using unquote_quoted [of c "quote_plus s"] by (simp add: quote_plus_def)
  qed
qed

interpretation pairs: text_codec quote_pair parse_pair "\<lambda>p. p" "\<lambda>_. True"
proof
  fix p :: "string \<times> string"
  have stop: "takeWhile (\<lambda>c. c \<noteq> CHR ''='') (quote_plus k @ CHR ''='' # v) = quote_plus k"
    "dropWhile (\<lambda>c. c \<noteq> CHR ''='') (quote_plus k @ CHR ''='' # v) = CHR ''='' # v" for k v
    using quote_plus_plain [of "CHR ''=''" k] by (auto simp: takeWhile_append dropWhile_append)
  show "parse_pair (quote_pair p) = p"
    by (simp add: parse_pair_def quote_pair_def stop percent.decodes)
qed

lemma parse_urlencode: "parse_qsl (urlencode ps) = ps"
  unfolding parse_qsl_def urlencode_def
  by (subst pairs.joined_decodes) (auto simp: quote_pair_def quote_plus_plain)

end
