(* ===== verification/Startup.thy ===== *)
theory Startup
  imports Iam_Store Url_Encoding "HOL-Library.Char_ord" "HOL-Library.List_Lexorder"
begin

text \<open>
  How a worker comes up and goes down: the connection strings (app/core/config.py,
  app/database/__init__.py, app/database/run_migrations.py, app/audit_logs/consumer.py), the
  migrations run at start and by the command line tool, and the order in which the lifespan of
  app/database/__init__.py opens and closes what the service uses. The migration library and the
  database behind it are a parameter; a migration is its id. Printed lines are values.
\<close>

section \<open>Connection strings\<close>

type_synonym environ = "string \<Rightarrow> string option"

definition getenv :: "environ \<Rightarrow> string \<Rightarrow> string \<Rightarrow> string" where
  "getenv env k d = (case env k of None \<Rightarrow> d | Some v \<Rightarrow> v)"

text \<open>An unset variable in an f-string is written \<open>None\<close>.\<close>

definition fstr :: "string option \<Rightarrow> string" where
  "fstr v = (case v of None \<Rightarrow> ''None'' | Some s \<Rightarrow> s)"

definition postgres_url :: "string \<Rightarrow> string option \<Rightarrow> string \<Rightarrow> string" where
  "postgres_url user password rest =
     ''postgresql://'' @ user @ '':'' @ (if ostr_true password then quote_plus (the password) else []) @ ''@'' @ rest"

definition db_connection_string :: "environ \<Rightarrow> string" where
  "db_connection_string env =
     postgres_url (fstr (env ''DATABASE_USER'')) (env ''DATABASE_PASSWORD'') (fstr (env ''DATABASE_URL''))"

definition db_owner_connection_string :: "environ \<Rightarrow> string" where
  "db_owner_connection_string env =
     postgres_url ''postgres'' (env ''DATABASE_PASSWORD'') (fstr (env ''DATABASE_URL''))"

text \<open>The consumer's own, with defaults.\<close>

definition consumer_db_url :: "environ \<Rightarrow> string" where
  "consumer_db_url env =
     postgres_url (getenv env ''DATABASE_USER'' ''postgres'') (Some (getenv env ''DATABASE_PASSWORD'' ''postgres''))
       (getenv env ''DATABASE_URL'' ''localhost:5432/hexiam'')"

text \<open>The tool's: the three variables when all are set, else the parts with their defaults.\<close>

definition get_database_url :: "environ \<Rightarrow> string" where
  "get_database_url env =
     (if ostr_true (env ''DATABASE_URL'') \<and> ostr_true (env ''DATABASE_USER'') \<and> ostr_true (env ''DATABASE_PASSWORD'')
      then postgres_url (the (env ''DATABASE_USER'')) (env ''DATABASE_PASSWORD'') (the (env ''DATABASE_URL''))
      else
        (let or_default = (\<lambda>v d. if ostr_true v then the v else d) in
         postgres_url (getenv env ''PG_USER'' (or_default (env ''DATABASE_USER'') ''app_user''))
           (Some (getenv env ''PG_PASSWORD'' (or_default (env ''DATABASE_PASSWORD'') [])))
           (getenv env ''PG_HOST'' ''127.0.0.1'' @ '':'' @ getenv env ''PG_PORT'' ''5432'' @ ''/''
            @ getenv env ''PG_DATABASE'' ''hexalgon-iam'')))"

definition redis_url :: "string \<Rightarrow> string \<Rightarrow> string \<Rightarrow> string \<Rightarrow> string \<Rightarrow> string" where
  "redis_url user password host port db =
     ''redis://''
     @ (if user \<noteq> [] \<and> password \<noteq> [] then user @ '':'' @ password @ ''@''
        else if password \<noteq> [] then '':'' @ password @ ''@'' else [])
     @ host @ '':'' @ port @ ''/'' @ db"

text \<open>
  What a driver reads: \<open>urlparse\<close> takes the network location up to the first slash, question mark
  or hash, the credentials up to its last at-sign, the user up to the first colon; the driver
  percent-decodes both.
\<close>

definition url_netloc :: "string \<Rightarrow> string" where
  "url_netloc rest = takeWhile (\<lambda>c. c \<notin> {CHR ''/'', CHR ''?'', CHR ''#''}) rest"

definition url_credentials :: "string \<Rightarrow> string \<Rightarrow> (string \<times> string) option" where
  "url_credentials scheme url =
     (if \<not> starts_with url scheme then None
      else
        (let loc = url_netloc (drop (length scheme) url) in
         if CHR ''@'' \<notin> set loc then None
         else
           (let info = rev (drop 1 (dropWhile (\<lambda>c. c \<noteq> CHR ''@'') (rev loc))) in
            Some (unquote (takeWhile (\<lambda>c. c \<noteq> CHR '':'') info),
                  unquote (drop 1 (dropWhile (\<lambda>c. c \<noteq> CHR '':'') info))))))"

section \<open>The migration library\<close>

record migration_error =
  me_type :: string
  me_text :: string

record 's migration_backend =
  mb_to_apply :: "string list \<Rightarrow> 's \<Rightarrow> string list"
  mb_to_rollback :: "string list \<Rightarrow> 's \<Rightarrow> string list"
  mb_apply :: "string list \<Rightarrow> (migration_error, 's, unit) eff"
  mb_rollback :: "string list \<Rightarrow> (migration_error, 's, unit) eff"

text \<open>
  What the library documents, for a reading \<open>applied\<close> of which migrations its log table holds: it
  offers for applying what is not applied and for undoing what is; applying and undoing do that to
  what they are given; a failed run may have applied some of it.
\<close>

definition backend_law :: "('s \<Rightarrow> string set) \<Rightarrow> 's migration_backend \<Rightarrow> bool" where
  "backend_law applied B \<longleftrightarrow>
     (\<forall>ms s. set (mb_to_apply B ms s) = set ms - applied s \<and> (distinct ms \<longrightarrow> distinct (mb_to_apply B ms s)))
     \<and> (\<forall>ms s. set (mb_to_rollback B ms s) = set ms \<inter> applied s \<and> (distinct ms \<longrightarrow> distinct (mb_to_rollback B ms s)))
     \<and> (\<forall>ms s s'. mb_apply B ms s = (Inr (), s') \<longrightarrow> applied s' = applied s \<union> set ms)
     \<and> (\<forall>ms s e s'. mb_apply B ms s = (Inl e, s') \<longrightarrow> applied s \<subseteq> applied s' \<and> applied s' \<subseteq> applied s \<union> set ms)
     \<and> (\<forall>ms s s'. mb_rollback B ms s = (Inr (), s') \<longrightarrow> applied s' = applied s - set ms)"

text \<open>A session with the library: the database and whether the connection was closed.\<close>

record 's migration_session =
  ms_db :: 's
  ms_closed :: bool

type_synonym ('s, 'a) migrating = "(migration_error, 's migration_session, 'a) eff"

definition on_db :: "(migration_error, 's, 'a) eff \<Rightarrow> ('s, 'a) migrating" where
  "on_db m = (\<lambda>w. case m (ms_db w) of (r, s) \<Rightarrow> (r, w\<lparr>ms_db := s\<rparr>))"

definition close_connection :: "('s, unit) migrating" where
  "close_connection = emod (\<lambda>w. w\<lparr>ms_closed := True\<rparr>)"

section \<open>Migrations at start\<close>

record migration_result =
  mr_pending_count :: nat
  mr_applied_count :: nat
  mr_pending :: "string list"
  mr_newly_applied :: "string list"

definition applied_by_another_worker :: "migration_error \<Rightarrow> bool" where
  "applied_by_another_worker e \<longleftrightarrow> contains_sub ''duplicate key'' (me_text e) \<or> contains_sub ''UniqueViolation'' (me_type e)"

definition run_migrations ::
    "'s migration_backend \<Rightarrow> string list \<Rightarrow> bool \<Rightarrow> ('s, migration_result) migrating" where
  "run_migrations B migrations auto_apply =
     ebind (eget (\<lambda>w. mb_to_apply B migrations (ms_db w))) (\<lambda>pending.
     ebind (eget (\<lambda>w. mb_to_rollback B migrations (ms_db w))) (\<lambda>applied.
     let result = \<lparr>mr_pending_count = length pending, mr_applied_count = length applied,
                   mr_pending = pending, mr_newly_applied = []\<rparr> in
     ebind
       (if pending \<noteq> [] \<and> auto_apply
        then etry
          (ebind (eget (\<lambda>w. mb_to_apply B migrations (ms_db w))) (\<lambda>todo.
           ethen (on_db (mb_apply B todo)) (eret (result\<lparr>mr_newly_applied := pending\<rparr>))))
          (\<lambda>e. if applied_by_another_worker e then eret result else eraise e)
        else eret result) (\<lambda>r.
     ethen close_connection (eret r))))"

section \<open>The command line tool\<close>

datatype migration_output =
    NoPending | Applying "string list" | AppliedAll
  | NoneToRollBack | RollingBack "string list" | RolledBack
  | Listed "(string \<times> string) list" nat nat nat
  | StatusOf nat nat "string list" "nat option" "string list"

text \<open>\<open>xs[:n]\<close>, where a negative \<open>n\<close> counts from the end.\<close>

definition py_prefix :: "int \<Rightarrow> 'a list \<Rightarrow> 'a list" where
  "py_prefix n xs = take (nat (if n < 0 then int (length xs) + n else n)) xs"

definition apply_migrations :: "'s migration_backend \<Rightarrow> string list \<Rightarrow> ('s, migration_output list) migrating" where
  "apply_migrations B migrations =
     ebind (eget (\<lambda>w. mb_to_apply B migrations (ms_db w))) (\<lambda>pending.
     if pending = [] then eret [NoPending]
     else ethen (on_db (mb_apply B pending)) (eret [Applying pending, AppliedAll]))"

definition rollback_migrations :: "'s migration_backend \<Rightarrow> string list \<Rightarrow> int \<Rightarrow> ('s, migration_output list) migrating" where
  "rollback_migrations B migrations count =
     ebind (eget (\<lambda>w. mb_to_rollback B migrations (ms_db w))) (\<lambda>applied.
     if applied = [] then eret [NoneToRollBack]
     else (let to_rollback = py_prefix count applied in
           ethen (on_db (mb_rollback B to_rollback)) (eret [RollingBack to_rollback, RolledBack])))"

definition list_migrations :: "'s migration_backend \<Rightarrow> string list \<Rightarrow> ('s, migration_output list) migrating" where
  "list_migrations B migrations =
     ebind (eget (\<lambda>w. mb_to_rollback B migrations (ms_db w))) (\<lambda>applied.
     ebind (eget (\<lambda>w. mb_to_apply B migrations (ms_db w))) (\<lambda>pending.
     eret [Listed
       (map (\<lambda>m. (m, if m \<in> set applied then ''applied'' else if m \<in> set pending then ''pending'' else ''? unknown''))
          (sort migrations))
       (length migrations) (card (set applied)) (card (set pending))]))"

definition show_status :: "'s migration_backend \<Rightarrow> string list \<Rightarrow> ('s, migration_output list) migrating" where
  "show_status B migrations =
     ebind (eget (\<lambda>w. mb_to_rollback B migrations (ms_db w))) (\<lambda>applied.
     ebind (eget (\<lambda>w. mb_to_apply B migrations (ms_db w))) (\<lambda>pending.
     eret [StatusOf (length applied) (length pending) (take 5 pending)
       (if 5 < length pending then Some (length pending - 5) else None) (take 3 applied)]))"

datatype migration_command = ApplyCmd | RollbackCmd | ListCmd | StatusCmd

text \<open>
  The tool: \<open>connect\<close> is what opening the database and reading the files gives; the exit code is 1
  when that or the command fails, and the connection, once open, is closed in any case. The lines a
  failing command had printed are left out.
\<close>

definition migration_main ::
    "(string \<Rightarrow> migration_error option) \<Rightarrow> 's migration_backend \<Rightarrow> string list \<Rightarrow> environ
      \<Rightarrow> migration_command \<Rightarrow> int \<Rightarrow> string option
      \<Rightarrow> 's migration_session \<Rightarrow> (nat \<times> migration_output list) \<times> 's migration_session" where
  "migration_main connect B migrations env command count url w =
     (let db_url = (if ostr_true url then the url else get_database_url env) in
      case connect db_url of
        Some e \<Rightarrow> ((1, []), w)
      | None \<Rightarrow>
          (case (case command of
                   ApplyCmd \<Rightarrow> apply_migrations B migrations
                 | RollbackCmd \<Rightarrow> rollback_migrations B migrations count
                 | ListCmd \<Rightarrow> list_migrations B migrations
                 | StatusCmd \<Rightarrow> show_status B migrations) w of
             (Inl e, w') \<Rightarrow> ((1, []), w'\<lparr>ms_closed := True\<rparr>)
           | (Inr out, w') \<Rightarrow> ((0, out), w'\<lparr>ms_closed := True\<rparr>)))"

section \<open>Reading connection strings\<close>

lemma hex_digit_reserved: "n < 16 \<Longrightarrow> hex_digit n \<notin> {CHR ''/'', CHR ''?'', CHR ''#'', CHR ''@'', CHR '':''}"
  using hex_value_digit [of n] by (auto simp: hex_value_def Let_def)

lemma quote_plus_reserved:
  assumes "d \<in> {CHR ''/'', CHR ''?'', CHR ''#'', CHR ''@'', CHR '':''}"
  shows "d \<notin> set (quote_plus s)"
proof -
  have "d \<notin> set (quote_char c)" for c
    using assms hex_digit_reserved [OF nibbles(1), of c] hex_digit_reserved [OF nibbles(2), of c]
    by (auto simp: quote_char_def unreserved_char_def alpha_char_def decimal_char_def Let_def)
  then show ?thesis by (auto simp: quote_plus_def)
qed

lemma space_reserved: "\<not> unreserved_char (CHR '' '')"
  by code_simp

text \<open>Decoding with \<open>unquote\<close> what \<open>quote_plus\<close> encoded leaves a plus for every space.\<close>

lemma unquote_quote_plus: "unquote (quote_plus s) = map (\<lambda>c. if c = CHR '' '' then CHR ''+'' else c) s"
proof (induction s)
  case (Cons c s)
  have "unquote (quote_char c @ t) = (if c = CHR '' '' then CHR ''+'' else c) # unquote t" for t
    using unreserved_plain [of c] space_reserved by (auto simp: quote_char_def unquote_cons hex_value_digit nibbles)
  with Cons show ?case by (simp add: quote_plus_def)
qed (simp add: quote_plus_def)

lemma last_at:
  "CHR ''@'' \<notin> set b \<Longrightarrow> rev (drop 1 (dropWhile (\<lambda>c. c \<noteq> CHR ''@'') (rev (a @ CHR ''@'' # b)))) = a"
  by (simp add: dropWhile_append3 dropWhile_append)

lemma netloc_of: "set a \<inter> {CHR ''/'', CHR ''?'', CHR ''#''} = {} \<Longrightarrow> url_netloc (a @ b) = a @ url_netloc b"
  by (auto simp: url_netloc_def takeWhile_append)

section \<open>Properties\<close>

text \<open>Whatever characters the database password has, the connection string keeps it apart from the rest,
  and a driver that takes the URL apart and percent-decodes it reads the configured user and the
  password, except that every space of the password has become a plus: such a password never
  logs in.\<close>

theorem connection_password_read:
  assumes "set user \<inter> set '':@/?#%'' = {}" "CHR ''@'' \<notin> set (url_netloc rest)"
  shows "url_credentials ''postgresql://'' (postgres_url user (Some password) rest)
     = Some (user, map (\<lambda>c. if c = CHR '' '' then CHR ''+'' else c) password)"
proof -
  let ?info = "user @ CHR '':'' # quote_plus password"
  have url: "postgres_url user (Some password) rest = ''postgresql://'' @ ?info @ CHR ''@'' # rest"
    by (simp add: postgres_url_def ostr_true_def quote_plus_def)
  have info: "set ?info \<inter> {CHR ''/'', CHR ''?'', CHR ''#''} = {}"
    using assms(1) quote_plus_reserved [of "CHR ''/''" password] quote_plus_reserved [of "CHR ''?''" password]
      quote_plus_reserved [of "CHR ''#''" password] by auto
  have loc: "url_netloc (?info @ CHR ''@'' # rest) = ?info @ CHR ''@'' # url_netloc rest"
    by (subst netloc_of [OF info]) (simp add: url_netloc_def)
  have no_colon: "CHR '':'' \<notin> set user" using assms(1) by auto
  have parts: "takeWhile (\<lambda>c. c \<noteq> CHR '':'') ?info = user"
    "drop 1 (dropWhile (\<lambda>c. c \<noteq> CHR '':'') ?info) = quote_plus password"
    using no_colon by (auto simp: takeWhile_append dropWhile_append)
  have sw: "starts_with (postgres_url user (Some password) rest) ''postgresql://''"
    "drop (length ''postgresql://'') (postgres_url user (Some password) rest) = ?info @ CHR ''@'' # rest"
    unfolding url by (simp_all add: starts_with_def)
  have "unquote user = user" using assms(1) by (auto intro: unquote_plain)
  then show ?thesis
    unfolding url_credentials_def sw(2) loc Let_def last_at [OF assms(2)] parts
    using sw(1) by (simp add: unquote_quote_plus)
qed

theorem connection_password_read_witness:
  "url_credentials ''postgresql://'' (postgres_url ''app'' (Some ''p@ss/w:rd 1'') ''db:5432/iam'')
     = Some (''app'', ''p@ss/w:rd+1'')"
  using connection_password_read [of "''app''" "''db:5432/iam''" "''p@ss/w:rd 1''"] by (simp add: url_netloc_def)

lemma law_apply:
  assumes "backend_law applied B"
  shows "set (mb_to_apply B ms s) = set ms - applied s" "distinct ms \<Longrightarrow> distinct (mb_to_apply B ms s)"
    "mb_apply B ms s = (Inr (), s') \<Longrightarrow> applied s' = applied s \<union> set ms"
    "mb_apply B ms s = (Inl e, s') \<Longrightarrow> applied s \<subseteq> applied s' \<and> applied s' \<subseteq> applied s \<union> set ms"
proof -
  note law = assms [unfolded backend_law_def]
  note offers = law [THEN conjunct1, rule_format, of ms s]
  show "set (mb_to_apply B ms s) = set ms - applied s" using offers by (rule conjunct1)
  show "distinct ms \<Longrightarrow> distinct (mb_to_apply B ms s)" using offers by simp
  note runs = law [THEN conjunct2, THEN conjunct2]
  show "mb_apply B ms s = (Inr (), s') \<Longrightarrow> applied s' = applied s \<union> set ms"
    by (rule runs [THEN conjunct1, rule_format])
  show "mb_apply B ms s = (Inl e, s') \<Longrightarrow> applied s \<subseteq> applied s' \<and> applied s' \<subseteq> applied s \<union> set ms"
    by (rule runs [THEN conjunct2, THEN conjunct1, rule_format])
qed

lemma law_rollback:
  assumes "backend_law applied B"
  shows "set (mb_to_rollback B ms s) = set ms \<inter> applied s" "distinct ms \<Longrightarrow> distinct (mb_to_rollback B ms s)"
    "mb_rollback B ms s = (Inr (), s') \<Longrightarrow> applied s' = applied s - set ms"
proof -
  note law = assms [unfolded backend_law_def, THEN conjunct2]
  note offers = law [THEN conjunct1, rule_format, of ms s]
  show "set (mb_to_rollback B ms s) = set ms \<inter> applied s" using offers by (rule conjunct1)
  show "distinct ms \<Longrightarrow> distinct (mb_to_rollback B ms s)" using offers by simp
  show "mb_rollback B ms s = (Inr (), s') \<Longrightarrow> applied s' = applied s - set ms"
    by (rule law [THEN conjunct2, THEN conjunct2, THEN conjunct2, rule_format])
qed

lemma law_pending_none:
  "backend_law applied B \<Longrightarrow> mb_to_apply B ms s = [] \<longleftrightarrow> set ms \<subseteq> applied s"
  by (metis Diff_eq_empty_iff law_apply(1) set_empty)

text \<open>The four ways of a run at start.\<close>

lemma run_migrations_cases:
  fixes B :: "'s migration_backend" and ids :: "string list" and w :: "'s migration_session"
  defines "todo \<equiv> mb_to_apply B ids (ms_db w)"
  obtains (none) "todo = []"
      "\<exists>r. run_migrations B ids auto w = (Inr r, w\<lparr>ms_closed := True\<rparr>) \<and> mr_pending r = [] \<and> mr_newly_applied r = []"
    | (manual) "todo \<noteq> []" "\<not> auto"
      "\<exists>r. run_migrations B ids auto w = (Inr r, w\<lparr>ms_closed := True\<rparr>) \<and> mr_pending r = todo \<and> mr_newly_applied r = []"
    | (success) s' where "todo \<noteq> []" "auto" "mb_apply B todo (ms_db w) = (Inr (), s')"
      "\<exists>r. run_migrations B ids auto w = (Inr r, w\<lparr>ms_db := s', ms_closed := True\<rparr>)
         \<and> mr_pending r = todo \<and> mr_newly_applied r = todo"
    | (raced) e s' where "todo \<noteq> []" "auto" "mb_apply B todo (ms_db w) = (Inl e, s')" "applied_by_another_worker e"
      "\<exists>r. run_migrations B ids auto w = (Inr r, w\<lparr>ms_db := s', ms_closed := True\<rparr>)
         \<and> mr_pending r = todo \<and> mr_newly_applied r = []"
    | (failed) e s' where "todo \<noteq> []" "auto" "mb_apply B todo (ms_db w) = (Inl e, s')" "\<not> applied_by_another_worker e"
      "run_migrations B ids auto w = (Inl e, w\<lparr>ms_db := s'\<rparr>)"
proof -
  note run = run_migrations_def eff_simps on_db_def close_connection_def Let_def
  consider "todo = []" | "todo \<noteq> []" "\<not> auto"
    | s' where "todo \<noteq> []" "auto" "mb_apply B todo (ms_db w) = (Inr (), s')"
    | e s' where "todo \<noteq> []" "auto" "mb_apply B todo (ms_db w) = (Inl e, s')" "applied_by_another_worker e"
    | e s' where "todo \<noteq> []" "auto" "mb_apply B todo (ms_db w) = (Inl e, s')" "\<not> applied_by_another_worker e"
    by (metis old.sum.exhaust old.unit.exhaust surj_pair)
  then show ?thesis
  proof cases
    case 1
    with none show ?thesis by (simp add: run todo_def)
  next
    case 2
    with manual show ?thesis by (simp add: run todo_def)
  next
    case (3 s')
    with success show ?thesis by (simp add: run todo_def)
  next
    case (4 e s')
    with raced show ?thesis by (simp add: run todo_def)
  next
    case (5 e s')
    with failed show ?thesis by (simp add: run todo_def)
  qed
qed

text \<open>A start that comes back leaves the connection closed and nothing undone, and unless an error was
  passed over, every migration of the directory is applied; on a database that has them all it
  changes nothing. The start after it finds nothing pending.\<close>

theorem startup_migrates:
  assumes "backend_law applied B" "run_migrations B ids True w = (Inr r, w')"
  shows "ms_closed w' \<and> applied (ms_db w) \<subseteq> applied (ms_db w')
     \<and> (set ids \<subseteq> applied (ms_db w) \<longrightarrow> ms_db w' = ms_db w \<and> mr_pending r = [])
     \<and> (mr_newly_applied r = mr_pending r \<longrightarrow> set ids \<subseteq> applied (ms_db w')
         \<and> (\<exists>r'. run_migrations B ids True w' = (Inr r', w') \<and> mr_pending r' = []))"
proof -
  have again: "\<exists>r'. run_migrations B ids True v = (Inr r', v) \<and> mr_pending r' = []"
    if "set ids \<subseteq> applied (ms_db v)" "ms_closed v" for v
  proof -
    from that(1) have "mb_to_apply B ids (ms_db v) = []" using law_pending_none [OF assms(1)] by blast
    with that(2) show ?thesis
      by (cases rule: run_migrations_cases [of B ids v True]) auto
  qed
  show ?thesis
  proof (cases rule: run_migrations_cases [of B ids w True])
    case none
    with assms(2) again [of w'] law_pending_none [OF assms(1)] show ?thesis by auto
  next
    case (success s')
    let ?todo = "mb_to_apply B ids (ms_db w)"
    have s': "applied s' = applied (ms_db w) \<union> set ids"
      using law_apply(3) [OF assms(1) success(3)] law_apply(1) [OF assms(1), of ids "ms_db w"] by auto
    have w': "w' = w\<lparr>ms_db := s', ms_closed := True\<rparr>" using success(4) assms(2) by auto
    have "\<not> set ids \<subseteq> applied (ms_db w)" using success(1) law_pending_none [OF assms(1)] by blast
    with s' w' again [of w'] show ?thesis by simp
  next
    case (raced e s')
    have "applied (ms_db w) \<subseteq> applied s'" using law_apply(4) [OF assms(1) raced(3)] by blast
    moreover have "w' = w\<lparr>ms_db := s', ms_closed := True\<rparr>" "mr_newly_applied r \<noteq> mr_pending r"
      using raced(1,5) assms(2) by auto
    moreover have "\<not> set ids \<subseteq> applied (ms_db w)" using raced(1) law_pending_none [OF assms(1)] by blast
    ultimately show ?thesis by simp
  qed (use assms(2) in auto)
qed


text \<open>A database that is the list of its applied migrations, and fails on some.\<close>

definition list_backend :: "(string \<Rightarrow> migration_error option) \<Rightarrow> string list migration_backend" where
  "list_backend bad =
     \<lparr>mb_to_apply = (\<lambda>ms s. filter (\<lambda>m. m \<notin> set s) ms),
      mb_to_rollback = (\<lambda>ms s. rev (filter (\<lambda>m. m \<in> set s) ms)),
      mb_apply = (\<lambda>ms s. case find (\<lambda>m. bad m \<noteq> None) ms of
         None \<Rightarrow> (Inr (), s @ ms) | Some m \<Rightarrow> (Inl (the (bad m)), s @ takeWhile (\<lambda>x. bad x = None) ms)),
      mb_rollback = (\<lambda>ms s. (Inr (), filter (\<lambda>m. m \<notin> set ms) s))\<rparr>"

lemma list_backend_law: "backend_law set (list_backend bad)"
proof -
  have "set (takeWhile P xs) \<subseteq> set xs" for P :: "string \<Rightarrow> bool" and xs by (auto dest: set_takeWhileD)
  then show ?thesis by (auto simp: backend_law_def list_backend_def split: option.splits)
qed

definition demo_session :: "string list migration_session" where
  "demo_session = \<lparr>ms_db = [''0001''], ms_closed = False\<rparr>"

theorem startup_migrates_witness:
  "\<exists>r w'. run_migrations (list_backend (\<lambda>_. None)) [''0001'', ''0002''] True demo_session = (Inr r, w')
     \<and> mr_newly_applied r = [''0002''] \<and> {''0001'', ''0002''} \<subseteq> set (ms_db w')"
proof -
  let ?B = "list_backend (\<lambda>_. None)" and ?w' = "\<lparr>ms_db = [''0001'', ''0002''], ms_closed = True\<rparr>"
  let ?r = "\<lparr>mr_pending_count = 1, mr_applied_count = 1, mr_pending = [''0002''], mr_newly_applied = [''0002'']\<rparr>"
  have run: "run_migrations ?B [''0001'', ''0002''] True demo_session = (Inr ?r, ?w')" by code_simp
  from startup_migrates [OF list_backend_law run] run show ?thesis by auto
qed


lemma card_take: "distinct xs \<Longrightarrow> card (set xs - set (take k xs)) = length xs - k"
  by (metis append_take_drop_id card_Diff_subset card_mono diff_diff_cancel distinct_card distinct_take finite_set
      length_take min.commute min_def nat_le_linear diff_is_0_eq set_take_subset)

text \<open>C39. Rolling back \<open>n\<close> migrations undoes the last \<open>n\<close>, all of them when there are fewer; the tool takes any
  integer, and for a negative one it undoes all but \<open>-n\<close>: \<open>--count -1\<close> leaves a single migration.\<close>

theorem rollback_leaves:
  assumes "backend_law applied B" "distinct ids" "rollback_migrations B ids n w = (Inr out, w')"
  shows "card (applied (ms_db w') \<inter> set ids) =
     (let k = card (applied (ms_db w) \<inter> set ids) in if n < 0 then min k (nat (- n)) else k - nat n)"
proof -
  let ?xs = "mb_to_rollback B ids (ms_db w)"
  have xs: "set ?xs = applied (ms_db w) \<inter> set ids" "distinct ?xs"
    using law_rollback(1,2) [OF assms(1)] assms(2) by blast+
  then have len: "length ?xs = card (applied (ms_db w) \<inter> set ids)" by (metis distinct_card)
  show ?thesis
  proof (cases "?xs = []")
    case True
    then have "w' = w" using assms(3) by (simp add: rollback_migrations_def eff_simps)
    with True len show ?thesis by (simp add: Let_def)
  next
    case False
    let ?m = "nat (if n < 0 then int (length ?xs) + n else n)"
    obtain s' where s': "mb_rollback B (take ?m ?xs) (ms_db w) = (Inr (), s')" "w' = w\<lparr>ms_db := s'\<rparr>"
      using False assms(3)
      by (auto simp: rollback_migrations_def eff_simps Let_def py_prefix_def on_db_def split: prod.splits sum.splits)
    have "applied s' = applied (ms_db w) - set (take ?m ?xs)" by (rule law_rollback(3) [OF assms(1) s'(1)])
    then have "applied (ms_db w') \<inter> set ids = set ?xs - set (take ?m ?xs)" using xs(1) s'(2) by auto
    then have "card (applied (ms_db w') \<inter> set ids) = length ?xs - ?m" using card_take [OF xs(2)] by simp
    with len show ?thesis by (auto simp: Let_def)
  qed
qed

definition demo_ids :: "string list" where
  "demo_ids = [''0001'', ''0002'', ''0003'', ''0004'']"

theorem rollback_leaves_witness:
  "\<exists>out w'. rollback_migrations (list_backend (\<lambda>_. None)) demo_ids (-1) \<lparr>ms_db = demo_ids, ms_closed = False\<rparr> = (Inr out, w')
     \<and> card (set (ms_db w') \<inter> set demo_ids) = 1"
proof -
  let ?w = "\<lparr>ms_db = demo_ids, ms_closed = False\<rparr>"
  have run: "rollback_migrations (list_backend (\<lambda>_. None)) demo_ids (-1) ?w =
     (Inr [RollingBack [''0004'', ''0003'', ''0002''], RolledBack], ?w\<lparr>ms_db := [''0001'']\<rparr>)"
    and ids: "distinct demo_ids" "card (set demo_ids) = 4"
    by code_simp+
  from rollback_leaves [OF list_backend_law ids(1) run] ids(2) run show ?thesis by simp
qed

text \<open>The tool's verdicts agree with the database: after \<open>apply\<close> has ended with exit code 0, \<open>status\<close>
  reports every migration as applied and none as pending, and \<open>list\<close> shows each of them once, in the
  order of the ids, as applied. The connection is closed however a command ends.\<close>

theorem apply_then_status:
  assumes "backend_law applied B" "distinct ids" "connect (get_database_url env) = None"
    and "migration_main connect B ids env ApplyCmd n None w = ((0, out), w')"
  shows "(\<exists>latest. migration_main connect B ids env StatusCmd n None w' = ((0, [StatusOf (length ids) 0 [] None latest]), w'))
     \<and> migration_main connect B ids env ListCmd n None w' =
         ((0, [Listed (map (\<lambda>m. (m, ''applied'')) (sort ids)) (length ids) (length ids) 0]), w')
     \<and> ms_closed w'"
proof -
  have all: "set ids \<subseteq> applied (ms_db w')" and closed: "ms_closed w'"
  proof -
    let ?todo = "mb_to_apply B ids (ms_db w)"
    have main: "(case apply_migrations B ids w of (Inl e, v) \<Rightarrow> ((1 :: nat, []), v\<lparr>ms_closed := True\<rparr>)
       | (Inr out, v) \<Rightarrow> ((0, out), v\<lparr>ms_closed := True\<rparr>)) = ((0, out), w')"
      using assms(3,4) by (simp add: migration_main_def Let_def ostr_true_def split: prod.splits sum.splits)
    then show "ms_closed w'" by (auto split: prod.splits sum.splits)
    show "set ids \<subseteq> applied (ms_db w')"
    proof (cases "?todo = []")
      case True
      with main law_pending_none [OF assms(1)] show ?thesis by (auto simp: apply_migrations_def eff_simps)
    next
      case False
      obtain s' where s': "mb_apply B ?todo (ms_db w) = (Inr (), s')" "ms_db w' = s'"
        using False main
        by (auto simp: apply_migrations_def eff_simps on_db_def split: prod.splits sum.splits)
      with law_apply(3) [OF assms(1) s'(1)] law_apply(1) [OF assms(1), of ids "ms_db w"] show ?thesis by auto
    qed
  qed
  have none: "mb_to_apply B ids (ms_db w') = []" using law_pending_none [OF assms(1)] all by blast
  have rb: "set (mb_to_rollback B ids (ms_db w')) = set ids" "distinct (mb_to_rollback B ids (ms_db w'))"
    using law_rollback(1,2) [OF assms(1)] all assms(2) by blast+
  then have len: "length (mb_to_rollback B ids (ms_db w')) = length ids" using assms(2) by (metis distinct_card)
  have "w'\<lparr>ms_closed := True\<rparr> = w'" using closed by (cases w') simp
  with none rb(1) len closed assms(2,3) show ?thesis
    by (simp add: migration_main_def Let_def ostr_true_def show_status_def list_migrations_def eff_simps distinct_card)
qed

theorem apply_then_status_witness:
  "\<exists>latest. migration_main (\<lambda>_. None) (list_backend (\<lambda>_. None)) demo_ids (\<lambda>_. None) StatusCmd 1 None
       \<lparr>ms_db = demo_ids, ms_closed = True\<rparr>
     = ((0, [StatusOf 4 0 [] None latest]), \<lparr>ms_db = demo_ids, ms_closed = True\<rparr>)"
proof -
  have run: "migration_main (\<lambda>_. None) (list_backend (\<lambda>_. None)) demo_ids (\<lambda>_. None) ApplyCmd 1 None
      \<lparr>ms_db = [''0001''], ms_closed = False\<rparr>
     = ((0, [Applying [''0002'', ''0003'', ''0004''], AppliedAll]), \<lparr>ms_db = demo_ids, ms_closed = True\<rparr>)"
    and ids: "distinct demo_ids" "length demo_ids = 4"
    by code_simp+
  from apply_then_status [OF list_backend_law ids(1) _ run] ids(2) show ?thesis by simp
qed

section \<open>The lifespan of a worker\<close>

datatype service =
    DbPool | DbOwnerPool | RedisClient | NetworkClients | SigningKeys | AuditLogger | RevocationManager | AuditConsumer

text \<open>
  The order in which the lifespan opens and closes; the audit consumer only when it is embedded.
  Opening or closing may raise, as \<open>fails\<close> says; what was open then stays open.
\<close>

definition opening_order :: "bool \<Rightarrow> service list" where
  "opening_order embedded =
     [DbPool, DbOwnerPool, RedisClient, NetworkClients, SigningKeys, AuditLogger, RevocationManager]
     @ (if embedded then [AuditConsumer] else [])"

definition closing_order :: "bool \<Rightarrow> service list" where
  "closing_order embedded =
     (if embedded then [AuditConsumer] else [])
     @ [SigningKeys, RevocationManager, AuditLogger, NetworkClients, RedisClient, DbPool, DbOwnerPool]"

fun open_services :: "(service \<Rightarrow> exn option) \<Rightarrow> service list \<Rightarrow> (exn, service list, unit) eff" where
  "open_services fails [] w = (Inr (), w)"
| "open_services fails (x # xs) w =
     (case fails x of Some e \<Rightarrow> (Inl e, w) | None \<Rightarrow> open_services fails xs (w @ [x]))"

fun close_services :: "(service \<Rightarrow> exn option) \<Rightarrow> service list \<Rightarrow> (exn, service list, unit) eff" where
  "close_services fails [] w = (Inr (), w)"
| "close_services fails (x # xs) w =
     (case fails x of Some e \<Rightarrow> (Inl e, w) | None \<Rightarrow> close_services fails xs (filter (\<lambda>y. y \<noteq> x) w))"

definition lifespan_up ::
    "'s migration_backend \<Rightarrow> string list \<Rightarrow> bool \<Rightarrow> (service \<Rightarrow> exn option)
      \<Rightarrow> 's migration_session \<times> service list \<Rightarrow> (migration_error + exn + unit) \<times> 's migration_session \<times> service list" where
  "lifespan_up B ids embedded fails = (\<lambda>(w, up).
     case run_migrations B ids True w of
       (Inl e, w') \<Rightarrow> (Inl e, w', up)
     | (Inr r, w') \<Rightarrow> (case open_services fails (opening_order embedded) up of (x, up') \<Rightarrow> (Inr x, w', up')))"

definition lifespan_down :: "bool \<Rightarrow> (service \<Rightarrow> exn option) \<Rightarrow> (exn, service list, unit) eff" where
  "lifespan_down embedded fails = close_services fails (closing_order embedded)"

text \<open>What a service reads and writes while it runs or stops.\<close>

fun service_uses :: "service \<Rightarrow> service list" where
  "service_uses AuditLogger = [RedisClient]"
| "service_uses RevocationManager = [RedisClient]"
| "service_uses _ = []"

lemma open_services_ok: "\<forall>x \<in> set xs. fails x = None \<Longrightarrow> open_services fails xs w = (Inr (), w @ xs)"
  by (induction xs arbitrary: w) auto

lemma close_services_ok:
  "\<forall>x \<in> set xs. fails x = None \<Longrightarrow> close_services fails xs w = (Inr (), filter (\<lambda>y. y \<notin> set xs) w)"
  by (induction xs arbitrary: w) (auto simp: conj_commute intro: filter_cong)

lemma open_services_stop:
  "fails x = Some e \<Longrightarrow> \<forall>y \<in> set xs. fails y = None \<Longrightarrow> open_services fails (xs @ x # ys) w = (Inl e, w @ xs)"
  by (induction xs arbitrary: w) auto

lemma cut_at: "x \<in> set xs \<Longrightarrow> \<exists>ys. xs = takeWhile (\<lambda>y. y \<noteq> x) xs @ x # ys"
  by (induction xs) auto

text \<open>The order of opening, cut before a service.\<close>

definition opened_before :: "bool \<Rightarrow> service \<Rightarrow> service list" where
  "opened_before embedded x = takeWhile (\<lambda>y. y \<noteq> x) (opening_order embedded)"

definition closed_from :: "bool \<Rightarrow> service \<Rightarrow> service list" where
  "closed_from embedded x = dropWhile (\<lambda>y. y \<noteq> x) (closing_order embedded)"

lemma orders: "set (closing_order b) = set (opening_order b)" "distinct (opening_order b)"
  by (auto simp: opening_order_def closing_order_def)

text \<open>A worker that comes up has opened everything, each service after the ones it uses; going down
  without an error it closes everything, each service before the ones it uses. A service that
  fails to open leaves the ones before it open, and nothing closes them.\<close>

theorem lifespan_balanced:
  assumes "run_migrations B ids True w = (Inr r, w')" "y \<in> set (service_uses x)" "x \<in> set (opening_order embedded)"
  shows "lifespan_up B ids embedded (\<lambda>_. None) (w, []) = (Inr (Inr ()), w', opening_order embedded)
     \<and> lifespan_down embedded (\<lambda>_. None) (opening_order embedded) = (Inr (), [])
     \<and> y \<in> set (opened_before embedded x) \<and> y \<in> set (closed_from embedded x)
     \<and> (fails x = Some e \<and> (\<forall>z \<in> set (opened_before embedded x). fails z = None)
         \<longrightarrow> lifespan_up B ids embedded fails (w, []) = (Inr (Inl e), w', opened_before embedded x))"
proof (intro conjI impI)
  show "lifespan_up B ids embedded (\<lambda>_. None) (w, []) = (Inr (Inr ()), w', opening_order embedded)"
    using assms(1) by (simp add: lifespan_up_def open_services_ok)
  show "lifespan_down embedded (\<lambda>_. None) (opening_order embedded) = (Inr (), [])"
    by (simp add: lifespan_down_def close_services_ok orders filter_empty_conv)
  show "y \<in> set (opened_before embedded x)" "y \<in> set (closed_from embedded x)"
    using assms(2) by (cases x; simp add: opened_before_def closed_from_def opening_order_def closing_order_def)+
  assume f: "fails x = Some e \<and> (\<forall>z \<in> set (opened_before embedded x). fails z = None)"
  obtain ys where "opening_order embedded = opened_before embedded x @ x # ys"
    unfolding opened_before_def by (rule cut_at [OF assms(3), THEN exE])
  with f assms(1) open_services_stop [of fails x e "opened_before embedded x" ys "[]"]
  show "lifespan_up B ids embedded fails (w, []) = (Inr (Inl e), w', opened_before embedded x)"
    by (simp add: lifespan_up_def)
qed

theorem lifespan_balanced_witness:
  "lifespan_up (list_backend (\<lambda>_. None)) demo_ids True (\<lambda>x. if x = AuditLogger then Some HttpxTimeout else None) (demo_session, [])
     = (Inr (Inl HttpxTimeout), \<lparr>ms_db = demo_ids, ms_closed = True\<rparr>,
        [DbPool, DbOwnerPool, RedisClient, NetworkClients, SigningKeys])
   \<and> lifespan_down True (\<lambda>_. None) (opening_order True) = (Inr (), [])"
proof -
  let ?r = "\<lparr>mr_pending_count = 3, mr_applied_count = 1, mr_pending = [''0002'', ''0003'', ''0004''],
     mr_newly_applied = [''0002'', ''0003'', ''0004'']\<rparr>"
  let ?f = "\<lambda>x. if x = AuditLogger then Some HttpxTimeout else None"
  have run: "run_migrations (list_backend (\<lambda>_. None)) demo_ids True demo_session = (Inr ?r, \<lparr>ms_db = demo_ids, ms_closed = True\<rparr>)"
    by code_simp
  have before: "opened_before True AuditLogger = [DbPool, DbOwnerPool, RedisClient, NetworkClients, SigningKeys]"
    by code_simp
  have x: "AuditLogger \<in> set (opening_order True)" by code_simp
  from lifespan_balanced [OF run _ x, of RedisClient ?f HttpxTimeout] before show ?thesis by simp
qed

end
