(* ===== verification/Response_Bodies.thy ===== *)
theory Response_Bodies
  imports Tokens
begin

text \<open>
  What goes over the wire: the JSON bodies that app/core/responses.py builds of the envelopes, with
  the status and the header, and what the seeding script, a client of the service, reads back of
  them (\<open>raise_for_status\<close>, \<open>json\<close> and \<open>_extract_api_data\<close> of app/database/seed_federation_sandbox.py).
  A time stamp is an argument; orjson writes every field of a dataclass, unset ones as null.
\<close>

section \<open>Bodies\<close>

definition success_body :: "string \<Rightarrow> json option \<Rightarrow> string option \<Rightarrow> json" where
  "success_body ts data message =
     JObj [(''success'', JBool True), (''data'', case data of None \<Rightarrow> JNull | Some d \<Rightarrow> d),
           (''message'', json_opt message), (''timestamp'', JStr ts)]"

definition detail_body :: "error_detail \<Rightarrow> json" where
  "detail_body d =
     JObj [(''code'', JStr (ed_code d)), (''message'', JStr (ed_message d)), (''field'', json_opt (ed_field d))]"

definition error_body :: "error_out \<Rightarrow> json" where
  "error_body e =
     JObj [(''code'', JStr (eo_code e)), (''message'', JStr (eo_message e)), (''status'', JInt (eo_status e)),
           (''details'', case eo_details e of None \<Rightarrow> JNull | Some ds \<Rightarrow> JArr (map detail_body ds))]"

definition error_envelope :: "string \<Rightarrow> error_out \<Rightarrow> json" where
  "error_envelope ts e =
     JObj [(''error'', error_body e), (''success'', JBool False), (''timestamp'', JStr ts)]"

definition page_meta_body :: "pagination \<Rightarrow> json" where
  "page_meta_body p =
     JObj [(''page'', JInt (pg_page p)), (''page_size'', JInt (pg_page_size p)),
           (''total_items'', JInt (pg_total_items p)), (''total_pages'', JInt (pg_total_pages p))]"

definition paginated_body :: "string \<Rightarrow> json list \<Rightarrow> pagination \<Rightarrow> json" where
  "paginated_body ts items p =
     JObj [(''data'', JArr items), (''pagination'', page_meta_body p), (''success'', JBool True), (''timestamp'', JStr ts)]"

section \<open>Responses\<close>

datatype body = Json json | Page error_out

record http_out =
  ho_status :: int
  ho_body :: body
  ho_www_auth :: "string option"

text \<open>\<open>OrjsonResponse(content=None)\<close> is the text null, also with the status 204.\<close>

definition error_wire :: "string \<Rightarrow> error_out \<Rightarrow> http_out" where
  "error_wire ts e =
     \<lparr>ho_status = eo_status e, ho_body = (if eo_html e then Page e else Json (error_envelope ts e)),
      ho_www_auth = eo_www_auth e\<rparr>"

definition success_wire :: "string \<Rightarrow> json option \<Rightarrow> string option \<Rightarrow> int \<Rightarrow> http_out" where
  "success_wire ts data message st =
     \<lparr>ho_status = st, ho_body = Json (if st = 204 then JNull else success_body ts data message), ho_www_auth = None\<rparr>"

definition paginated_wire :: "string \<Rightarrow> json list \<Rightarrow> int \<Rightarrow> int \<Rightarrow> int \<Rightarrow> http_out" where
  "paginated_wire ts items page page_size cnt =
     \<lparr>ho_status = 200, ho_body = Json (paginated_body ts items (pagination_info page page_size cnt)), ho_www_auth = None\<rparr>"

definition reply_wire :: "('a \<Rightarrow> json) \<Rightarrow> string \<Rightarrow> 'a reply \<Rightarrow> http_out" where
  "reply_wire enc ts r =
     (case r of Failure e \<Rightarrow> error_wire ts e
      | Success d m st \<Rightarrow> success_wire ts (map_option enc d) m st)"

definition validation_error_response :: "string \<Rightarrow> error_detail list option \<Rightarrow> error_out" where
  "validation_error_response message ds = error_response ''REQUEST_VALIDATION_ERROR'' message 422 ds None"

definition not_found_message :: "string \<Rightarrow> string option \<Rightarrow> string" where
  "not_found_message message resource = (if ostr_true resource then the resource @ '' not found'' else message)"

definition unauthorized_response :: "string \<Rightarrow> error_out" where
  "unauthorized_response message = error_response ''UNAUTHORIZED'' message 401 None None"

definition forbidden_response :: "string \<Rightarrow> error_out" where
  "forbidden_response message = error_response ''FORBIDDEN'' message 403 None None"

definition server_error_response :: "string \<Rightarrow> error_out" where
  "server_error_response message = error_response ''INTERNAL_ERROR'' message 500 None None"

section \<open>What a client reads\<close>

text \<open>\<open>httpx\<close>: a response other than a success raises; a body that is no JSON does not decode.\<close>

definition extract_api_data :: "json \<Rightarrow> json" where
  "extract_api_data body =
     (case body of JObj d \<Rightarrow> (case dget d ''data'' of None \<Rightarrow> body | Some v \<Rightarrow> v) | _ \<Rightarrow> body)"

definition read_response :: "http_out \<Rightarrow> exn + json" where
  "read_response r =
     (if ho_status r < 200 \<or> 300 \<le> ho_status r then Inl (HttpxStatus (ho_status r))
      else case ho_body r of Json j \<Rightarrow> Inr (extract_api_data j) | Page _ \<Rightarrow> Inl (PyErr JSONDecodeError))"

text \<open>What an endpoint ends in, an exception included, as it leaves the service.\<close>

definition answer :: "req_headers \<Rightarrow> ('a \<Rightarrow> json) \<Rightarrow> string \<Rightarrow> exn + 'a reply \<Rightarrow> http_out" where
  "answer h enc ts r =
     (case r of Inl e \<Rightarrow> error_wire ts (handle_exception h e) | Inr rp \<Rightarrow> reply_wire enc ts rp)"

fun sendable :: "exn + 'a reply \<Rightarrow> bool" where
  "sendable (Inl e) = well_formed_exn e"
| "sendable (Inr (Failure e)) = (400 \<le> eo_status e)"
| "sendable (Inr (Success d m st)) = (200 \<le> st \<and> st < 300 \<and> (st = 204 \<longrightarrow> d = None))"

definition data_json :: "('a \<Rightarrow> json) \<Rightarrow> 'a option \<Rightarrow> json" where
  "data_json enc d = (case d of None \<Rightarrow> JNull | Some x \<Rightarrow> enc x)"

lemma extract_success: "extract_api_data (success_body ts d m) = data_json id d"
  by (simp add: extract_api_data_def success_body_def dget_def data_json_def split: option.split)

lemma read_error: "400 \<le> eo_status e \<Longrightarrow> read_response (error_wire ts e) = Inl (HttpxStatus (eo_status e))"
  by (simp add: read_response_def error_wire_def)

lemma read_success:
  assumes "200 \<le> st" "st < 300" "st = 204 \<longrightarrow> d = None"
  shows "read_response (success_wire ts d m st) = Inr (data_json id d)"
proof (cases "st = 204")
  case True
  with assms(3) show ?thesis by (simp add: read_response_def success_wire_def extract_api_data_def data_json_def)
next
  case False
  with assms show ?thesis by (simp add: read_response_def success_wire_def extract_success)
qed

lemma read_answer:
  assumes "sendable r"
  shows "read_response (answer h enc ts r) =
    (case r of Inl e \<Rightarrow> Inl (HttpxStatus (eo_status (handle_exception h e)))
     | Inr (Failure e) \<Rightarrow> Inl (HttpxStatus (eo_status e))
     | Inr (Success d _ _) \<Rightarrow> Inr (data_json enc d))"
proof (cases r)
  case (Inl e)
  with assms handler_total_error_status [of e h] show ?thesis by (simp add: answer_def read_error)
next
  case (Inr rp)
  have id: "data_json id (map_option enc d) = data_json enc d" for d :: "'a option" by (cases d) (simp_all add: data_json_def)
  from Inr assms show ?thesis
    by (cases rp) (auto simp: answer_def reply_wire_def read_error read_success id)
qed

end
