(* ===== verification/Sandbox_Seed.thy ===== *)
theory Sandbox_Seed
  imports Onboarding Startup Response_Bodies
begin

text \<open>
  The script that prepares a tenant for trying out federation
  (app/database/seed_federation_sandbox.py): what it learns from the upstream provider, the rows it
  writes on the owner's connection in one transaction, and the client it registers through the API
  of the service. The calls of that API are the operations of \<open>Tokens\<close> and \<open>Clients\<close>; the upstream
  provider is an argument, as \<open>raise_for_status\<close> and \<open>json\<close> leave its answers.
\<close>

section \<open>Configuration\<close>

definition env_flag :: "environ \<Rightarrow> string \<Rightarrow> bool \<Rightarrow> bool" where
  "env_flag env k d =
     (py_lower (py_strip (getenv env k (if d then ''true'' else ''false''))) \<in> {''1'', ''true'', ''yes'', ''on''})"

definition normalized_base_url :: "string \<Rightarrow> string" where
  "normalized_base_url url = rstrip_char (CHR ''/'') url"

definition seed_callback_uri :: "string \<Rightarrow> string \<Rightarrow> string" where
  "seed_callback_uri base provider =
     normalized_base_url base @ ''/api/v1/oidc/federation/callback/'' @ provider"

definition all_actions :: "string list" where
  "all_actions = [''read'', ''write'', ''delete'', ''approve'', ''reject'', ''execute'', ''assign'', ''manage'',
     ''export'', ''import'', ''activate'', ''archive'']"

definition admin_policy_resources :: "string list" where
  "admin_policy_resources = [''users'', ''policies'', ''sessions'', ''oidc'', ''federation'', ''organizations'']"

definition seed_admin_policy :: "string \<Rightarrow> policy_doc" where
  "seed_admin_policy resource = \<lparr>pd_resource = resource, pd_actions = all_actions, pd_conditions = []\<rparr>"

record seed_config =
  sd_iam_url :: string
  sd_sso_url :: string
  sd_tenant :: string
  sd_tenant_name :: string
  sd_domain :: string
  sd_admin :: string
  sd_email :: string
  sd_password :: string
  sd_first :: string
  sd_last :: string
  sd_client :: string
  sd_client_name :: string
  sd_redirect :: string
  sd_provider :: string
  sd_provider_name :: string
  sd_upstream_id :: string
  sd_upstream_secret :: string
  sd_user_email :: string
  sd_user_password :: string
  sd_user_first :: string
  sd_user_last :: string
  sd_seed_user :: bool

definition seed_config_of :: "environ \<Rightarrow> string \<Rightarrow> seed_config" where
  "seed_config_of env app_url =
     \<lparr>sd_iam_url = normalized_base_url (getenv env ''IAM_APP_BASE_URL'' app_url),
      sd_sso_url = normalized_base_url (getenv env ''HEXALGON_SSO_BASE_URL'' ''http://localhost:8100''),
      sd_tenant = getenv env ''FEDERATION_TEST_TENANT_ID'' ''tenant-federation-sandbox'',
      sd_tenant_name = getenv env ''FEDERATION_TEST_TENANT_NAME'' ''Federation Sandbox'',
      sd_domain = getenv env ''FEDERATION_TEST_TENANT_DOMAIN'' ''federation-sandbox.example.com'',
      sd_admin = getenv env ''FEDERATION_TEST_ADMIN_USER_ID'' ''user-federation-admin'',
      sd_email = getenv env ''FEDERATION_TEST_ADMIN_EMAIL'' ''admin@federation-sandbox.example.com'',
      sd_password = getenv env ''FEDERATION_TEST_ADMIN_PASSWORD'' ''HexalgonAdmin123!'',
      sd_first = getenv env ''FEDERATION_TEST_ADMIN_FIRST_NAME'' ''Federation'',
      sd_last = getenv env ''FEDERATION_TEST_ADMIN_LAST_NAME'' ''Admin'',
      sd_client = getenv env ''FEDERATION_TEST_OIDC_CLIENT_ID'' [],
      sd_client_name = getenv env ''FEDERATION_TEST_OIDC_CLIENT_NAME'' ''Federation Test Client'',
      sd_redirect = getenv env ''FEDERATION_TEST_OIDC_REDIRECT_URI'' ''http://localhost:8099/api/auth/callback'',
      sd_provider = getenv env ''HEXALGON_SSO_PROVIDER_ID'' ''hexalgon-sso-local'',
      sd_provider_name = getenv env ''HEXALGON_SSO_PROVIDER_NAME'' ''HEXALGON SSO Local'',
      sd_upstream_id = getenv env ''HEXALGON_SSO_CLIENT_ID'' ''hexalgon-iam-broker'',
      sd_upstream_secret = getenv env ''HEXALGON_SSO_CLIENT_SECRET'' ''hexalgon-iam-broker-secret'',
      sd_user_email = getenv env ''HEXALGON_SSO_TEST_USER_EMAIL'' ''federated.user@federation-sandbox.example.com'',
      sd_user_password = getenv env ''HEXALGON_SSO_TEST_USER_PASSWORD'' ''HexalgonUser123!'',
      sd_user_first = getenv env ''HEXALGON_SSO_TEST_USER_FIRST_NAME'' ''Federated'',
      sd_user_last = getenv env ''HEXALGON_SSO_TEST_USER_LAST_NAME'' ''User'',
      sd_seed_user = env_flag env ''SEED_UPSTREAM_USER'' True\<rparr>"

section \<open>The upstream provider\<close>

text \<open>\<open>us_detail\<close> is the text of the answer that \<open>raise_for_status\<close> refused.\<close>

record upstream_api =
  ua_get :: "string \<Rightarrow> exn + json dict"
  ua_post :: "string \<Rightarrow> (string \<times> string) list \<Rightarrow> exn + json dict"
  ua_detail :: string

text \<open>\<open>httpx.HTTPError\<close>.\<close>

fun is_http_error :: "exn \<Rightarrow> bool" where
  "is_http_error HttpxTimeout = True"
| "is_http_error HttpxRequestError = True"
| "is_http_error (HttpxStatus _) = True"
| "is_http_error _ = False"

definition candidate_discovery_urls :: "string \<Rightarrow> string list" where
  "candidate_discovery_urls base =
     (let b = normalized_base_url base in
      [b @ ''/api/v1/.well-known/openid-configuration'', b @ ''/.well-known/openid-configuration''])"

fun try_discovery :: "upstream_api \<Rightarrow> exn option \<Rightarrow> string list \<Rightarrow> exn + json dict \<times> string" where
  "try_discovery U last_error [] = Inl (case last_error of Some e \<Rightarrow> e | None \<Rightarrow> PyErr OtherError)"
| "try_discovery U last_error (url # urls) =
     (case ua_get U url of
        Inr d \<Rightarrow> Inr (d, url)
      | Inl e \<Rightarrow> if is_http_error e then try_discovery U (Some e) urls else Inl e)"

definition fetch_seed_discovery :: "upstream_api \<Rightarrow> string \<Rightarrow> exn + json dict \<times> string" where
  "fetch_seed_discovery U base = try_discovery U None (candidate_discovery_urls base)"

definition register_upstream_client :: "upstream_api \<Rightarrow> seed_config \<Rightarrow> string \<Rightarrow> exn + json dict" where
  "register_upstream_client U C callback =
     (let b = normalized_base_url (sd_sso_url C) in
      case ua_post U (b @ ''/dev/clients/generate'')
             [(''name'', ''HEX IAM Federation Broker''), (''redirect_uri'', callback)] of
        Inr d \<Rightarrow> Inr d
      | Inl e \<Rightarrow>
          if e \<noteq> HttpxStatus 404 then Inl e
          else (case ua_post U (b @ ''/dev/clients'')
                       [(''client_id'', sd_upstream_id C), (''client_secret'', sd_upstream_secret C),
                        (''name'', ''HEX IAM Federation Broker''), (''redirect_uri'', callback)] of
                  Inl e' \<Rightarrow> Inl e'
                | Inr d \<Rightarrow> Inr (if dget d ''client_secret'' = None then dset ''client_secret'' (JStr (sd_upstream_secret C)) d
                                else d)))"

definition maybe_seed_upstream_user :: "upstream_api \<Rightarrow> seed_config \<Rightarrow> exn + string \<times> string" where
  "maybe_seed_upstream_user U C =
     (if \<not> sd_seed_user C then Inr (''skipped'', ''SEED_UPSTREAM_USER=false'')
      else case ua_post U (normalized_base_url (sd_sso_url C) @ ''/dev/users'')
                  [(''email'', sd_user_email C), (''password'', sd_user_password C),
                   (''first_name'', sd_user_first C), (''last_name'', sd_user_last C)] of
             Inr d \<Rightarrow> Inr (''created'', sd_user_email C)
           | Inl (HttpxStatus s) \<Rightarrow> Inr (''exists_or_failed'', ua_detail U)
           | Inl e \<Rightarrow> Inl e)"

section \<open>The rows\<close>

text \<open>\<open>INSERT ... ON CONFLICT (id) DO UPDATE\<close> with the other constraints of each table.\<close>

definition mfa_off :: "json option" where
  "mfa_off = Some (JObj [(''mfa_enabled'', JBool False)])"

definition reseed_tenant :: "seed_config \<Rightarrow> tenant_row \<Rightarrow> tenant_row" where
  "reseed_tenant C t =
     t\<lparr>tn_name := sd_tenant_name C, tn_domain := sd_domain C, tn_root := sd_email C, tn_settings := mfa_off,
       tn_is_active := True\<rparr>"

definition upsert_tenant :: "seed_config \<Rightarrow> unit svc" where
  "upsert_tenant C = (\<lambda>w.
     if \<exists>t \<in> set (w_tenants w). tn_id t \<noteq> sd_tenant C \<and> tn_domain t = sd_domain C then (Inl (DbErr UniqueViolationError), w)
     else (Inr (), w\<lparr>w_tenants :=
       if \<exists>t \<in> set (w_tenants w). tn_id t = sd_tenant C
       then sql_update (\<lambda>t. tn_id t = sd_tenant C) (reseed_tenant C) (w_tenants w)
       else w_tenants w @ [\<lparr>tn_id = sd_tenant C, tn_name = sd_tenant_name C, tn_domain = sd_domain C,
              tn_root = sd_email C, tn_settings = mfa_off, tn_is_active = True, tn_created = w_now w\<rparr>]\<rparr>))"

definition seed_user_row :: "seed_config \<Rightarrow> string \<Rightarrow> string \<Rightarrow> int \<Rightarrow> user_row" where
  "seed_user_row C uid hash now =
     \<lparr>us_id = uid, us_tenant = sd_tenant C, us_email = sd_email C, us_password = hash, us_first = sd_first C,
      us_last = sd_last C, us_role = Some ''admin'', us_is_active = True, us_email_verified = True,
      us_created = now, us_modified = now\<rparr>"

definition reseed_user :: "seed_config \<Rightarrow> string \<Rightarrow> int \<Rightarrow> user_row \<Rightarrow> user_row" where
  "reseed_user C hash now u =
     u\<lparr>us_email := sd_email C, us_password := hash, us_first := sd_first C, us_last := sd_last C,
       us_role := Some ''admin'', us_is_active := True, us_email_verified := True, us_modified := now\<rparr>"

text \<open>The tenant of a row that is there stays as it is; its address must be new in that tenant.\<close>

definition upsert_admin :: "seed_config \<Rightarrow> string \<Rightarrow> string \<Rightarrow> unit svc" where
  "upsert_admin C uid hash = (\<lambda>w.
     case sql_row (\<lambda>u. us_id u = uid) (w_users w) of
       Some old \<Rightarrow>
         if \<exists>u \<in> set (w_users w). us_id u \<noteq> uid \<and> us_tenant u = us_tenant old \<and> us_email u = sd_email C
         then (Inl (DbErr UniqueViolationError), w)
         else (Inr (), w\<lparr>w_users := sql_update (\<lambda>u. us_id u = uid) (reseed_user C hash (w_now w)) (w_users w)\<rparr>)
     | None \<Rightarrow> insert_user OwnerConn (seed_user_row C uid hash (w_now w)) w)"

definition seed_policies :: "seed_config \<Rightarrow> string \<Rightarrow> world \<Rightarrow> world" where
  "seed_policies C uid w =
     w\<lparr>w_policies := fold (\<lambda>r. upsert_row (w_now w) (sd_tenant C, uid, ''seed-admin-'' @ r) (seed_admin_policy r))
                      admin_policy_resources (w_policies w)\<rparr>"

text \<open>An item of an answer as the driver takes it for a text column.\<close>

definition text_item :: "json option \<Rightarrow> exn + string option" where
  "text_item v = (case v of None \<Rightarrow> Inr None | Some JNull \<Rightarrow> Inr None | Some (JStr s) \<Rightarrow> Inr (Some s)
     | Some _ \<Rightarrow> Inl (DbErr DataError))"

definition need_item :: "json dict \<Rightarrow> string \<Rightarrow> exn + json" where
  "need_item d k = (case dget d k of None \<Rightarrow> Inl (PyErr KeyError) | Some v \<Rightarrow> Inr v)"

definition seed_provider_row :: "seed_config \<Rightarrow> string \<Rightarrow> string \<Rightarrow> string option list \<Rightarrow> string \<Rightarrow> int \<Rightarrow> provider_row" where
  "seed_provider_row C pid issuer vs url now =
     \<lparr>ip_id = pid, ip_tenant = sd_tenant C, ip_name = sd_provider_name C, ip_protocol = ''oidc'', ip_issuer = issuer,
      ip_client_id = vs ! 0, ip_client_secret = vs ! 1, ip_discovery_url = Some url,
      ip_authorization_endpoint = vs ! 2, ip_token_endpoint = vs ! 3, ip_userinfo_endpoint = vs ! 4,
      ip_jwks_uri = vs ! 5, ip_jwt_secret = None, ip_enabled = True, ip_auto_link = True,
      ip_scopes = Some ''openid profile email'', ip_auth_method = Some ''client_secret_post'',
      ip_claims_source = Some ''auto'', ip_link_verified_only = True, ip_default_role = ''member'', ip_created = now\<rparr>"

text \<open>On a conflict every column but the protocol, the secret for tokens and the time of creation is set.\<close>

definition reseed_provider :: "provider_row \<Rightarrow> provider_row \<Rightarrow> provider_row" where
  "reseed_provider new old =
     new\<lparr>ip_protocol := ip_protocol old, ip_jwt_secret := ip_jwt_secret old, ip_created := ip_created old\<rparr>"

definition upsert_provider :: "provider_row \<Rightarrow> unit svc" where
  "upsert_provider r = (\<lambda>w.
     if \<exists>x \<in> set (w_providers w). ip_id x \<noteq> ip_id r \<and> ip_tenant x = ip_tenant r \<and> ip_issuer x = ip_issuer r
     then (Inl (DbErr UniqueViolationError), w)
     else if \<exists>x \<in> set (w_providers w). ip_id x = ip_id r
     then (Inr (), w\<lparr>w_providers := sql_update (\<lambda>x. ip_id x = ip_id r) (reseed_provider r) (w_providers w)\<rparr>)
     else insert_provider r w)"

text \<open>The arguments of the statement, in their order: two of the registered client, four endpoints.\<close>

definition provider_values :: "json dict \<Rightarrow> json dict \<Rightarrow> exn + string option list" where
  "provider_values discovery client =
     (case (need_item client ''client_id'', need_item client ''client_secret'') of
        (Inl e, _) \<Rightarrow> Inl e
      | (_, Inl e) \<Rightarrow> Inl e
      | (Inr i, Inr s) \<Rightarrow>
          (let vs = [Some i, Some s, dget discovery ''authorization_endpoint'', dget discovery ''token_endpoint'',
                     dget discovery ''userinfo_endpoint'', dget discovery ''jwks_uri''] in
           if list_ex (\<lambda>v. text_item v = Inl (DbErr DataError)) vs then Inl (DbErr DataError)
           else Inr (map (\<lambda>v. projr (text_item v)) vs)))"

definition issuer_value :: "json dict \<Rightarrow> exn + string option" where
  "issuer_value discovery = (case need_item discovery ''issuer'' of Inl e \<Rightarrow> Inl e | Inr v \<Rightarrow> text_item (Some v))"

definition seed_provider :: "seed_config \<Rightarrow> string \<Rightarrow> json dict \<Rightarrow> string \<Rightarrow> json dict \<Rightarrow> unit svc" where
  "seed_provider C pid discovery url client =
     ebind (elift (issuer_value discovery)) (\<lambda>issuer.
     ebind (elift (provider_values discovery client)) (\<lambda>vs.
     case issuer of None \<Rightarrow> eraise (DbErr NotNullViolationError)
     | Some i \<Rightarrow> ebind (eget w_now) (\<lambda>now. upsert_provider (seed_provider_row C pid i vs url now))))"

text \<open>\<open>value or default\<close> on what \<open>fetchval\<close> gives.\<close>

definition resolve_id :: "string option \<Rightarrow> string \<Rightarrow> string" where
  "resolve_id found fallback = (if ostr_true found then the found else fallback)"

definition resolve_admin_user_id :: "seed_config \<Rightarrow> world \<Rightarrow> string" where
  "resolve_admin_user_id C w =
     resolve_id (map_option us_id (sql_row (\<lambda>u. us_tenant u = sd_tenant C \<and> us_email u = sd_email C) (w_users w))) (sd_admin C)"

definition resolve_provider_id :: "seed_config \<Rightarrow> string option \<Rightarrow> world \<Rightarrow> string" where
  "resolve_provider_id C issuer w =
     resolve_id (map_option ip_id (sql_row (\<lambda>p. ip_tenant p = sd_tenant C \<and> Some (ip_issuer p) = issuer) (w_providers w)))
       (sd_provider C)"

definition ensure_seed_data ::
    "(string \<Rightarrow> exn + string) \<Rightarrow> seed_config \<Rightarrow> json dict \<Rightarrow> string \<Rightarrow> string \<Rightarrow> json dict \<Rightarrow> string svc" where
  "ensure_seed_data hash C discovery url pid client =
     ebind (eget (resolve_admin_user_id C)) (\<lambda>uid.
     ebind (elift (hash (sd_password C))) (\<lambda>h.
     ebind (eget (\<lambda>w. sql_row (\<lambda>t. tn_domain t = sd_domain C) (w_tenants w))) (\<lambda>there.
     if (case there of None \<Rightarrow> False | Some t \<Rightarrow> tn_id t \<noteq> [] \<and> tn_id t \<noteq> sd_tenant C) then eraise (PyErr OtherError)
     else ethen (atomically
            (ethen (upsert_tenant C)
            (ethen (upsert_admin C uid h)
            (ethen (emod (seed_policies C uid))
                   (seed_provider C pid discovery url client)))))
          (eret uid))))"

section \<open>The client\<close>

text \<open>A request to the service, followed by \<open>raise_for_status\<close>: exceptions are what the handlers make of them.\<close>

definition script_headers :: req_headers where
  "script_headers = \<lparr>rh_accept = ''*/*'', rh_fetch_dest = [], rh_fetch_mode = []\<rparr>"

definition call_api :: "'a reply svc \<Rightarrow> 'a option svc" where
  "call_api m = (\<lambda>w. case m w of
     (Inl e, w') \<Rightarrow>
       (Inl (HttpxStatus (eo_status (handle_exception script_headers e))), w')
   | (Inr (Failure e), w') \<Rightarrow> (Inl (HttpxStatus (eo_status e)), w')
   | (Inr (Success d _ _), w') \<Rightarrow> (Inr d, w'))"

definition pick_client :: "seed_config \<Rightarrow> client_view list \<Rightarrow> client_view option" where
  "pick_client C vs =
     (case (if sd_client C \<noteq> [] then find (\<lambda>v. cw_id v = sd_client C) vs else None) of
        Some v \<Rightarrow> Some v
      | None \<Rightarrow> find (\<lambda>v. cw_name v = sd_client_name C) vs)"

definition seed_scopes :: "string list" where
  "seed_scopes = [''openid'', ''profile'', ''email'']"

definition given :: "string option \<Rightarrow> string svc" where
  "given v = (if ostr_true v then eret (the v) else eraise (PyErr OtherError))"

definition upsert_iam_oidc_client ::
    "(string \<Rightarrow> string \<Rightarrow> string) \<Rightarrow> client_random \<Rightarrow> seed_config \<Rightarrow> token_data \<Rightarrow> (string \<times> string \<times> string) svc" where
  "upsert_iam_oidc_client bcrypt N C auth =
     ebind (call_api (list_clients auth)) (\<lambda>vs.
     case pick_client C (case vs of None \<Rightarrow> [] | Some l \<Rightarrow> l) of
       Some v \<Rightarrow>
         ebind (given (Some (cw_id v))) (\<lambda>cid.
         ethen (call_api (update_client cid (Some (sd_client_name C)) (Some [sd_redirect C]) (Some seed_scopes) auth))
        (ebind (call_api (rotate_client_secret bcrypt N cid auth)) (\<lambda>rotated.
         ebind (given (map_option snd rotated)) (\<lambda>secret.
         eret (cid, secret, ''rotated'')))))
     | None \<Rightarrow>
         ebind (call_api (register_client bcrypt N (sd_client_name C) [sd_redirect C] seed_scopes auth)) (\<lambda>created.
         ebind (given (map_option cw_id created)) (\<lambda>cid.
         ebind (given (case created of None \<Rightarrow> None | Some v \<Rightarrow> cw_secret v)) (\<lambda>secret.
         eret (cid, secret, ''created'')))))"

section \<open>The script\<close>

definition runtime_error :: "'a svc \<Rightarrow> 'a svc" where
  "runtime_error m = etry m (\<lambda>e. eraise (if is_http_error e then PyErr OtherError else e))"

text \<open>Every request verifies the token anew; the model does it once, before the three of them.\<close>

definition iam_client ::
    "auth_env \<Rightarrow> nat \<Rightarrow> string \<Rightarrow> string option \<Rightarrow> (string \<Rightarrow> string \<Rightarrow> string) \<Rightarrow> client_random \<Rightarrow> seed_config \<Rightarrow>
     (string \<times> string \<times> string) svc" where
  "iam_client A ns ip agent bcrypt N C =
     ebind (call_api (get_token A ns (TenantConn (sd_tenant C)) ip agent (sd_email C) (Some (sd_tenant C)) (sd_password C))) (\<lambda>t.
     ebind (given t) (\<lambda>t.
     ebind (call_api (ebind (verify_and_return_jwt_payload (ae_tokens A) (Some (''Bearer '' @ t)))
                       (\<lambda>d. eret (Success (Some d) None 200)))) (\<lambda>auth.
     case auth of None \<Rightarrow> eraise (PyErr OtherError) | Some d \<Rightarrow> upsert_iam_oidc_client bcrypt N C d)))"

record seeded =
  sr_tenant :: string
  sr_admin :: string
  sr_provider :: string
  sr_user :: "string \<times> string"
  sr_client :: "string \<times> string \<times> string"

definition seed_main ::
    "upstream_api \<Rightarrow> auth_env \<Rightarrow> nat \<Rightarrow> string \<Rightarrow> string option \<Rightarrow> (string \<Rightarrow> exn + string) \<Rightarrow> (string \<Rightarrow> string \<Rightarrow> string) \<Rightarrow>
     client_random \<Rightarrow> seed_config \<Rightarrow> seeded svc" where
  "seed_main U A ns ip agent hash bcrypt N C =
     ebind (runtime_error (elift (fetch_seed_discovery U (sd_sso_url C)))) (\<lambda>(discovery, url).
     ebind (elift (issuer_value discovery)) (\<lambda>issuer.
     ebind (eget (resolve_provider_id C issuer)) (\<lambda>pid.
     ebind (elift (register_upstream_client U C (seed_callback_uri (sd_iam_url C) pid))) (\<lambda>client.
     ebind (elift (maybe_seed_upstream_user U C)) (\<lambda>user.
     ebind (ensure_seed_data hash C discovery url pid client) (\<lambda>uid.
     ebind (runtime_error (iam_client A ns ip agent bcrypt N C)) (\<lambda>made.
     eret \<lparr>sr_tenant = sd_tenant C, sr_admin = uid, sr_provider = pid, sr_user = user, sr_client = made\<rparr>)))))))"

section \<open>The client settles\<close>

text \<open>What the script takes from an answer is what the service put into it: reading the status and the
  JSON of the answer gives the result the model of a call hands on, data and error alike.\<close>

theorem script_reads_the_wire:
  assumes "sendable (fst (m w))"
  shows "read_response (answer script_headers enc ts (fst (m w)))
    = (case fst (call_api m w) of Inl e \<Rightarrow> Inl e | Inr d \<Rightarrow> Inr (data_json enc d))"
  unfolding read_answer [OF assms] by (simp add: call_api_def split: prod.split sum.split reply.split)

lemma sort_key_map:
  assumes "\<And>x. k (f x) = k x"
  shows "sort_key k (map f xs) = map f (sort_key k xs)"
proof -
  have ins: "insort_key k (f x) (map f ys) = map f (insort_key k x ys)" for x ys
    by (induction ys) (simp_all add: assms)
  show ?thesis by (induction xs) (simp_all add: ins)
qed

definition clients_in_order :: "string \<Rightarrow> world \<Rightarrow> client_row list" where
  "clients_in_order tenant w = sort_key (\<lambda>c. - oc_created c) (sql_select (\<lambda>c. oc_tenant c = tenant) (w_clients w))"

lemma clients_in_order_set: "set (clients_in_order tenant w) = {c \<in> set (w_clients w). oc_tenant c = tenant}"
  by (auto simp: clients_in_order_def sql_select_def)

lemma list_clients_api:
  "call_api (list_clients auth) w = (Inr (Some (map client_view_of (clients_in_order (td_tenant auth) w))), w)"
  by (simp add: call_api_def list_clients_def clients_in_order_def success_response_def eff_simps)

lemma find_map: "find P (map f xs) = map_option f (find (P \<circ> f) xs)"
  by (induction xs) simp_all

lemma find_SomeD: "find P xs = Some x \<Longrightarrow> x \<in> set xs \<and> P x"
  by (auto simp: find_Some_iff)

text \<open>The row the script settles on.\<close>

definition picked_row :: "seed_config \<Rightarrow> string \<Rightarrow> world \<Rightarrow> client_row option" where
  "picked_row C tenant w =
     (case (if sd_client C \<noteq> [] then find (\<lambda>c. oc_id c = sd_client C) (clients_in_order tenant w) else None) of
        Some c \<Rightarrow> Some c
      | None \<Rightarrow> find (\<lambda>c. oc_name c = sd_client_name C) (clients_in_order tenant w))"

lemma picked_row_mem: "picked_row C t w = Some c \<Longrightarrow> c \<in> set (w_clients w) \<and> oc_tenant c = t"
  using clients_in_order_set [of t w] by (auto simp: picked_row_def dest!: find_SomeD split: option.splits if_splits)

lemma pick_client_row:
  "pick_client C (map client_view_of (clients_in_order tenant w)) = map_option client_view_of (picked_row C tenant w)"
  by (simp add: pick_client_def picked_row_def find_map comp_def client_view_of_def split: option.split)

definition seeded_client :: "(string \<Rightarrow> string \<Rightarrow> string) \<Rightarrow> client_random \<Rightarrow> seed_config \<Rightarrow> int \<Rightarrow> client_row \<Rightarrow> client_row" where
  "seeded_client bcrypt N C now c =
     c\<lparr>oc_name := sd_client_name C, oc_redirect_uris := [sd_redirect C], oc_scopes := seed_scopes,
       oc_secret := hash_client_secret bcrypt N, oc_modified := now\<rparr>"

lemma given_run: "given v w = (if ostr_true v then (Inr (the v), w) else (Inl (PyErr OtherError), w))"
  by (simp add: given_def)

text \<open>A client that is there gets the name, the address and the scopes of the configuration and a new secret.\<close>

lemma rotated_run:
  assumes keys: "client_keys w" and pick: "picked_row C (td_tenant auth) w = Some c"
    and named: "sd_client_name C \<noteq> []" "oc_id c \<noteq> []" "cr_secret N \<noteq> []"
  shows "\<exists>l. upsert_iam_oidc_client bcrypt N C auth w
     = (Inr (oc_id c, cr_secret N, ''rotated''),
        w\<lparr>w_clients := sql_update (own_client (oc_id c) (td_tenant auth)) (seeded_client bcrypt N C (w_now w)) (w_clients w),
          w_log := l\<rparr>)"
proof -
  let ?own = "own_client (oc_id c) (td_tenant auth)"
  have mem: "c \<in> set (w_clients w)" "oc_tenant c = td_tenant auth"
    using picked_row_mem [OF pick] by simp_all
  have own: "sql_row ?own (w_clients w) = Some c"
  proof -
    have "sql_row ?own (w_clients w) \<noteq> None" using mem by (auto simp: sql_row_None own_client_def)
    then obtain d where d: "sql_row ?own (w_clients w) = Some d" by blast
    from sql_row_Some [OF d] client_unique [OF keys _ mem(1)] d show ?thesis by (auto simp: own_client_def)
  qed
  let ?f = "\<lambda>x. x\<lparr>oc_name := sd_client_name C, oc_redirect_uris := [sd_redirect C], oc_scopes := seed_scopes, oc_modified := w_now w\<rparr>"
  obtain l1 where upd: "call_api (update_client (oc_id c) (Some (sd_client_name C)) (Some [sd_redirect C]) (Some seed_scopes) auth) w
      = (Inr (Some \<lparr>cw_id = oc_id c, cw_secret = None, cw_name = sd_client_name C, cw_redirect_uris = [sd_redirect C],
           cw_scopes = seed_scopes, cw_meta = None\<rparr>), w\<lparr>w_clients := sql_update ?own ?f (w_clients w), w_log := l1\<rparr>)"
    using own named(1) by (simp add: call_api_def update_client_def find_client_run client_audit_def log_audit_run
        success_response_def ostr_true_def seed_scopes_def eff_simps Let_def)
  let ?w1 = "w\<lparr>w_clients := sql_update ?own ?f (w_clients w), w_log := l1\<rparr>"
  have own1: "sql_row ?own (w_clients ?w1) = Some (?f c)"
    using own mem by (simp add: sql_row_update_keep own_client_def)
  have twice: "sql_update ?own (\<lambda>x. x\<lparr>oc_secret := hash_client_secret bcrypt N, oc_modified := w_now w\<rparr>) (sql_update ?own ?f cs)
      = sql_update ?own (seeded_client bcrypt N C (w_now w)) cs" for cs
    by (induction cs) (auto simp: sql_update_def own_client_def seeded_client_def)
  obtain l2 where rot: "call_api (rotate_client_secret bcrypt N (oc_id c) auth) ?w1
      = (Inr (Some (oc_id c, cr_secret N)),
         w\<lparr>w_clients := sql_update ?own (seeded_client bcrypt N C (w_now w)) (w_clients w), w_log := l2\<rparr>)"
    using own1 by (simp add: call_api_def rotate_client_secret_def find_client_run client_audit_def log_audit_run
        success_response_def eff_simps twice)
  show ?thesis
    using upd rot named(2,3)
    by (intro exI [of _ l2]) (simp add: upsert_iam_oidc_client_def list_clients_api pick_client_row pick given_run ostr_true_def client_view_of_def
        eff_simps)
qed

text \<open>Otherwise a new client is registered.\<close>

lemma created_run:
  assumes "picked_row C (td_tenant auth) w = None" "upsert_iam_oidc_client bcrypt N C auth w = (Inr res, w1)"
  obtains row where "res = (oc_id row, cr_secret N, ''created'')" "w_clients w1 = w_clients w @ [row]"
    "row = \<lparr>oc_id = generate_client_id N, oc_tenant = td_tenant auth, oc_secret = hash_client_secret bcrypt N,
        oc_name = sd_client_name C, oc_redirect_uris = [sd_redirect C], oc_scopes = seed_scopes, oc_is_active = True,
        oc_created = w_now w, oc_modified = w_now w\<rparr>"
    "\<forall>c \<in> set (w_clients w). oc_id c \<noteq> oc_id row"
proof -
  let ?row = "\<lparr>oc_id = generate_client_id N, oc_tenant = td_tenant auth, oc_secret = hash_client_secret bcrypt N,
      oc_name = sd_client_name C, oc_redirect_uris = [sd_redirect C], oc_scopes = seed_scopes, oc_is_active = True,
      oc_created = w_now w, oc_modified = w_now w\<rparr>"
  let ?api = "call_api (register_client bcrypt N (sd_client_name C) [sd_redirect C] seed_scopes auth) w"
  have up: "upsert_iam_oidc_client bcrypt N C auth w = (Inl e, w)" if "?api = (Inl e, w)" for e
    using assms(1) that by (simp add: upsert_iam_oidc_client_def list_clients_api pick_client_row eff_simps)
  have "(\<exists>e. insert_client ?row w = (Inl e, w))
      \<or> insert_client ?row w = (Inr (), w\<lparr>w_clients := w_clients w @ [?row]\<rparr>)
         \<and> (\<forall>c \<in> set (w_clients w). oc_id c \<noteq> generate_client_id N)"
    by (auto simp: insert_client_def)
  moreover have "insert_client ?row w \<noteq> (Inl e, w)" for e
  proof
    assume "insert_client ?row w = (Inl e, w)"
    then have "\<exists>e'. ?api = (Inl e', w)" by (simp add: call_api_def register_client_def eff_simps)
    with up assms(2) show False by fastforce
  qed
  ultimately have new: "insert_client ?row w = (Inr (), w\<lparr>w_clients := w_clients w @ [?row]\<rparr>)"
    "\<forall>c \<in> set (w_clients w). oc_id c \<noteq> generate_client_id N" by blast+
  obtain l where reg: "call_api (register_client bcrypt N (sd_client_name C) [sd_redirect C] seed_scopes auth) w
      = (Inr (Some \<lparr>cw_id = generate_client_id N, cw_secret = Some (cr_secret N), cw_name = sd_client_name C,
            cw_redirect_uris = [sd_redirect C], cw_scopes = seed_scopes, cw_meta = None\<rparr>),
         w\<lparr>w_clients := w_clients w @ [?row], w_log := l\<rparr>)"
    using new(1) by (simp add: call_api_def register_client_def client_audit_def log_audit_run created_response_def eff_simps)
  have "res = (oc_id ?row, cr_secret N, ''created'') \<and> w1 = w\<lparr>w_clients := w_clients w @ [?row], w_log := l\<rparr>"
    using assms reg by (auto simp: upsert_iam_oidc_client_def list_clients_api pick_client_row given_run eff_simps split: if_splits)
  with new(2) show ?thesis by (intro that [of ?row]) simp_all
qed

text \<open>In both cases the next run picks the same client.\<close>

lemma picked_again_rotated:
  assumes keys: "client_keys w" and pick: "picked_row C t w = Some c"
    and w1: "w_clients w1 = sql_update (own_client (oc_id c) t) (seeded_client bcrypt N C now) (w_clients w)"
  shows "\<exists>c1. picked_row C t w1 = Some c1 \<and> oc_id c1 = oc_id c"
proof -
  let ?f = "\<lambda>x. if own_client (oc_id c) t x then seeded_client bcrypt N C now x else x"
  have f: "oc_id (?f x) = oc_id x" "oc_tenant (?f x) = oc_tenant x" "oc_created (?f x) = oc_created x" for x
    by (simp_all add: seeded_client_def)
  have "sql_select (\<lambda>c. oc_tenant c = t) (map ?f cs) = map ?f (sql_select (\<lambda>c. oc_tenant c = t) cs)" for cs
    by (induction cs) (simp_all add: sql_select_def f(2))
  then have order: "clients_in_order t w1 = map ?f (clients_in_order t w)"
    by (simp add: clients_in_order_def w1 sql_update_def sort_key_map f(3))
  have mem: "c \<in> set (w_clients w)"
    using picked_row_mem [OF pick] by simp
  have only: "x = c" if "x \<in> set (clients_in_order t w)" "own_client (oc_id c) t x" for x
    using that client_unique [OF keys _ mem] by (auto simp: clients_in_order_set own_client_def)
  have by_id: "find (\<lambda>x. oc_id x = i) (clients_in_order t w1) = map_option ?f (find (\<lambda>x. oc_id x = i) (clients_in_order t w))" for i
    by (simp add: order find_map comp_def f(1))
  have by_name: "find (\<lambda>x. oc_name x = sd_client_name C) (clients_in_order t w1)
      = map_option ?f (find (\<lambda>x. oc_name x = sd_client_name C) (clients_in_order t w))"
    if "oc_name c = sd_client_name C"
  proof -
    have "oc_name (?f x) = sd_client_name C \<longleftrightarrow> oc_name x = sd_client_name C" if "x \<in> set (clients_in_order t w)" for x
      using only [OF that] \<open>oc_name c = sd_client_name C\<close> by (auto simp: seeded_client_def)
    then show ?thesis unfolding order find_map by (simp add: comp_def cong: find_cong)
  qed
  show ?thesis
  proof (cases "if sd_client C \<noteq> [] then find (\<lambda>c. oc_id c = sd_client C) (clients_in_order t w) else None")
    case None
    with pick have "oc_name c = sd_client_name C" "find (\<lambda>x. oc_name x = sd_client_name C) (clients_in_order t w) = Some c"
      by (auto simp: picked_row_def find_Some_iff)
    with None by_id [of "sd_client C"] by_name f(1) [of c] show ?thesis
      by (auto simp: picked_row_def split: if_splits)
  next
    case (Some d)
    with pick have "d = c" by (simp add: picked_row_def)
    with Some by_id [of "sd_client C"] f(1) [of c] show ?thesis by (auto simp: picked_row_def split: if_splits)
  qed
qed

lemma picked_again_created:
  assumes pick: "picked_row C t w = None" and w1: "w_clients w1 = w_clients w @ [row]"
    and row: "oc_tenant row = t" "oc_name row = sd_client_name C"
  shows "picked_row C t w1 = Some row"
proof -
  let ?ord = "clients_in_order t"
  have mem: "set (?ord w1) = insert row (set (?ord w))" using row(1) by (auto simp: clients_in_order_set w1)
  have old: "\<forall>c \<in> set (?ord w). oc_name c \<noteq> sd_client_name C" "sd_client C \<noteq> [] \<Longrightarrow> \<forall>c \<in> set (?ord w). oc_id c \<noteq> sd_client C"
    using pick by (auto simp: picked_row_def find_None_iff split: option.splits if_splits)
  have only: "find P (?ord w1) = (if P row then Some row else None)" if "\<forall>c \<in> set (?ord w). \<not> P c" for P
  proof (cases "find P (?ord w1)")
    case None
    then have "\<not> P row" using mem by (auto simp: find_None_iff)
    with None show ?thesis by simp
  next
    case (Some d)
    from find_SomeD [OF this] that mem have "d = row" "P row" by auto
    with Some show ?thesis by simp
  qed
  show ?thesis using only [of "\<lambda>c. oc_id c = sd_client C"] only [of "\<lambda>c. oc_name c = sd_client_name C"] old row(2)
    by (auto simp: picked_row_def split: option.split)
qed

text \<open>Seeding the client settles: what the script answers is the client of the tenant under its
  configured name, address and scopes, whose secret authenticates it at the token endpoint as long as it
  is active; and running the script again finds the same client, gives it a new secret and adds none.\<close>

theorem seeded_client_settles:
  assumes bcrypt: "\<And>salt x. ae_checkpw (oe_auth V) x (bcrypt salt x)" and keys: "client_keys w"
    and named: "sd_client_name C \<noteq> []" "\<forall>c \<in> set (w_clients w). oc_id c \<noteq> []" "cr_secret N \<noteq> []" "cr_secret N2 \<noteq> []"
    and run: "upsert_iam_oidc_client bcrypt N C auth w = (Inr (cid, secret, st), w1)"
  shows "\<exists>c. sql_row (own_client cid (td_tenant auth)) (w_clients w1) = Some c \<and> oc_name c = sd_client_name C
     \<and> oc_redirect_uris c = [sd_redirect C] \<and> oc_scopes c = seed_scopes
     \<and> (oc_is_active c \<longrightarrow> validate_client V (Some cid) (Some secret) w1 = (Inr (Some c), w1))
     \<and> (\<exists>w2. upsert_iam_oidc_client bcrypt N2 C auth w1 = (Inr (cid, cr_secret N2, ''rotated''), w2)
            \<and> map oc_id (w_clients w2) = map oc_id (w_clients w1))"
proof -
  have ids: "oc_id (generate_row) \<noteq> []" if "oc_id generate_row = generate_client_id N" for generate_row :: client_row
    using that by (simp add: generate_client_id_def)
  obtain c0 c where c: "sql_row (own_client cid (td_tenant auth)) (w_clients w1) = Some c" "secret = cr_secret N"
    "oc_name c = sd_client_name C" "oc_redirect_uris c = [sd_redirect C]" "oc_scopes c = seed_scopes"
    "oc_secret c = hash_client_secret bcrypt N" "client_keys w1" "cid \<noteq> []"
    "picked_row C (td_tenant auth) w1 = Some c0" "oc_id c0 = cid"
  proof (cases "picked_row C (td_tenant auth) w")
    case None
    then show ?thesis
    proof (rule created_run [OF _ run])
      fix row
      assume r: "(cid, secret, st) = (oc_id row, cr_secret N, ''created'')" "w_clients w1 = w_clients w @ [row]"
        "row = \<lparr>oc_id = generate_client_id N, oc_tenant = td_tenant auth, oc_secret = hash_client_secret bcrypt N,
          oc_name = sd_client_name C, oc_redirect_uris = [sd_redirect C], oc_scopes = seed_scopes, oc_is_active = True,
          oc_created = w_now w, oc_modified = w_now w\<rparr>"
        "\<forall>c \<in> set (w_clients w). oc_id c \<noteq> oc_id row"
      have "sql_row (own_client cid (td_tenant auth)) (w_clients w) = None"
        using r(1,4) by (auto simp: sql_row_None own_client_def)
      then have own: "sql_row (own_client cid (td_tenant auth)) (w_clients w1) = Some row"
        using r(1) by (simp add: r(2) sql_row_append sql_row_Cons) (simp add: own_client_def r(3))
      have "picked_row C (td_tenant auth) w1 = Some row"
        by (rule picked_again_created [OF None r(2)]) (simp_all add: r(3))
      with own r keys show thesis
        by (intro that [of row row]) (auto simp: client_keys_def generate_client_id_def)
    qed
  next
    case (Some c0)
    note mem = picked_row_mem [OF Some]
    let ?f = "seeded_client bcrypt N C (w_now w)" and ?own = "own_client (oc_id c0) (td_tenant auth)"
    obtain l where up: "upsert_iam_oidc_client bcrypt N C auth w
       = (Inr (oc_id c0, cr_secret N, ''rotated''), w\<lparr>w_clients := sql_update ?own ?f (w_clients w), w_log := l\<rparr>)"
      using rotated_run [OF keys Some named(1) _ named(3)] named(2) mem by blast
    with run have r: "cid = oc_id c0" "secret = cr_secret N" "w_clients w1 = sql_update ?own ?f (w_clients w)" by auto
    have "sql_row ?own (w_clients w) \<noteq> None" using mem by (auto simp: sql_row_None own_client_def)
    then obtain c where c: "sql_row ?own (w_clients w) = Some c" by blast
    have "oc_id (?f x) = oc_id x" "oc_tenant (?f x) = oc_tenant x" for x by (simp_all add: seeded_client_def)
    then have own: "sql_row ?own (w_clients w1) = Some (?f c)"
      using c sql_row_Some [OF c] by (simp add: r(3) sql_row_update_keep own_client_def)
    obtain c1 where c1: "picked_row C (td_tenant auth) w1 = Some c1" "oc_id c1 = oc_id c0"
      using picked_again_rotated [OF keys Some r(3)] by blast
    have "client_keys w1" using keys by (simp add: client_keys_def r(3) seeded_client_def)
    with own c1 r mem named(2) show ?thesis by (intro that [of "?f c" c1]) (auto simp: seeded_client_def)
  qed
  note own = sql_row_Some [OF c(1)]
  have "validate_client V (Some cid) (Some secret) w1 = (Inr (Some c), w1)" if "oc_is_active c"
  proof -
    have "sql_row (\<lambda>c. Some (oc_id c) = Some cid \<and> oc_is_active c) (w_clients w1) \<noteq> None"
      using own that by (auto simp: sql_row_None own_client_def)
    then obtain d where d: "sql_row (\<lambda>c. Some (oc_id c) = Some cid \<and> oc_is_active c) (w_clients w1) = Some d" by blast
    from sql_row_Some [OF d] own client_unique [OF c(7), of d c] have "d = c" by (simp add: own_client_def)
    with d bcrypt c(2,6) show ?thesis by (simp add: validate_client_Some hash_client_secret_def)
  qed
  moreover have "\<exists>w2. upsert_iam_oidc_client bcrypt N2 C auth w1 = (Inr (cid, cr_secret N2, ''rotated''), w2)
      \<and> map oc_id (w_clients w2) = map oc_id (w_clients w1)"
  proof -
    obtain l where "upsert_iam_oidc_client bcrypt N2 C auth w1
        = (Inr (cid, cr_secret N2, ''rotated''),
           w1\<lparr>w_clients := sql_update (own_client cid (td_tenant auth)) (seeded_client bcrypt N2 C (w_now w1)) (w_clients w1),
             w_log := l\<rparr>)"
      using rotated_run [OF c(7,9) named(1) _ named(4)] c(8,10) by auto
    then show ?thesis by (auto simp: seeded_client_def)
  qed
  ultimately show ?thesis using c(1,3,4,5) by blast
qed

section \<open>The rows settle\<close>

lemma sql_update_fixed: "\<forall>r \<in> set t. p r \<longrightarrow> f r = r \<Longrightarrow> sql_update p f t = t"
  by (induction t) (auto simp: sql_update_def)

lemma sql_update_twice:
  "(\<And>r. p (f r) = p r) \<Longrightarrow> (\<And>r. f (f r) = f r) \<Longrightarrow> sql_update p f (sql_update p f t) = sql_update p f t"
  by (induction t) (simp_all add: sql_update_def)

lemma sql_update_has:
  assumes "\<And>r. key (f r) = key r"
  shows "(\<exists>r \<in> set (sql_update p f t). key r = k) \<longleftrightarrow> (\<exists>r \<in> set t. key r = k)"
proof -
  have "key ` set (sql_update p f t) = key ` set t" using assms by (simp flip: set_map)
  then show ?thesis by (metis image_iff)
qed

lemma upsert_tenant_run:
  assumes "upsert_tenant C w = (Inr (), w1)"
  obtains ts where "w1 = w\<lparr>w_tenants := ts\<rparr>" "\<forall>t \<in> set ts. tn_domain t = sd_domain C \<longrightarrow> tn_id t = sd_tenant C"
    "\<And>v. w_tenants v = ts \<Longrightarrow> upsert_tenant C v = (Inr (), v)"
proof -
  let ?p = "\<lambda>t. tn_id t = sd_tenant C" and ?f = "reseed_tenant C"
  have key: "tn_id (?f t) = tn_id t" "?f (?f t) = ?f t" for t by (simp_all add: reseed_tenant_def)
  have dom: "\<forall>t \<in> set (w_tenants w). tn_domain t = sd_domain C \<longrightarrow> tn_id t = sd_tenant C"
    using assms by (auto simp: upsert_tenant_def split: if_splits)
  show ?thesis
  proof (cases "\<exists>t \<in> set (w_tenants w). ?p t")
    case True
    let ?ts = "sql_update ?p ?f (w_tenants w)"
    have "\<exists>t \<in> set ?ts. ?p t" using True by (subst sql_update_has) (simp_all add: key)
    moreover have "sql_update ?p ?f ?ts = ?ts" by (rule sql_update_twice) (simp_all add: key)
    moreover have dom1: "\<forall>t \<in> set ?ts. tn_domain t = sd_domain C \<longrightarrow> tn_id t = sd_tenant C"
      using dom by (auto simp: set_sql_update key split: if_splits)
    ultimately show ?thesis using assms True by (intro that [of ?ts]) (auto simp: upsert_tenant_def split: if_splits)
  next
    case False
    let ?r = "\<lparr>tn_id = sd_tenant C, tn_name = sd_tenant_name C, tn_domain = sd_domain C,
              tn_root = sd_email C, tn_settings = mfa_off, tn_is_active = True, tn_created = w_now w\<rparr>"
    have "sql_update ?p ?f (w_tenants w @ [?r]) = w_tenants w @ [?r]"
      using False by (intro sql_update_fixed) (auto simp: reseed_tenant_def)
    with assms False dom show ?thesis
      by (intro that [of "w_tenants w @ [?r]"]) (auto simp: upsert_tenant_def split: if_splits)
  qed
qed

lemma reseed_user_same [simp]: "reseed_user C h now (reseed_user C h now u) = reseed_user C h now u"
  "reseed_user C h now (seed_user_row C uid h now) = seed_user_row C uid h now"
  by (simp_all add: reseed_user_def seed_user_row_def)

lemma reseed_user_key [simp]: "us_id (reseed_user C h now u) = us_id u" "us_tenant (reseed_user C h now u) = us_tenant u"
  "us_email (reseed_user C h now u) = sd_email C"
  by (simp_all add: reseed_user_def)

lemma upsert_admin_run:
  assumes "upsert_admin C uid h w = (Inr (), w1)"
  obtains us where "w1 = w\<lparr>w_users := us\<rparr>"
    "\<And>v. w_users v = us \<Longrightarrow> w_now v = w_now w \<Longrightarrow> upsert_admin C uid h v = (Inr (), v)"
    "\<forall>u \<in> set us. us_id u = uid \<or> u \<in> set (w_users w)"
    "\<forall>u \<in> set (w_users w). us_id u = uid \<longrightarrow> (\<exists>u' \<in> set us. us_id u' = uid \<and> us_tenant u' = us_tenant u \<and> us_email u' = sd_email C)"
proof (cases "sql_row (\<lambda>u. us_id u = uid) (w_users w)")
  case None
  let ?r = "seed_user_row C uid h (w_now w)"
  have ins: "w1 = w\<lparr>w_users := w_users w @ [?r]\<rparr>"
    "\<forall>x \<in> set (w_users w). us_id x \<noteq> uid \<and> \<not> (us_tenant x = sd_tenant C \<and> us_email x = sd_email C)"
    using assms None by (auto simp: upsert_admin_def insert_user_def seed_user_row_def split: if_splits)
  have row: "sql_row (\<lambda>u. us_id u = uid) (w_users w @ [?r]) = Some ?r"
    using None by (simp add: sql_row_append sql_row_Cons) (simp add: seed_user_row_def)
  have "sql_update (\<lambda>u. us_id u = uid) (reseed_user C h (w_now w)) (w_users w @ [?r]) = w_users w @ [?r]"
    using ins(2) by (intro sql_update_fixed) auto
  with row ins show ?thesis
    by (intro that [of "w_users w @ [?r]"]) (auto simp: upsert_admin_def seed_user_row_def)
next
  case (Some old)
  let ?f = "reseed_user C h (w_now w)"
  let ?us = "sql_update (\<lambda>u. us_id u = uid) ?f (w_users w)"
  have upd: "w1 = w\<lparr>w_users := ?us\<rparr>"
    "\<not> (\<exists>u \<in> set (w_users w). us_id u \<noteq> uid \<and> us_tenant u = us_tenant old \<and> us_email u = sd_email C)"
    using assms Some by (auto simp: upsert_admin_def split: if_splits)
  have row: "sql_row (\<lambda>u. us_id u = uid) ?us = Some (?f old)"
    using Some sql_row_Some [OF Some] by (simp add: sql_row_update_keep)
  have fixed: "sql_update (\<lambda>u. us_id u = uid) ?f ?us = ?us"
    by (rule sql_update_twice) simp_all
  have other: "\<not> (\<exists>u \<in> set ?us. us_id u \<noteq> uid \<and> us_tenant u = us_tenant old \<and> us_email u = sd_email C)"
    using upd(2) by (auto simp: set_sql_update split: if_splits)
  have rows: "\<forall>u \<in> set ?us. us_id u = uid \<or> u \<in> set (w_users w)"
    by (auto simp: set_sql_update split: if_splits)
  have kept: "?f u \<in> set ?us" if "u \<in> set (w_users w)" "us_id u = uid" for u
    using that by (auto simp: set_sql_update)
  show ?thesis
  proof (rule that [of ?us])
    show "\<forall>u \<in> set (w_users w). us_id u = uid \<longrightarrow> (\<exists>u' \<in> set ?us. us_id u' = uid \<and> us_tenant u' = us_tenant u \<and> us_email u' = sd_email C)"
      using kept by (intro ballI impI bexI [of _ "?f _"]) simp_all
  qed (use upd(1) row fixed other rows in \<open>simp_all add: upsert_admin_def\<close>)
qed

text \<open>Policies: a key whose rows all have the document, at this time.\<close>

definition settled :: "int \<Rightarrow> policy_doc \<Rightarrow> string \<times> string \<times> string \<Rightarrow> user_policy_row list \<Rightarrow> bool" where
  "settled now d k t \<longleftrightarrow> (\<exists>r \<in> set t. is_policy k r) \<and> (\<forall>r \<in> set t. is_policy k r \<longrightarrow> set_policy now d r = r)"

lemma settled_upsert: "settled now d k t \<Longrightarrow> upsert_row now k d t = t"
  by (auto simp: settled_def upsert_row_def sql_row_None sql_update_fixed)

lemma set_policy_twice [simp]: "set_policy now d (set_policy now d r) = set_policy now d r"
  "set_policy now d (new_policy_row now k d) = new_policy_row now k d"
  by (simp_all add: set_policy_def new_policy_row_def)

lemma upsert_settles: "settled now d k (upsert_row now k d t)"
proof (cases "sql_row (is_policy k) t")
  case None
  then show ?thesis by (auto simp: settled_def upsert_row_def sql_row_None)
next
  case (Some r)
  note r = sql_row_Some [OF Some]
  let ?t = "sql_update (is_policy k) (set_policy now d) t"
  have t: "upsert_row now k d t = ?t" using Some by (simp add: upsert_row_def)
  have "set_policy now d r \<in> set ?t" using r by (auto simp: set_sql_update)
  moreover have "\<forall>x \<in> set ?t. is_policy k x \<longrightarrow> set_policy now d x = x" by (auto simp: set_sql_update split: if_splits)
  ultimately show ?thesis unfolding t settled_def using r by (intro conjI bexI [of _ "set_policy now d r"]) simp_all
qed

lemma upsert_keeps_settled:
  assumes "settled now d k t" "k' \<noteq> k"
  shows "settled now d k (upsert_row now k' d' t)"
proof -
  have other: "\<not> is_policy k r" if "is_policy k' r" for r using that assms(2) by (auto simp: is_policy_def)
  have "r \<in> set (upsert_row now k' d' t) \<longleftrightarrow> r \<in> set t" if "is_policy k r" for r
    using that other assms(2) by (auto simp: upsert_row_def set_sql_update split: if_splits)
  with assms(1) show ?thesis unfolding settled_def by blast
qed

lemma upsert_all_settle:
  assumes "distinct (map key xs)"
  shows "\<forall>x \<in> set xs. settled now (doc x) (key x) (fold (\<lambda>x. upsert_row now (key x) (doc x)) xs t)"
  using assms
proof (induction xs rule: rev_induct)
  case Nil
  then show ?case by simp
next
  case (snoc x xs)
  then show ?case by (auto simp: upsert_settles intro!: upsert_keeps_settled)
qed

lemma upsert_all_settled:
  "\<forall>x \<in> set xs. settled now (doc x) (key x) t \<Longrightarrow> fold (\<lambda>x. upsert_row now (key x) (doc x)) xs t = t"
  by (induction xs) (simp_all add: settled_upsert)

lemma seed_policies_twice:
  assumes "w_policies v = w_policies (seed_policies C uid w)" "w_now v = w_now w"
  shows "seed_policies C uid v = v"
proof -
  let ?key = "\<lambda>r. (sd_tenant C, uid, ''seed-admin-'' @ r)"
  have "distinct (map ?key admin_policy_resources)" by (simp add: distinct_map inj_on_def) (simp add: admin_policy_resources_def)
  from upsert_all_settled [OF upsert_all_settle [OF this]]
  have "fold (\<lambda>r. upsert_row (w_now w) (?key r) (seed_admin_policy r)) admin_policy_resources (w_policies v) = w_policies v"
    unfolding assms(1) seed_policies_def by simp
  then show ?thesis by (simp add: seed_policies_def assms(2))
qed

lemma reseed_provider_key [simp]: "ip_id (reseed_provider r x) = ip_id r" "ip_tenant (reseed_provider r x) = ip_tenant r"
  "ip_issuer (reseed_provider r x) = ip_issuer r" "reseed_provider r (reseed_provider r x) = reseed_provider r x"
  by (simp_all add: reseed_provider_def)

lemma upsert_provider_run:
  assumes "upsert_provider r w = (Inr (), w1)"
  obtains ps where "w1 = w\<lparr>w_providers := ps\<rparr>" "\<And>v. w_providers v = ps \<Longrightarrow> upsert_provider r v = (Inr (), v)"
    "\<forall>x \<in> set ps. ip_id x \<noteq> ip_id r \<longrightarrow> \<not> (ip_tenant x = ip_tenant r \<and> ip_issuer x = ip_issuer r)"
    "\<exists>x \<in> set ps. ip_id x = ip_id r \<and> ip_tenant x = ip_tenant r \<and> ip_issuer x = ip_issuer r"
proof (cases "\<exists>x \<in> set (w_providers w). ip_id x = ip_id r")
  case True
  let ?ps = "sql_update (\<lambda>x. ip_id x = ip_id r) (reseed_provider r) (w_providers w)"
  have upd: "w1 = w\<lparr>w_providers := ?ps\<rparr>"
    "\<forall>x \<in> set (w_providers w). ip_id x \<noteq> ip_id r \<longrightarrow> \<not> (ip_tenant x = ip_tenant r \<and> ip_issuer x = ip_issuer r)"
    using assms True by (auto simp: upsert_provider_def split: if_splits)
  have other: "\<forall>x \<in> set ?ps. ip_id x \<noteq> ip_id r \<longrightarrow> \<not> (ip_tenant x = ip_tenant r \<and> ip_issuer x = ip_issuer r)"
    using upd(2) by (auto simp: set_sql_update split: if_splits)
  obtain x where "x \<in> set (w_providers w)" "ip_id x = ip_id r" using True by blast
  then have has: "reseed_provider r x \<in> set ?ps" by (auto simp: set_sql_update)
  have "sql_update (\<lambda>x. ip_id x = ip_id r) (reseed_provider r) ?ps = ?ps"
    by (rule sql_update_fixed) (auto simp: set_sql_update split: if_splits)
  with other has show ?thesis
    by (intro that [of ?ps] bexI [of _ "reseed_provider r x"]) (auto simp: upd(1) upsert_provider_def)
next
  case False
  then have new: "w1 = w\<lparr>w_providers := w_providers w @ [r]\<rparr>"
    "\<forall>x \<in> set (w_providers w). ip_id x \<noteq> ip_id r \<and> \<not> (ip_tenant x = ip_tenant r \<and> ip_issuer x = ip_issuer r)"
    using assms by (auto simp: upsert_provider_def insert_provider_def split: if_splits)
  have "reseed_provider r r = r" by (simp add: reseed_provider_def)
  then have "sql_update (\<lambda>x. ip_id x = ip_id r) (reseed_provider r) (w_providers w @ [r]) = w_providers w @ [r]"
    using new(2) by (intro sql_update_fixed) auto
  with new show ?thesis by (intro that [of "w_providers w @ [r]"]) (auto simp: upsert_provider_def)
qed

text \<open>The steps of a seeding that succeeds.\<close>

lemma ensure_run:
  assumes "ensure_seed_data hash C discovery url pid client w = (Inr uid, w1)"
  obtains h wa wb where "hash (sd_password C) = Inr h" "uid = resolve_admin_user_id C w"
    "upsert_tenant C w = (Inr (), wa)" "upsert_admin C uid h wa = (Inr (), wb)"
    "seed_provider C pid discovery url client (seed_policies C uid wb) = (Inr (), w1)"
  using assms
  by (auto simp: ensure_seed_data_def atomically_def eff_simps split: sum.splits prod.splits if_splits option.splits)

lemma seed_provider_run:
  assumes "seed_provider C pid discovery url client w = (Inr (), w1)"
  obtains i vs where "issuer_value discovery = Inr (Some i)" "provider_values discovery client = Inr vs"
    "upsert_provider (seed_provider_row C pid i vs url (w_now w)) w = (Inr (), w1)"
  using assms by (auto simp: seed_provider_def eff_simps split: sum.splits option.splits)

lemma resolve_again:
  assumes old: "case sql_row p xs of Some x \<Rightarrow> i = key x | None \<Rightarrow> i = fallback"
    and other: "\<And>y. y \<in> set ys \<Longrightarrow> p y \<Longrightarrow> key y \<noteq> i \<Longrightarrow> y \<in> set xs"
    and unique: "\<And>y z. y \<in> set xs \<Longrightarrow> z \<in> set xs \<Longrightarrow> p y \<Longrightarrow> p z \<Longrightarrow> y = z"
    and kept: "sql_row p xs \<noteq> None \<Longrightarrow> \<exists>y \<in> set ys. p y" and given: "i \<noteq> []"
  shows "resolve_id (map_option key (sql_row p ys)) fallback = i"
proof (cases "sql_row p ys")
  case None
  then have "sql_row p xs = None" using kept by (auto simp: sql_row_None)
  with None old show ?thesis by (simp add: resolve_id_def ostr_true_def)
next
  case (Some y)
  note y = sql_row_Some [OF Some]
  have "key y = i"
  proof (rule ccontr)
    assume n: "key y \<noteq> i"
    then have "y \<in> set xs" using other y by blast
    then obtain x where x: "sql_row p xs = Some x" using y by (cases "sql_row p xs") (auto simp: sql_row_None)
    from sql_row_Some [OF x] unique [OF \<open>y \<in> set xs\<close>] y old x n show False by auto
  qed
  with Some given show ?thesis by (simp add: resolve_id_def ostr_true_def)
qed

lemma resolve_id_cases:
  assumes "\<forall>x \<in> set xs. key x \<noteq> []" "i = resolve_id (map_option key (sql_row p xs)) fallback"
  shows "case sql_row p xs of Some x \<Rightarrow> i = key x | None \<Rightarrow> i = fallback"
  using assms sql_row_Some [of p xs] by (auto simp: resolve_id_def ostr_true_def split: option.split)

lemma resolved_given:
  "(case sql_row p xs of Some x \<Rightarrow> i = key x | None \<Rightarrow> i = fallback) \<Longrightarrow> \<forall>x \<in> set xs. key x \<noteq> [] \<Longrightarrow> fallback \<noteq> [] \<Longrightarrow> i \<noteq> []"
  by (cases "sql_row p xs") (auto dest: sql_row_Some)

lemma sql_row_all: "\<forall>x \<in> set xs. p x \<longrightarrow> q x \<Longrightarrow> case sql_row p xs of None \<Rightarrow> True | Some x \<Rightarrow> q x"
  by (cases "sql_row p xs") (auto dest: sql_row_Some)

text \<open>What the schema guarantees of users and providers, and that identifiers are not empty.\<close>

definition seed_keys :: "seed_config \<Rightarrow> world \<Rightarrow> bool" where
  "seed_keys C w \<longleftrightarrow>
     distinct (map (\<lambda>u. (us_tenant u, us_email u)) (w_users w)) \<and> (\<forall>u \<in> set (w_users w). us_id u \<noteq> []) \<and> sd_admin C \<noteq> []
     \<and> distinct (map (\<lambda>p. (ip_tenant p, ip_issuer p)) (w_providers w)) \<and> (\<forall>p \<in> set (w_providers w). ip_id p \<noteq> []) \<and> sd_provider C \<noteq> []"

lemma distinct_map_unique: "distinct (map f xs) \<Longrightarrow> x \<in> set xs \<Longrightarrow> y \<in> set xs \<Longrightarrow> f x = f y \<Longrightarrow> x = y"
  by (auto simp: distinct_map inj_on_def)

text \<open>What such a run leaves: the steps of the next one find nothing to change.\<close>

lemma ensure_rows:
  assumes "ensure_seed_data hash C discovery url pid client w = (Inr uid, w1)"
  obtains h i where "hash (sd_password C) = Inr h" "uid = resolve_admin_user_id C w" "issuer_value discovery = Inr (Some i)"
    "upsert_tenant C w1 = (Inr (), w1)" "upsert_admin C uid h w1 = (Inr (), w1)" "seed_policies C uid w1 = w1"
    "seed_provider C pid discovery url client w1 = (Inr (), w1)"
    "\<forall>t \<in> set (w_tenants w1). tn_domain t = sd_domain C \<longrightarrow> tn_id t = sd_tenant C"
    "\<forall>u \<in> set (w_users w1). us_id u = uid \<or> u \<in> set (w_users w)"
    "\<forall>u \<in> set (w_users w). us_id u = uid \<longrightarrow> (\<exists>u' \<in> set (w_users w1). us_id u' = uid \<and> us_tenant u' = us_tenant u \<and> us_email u' = sd_email C)"
    "\<forall>x \<in> set (w_providers w1). ip_id x \<noteq> pid \<longrightarrow> \<not> (ip_tenant x = sd_tenant C \<and> ip_issuer x = i)"
    "\<exists>x \<in> set (w_providers w1). ip_id x = pid \<and> ip_tenant x = sd_tenant C \<and> ip_issuer x = i"
proof -
  obtain h wa wb where st: "hash (sd_password C) = Inr h" "uid = resolve_admin_user_id C w"
    "upsert_tenant C w = (Inr (), wa)" "upsert_admin C uid h wa = (Inr (), wb)"
    "seed_provider C pid discovery url client (seed_policies C uid wb) = (Inr (), w1)"
    by (rule ensure_run [OF assms]) (rule that)
  obtain ts where ts: "wa = w\<lparr>w_tenants := ts\<rparr>" "\<forall>t \<in> set ts. tn_domain t = sd_domain C \<longrightarrow> tn_id t = sd_tenant C"
    "\<And>v. w_tenants v = ts \<Longrightarrow> upsert_tenant C v = (Inr (), v)"
    by (rule upsert_tenant_run [OF st(3)]) (rule that)
  obtain us where us: "wb = wa\<lparr>w_users := us\<rparr>"
    "\<And>v. w_users v = us \<Longrightarrow> w_now v = w_now wa \<Longrightarrow> upsert_admin C uid h v = (Inr (), v)"
    "\<forall>u \<in> set us. us_id u = uid \<or> u \<in> set (w_users wa)"
    "\<forall>u \<in> set (w_users wa). us_id u = uid \<longrightarrow> (\<exists>u' \<in> set us. us_id u' = uid \<and> us_tenant u' = us_tenant u \<and> us_email u' = sd_email C)"
    by (rule upsert_admin_run [OF st(4)]) (rule that)
  let ?wc = "seed_policies C uid wb"
  obtain i vs where pv: "issuer_value discovery = Inr (Some i)" "provider_values discovery client = Inr vs"
    "upsert_provider (seed_provider_row C pid i vs url (w_now ?wc)) ?wc = (Inr (), w1)"
    by (rule seed_provider_run [OF st(5)]) (rule that)
  let ?r = "seed_provider_row C pid i vs url (w_now w)"
  have now: "w_now ?wc = w_now w" by (simp add: seed_policies_def us(1) ts(1))
  obtain ps where ps: "w1 = ?wc\<lparr>w_providers := ps\<rparr>" "\<And>v. w_providers v = ps \<Longrightarrow> upsert_provider ?r v = (Inr (), v)"
    "\<forall>x \<in> set ps. ip_id x \<noteq> ip_id ?r \<longrightarrow> \<not> (ip_tenant x = ip_tenant ?r \<and> ip_issuer x = ip_issuer ?r)"
    "\<exists>x \<in> set ps. ip_id x = ip_id ?r \<and> ip_tenant x = ip_tenant ?r \<and> ip_issuer x = ip_issuer ?r"
    by (rule upsert_provider_run [OF pv(3) [unfolded now]]) (rule that)
  have w1: "w_tenants w1 = ts" "w_users w1 = us" "w_now w1 = w_now w" "w_providers w1 = ps"
    "w_policies w1 = w_policies ?wc"
    by (simp_all add: ps(1) now seed_policies_def us(1) ts(1))
  have again: "upsert_admin C uid h w1 = (Inr (), w1)" by (rule us(2) [OF w1(2)]) (simp add: w1(3) ts(1))
  have prov: "seed_provider C pid discovery url client w1 = (Inr (), w1)"
    using pv(1,2) ps(2) [OF w1(4)] by (simp add: seed_provider_def w1(3) eff_simps)
  have rows: "w_users wa = w_users w" "ip_id ?r = pid" "ip_tenant ?r = sd_tenant C" "ip_issuer ?r = i"
    by (simp_all add: ts(1) seed_provider_row_def)
  show ?thesis
    by (rule that [OF st(1,2) pv(1) ts(3) [OF w1(1)] again seed_policies_twice [OF w1(5)] prov])
      (use ts(2) us(3,4) ps(3,4) rows w1(1-4) ts(1) us(1) in simp_all)
qed

lemma admin_again:
  assumes keys: "seed_keys C w" and uid: "uid = resolve_admin_user_id C w"
    and new: "\<forall>u \<in> set (w_users w1). us_id u = uid \<or> u \<in> set (w_users w)"
    and kept: "\<forall>u \<in> set (w_users w). us_id u = uid \<longrightarrow> (\<exists>u' \<in> set (w_users w1). us_id u' = uid \<and> us_tenant u' = us_tenant u \<and> us_email u' = sd_email C)"
  shows "resolve_admin_user_id C w1 = uid"
proof -
  let ?own = "\<lambda>u. us_tenant u = sd_tenant C \<and> us_email u = sd_email C"
  have found: "case sql_row ?own (w_users w) of Some x \<Rightarrow> uid = us_id x | None \<Rightarrow> uid = sd_admin C"
    by (rule resolve_id_cases [of "w_users w" us_id uid ?own]) (use keys uid in \<open>simp_all add: seed_keys_def resolve_admin_user_id_def\<close>)
  have ne: "uid \<noteq> []" by (rule resolved_given [OF found]) (use keys in \<open>simp_all add: seed_keys_def\<close>)
  show ?thesis
    unfolding resolve_admin_user_id_def
  proof (rule resolve_again [OF found _ _ _ ne])
    show "y = z" if "y \<in> set (w_users w)" "z \<in> set (w_users w)" "?own y" "?own z" for y z
      using keys that by (auto simp: seed_keys_def dest: distinct_map_unique)
    assume "sql_row ?own (w_users w) \<noteq> None"
    then obtain u where u: "sql_row ?own (w_users w) = Some u" by blast
    then have "u \<in> set (w_users w)" "us_id u = uid" "us_tenant u = sd_tenant C" using sql_row_Some [OF u] found by auto
    with kept show "\<exists>y \<in> set (w_users w1). ?own y" by metis
  qed (use new in blast)
qed

lemma provider_again:
  assumes keys: "seed_keys C w" and pid: "pid = resolve_provider_id C (Some i) w"
    and new: "\<forall>x \<in> set (w_providers w1). ip_id x \<noteq> pid \<longrightarrow> \<not> (ip_tenant x = sd_tenant C \<and> ip_issuer x = i)"
    and kept: "\<exists>x \<in> set (w_providers w1). ip_id x = pid \<and> ip_tenant x = sd_tenant C \<and> ip_issuer x = i"
  shows "resolve_provider_id C (Some i) w1 = pid"
proof -
  let ?prov = "\<lambda>p. ip_tenant p = sd_tenant C \<and> Some (ip_issuer p) = Some i"
  have found: "case sql_row ?prov (w_providers w) of Some x \<Rightarrow> pid = ip_id x | None \<Rightarrow> pid = sd_provider C"
    by (rule resolve_id_cases [of "w_providers w" ip_id pid ?prov]) (use keys pid in \<open>simp_all add: seed_keys_def resolve_provider_id_def\<close>)
  have ne: "pid \<noteq> []" by (rule resolved_given [OF found]) (use keys in \<open>simp_all add: seed_keys_def\<close>)
  show ?thesis
    unfolding resolve_provider_id_def
  proof (rule resolve_again [OF found _ _ _ ne])
    show "y = z" if "y \<in> set (w_providers w)" "z \<in> set (w_providers w)" "?prov y" "?prov z" for y z
      using keys that by (auto simp: seed_keys_def dest: distinct_map_unique)
  qed (use new kept in auto)
qed

text \<open>Seeding the rows settles: after a run of the script that succeeded, another one at the same time
  finds the same administrator and the same provider, succeeds, and leaves the whole database as it is.\<close>

theorem seeding_settles:
  assumes keys: "seed_keys C w" and issuer: "issuer_value discovery = Inr issuer"
    and pid: "pid = resolve_provider_id C issuer w"
    and run: "ensure_seed_data hash C discovery url pid client w = (Inr uid, w1)"
  shows "ensure_seed_data hash C discovery url pid client w1 = (Inr uid, w1) \<and> resolve_provider_id C issuer w1 = pid"
proof (rule ensure_rows [OF run])
  fix h i
  assume r: "hash (sd_password C) = Inr h" "uid = resolve_admin_user_id C w" "issuer_value discovery = Inr (Some i)"
    "upsert_tenant C w1 = (Inr (), w1)" "upsert_admin C uid h w1 = (Inr (), w1)" "seed_policies C uid w1 = w1"
    "seed_provider C pid discovery url client w1 = (Inr (), w1)"
    "\<forall>t \<in> set (w_tenants w1). tn_domain t = sd_domain C \<longrightarrow> tn_id t = sd_tenant C"
    "\<forall>u \<in> set (w_users w1). us_id u = uid \<or> u \<in> set (w_users w)"
    "\<forall>u \<in> set (w_users w). us_id u = uid \<longrightarrow> (\<exists>u' \<in> set (w_users w1). us_id u' = uid \<and> us_tenant u' = us_tenant u \<and> us_email u' = sd_email C)"
    "\<forall>x \<in> set (w_providers w1). ip_id x \<noteq> pid \<longrightarrow> \<not> (ip_tenant x = sd_tenant C \<and> ip_issuer x = i)"
    "\<exists>x \<in> set (w_providers w1). ip_id x = pid \<and> ip_tenant x = sd_tenant C \<and> ip_issuer x = i"
  have "\<not> (case sql_row (\<lambda>t. tn_domain t = sd_domain C) (w_tenants w1) of
      None \<Rightarrow> False | Some t \<Rightarrow> tn_id t \<noteq> [] \<and> tn_id t \<noteq> sd_tenant C)"
    using sql_row_all [OF r(8)] by (auto split: option.splits)
  with admin_again [OF keys r(2,9,10)] r(1,4-7)
  have "ensure_seed_data hash C discovery url pid client w1 = (Inr uid, w1)"
    by (simp add: ensure_seed_data_def atomically_def eff_simps)
  moreover have "resolve_provider_id C issuer w1 = pid"
    using provider_again [OF keys _ r(11,12)] issuer pid r(3) by simp
  ultimately show ?thesis by blast
qed

section \<open>The administrator\<close>

lemma upsert_all_fresh:
  assumes "distinct (map key xs)" "\<forall>x \<in> set xs. \<forall>r \<in> set t. \<not> is_policy (key x) r"
  shows "fold (\<lambda>x. upsert_row now (key x) (doc x)) xs t = t @ map (\<lambda>x. new_policy_row now (key x) (doc x)) xs"
  using assms
proof (induction xs arbitrary: t)
  case Nil
  then show ?case by simp
next
  case (Cons x xs)
  have "upsert_row now (key x) (doc x) t = t @ [new_policy_row now (key x) (doc x)]"
    using Cons.prems(2) by (simp add: upsert_row_def sql_row_None)
  moreover have "\<forall>y \<in> set xs. \<forall>r \<in> set (t @ [new_policy_row now (key x) (doc x)]). \<not> is_policy (key y) r"
    using Cons.prems by (auto, metis imageI)
  ultimately show ?case using Cons.IH Cons.prems(1) by simp
qed

text \<open>The map a login computes from the six policies.\<close>

definition seed_rights :: "int dict" where
  "seed_rights = map (\<lambda>r. (r, 4095)) admin_policy_resources"

lemma mask_all: "mask_sum all_actions = Inr 4095"
  by code_simp

lemma seed_rights_map: "login_policy_map [] (map seed_admin_policy admin_policy_resources) = Inr seed_rights"
  by (simp add: admin_policy_resources_def seed_admin_policy_def mask_all seed_rights_def dset_def)

lemma seed_rights_check:
  "check_permission seed_rights a r \<longleftrightarrow> r \<in> Some ` set admin_policy_resources \<and> py_lower a \<in> set all_actions"
proof -
  have all: "set all_actions = fst ` set permission_map" by code_simp
  have bits: "list_all (\<lambda>(n, x). (4095 :: int) AND action_value x \<noteq> 0) permission_map" by code_simp
  have "((4095 :: int) AND needed_perm a \<noteq> 0) = (py_lower a \<in> set all_actions)"
  proof (cases "map_of permission_map (py_lower a)")
    case None
    then have "py_lower a \<notin> set all_actions" by (simp add: all map_of_eq_None_iff)
    with None show ?thesis by (simp add: needed_perm_def)
  next
    case (Some x)
    then have "(py_lower a, x) \<in> set permission_map" by (rule map_of_SomeD)
    with bits Some show ?thesis by (force simp: list_all_iff needed_perm_def all)
  qed
  moreover have "dget seed_rights k = (if k \<in> set admin_policy_resources then Some 4095 else None)" for k
    by (simp add: seed_rights_def dget_def map_of_map_restrict restrict_map_def)
  ultimately show ?thesis by (cases r) (auto simp: check_permission_def Let_def)
qed

text \<open>An administrator nobody has heard of before: the row and the policies are new.\<close>

definition new_admin :: "seed_config \<Rightarrow> world \<Rightarrow> bool" where
  "new_admin C w \<longleftrightarrow>
     list_all (\<lambda>u. us_id u \<noteq> sd_admin C \<and> \<not> (us_tenant u = sd_tenant C \<and> us_email u = sd_email C) \<and> us_id u \<noteq> []) (w_users w)
     \<and> list_all (\<lambda>p. up_user p \<noteq> sd_admin C) (w_policies w)"

lemma login_data_docs:
  assumes "fetch_user_with_policy (ae_cast A) c address w = Inr (map (\<lambda>d. (u, Some d)) ds)" "ds \<noteq> []"
  shows "login_data A c address w = (case login_policy_map [] ds of Inl e \<Rightarrow> Inl e | Inr pol \<Rightarrow> Inr (u, pol))"
proof -
  have rows: "row_policies (map (\<lambda>d. (u, Some d)) ds) = Inr ds" by (induction ds) simp_all
  obtain d ds' where "ds = d # ds'" using assms(2) by (cases ds) auto
  with rows assms(1) show ?thesis by (simp add: login_data_def split: sum.split)
qed

lemma seeded_login_data:
  assumes fresh: "new_admin C w" and run: "ensure_seed_data hash C discovery url pid client w = (Inr uid, w1)"
  obtains h where "hash (sd_password C) = Inr h" "uid = sd_admin C"
    "w_now w1 = w_now w" "w_users w1 = w_users w @ [seed_user_row C uid h (w_now w)]"
    "fetch_user_with_policy (ae_cast B) (TenantConn (sd_tenant C)) (sd_email C) w1
       = Inr (map (\<lambda>d. (seed_user_row C uid h (w_now w), Some d)) (map seed_admin_policy admin_policy_resources))"
    "login_data B (TenantConn (sd_tenant C)) (sd_email C) w1 = Inr (seed_user_row C uid h (w_now w), seed_rights)"
proof -
  let ?own = "\<lambda>u. us_tenant u = sd_tenant C \<and> us_email u = sd_email C"
  let ?c = "TenantConn (sd_tenant C)" and ?key = "\<lambda>r. (sd_tenant C, sd_admin C, ''seed-admin-'' @ r)"
  obtain h wa wb where st: "hash (sd_password C) = Inr h" "uid = resolve_admin_user_id C w"
    "upsert_tenant C w = (Inr (), wa)" "upsert_admin C uid h wa = (Inr (), wb)"
    "seed_provider C pid discovery url client (seed_policies C uid wb) = (Inr (), w1)"
    by (rule ensure_run [OF run]) (rule that)
  have "sql_row ?own (w_users w) = None" using fresh by (auto simp: new_admin_def sql_row_None list_all_iff)
  then have uid: "uid = sd_admin C" by (simp add: st(2) resolve_admin_user_id_def resolve_id_def ostr_true_def)
  let ?u = "seed_user_row C uid h (w_now w)"
  obtain ts where ts: "wa = w\<lparr>w_tenants := ts\<rparr>" by (rule upsert_tenant_run [OF st(3)]) (rule that)
  have none: "sql_row (\<lambda>u. us_id u = uid) (w_users w) = None"
    using fresh uid by (auto simp: new_admin_def sql_row_None list_all_iff)
  then have us: "wb = wa\<lparr>w_users := w_users w @ [?u]\<rparr>"
    using st(4) by (auto simp: upsert_admin_def insert_user_def ts split: if_splits)
  obtain ps where ps: "w1 = (seed_policies C uid wb)\<lparr>w_providers := ps\<rparr>"
    by (rule seed_provider_run [OF st(5)], erule upsert_provider_run) (rule that)
  have "distinct (map ?key admin_policy_resources)" by (simp add: distinct_map inj_on_def) (simp add: admin_policy_resources_def)
  moreover have "\<forall>x \<in> set admin_policy_resources. \<forall>r \<in> set (w_policies w). \<not> is_policy (?key x) r"
    using fresh by (auto simp: new_admin_def list_all_iff is_policy_def)
  ultimately have pols: "w_policies w1 = w_policies w
      @ map (\<lambda>r. new_policy_row (w_now w) (?key r) (seed_admin_policy r)) admin_policy_resources"
    using upsert_all_fresh [of ?key admin_policy_resources] by (simp add: ps seed_policies_def us ts uid)
  have users: "w_users w1 = w_users w @ [?u]" "w_now w1 = w_now w" by (simp_all add: ps seed_policies_def us ts)
  have found: "sql_select (\<lambda>u. us_email u = sd_email C) (users_of ?c w1) = [?u]"
    using fresh by (auto simp: users_of_def users(1) sql_select_def seed_user_row_def new_admin_def list_all_iff filter_empty_conv)
  have docs: "map up_policy (sql_select (\<lambda>p. up_user p = us_id ?u) (policies_of ?c w1)) = map seed_admin_policy admin_policy_resources"
  proof -
    have "filter (\<lambda>p. up_user p = sd_admin C) (filter (\<lambda>p. up_tenant p = sd_tenant C) (w_policies w)) = []"
      using fresh by (auto simp: new_admin_def list_all_iff filter_empty_conv)
    then show ?thesis
      by (simp add: policies_of_def pols sql_select_def seed_user_row_def uid filter_map comp_def) (simp add: new_policy_row_def)
  qed
  have force: "in_force cast now (seed_admin_policy r) = Inr True" for cast now r
    by (simp add: in_force_def seed_admin_policy_def)
  then have sel: "select_in_force cast now (map seed_admin_policy rs) = Inr (map seed_admin_policy rs)" for cast now rs
    by (induction rs) simp_all
  have docs_ne: "map seed_admin_policy admin_policy_resources \<noteq> []" by (simp add: admin_policy_resources_def)
  then have fetch: "fetch_user_with_policy (ae_cast B) ?c (sd_email C) w1
      = Inr (map (\<lambda>d. (?u, Some d)) (map seed_admin_policy admin_policy_resources))"
    by (simp add: fetch_user_with_policy_def found docs sel comp_def)
  have "login_data B ?c (sd_email C) w1 = Inr (?u, seed_rights)"
    by (simp only: login_data_docs [OF fetch docs_ne] seed_rights_map sum.case)
  with st(1) uid users fetch show ?thesis by (intro that) simp_all
qed

text \<open>A login whose steps all succeed issues the token.\<close>

lemma login_succeeds:
  assumes "ae_normalize A email = Inr address" "login_data A c address w = Inr (u, pol)"
    and "ae_checkpw A password (us_password u)"
    and "create_jwt_token (ae_tokens A) ns (login_payload (w_now w) address (us_id u) (Some tenant) (us_role u) pol) = Inr t"
    and "header_jti (ae_tokens A) t = Inr (Some jti)"
    and "fst (create_session (ae_inet A) jti (us_id u) tenant (w_now w + 3600) (Some ip) device w) = Inr ()"
  shows "fst (authenticate A ns c ip email (Some tenant) password device w) = Inr t"
proof -
  obtain w' where cs: "create_session (ae_inet A) jti (us_id u) tenant (w_now w + 3600) (Some ip) device w = (Inr (), w')"
    using assms(6) by (metis prod.collapse)
  obtain rows ps where rows: "fetch_user_with_policy (ae_cast A) c address w = Inr rows" "rows \<noteq> []" "fst (hd rows) = u"
    "row_policies rows = Inr ps" "login_policy_map [] ps = Inr pol"
    using assms(2) by (auto simp: login_data_def split: sum.splits list.splits)
  show ?thesis
    using assms(1,3-5) cs rows
    by (simp add: authenticate_def authenticate_body_def finish_login_def eff_simps)
qed

text \<open>C13. The administrator of a seeded tenant manages it: when nobody had his identifier or his address
  before, he logs in with what the hash of the configured password accepts, and his token grants all
  twelve actions on the six resources of the service, and nothing else.\<close>

theorem seeded_admin_manages:
  assumes fresh: "new_admin C w" and named: "sd_admin C \<noteq> []" "sd_email C \<noteq> []" "sd_tenant C \<noteq> []"
    and seeding: "ensure_seed_data hash C discovery url pid client w = (Inr uid, w1)"
    and law: "env_law (ae_tokens B)" and norm: "ae_normalize B email = Inr (sd_email C)"
    and login: "authenticate B ns (TenantConn (sd_tenant C)) ip email (Some (sd_tenant C)) password device w1 = (Inr t, w2)"
    and soon: "w_now w1 \<le> now" "now < w_now w1 + 3600"
  shows "\<exists>td h. hash (sd_password C) = Inr h \<and> ae_checkpw B password h \<and> verify_token (ae_tokens B) now t = Inr td
     \<and> td_user td = uid \<and> td_tenant td = sd_tenant C \<and> td_role td = Some ''admin''
     \<and> (\<forall>rq from_inc inc v. (\<exists>out. fst (decide None rq from_inc inc td v) = Inr out \<and> verdict out = Some True) \<longleftrightarrow>
          aq_grant_type rq = ''fga'' \<and> \<not> aq_check_condition rq \<and> aq_resource rq \<in> Some ` set admin_policy_resources
          \<and> py_lower (aq_action rq) \<in> set all_actions)"
proof -
  obtain h where h: "hash (sd_password C) = Inr h" "uid = sd_admin C" "w_now w1 = w_now w"
    "w_users w1 = w_users w @ [seed_user_row C uid h (w_now w)]"
    "login_data B (TenantConn (sd_tenant C)) (sd_email C) w1 = Inr (seed_user_row C uid h (w_now w), seed_rights)"
    by (rule seeded_login_data [OF fresh seeding]) (rule that; assumption)
  have ids: "\<forall>u \<in> set (w_users w1). us_id u \<noteq> []"
    using fresh named(1) by (auto simp: h(2,4) new_admin_def list_all_iff seed_user_row_def)
  obtain u pol td where td: "login_data B (TenantConn (sd_tenant C)) (sd_email C) w1 = Inr (u, pol)"
    "verify_token (ae_tokens B) now t = Inr td" "td_user td = us_id u" "td_tenant td = sd_tenant C" "td_role td = us_role u"
    "td_policy td = Some pol" "ae_checkpw B password (us_password u)"
    and allows: "\<And>rq from_inc inc v. (\<exists>out. fst (decide None rq from_inc inc td v) = Inr out \<and> verdict out = Some True) \<longleftrightarrow>
       aq_grant_type rq = ''fga'' \<and> \<not> aq_check_condition rq \<and> check_permission pol (aq_action rq) (aq_resource rq)"
    by (rule login_decides [OF law login soon norm named(2,3) ids]) (rule that; assumption)
  have u: "us_id u = uid" "us_role u = Some ''admin''" "us_password u = h" "pol = seed_rights"
    using td(1) h(5) by (auto simp: seed_user_row_def)
  show ?thesis
    using td(2-7) u h(1) by (intro exI [of _ td] exI [of _ h] conjI allI) (simp_all add: allows seed_rights_check)
qed

text \<open>The script takes over an account of another tenant: when the configured identifier of the
  administrator belongs to a user elsewhere, seeding gives that user the configured address and password and
  the role admin in his own tenant, and leaves the seeded tenant without its administrator.\<close>

theorem seeding_takes_foreign_account:
  assumes there: "u \<in> set (w_users w)" "us_id u = sd_admin C" "us_tenant u \<noteq> sd_tenant C" "distinct (map us_id (w_users w))"
    and none: "\<forall>v \<in> set (w_users w). \<not> (us_tenant v = sd_tenant C \<and> us_email v = sd_email C)"
    and run: "ensure_seed_data hash C discovery url pid client w = (Inr uid, w1)"
  shows "\<exists>h u'. hash (sd_password C) = Inr h \<and> u' \<in> set (w_users w1) \<and> us_id u' = us_id u \<and> us_tenant u' = us_tenant u
     \<and> us_email u' = sd_email C \<and> us_password u' = h \<and> us_role u' = Some ''admin''
     \<and> (\<forall>v \<in> set (w_users w1). \<not> (us_tenant v = sd_tenant C \<and> us_email v = sd_email C))"
proof -
  obtain h wa wb where st: "hash (sd_password C) = Inr h" "uid = resolve_admin_user_id C w"
    "upsert_tenant C w = (Inr (), wa)" "upsert_admin C uid h wa = (Inr (), wb)"
    "seed_provider C pid discovery url client (seed_policies C uid wb) = (Inr (), w1)"
    by (rule ensure_run [OF run]) (rule that)
  have "sql_row (\<lambda>u. us_tenant u = sd_tenant C \<and> us_email u = sd_email C) (w_users w) = None"
    using none by (simp add: sql_row_None)
  then have uid: "uid = sd_admin C" by (simp add: st(2) resolve_admin_user_id_def resolve_id_def ostr_true_def)
  obtain ts where ts: "wa = w\<lparr>w_tenants := ts\<rparr>" by (rule upsert_tenant_run [OF st(3)]) (rule that)
  let ?f = "reseed_user C h (w_now w)" and ?p = "\<lambda>x. us_id x = uid"
  have "sql_row ?p (w_users w) \<noteq> None" using there(1,2) uid by (auto simp: sql_row_None)
  then have wb: "w_users wb = sql_update ?p ?f (w_users w)"
    using st(4) by (auto simp: upsert_admin_def ts split: if_splits)
  obtain ps where ps: "w1 = (seed_policies C uid wb)\<lparr>w_providers := ps\<rparr>"
    by (rule seed_provider_run [OF st(5)], erule upsert_provider_run) (rule that)
  have w1: "w_users w1 = sql_update ?p ?f (w_users w)" by (simp add: ps seed_policies_def wb)
  have only: "v = u" if "v \<in> set (w_users w)" "us_id v = uid" for v
    using distinct_map_unique [OF there(4) that(1) there(1)] that(2) there(2) uid by simp
  have "?f u \<in> set (w_users w1)" using there(1,2) uid by (auto simp: w1 set_sql_update)
  moreover have "\<not> (us_tenant v = sd_tenant C \<and> us_email v = sd_email C)" if "v \<in> set (w_users w1)" for v
  proof -
    from that obtain x where x: "x \<in> set (w_users w)" "v = (if us_id x = uid then ?f x else x)" by (auto simp: w1 set_sql_update)
    with none only there(3) show ?thesis by (cases "us_id x = uid") auto
  qed
  ultimately show ?thesis
    using st(1) by (intro exI [of _ h] exI [of _ "?f u"] conjI ballI) (simp_all add: reseed_user_def)
qed

section \<open>A run\<close>

definition demo_seed :: seed_config where
  "demo_seed =
     \<lparr>sd_iam_url = ''i'', sd_sso_url = ''s'', sd_tenant = ''t9'', sd_tenant_name = ''T'', sd_domain = ''s.x'', sd_admin = ''u9'',
      sd_email = ''s@x'', sd_password = ''pw'', sd_first = ''F'', sd_last = ''L'', sd_client = [], sd_client_name = ''C'',
      sd_redirect = ''r'', sd_provider = ''p9'', sd_provider_name = ''P'', sd_upstream_id = ''b'', sd_upstream_secret = ''s'',
      sd_user_email = ''e'', sd_user_password = ''p'', sd_user_first = ''f'', sd_user_last = ''l'', sd_seed_user = True\<rparr>"

definition demo_issuer :: "json dict" where
  "demo_issuer = [(''issuer'', JStr ''https://up''), (''token_endpoint'', JStr ''https://up/token'')]"

definition demo_broker :: "json dict" where
  "demo_broker = [(''client_id'', JStr ''b''), (''client_secret'', JStr ''s'')]"

abbreviation demo_seeding :: "seed_config \<Rightarrow> world \<Rightarrow> (exn + string) \<times> world" where
  "demo_seeding C \<equiv> ensure_seed_data Inr C demo_issuer ''https://up/d'' ''p9'' demo_broker"

lemma demo_seeding_run: "fst (demo_seeding demo_seed policy_demo) = Inr ''u9''"
  by code_simp

theorem seeding_settles_witness:
  "let w1 = snd (demo_seeding demo_seed policy_demo) in
     length (w_users w1) = 2 \<and> demo_seeding demo_seed w1 = (Inr ''u9'', w1)"
proof -
  let ?w1 = "snd (demo_seeding demo_seed policy_demo)"
  have keys: "seed_keys demo_seed policy_demo" by code_simp
  have issuer: "issuer_value demo_issuer = Inr (Some ''https://up'')" by code_simp
  have pid: "''p9'' = resolve_provider_id demo_seed (Some ''https://up'') policy_demo" by code_simp
  have run: "demo_seeding demo_seed policy_demo = (Inr ''u9'', ?w1)" using demo_seeding_run by (metis prod.collapse)
  have "length (w_users ?w1) = 2" by code_simp
  with seeding_settles [OF keys issuer pid run] show ?thesis by (simp add: Let_def)
qed

definition seed_auth :: auth_env where
  "seed_auth = demo_auth\<lparr>ae_tokens := hs_tokens
     [(''st'', dset ''jti'' (JStr ''u9-5'') (login_payload 100 ''s@x'' ''u9'' (Some ''t9'') (Some ''admin'') seed_rights),
       ''s'', ''HS256'', [(''jti'', JStr ''u9-5'')])]\<rparr>"

theorem seeded_admin_manages_witness:
  "\<exists>td. verify_token (ae_tokens seed_auth) 200 ''st'' = Inr td \<and> td_user td = ''u9''
     \<and> (\<exists>out. fst (decide None \<lparr>aq_action = ''approve'', aq_resource = Some ''users'', aq_check_condition = False,
           aq_conditions = None, aq_grant_type = ''fga''\<rparr> False False td policy_demo) = Inr out \<and> verdict out = Some True)"
proof -
  let ?w1 = "snd (demo_seeding demo_seed policy_demo)"
  let ?login = "authenticate seed_auth 5 (TenantConn (sd_tenant demo_seed)) ''1.2.3.4'' ''s@x'' (Some (sd_tenant demo_seed)) ''pw'' None ?w1"
  have fresh: "new_admin demo_seed policy_demo" by code_simp
  have named: "sd_admin demo_seed \<noteq> []" "sd_email demo_seed \<noteq> []" "sd_tenant demo_seed \<noteq> []" by (simp_all add: demo_seed_def)
  have run: "demo_seeding demo_seed policy_demo = (Inr ''u9'', ?w1)" using demo_seeding_run by (metis prod.collapse)
  have law: "env_law (ae_tokens seed_auth)" by (simp add: seed_auth_def hs_tokens_law)
  have norm: "ae_normalize seed_auth ''s@x'' = Inr (sd_email demo_seed)" by (simp add: seed_auth_def demo_auth_def demo_seed_def)
  obtain h where h: "(Inr (sd_password demo_seed) :: exn + string) = Inr h" "w_now ?w1 = w_now policy_demo"
    "login_data seed_auth (TenantConn (sd_tenant demo_seed)) (sd_email demo_seed) ?w1
       = Inr (seed_user_row demo_seed ''u9'' h (w_now policy_demo), seed_rights)"
    by (rule seeded_login_data [OF fresh run, where B = seed_auth]) (rule that; assumption)
  have now: "w_now ?w1 = 100" using h(2) by (simp add: policy_demo_def)
  let ?u = "seed_user_row demo_seed ''u9'' h (w_now policy_demo)"
  have pw: "h = ''pw''" using h(1) by (simp add: demo_seed_def)
  have row: "us_id ?u = ''u9''" "us_role ?u = Some ''admin''" "us_password ?u = h" by (simp_all add: seed_user_row_def)
  have demo: "sd_email demo_seed = ''s@x''" "sd_tenant demo_seed = ''t9''" by (simp_all add: demo_seed_def)
  have check: "ae_checkpw seed_auth ''pw'' (us_password ?u)" by (simp add: seed_user_row_def pw seed_auth_def demo_auth_def)
  have jwt: "create_jwt_token (ae_tokens seed_auth) 5
      (login_payload 100 ''s@x'' ''u9'' (Some ''t9'') (Some ''admin'') seed_rights) = Inr ''st''"
    by code_simp
  have jti: "header_jti (ae_tokens seed_auth) ''st'' = Inr (Some ''u9-5'')" by code_simp
  have session: "fst (create_session (ae_inet seed_auth) ''u9-5'' ''u9'' ''t9'' (100 + 3600) (Some ''1.2.3.4'') None ?w1) = Inr ()"
    by code_simp
  have token: "create_jwt_token (ae_tokens seed_auth) 5
      (login_payload (w_now ?w1) (sd_email demo_seed) (us_id ?u) (Some (sd_tenant demo_seed)) (us_role ?u) seed_rights) = Inr ''st''"
    unfolding row now demo by (rule jwt)
  have stored: "fst (create_session (ae_inet seed_auth) ''u9-5'' (us_id ?u) (sd_tenant demo_seed) (w_now ?w1 + 3600)
      (Some ''1.2.3.4'') None ?w1) = Inr ()"
    unfolding row now demo by (rule session)
  have "fst ?login = Inr ''st''" by (rule login_succeeds [OF norm h(3) check token jti stored])
  then have login: "?login = (Inr ''st'', snd ?login)" by (metis prod.collapse)
  have soon: "w_now ?w1 \<le> 200" "200 < w_now ?w1 + 3600" by (simp_all add: now)
  have "py_lower ''approve'' \<in> set all_actions" "''users'' \<in> set admin_policy_resources" by code_simp+
  with seeded_admin_manages [OF fresh named run law norm login soon] show ?thesis by auto
qed

theorem seeding_takes_foreign_account_witness:
  "\<exists>u' \<in> set (w_users (snd (demo_seeding (demo_seed\<lparr>sd_admin := ''u1''\<rparr>) policy_demo))).
     us_id u' = ''u1'' \<and> us_tenant u' = ''t1'' \<and> us_password u' = ''pw''"
proof -
  let ?C = "demo_seed\<lparr>sd_admin := ''u1''\<rparr>" and ?u = "hd (w_users policy_demo)"
  let ?r = "demo_seeding ?C policy_demo"
  have there: "?u \<in> set (w_users policy_demo)" "us_id ?u = sd_admin ?C" "us_tenant ?u \<noteq> sd_tenant ?C"
    "distinct (map us_id (w_users policy_demo))"
    by (simp_all add: policy_demo_def demo_seed_def)
  have none: "\<forall>v \<in> set (w_users policy_demo). \<not> (us_tenant v = sd_tenant ?C \<and> us_email v = sd_email ?C)"
    by (simp add: policy_demo_def demo_seed_def)
  have "fst ?r = Inr ''u1''" by code_simp
  then have run: "?r = (Inr ''u1'', snd ?r)" by (metis prod.collapse)
  have "sd_password ?C = ''pw''" "us_id ?u = ''u1''" "us_tenant ?u = ''t1''" by (simp_all add: policy_demo_def demo_seed_def)
  with seeding_takes_foreign_account [OF there none run] show ?thesis by auto
qed

theorem seeded_client_settles_witness:
  "\<exists>w1 w2. upsert_iam_oidc_client (\<lambda>_ s. s) (client_values ''01'' ''s1'') demo_seed (client_admin ''t1'') oidc_demo
       = (Inr (''client_01'', ''s1'', ''created''), w1)
     \<and> upsert_iam_oidc_client (\<lambda>_ s. s) (client_values ''02'' ''s2'') demo_seed (client_admin ''t1'') w1
       = (Inr (''client_01'', ''s2'', ''rotated''), w2)"
proof -
  let ?r = "upsert_iam_oidc_client (\<lambda>_ s. s) (client_values ''01'' ''s1'') demo_seed (client_admin ''t1'') oidc_demo"
  have b: "ae_checkpw (oe_auth demo_oidc) x ((\<lambda>_ s. s) salt x)" for salt x :: string
    by (simp add: demo_oidc_def demo_auth_def)
  have keys: "client_keys oidc_demo" by code_simp
  have named: "sd_client_name demo_seed \<noteq> []" "\<forall>c \<in> set (w_clients oidc_demo). oc_id c \<noteq> []"
    "cr_secret (client_values ''01'' ''s1'') \<noteq> []" "cr_secret (client_values ''02'' ''s2'') \<noteq> []"
    by code_simp+
  have "fst ?r = Inr (''client_01'', ''s1'', ''created'')" by code_simp
  then have run: "?r = (Inr (''client_01'', ''s1'', ''created''), snd ?r)" by (metis prod.collapse)
  have s2: "cr_secret (client_values ''02'' ''s2'') = ''s2''" by (simp add: client_values_def)
  from seeded_client_settles [OF b keys named run] run show ?thesis unfolding s2 by blast
qed

theorem script_reads_the_wire_witness:
  "read_response (answer script_headers (\<lambda>vs. JArr (map (\<lambda>v. JStr (cw_id v)) vs)) ''now''
     (fst (list_clients (client_admin ''t1'') oidc_demo))) = Inr (JArr [JStr ''app''])"
proof -
  let ?r = "list_clients (client_admin ''t1'') oidc_demo"
  have "sendable (fst ?r)" by code_simp
  moreover have "map_sum id (map_option (map cw_id)) (fst (call_api (list_clients (client_admin ''t1'')) oidc_demo)) = Inr (Some [''app''])"
    by code_simp
  ultimately show ?thesis
    by (subst script_reads_the_wire) (auto simp: data_json_def map_sum_def split: sum.splits option.splits)
qed

end
