(* ===== verification/Web_Pages.thy ===== *)
theory Web_Pages
  imports Oidc Url_Encoding
begin

text \<open>
  What a browser is shown: the error page with its link back (app/core/error_pages.py), the chooser
  of identity providers whose links lead back to the authorization endpoint
  (app/sso/oidc/template_utils.py), and the discovery document (app/sso/oidc/discovery.py). A page is
  the context its template is rendered with. URLs and query strings are taken apart and put together
  as \<open>urllib.parse\<close> does it; a string is the sequence of its UTF-8 bytes.
\<close>

section \<open>URLs\<close>

text \<open>
  \<open>urlparse\<close> of an ASCII URL. \<open>brackets\<close> says which network locations with a bracketed address the
  library accepts; the others raise. The path of most schemes ends before the parameters of its last
  segment.
\<close>

record parsed_url =
  pu_scheme :: string
  pu_netloc :: string
  pu_path :: string
  pu_query :: string

definition scheme_char :: "char \<Rightarrow> bool" where
  "scheme_char c \<longleftrightarrow> alpha_char c \<or> decimal_char c \<or> c \<in> set ''+-.''"

text \<open>Leading control characters and blanks go, and so does every tab and line break.\<close>

definition clean_url :: "string \<Rightarrow> string" where
  "clean_url u = filter (\<lambda>c. c \<notin> {char_of (9 :: nat), char_of (10 :: nat), char_of (13 :: nat)})
     (dropWhile (\<lambda>c. (of_char c :: nat) \<le> 32) u)"

definition split_url_scheme :: "string \<Rightarrow> string \<times> string" where
  "split_url_scheme u =
     (case split1 (CHR '':'') u of
        Some (s, rest) \<Rightarrow> if s \<noteq> [] \<and> alpha_char (hd s) \<and> list_all scheme_char s then (py_lower s, rest) else ([], u)
      | None \<Rightarrow> ([], u))"

definition split_netloc :: "string \<Rightarrow> string \<times> string" where
  "split_netloc u =
     (if starts_with u ''//''
      then (takeWhile (\<lambda>c. c \<notin> set ''/?#'') (drop 2 u), dropWhile (\<lambda>c. c \<notin> set ''/?#'') (drop 2 u))
      else ([], u))"

definition uses_params :: "string list" where
  "uses_params = [[], ''ftp'', ''hdl'', ''prospero'', ''http'', ''https'', ''shttp'', ''rtsp'', ''rtsps'', ''rtspu'', ''sip'',
     ''sips'', ''mms'', ''sftp'', ''tel'']"

definition cut_params :: "string \<Rightarrow> string" where
  "cut_params u =
     (let seg = rev (takeWhile (\<lambda>c. c \<noteq> CHR ''/'') (rev u)) in
      take (length u - length seg) u @ takeWhile (\<lambda>c. c \<noteq> CHR '';'') seg)"

definition urlparse :: "(string \<Rightarrow> bool) \<Rightarrow> string \<Rightarrow> exn + parsed_url" where
  "urlparse brackets url =
     (let (scheme, u1) = split_url_scheme (clean_url url);
          (netloc, u2) = split_netloc u1;
          u3 = takeWhile (\<lambda>c. c \<noteq> CHR ''#'') u2;
          path = takeWhile (\<lambda>c. c \<noteq> CHR ''?'') u3 in
      if (CHR ''['' \<in> set netloc \<or> CHR '']'' \<in> set netloc) \<and> \<not> brackets netloc
      then Inl (PyErr (ValueError ''Invalid IPv6 URL''))
      else Inr \<lparr>pu_scheme = scheme, pu_netloc = netloc,
                pu_path = (if scheme \<in> set uses_params then cut_params path else path),
                pu_query = drop 1 (dropWhile (\<lambda>c. c \<noteq> CHR ''?'') u3)\<rparr>)"

text \<open>\<open>hostname\<close> and \<open>port\<close> of a network location \<open>user@host:port\<close> or \<open>user@[address]:port\<close>.\<close>

definition host_info :: "string \<Rightarrow> string \<times> string" where
  "host_info netloc =
     (let h = rev (takeWhile (\<lambda>c. c \<noteq> CHR ''@'') (rev netloc)) in
      case split1 (CHR ''['') h of
        Some (_, b) \<Rightarrow>
          (takeWhile (\<lambda>c. c \<noteq> CHR '']'') b,
           drop 1 (dropWhile (\<lambda>c. c \<noteq> CHR '':'') (drop 1 (dropWhile (\<lambda>c. c \<noteq> CHR '']'') b))))
      | None \<Rightarrow> (takeWhile (\<lambda>c. c \<noteq> CHR '':'') h, drop 1 (dropWhile (\<lambda>c. c \<noteq> CHR '':'') h)))"

definition pu_hostname :: "parsed_url \<Rightarrow> string option" where
  "pu_hostname p =
     (let h = fst (host_info (pu_netloc p)) in
      if h = [] then None
      else Some (py_lower (takeWhile (\<lambda>c. c \<noteq> CHR ''%'') h) @ dropWhile (\<lambda>c. c \<noteq> CHR ''%'') h))"

definition pu_port :: "parsed_url \<Rightarrow> exn + nat option" where
  "pu_port p =
     (let s = snd (host_info (pu_netloc p)) in
      if s = [] then Inr None
      else if \<not> list_all decimal_char s then Inl (PyErr (ValueError ''Port could not be cast to integer value''))
      else (let n = foldl (\<lambda>a c. 10 * a + (of_char c - 48)) 0 s in
            if 65535 < n then Inl (PyErr (ValueError ''Port out of range 0-65535'')) else Inr (Some n)))"

section \<open>The link back of the error page\<close>

record request_url =
  rq_scheme :: string
  rq_hostname :: "string option"
  rq_port :: "nat option"
  rq_referer :: "string option"

definition with_query :: "parsed_url \<Rightarrow> string" where
  "with_query p = (if pu_path p = [] then ''/'' else pu_path p) @ (if pu_query p = [] then [] else CHR ''?'' # pu_query p)"

definition same_origin :: "request_url \<Rightarrow> parsed_url \<Rightarrow> exn + bool" where
  "same_origin rq p =
     (if pu_scheme p \<noteq> rq_scheme rq \<or> pu_hostname p \<noteq> rq_hostname rq then Inr False
      else case pu_port p of
             Inl e \<Rightarrow> Inl e
           | Inr port \<Rightarrow> Inr ((if port \<in> {None, Some 0} then rq_port rq else port) = rq_port rq))"

definition resolve_safe_back_url :: "(string \<Rightarrow> bool) \<Rightarrow> request_url \<Rightarrow> string option \<Rightarrow> exn + string" where
  "resolve_safe_back_url brackets rq candidate =
     (let v = ostr_or candidate (rq_referer rq) in
      if \<not> ostr_true v then Inr ''/''
      else case urlparse brackets (the v) of
             Inl e \<Rightarrow> Inl e
           | Inr p \<Rightarrow>
               if pu_scheme p = [] \<and> pu_netloc p = []
               then Inr (if starts_with (pu_path p) ''/'' \<and> \<not> starts_with (pu_path p) ''//'' then with_query p else ''/'')
               else case same_origin rq p of
                      Inl e \<Rightarrow> Inl e
                    | Inr False \<Rightarrow> Inr ''/''
                    | Inr True \<Rightarrow> Inr (with_query p))"

record html_page =
  hp_title :: string
  hp_message :: string
  hp_code :: "string option"
  hp_details :: "string option"
  hp_retry_url :: "string option"
  hp_back_url :: string
  hp_status :: int

definition render_html_error ::
    "(string \<Rightarrow> bool) \<Rightarrow> request_url \<Rightarrow> string \<Rightarrow> string \<Rightarrow> int \<Rightarrow> string option \<Rightarrow> string option \<Rightarrow> string option \<Rightarrow>
     string option \<Rightarrow> exn + html_page" where
  "render_html_error brackets rq title message st code details retry cand =
     (case resolve_safe_back_url brackets rq cand of
        Inl e \<Rightarrow> Inl e
      | Inr u \<Rightarrow> Inr \<lparr>hp_title = title, hp_message = message, hp_code = code, hp_details = details, hp_retry_url = retry,
                      hp_back_url = u, hp_status = st\<rparr>)"

section \<open>The chooser of identity providers\<close>

definition scope_descriptions :: "(string \<times> string) list" where
  "scope_descriptions = [(''openid'', ''Access your user ID''), (''profile'', ''Access your name and profile information''),
     (''email'', ''Access your email address'')]"

definition get_scope_items :: "string list \<Rightarrow> (string \<times> string) list" where
  "get_scope_items scopes =
     map (\<lambda>s. (s, case dget scope_descriptions s of Some d \<Rightarrow> d | None \<Rightarrow> ''Access to '' @ s)) scopes"

definition provider_domain :: "(string \<Rightarrow> bool) \<Rightarrow> string \<Rightarrow> exn + string option" where
  "provider_domain brackets issuer =
     (let cand = py_strip issuer in
      if cand = [] then Inr None
      else case urlparse brackets (if contains_sub ''://'' cand then cand else ''https://'' @ cand) of
             Inl e \<Rightarrow> Inl e | Inr p \<Rightarrow> Inr (pu_hostname p))"

definition provider_icon_url :: "string option \<Rightarrow> string option" where
  "provider_icon_url domain =
     (if \<not> ostr_true domain then None
      else Some (''https://www.google.com/s2/favicons?'' @ urlencode [(''domain'', the domain), (''sz'', ''64'')]))"

definition provider_initials :: "string option \<Rightarrow> string option \<Rightarrow> string" where
  "provider_initials name domain =
     (let src = (case ostr_or (ostr_or name domain) (Some ''SSO'') of Some s \<Rightarrow> s | None \<Rightarrow> []) in
      case split_words (map (\<lambda>c. if c = CHR ''.'' \<or> c = CHR ''-'' then CHR '' '' else c) (py_strip src)) of
        [] \<Rightarrow> ''SS''
      | [w] \<Rightarrow> py_upper (take 2 w)
      | w # v # _ \<Rightarrow> py_upper [hd w, hd v])"

record provider_option =
  po_id :: string
  po_name :: string
  po_url :: string
  po_issuer :: string
  po_domain :: string
  po_icon :: "string option"
  po_initials :: string

definition opt_param :: "string \<Rightarrow> string option \<Rightarrow> string dict" where
  "opt_param k v = (if ostr_true v then [(k, the v)] else [])"

definition base_params :: "authz_params \<Rightarrow> string dict" where
  "base_params a =
     [(''client_id'', ap_client a), (''redirect_uri'', ap_redirect a), (''response_type'', ap_response_type a),
      (''scope'', ap_scope a)]
     @ opt_param ''state'' (ap_state a) @ opt_param ''nonce'' (ap_nonce a) @ opt_param ''code_challenge'' (ap_challenge a)
     @ opt_param ''code_challenge_method'' (ap_method a)"

definition authorize_link :: "string dict \<Rightarrow> string" where
  "authorize_link ps = ''/api/v1/oidc/authorize?'' @ urlencode ps"

definition provider_option_of :: "(string \<Rightarrow> bool) \<Rightarrow> authz_params \<Rightarrow> provider_row \<Rightarrow> exn + provider_option" where
  "provider_option_of brackets a p =
     (case provider_domain brackets (ip_issuer p) of
        Inl e \<Rightarrow> Inl e
      | Inr domain \<Rightarrow>
          (let shown = (case ostr_or (ostr_or (Some (ip_name p)) domain) (ostr_or (Some (ip_issuer p)) (Some ''SSO'')) of
                          Some s \<Rightarrow> s | None \<Rightarrow> []) in
           Inr \<lparr>po_id = ip_id p, po_name = shown,
                po_url = authorize_link (base_params a @ [(''provider_id'', ip_id p)]), po_issuer = ip_issuer p,
                po_domain = (if ostr_true domain then the domain else ip_issuer p), po_icon = provider_icon_url domain,
                po_initials = provider_initials (Some shown) domain\<rparr>))"

fun provider_options :: "(string \<Rightarrow> bool) \<Rightarrow> authz_params \<Rightarrow> provider_row list \<Rightarrow> exn + provider_option list" where
  "provider_options brackets a [] = Inr []"
| "provider_options brackets a (p # ps) =
     (case provider_option_of brackets a p of
        Inl e \<Rightarrow> Inl e
      | Inr o1 \<Rightarrow> (case provider_options brackets a ps of Inl e \<Rightarrow> Inl e | Inr os \<Rightarrow> Inr (o1 # os)))"

definition local_login_url :: "authz_params \<Rightarrow> string" where
  "local_login_url a = authorize_link (base_params a @ [(''local_login'', ''1'')])"

definition render_provider_chooser_page ::
    "(string \<Rightarrow> bool) \<Rightarrow> authz_params \<Rightarrow> provider_row list \<Rightarrow> exn + provider_option list \<times> string" where
  "render_provider_chooser_page brackets a ps =
     (case provider_options brackets a ps of Inl e \<Rightarrow> Inl e | Inr os \<Rightarrow> Inr (os, local_login_url a))"

text \<open>
  The query of a request to the authorization endpoint as its parameters: the last value of a name
  counts, the absent ones have their defaults; \<open>None\<close> when a required one is missing or \<open>local_login\<close>
  is no boolean, which the framework answers itself.
\<close>

definition query_value :: "string dict \<Rightarrow> string \<Rightarrow> string option" where
  "query_value q k = dget (rev q) k"

definition bool_value :: "string \<Rightarrow> bool option" where
  "bool_value s =
     (if py_lower s \<in> set [''1'', ''true'', ''on'', ''yes'', ''y'', ''t''] then Some True
      else if py_lower s \<in> set [''0'', ''false'', ''off'', ''no'', ''n'', ''f''] then Some False else None)"

definition authorize_query :: "string \<Rightarrow> (authz_params \<times> string option \<times> bool) option" where
  "authorize_query qs =
     (let q = parse_qsl qs; flag = (case query_value q ''local_login'' of None \<Rightarrow> Some False | Some s \<Rightarrow> bool_value s) in
      case (query_value q ''client_id'', query_value q ''redirect_uri'', flag) of
        (Some cid, Some uri, Some local_login) \<Rightarrow>
          Some (\<lparr>ap_client = cid, ap_redirect = uri,
                 ap_response_type = (case query_value q ''response_type'' of None \<Rightarrow> ''code'' | Some v \<Rightarrow> v),
                 ap_scope = (case query_value q ''scope'' of None \<Rightarrow> ''openid'' | Some v \<Rightarrow> v),
                 ap_state = query_value q ''state'', ap_nonce = query_value q ''nonce'',
                 ap_challenge = query_value q ''code_challenge'',
                 ap_method = (case query_value q ''code_challenge_method'' of None \<Rightarrow> Some ''S256'' | Some v \<Rightarrow> Some v)\<rparr>,
                query_value q ''provider_id'', local_login)
      | _ \<Rightarrow> None)"

section \<open>The discovery document\<close>

definition advertised_endpoints :: "(string \<times> string) list" where
  "advertised_endpoints =
     [(''authorization_endpoint'', ''/api/v1/oidc/authorize''), (''token_endpoint'', ''/api/v1/oidc/token''),
      (''introspection_endpoint'', ''/api/v1/oidc/introspect''), (''userinfo_endpoint'', ''/api/v1/oidc/userinfo''),
      (''jwks_uri'', ''/api/v1/oidc/jwks''), (''end_session_endpoint'', ''/api/v1/oidc/logout'')]"

definition advertised_grants :: "string list" where
  "advertised_grants = [''authorization_code'', ''refresh_token'', ''client_credentials'',
     ''urn:ietf:params:oauth:grant-type:token-exchange'']"

definition openid_configuration :: "string \<Rightarrow> string option \<Rightarrow> json dict" where
  "openid_configuration base alg =
     (let b = rstrip_char (CHR ''/'') base; strs = (\<lambda>xs. JArr (map JStr xs)) in
      [(''issuer'', JStr b)] @ map (\<lambda>(k, path). (k, JStr (b @ path))) advertised_endpoints @
      [(''response_types_supported'', strs [''code'', ''token'', ''id_token'', ''code token'', ''code id_token'',
          ''token id_token'', ''code token id_token'']),
       (''subject_types_supported'', strs [''public'']),
       (''id_token_signing_alg_values_supported'', strs [case ostr_or alg (Some ''HS256'') of Some s \<Rightarrow> s | None \<Rightarrow> []]),
       (''scopes_supported'', strs [''openid'', ''profile'', ''email'']),
       (''token_endpoint_auth_methods_supported'', strs [''client_secret_basic'', ''client_secret_post'']),
       (''introspection_endpoint_auth_methods_supported'', strs [''client_secret_basic'', ''client_secret_post'']),
       (''claims_supported'', strs [''sub'', ''email'', ''email_verified'', ''name'', ''given_name'', ''family_name'', ''role'',
          ''tenant_id'']),
       (''grant_types_supported'', strs advertised_grants),
       (''code_challenge_methods_supported'', strs [''S256'', ''plain''])])"

section \<open>The link back stays on the site\<close>

lemma split_netloc_path:
  assumes "fst (split_netloc u) \<noteq> []"
  shows "snd (split_netloc u) = [] \<or> hd (snd (split_netloc u)) \<in> set ''/?#''"
proof -
  let ?P = "\<lambda>c. c \<notin> set ''/?#''"
  have s: "snd (split_netloc u) = dropWhile ?P (drop 2 u)" using assms by (simp add: split_netloc_def split: if_splits)
  show ?thesis
  proof (cases "dropWhile ?P (drop 2 u) = []")
    case False
    from hd_dropWhile [OF this] show ?thesis unfolding s by blast
  qed (simp add: s)
qed

lemma cut_params_slash: "u \<noteq> [] \<Longrightarrow> hd u = CHR ''/'' \<Longrightarrow> cut_params u \<noteq> [] \<and> hd (cut_params u) = CHR ''/''"
proof -
  assume u: "u \<noteq> []" "hd u = CHR ''/''"
  let ?seg = "rev (takeWhile (\<lambda>c. c \<noteq> CHR ''/'') (rev u))"
  have "length ?seg \<noteq> length u"
  proof
    assume "length ?seg = length u"
    then have "takeWhile (\<lambda>c. c \<noteq> CHR ''/'') (rev u) = rev u"
      by (metis length_rev takeWhile_eq_take take_all order_refl)
    then have "\<forall>c \<in> set (rev u). c \<noteq> CHR ''/''" by (metis set_takeWhileD)
    with u show False by (cases u) auto
  qed
  moreover have "length ?seg \<le> length u" by (metis length_rev length_takeWhile_le)
  ultimately have "0 < length u - length ?seg" by simp
  then obtain m where "length u - length ?seg = Suc m" using gr0_conv_Suc by blast
  with u show ?thesis by (cases u) (auto simp: cut_params_def Let_def)
qed

text \<open>A URL with a network location has an empty path or one that begins with a slash.\<close>

lemma urlparse_path:
  assumes "urlparse brackets u = Inr p" "pu_netloc p \<noteq> []"
  shows "pu_path p = [] \<or> hd (pu_path p) = CHR ''/''"
proof -
  obtain scheme u1 netloc u2 where s: "split_url_scheme (clean_url u) = (scheme, u1)" "split_netloc u1 = (netloc, u2)" by fastforce
  let ?path = "takeWhile (\<lambda>c. c \<noteq> CHR ''?'') (takeWhile (\<lambda>c. c \<noteq> CHR ''#'') u2)"
  from assms s have p: "netloc \<noteq> []" "pu_path p = (if scheme \<in> set uses_params then cut_params ?path else ?path)"
    by (auto simp: urlparse_def Let_def split: if_splits)
  have "u2 = [] \<or> hd u2 \<in> set ''/?#''" using split_netloc_path [of u1] s(2) p(1) by simp
  then have slash: "?path = [] \<or> hd ?path = CHR ''/''" by (cases u2) auto
  show ?thesis
  proof (cases "?path = []")
    case True
    then show ?thesis unfolding p(2) by (simp add: cut_params_def)
  next
    case False
    with slash cut_params_slash [OF False] show ?thesis unfolding p(2) by simp
  qed
qed

lemma hostname_netloc: "pu_hostname p \<noteq> None \<Longrightarrow> pu_netloc p \<noteq> []"
  by (auto simp: pu_hostname_def host_info_def Let_def)

text \<open>The link back of an error page is the root or the path and query of the URL it was asked for,
  begins with a slash, and comes from a relative path or from a URL of the request's own scheme, host
  and port. Only a relative path is checked not to begin with two slashes, which a browser takes for
  another host.\<close>

theorem back_url_same_origin:
  assumes host: "rq_hostname rq \<noteq> None"
    and run: "resolve_safe_back_url brackets rq candidate = Inr u"
  shows "hd u = CHR ''/'' \<and> u \<noteq> [] \<and>
    (u = ''/'' \<or> (\<exists>v p. ostr_or candidate (rq_referer rq) = Some v \<and> urlparse brackets v = Inr p \<and> u = with_query p \<and>
       (pu_scheme p = [] \<and> pu_netloc p = [] \<and> \<not> starts_with u ''//''
        \<or> pu_scheme p = rq_scheme rq \<and> pu_hostname p = rq_hostname rq
          \<and> (\<exists>port. pu_port p = Inr port \<and> port \<in> {None, Some 0, rq_port rq}))))"
proof -
  have root: "u = ''/'' \<Longrightarrow> ?thesis" by simp
  show ?thesis
  proof (cases "ostr_or candidate (rq_referer rq)")
    case None
    with run root show ?thesis by (simp add: resolve_safe_back_url_def)
  next
    case (Some v)
    show ?thesis
    proof (cases "u = ''/''")
      case False
      with run Some obtain p where p: "urlparse brackets v = Inr p" "v \<noteq> []"
        by (auto simp: resolve_safe_back_url_def split: if_splits sum.splits)
      show ?thesis
      proof (cases "pu_scheme p = [] \<and> pu_netloc p = []")
        case True
        with run Some p False have q: "starts_with (pu_path p) ''/''" "\<not> starts_with (pu_path p) ''//''" "u = with_query p"
          by (auto simp: resolve_safe_back_url_def split: if_splits)
        from q(1) obtain zs where zs: "pu_path p = CHR ''/'' # zs" by (auto simp: starts_with_def prefix_def)
        then have "hd u = CHR ''/''" "u \<noteq> []" "\<not> starts_with u ''//''"
          using q(2, 3) by (cases zs; auto simp: with_query_def starts_with_def)+
        with q True Some p show ?thesis by blast
      next
        case elsewhere: False
        with run Some p False have o: "same_origin rq p = Inr True" "u = with_query p"
          by (auto simp: resolve_safe_back_url_def split: if_splits sum.splits bool.splits)
        from o(1) have same: "pu_scheme p = rq_scheme rq" "pu_hostname p = rq_hostname rq"
          "\<exists>port. pu_port p = Inr port \<and> port \<in> {None, Some 0, rq_port rq}"
          by (auto simp: same_origin_def split: if_splits sum.splits)
        have "pu_netloc p \<noteq> []" using hostname_netloc same(2) host by simp
        from urlparse_path [OF p(1) this] have "hd u = CHR ''/''" "u \<noteq> []" by (auto simp: o(2) with_query_def)
        with o(2) same Some p show ?thesis by blast
      qed
    qed (rule root)
  qed
qed

definition demo_request_url :: "string option \<Rightarrow> request_url" where
  "demo_request_url referer = \<lparr>rq_scheme = ''https'', rq_hostname = Some ''iam.example'', rq_port = None, rq_referer = referer\<rparr>"

text \<open>What the missing check lets through, and a referer that makes the error page itself fail.\<close>

lemma back_url_examples:
  "resolve_safe_back_url (\<lambda>_. True) (demo_request_url (Some ''https://iam.example//evil.example/x'')) None = Inr ''//evil.example/x''"
  "resolve_safe_back_url (\<lambda>_. True) (demo_request_url (Some ''https://evil.example/x'')) None = Inr ''/''"
  "resolve_safe_back_url (\<lambda>_. True) (demo_request_url None) (Some ''/users?page=2'') = Inr ''/users?page=2''"
  "resolve_safe_back_url (\<lambda>_. True) (demo_request_url (Some ''https://iam.example:x/'')) None
     = Inl (PyErr (ValueError ''Port could not be cast to integer value''))"
  by code_simp+

theorem back_url_same_origin_witness:
  "hd ''//evil.example/x'' = CHR ''/''"
  using back_url_same_origin [OF _ back_url_examples(1)] by (simp add: demo_request_url_def)

section \<open>The links of the chooser\<close>

text \<open>A parameter of the request is in the link unless it is absent or empty.\<close>

definition link_params :: "authz_params \<Rightarrow> authz_params" where
  "link_params a = a\<lparr>ap_state := (if ostr_true (ap_state a) then ap_state a else None),
     ap_nonce := (if ostr_true (ap_nonce a) then ap_nonce a else None),
     ap_challenge := (if ostr_true (ap_challenge a) then ap_challenge a else None),
     ap_method := (if ostr_true (ap_method a) then ap_method a else Some ''S256'')\<rparr>"

lemma query_value_Cons: "query_value ((k, v) # q) j = (case query_value q j of Some s \<Rightarrow> Some s | None \<Rightarrow> if j = k then Some v else None)"
  by (auto simp: query_value_def dget_def map_add_def split: option.split)

lemma query_value_append: "query_value (q @ q') j = (case query_value q' j of Some s \<Rightarrow> Some s | None \<Rightarrow> query_value q j)"
  by (auto simp: query_value_def dget_def map_add_def split: option.split)

lemma query_value_Nil: "query_value [] j = None"
  by (simp add: query_value_def)

lemma query_value_opt: "query_value (opt_param k v) j = (if j = k \<and> ostr_true v then v else None)"
  by (cases v) (auto simp: opt_param_def query_value_Cons query_value_Nil)

lemma query_value_base:
  "query_value (base_params a) j =
     (if j = ''code_challenge_method'' then (if ostr_true (ap_method a) then ap_method a else None)
      else if j = ''code_challenge'' then (if ostr_true (ap_challenge a) then ap_challenge a else None)
      else if j = ''nonce'' then (if ostr_true (ap_nonce a) then ap_nonce a else None)
      else if j = ''state'' then (if ostr_true (ap_state a) then ap_state a else None)
      else if j = ''scope'' then Some (ap_scope a)
      else if j = ''response_type'' then Some (ap_response_type a)
      else if j = ''redirect_uri'' then Some (ap_redirect a)
      else if j = ''client_id'' then Some (ap_client a) else None)"
  unfolding base_params_def query_value_append query_value_opt query_value_Cons query_value_Nil
  by (simp split: option.split)

lemma authorize_request_link:
  assumes "k \<in> {''provider_id'', ''local_login''}"
    "k = ''local_login'' \<Longrightarrow> bool_value v = Some b" "k = ''provider_id'' \<Longrightarrow> \<not> b"
  shows "authorize_query (urlencode (base_params a @ [(k, v)]))
      = Some (link_params a, if k = ''provider_id'' then Some v else None, b)"
proof -
  let ?q = "base_params a @ [(k, v)]"
  have params: "query_value ?q ''client_id'' = Some (ap_client a)" "query_value ?q ''redirect_uri'' = Some (ap_redirect a)"
    "query_value ?q ''response_type'' = Some (ap_response_type a)" "query_value ?q ''scope'' = Some (ap_scope a)"
    "query_value ?q ''state'' = ap_state (link_params a)" "query_value ?q ''nonce'' = ap_nonce (link_params a)"
    "query_value ?q ''code_challenge'' = ap_challenge (link_params a)"
    "query_value ?q ''code_challenge_method'' = (if ostr_true (ap_method a) then ap_method a else None)"
    "query_value ?q ''provider_id'' = (if k = ''provider_id'' then Some v else None)"
    "query_value ?q ''local_login'' = (if k = ''local_login'' then Some v else None)"
    using assms(1)
    by (elim insertE emptyE; simp add: query_value_append query_value_base query_value_Cons query_value_Nil link_params_def)+
  have flag: "(case query_value ?q ''local_login'' of None \<Rightarrow> Some False | Some s \<Rightarrow> bool_value s) = Some b"
    using assms unfolding params(10) by (elim insertE emptyE; simp)
  have fields: "(case query_value ?q ''response_type'' of None \<Rightarrow> ''code'' | Some v \<Rightarrow> v) = ap_response_type a"
    "(case query_value ?q ''scope'' of None \<Rightarrow> ''openid'' | Some v \<Rightarrow> v) = ap_scope a"
    "(case query_value ?q ''code_challenge_method'' of None \<Rightarrow> Some ''S256'' | Some v \<Rightarrow> Some v) = ap_method (link_params a)"
    unfolding params(3, 4, 8) by (cases "ap_method a"; simp add: link_params_def)+
  show ?thesis
    unfolding authorize_query_def parse_urlencode Let_def flag fields params(1, 2, 5-7, 9)
    by (simp add: link_params_def)
qed

lemma provider_options_in:
  assumes "provider_options brackets a ps = Inr os"
  shows "map po_id os = map ip_id ps"
    "\<forall>po \<in> set os. po_url po = authorize_link (base_params a @ [(''provider_id'', po_id po)])"
proof -
  have "map po_id os = map ip_id ps \<and>
      (\<forall>po \<in> set os. po_url po = authorize_link (base_params a @ [(''provider_id'', po_id po)]))"
    using assms
  proof (induction ps arbitrary: os)
    case (Cons p ps)
    then show ?case
      by (auto simp: provider_option_of_def Let_def split: sum.splits)
  qed simp
  then show "map po_id os = map ip_id ps"
    "\<forall>po \<in> set os. po_url po = authorize_link (base_params a @ [(''provider_id'', po_id po)])" by auto
qed

text \<open>C40. Following a link of the chooser resumes the same authorization request: it is parsed back into
  the parameters it was made from, for the provider of the button, or for the local login form; only
  an absent code challenge method becomes \<open>S256\<close>.\<close>

theorem chooser_links_resume:
  assumes "render_provider_chooser_page brackets a ps = Inr (os, local_url)"
  shows "map po_id os = map ip_id ps
    \<and> (\<forall>po \<in> set os. \<exists>qs. po_url po = ''/api/v1/oidc/authorize?'' @ qs
          \<and> authorize_query qs = Some (link_params a, Some (po_id po), False))
    \<and> (\<exists>qs. local_url = ''/api/v1/oidc/authorize?'' @ qs \<and> authorize_query qs = Some (link_params a, None, True))"
proof -
  from assms have r: "provider_options brackets a ps = Inr os" "local_url = local_login_url a"
    by (auto simp: render_provider_chooser_page_def split: sum.splits)
  note p = provider_options_in [OF r(1)]
  have b: "bool_value ''1'' = Some True" by code_simp
  have provider: "authorize_query (urlencode (base_params a @ [(''provider_id'', v)])) = Some (link_params a, Some v, False)" for v
    by (subst authorize_request_link [where b = False]) auto
  have local_form: "authorize_query (urlencode (base_params a @ [(''local_login'', ''1'')])) = Some (link_params a, None, True)"
    by (subst authorize_request_link [where b = True]) (auto simp: b)
  show ?thesis
    using p provider local_form by (auto simp: r(2) local_login_url_def authorize_link_def)
qed

theorem chooser_links_resume_witness:
  "\<exists>qs. local_login_url (demo_params ''https://app/cb'') = ''/api/v1/oidc/authorize?'' @ qs
     \<and> authorize_query qs = Some (link_params (demo_params ''https://app/cb''), None, True)"
proof -
  have "render_provider_chooser_page (\<lambda>_. True) (demo_params ''https://app/cb'') []
      = Inr ([], local_login_url (demo_params ''https://app/cb''))"
    by (simp add: render_provider_chooser_page_def)
  from chooser_links_resume [OF this] show ?thesis by blast
qed

section \<open>What the discovery document promises\<close>

text \<open>The discovery document tells the truth about endpoints and grants: every endpoint it names is
  reached without a bearer token, every grant it names has its handler in the token endpoint, and any
  other grant is answered as unsupported.\<close>

theorem discovery_truthful:
  "(\<forall>(k, path) \<in> set advertised_endpoints.
       dget (openid_configuration base alg) k = Some (JStr (rstrip_char (CHR ''/'') base @ path))
       \<and> middle_ware q E h path None w = Inr None)
   \<and> dget (openid_configuration base alg) ''grant_types_supported'' = Some (JArr (map JStr advertised_grants))
   \<and> (\<forall>data.
        (dget data ''grant_type'' = Some (advertised_grants ! 0) \<longrightarrow>
           token_grant V N c cid tenant data = grant_authorization_code V N c cid tenant data)
        \<and> (dget data ''grant_type'' = Some (advertised_grants ! 1) \<longrightarrow>
           token_grant V N c cid tenant data = grant_refresh_token V N c cid tenant data)
        \<and> (dget data ''grant_type'' = Some (advertised_grants ! 2) \<longrightarrow>
           token_grant V N c cid tenant data = grant_client_credentials V N cid tenant)
        \<and> (dget data ''grant_type'' = Some (advertised_grants ! 3) \<longrightarrow>
           token_grant V N c cid tenant data = grant_token_exchange V N c cid tenant data)
        \<and> (dget data ''grant_type'' \<notin> Some ` set advertised_grants \<longrightarrow>
           (\<exists>d. token_grant V N c cid tenant data = eret (oauth_error ''unsupported_grant_type'' d 400))))"
proof -
  have public: "list_all (\<lambda>(k, path). is_public path) advertised_endpoints" by code_simp
  have ends: "list_all (\<lambda>(k, path). dget (openid_configuration base alg) k = Some (JStr (rstrip_char (CHR ''/'') base @ path)))
      advertised_endpoints"
    by (simp add: advertised_endpoints_def openid_configuration_def Let_def dget_def)
  have grants: "dget (openid_configuration base alg) ''grant_types_supported'' = Some (JArr (map JStr advertised_grants))"
    by (simp add: openid_configuration_def advertised_endpoints_def Let_def dget_def)
  show ?thesis
    using public ends grants
    by (auto simp: list_all_iff middle_ware_def token_grant_def advertised_grants_def Let_def)
qed

theorem discovery_truthful_witness:
  "middle_ware exact_bloom (ae_tokens demo_auth) no_html ''/api/v1/oidc/jwks'' None oidc_demo = Inr None"
  using discovery_truthful [where q = exact_bloom and E = "ae_tokens demo_auth" and h = no_html and w = oidc_demo]
  by (simp add: advertised_endpoints_def)

end
