(* ===== verification/Sign_In_Flow.thy ===== *)
theory Sign_In_Flow
  imports Web_Pages Accounts
begin

text \<open>
  The pages a browser is taken through (app/sso/oidc/template_utils.py and the forms of the templates
  login.html, consent.html and signup.html under app/templates/oidc), the forms the endpoints read back
  (the \<open>Form\<close> parameters of app/sso/oidc/endpoints.py and signup.py), and the way of an authorization
  request through them to the code.
\<close>

section \<open>Pages\<close>

text \<open>A page is the template and the values it is rendered with.\<close>

datatype page_value = Val "string option" | Items "(string \<times> string) list"

type_synonym page = "string \<times> page_value dict"

definition render_login_page :: "string \<Rightarrow> authz_params \<Rightarrow> string option \<Rightarrow> page" where
  "render_login_page client_name a err =
     (''oidc/login.html'',
      [(''client_name'', Val (Some client_name)), (''client_id'', Val (Some (ap_client a))),
       (''redirect_uri'', Val (Some (ap_redirect a))), (''response_type'', Val (Some (ap_response_type a))),
       (''scope'', Val (Some (ap_scope a))), (''state'', Val (ap_state a)), (''nonce'', Val (ap_nonce a)),
       (''code_challenge'', Val (ap_challenge a)), (''code_challenge_method'', Val (ap_method a)),
       (''error'', Val err)])"

definition render_consent_page :: "string \<Rightarrow> authz_params \<Rightarrow> string \<Rightarrow> string list \<Rightarrow> page" where
  "render_consent_page client_name a email scopes =
     (''oidc/consent.html'',
      [(''client_name'', Val (Some client_name)), (''client_id'', Val (Some (ap_client a))),
       (''user_email'', Val (Some email)), (''scope_items'', Items (get_scope_items scopes)),
       (''redirect_uri'', Val (Some (ap_redirect a))), (''response_type'', Val (Some (ap_response_type a))),
       (''scope'', Val (Some (ap_scope a))), (''state'', Val (ap_state a)), (''nonce'', Val (ap_nonce a)),
       (''code_challenge'', Val (ap_challenge a)), (''code_challenge_method'', Val (ap_method a))])"

definition render_signup_page :: "signup_page_data \<Rightarrow> page" where
  "render_signup_page p =
     (''oidc/signup.html'',
      [(''client_name'', Val (sp_client_name p)), (''client_id'', Val (sp_client_id p)),
       (''redirect_uri'', Val (sp_redirect_uri p)), (''invitation_email'', Val (sp_inv_email p)),
       (''invitation_token'', Val (sp_inv_token p)), (''error'', Val (sp_error p)), (''success'', Val None)])"

definition render_verification_sent_page :: "string \<Rightarrow> page" where
  "render_verification_sent_page email = (''oidc/verification_sent.html'', [(''email'', Val (Some email))])"

definition render_error_page ::
    "(string \<Rightarrow> bool) \<Rightarrow> request_url \<Rightarrow> string \<Rightarrow> string \<Rightarrow> string option \<Rightarrow> string option \<Rightarrow> string option \<Rightarrow>
     string option \<Rightarrow> int \<Rightarrow> exn + page \<times> int" where
  "render_error_page brackets rq title message error_code details retry_url back_url status =
     (case resolve_safe_back_url brackets rq back_url of
        Inl e \<Rightarrow> Inl e
      | Inr back \<Rightarrow> Inr ((''oidc/error.html'',
          [(''title'', Val (Some title)), (''message'', Val (Some message)), (''error_code'', Val error_code),
           (''details'', Val details), (''retry_url'', Val retry_url), (''back_url'', Val (Some back))]), status))"

section \<open>Forms\<close>

text \<open>\<open>{{ x }}\<close> and \<open>{{ x or '' }}\<close>.\<close>

datatype template_expr = Print string | PrintOr string

fun printed :: "page_value dict \<Rightarrow> template_expr \<Rightarrow> string" where
  "printed ctx (Print k) = (case dget ctx k of Some (Val None) \<Rightarrow> ''None'' | Some (Val (Some s)) \<Rightarrow> s | _ \<Rightarrow> [])"
| "printed ctx (PrintOr k) = (case dget ctx k of Some (Val (Some s)) \<Rightarrow> s | _ \<Rightarrow> [])"

text \<open>The hidden inputs, the same eight in the login and in the consent form.\<close>

definition hidden_inputs :: "(string \<times> template_expr) list" where
  "hidden_inputs =
     [(''client_id'', Print ''client_id''), (''redirect_uri'', Print ''redirect_uri''),
      (''response_type'', Print ''response_type''), (''scope'', Print ''scope''), (''state'', PrintOr ''state''),
      (''nonce'', PrintOr ''nonce''), (''code_challenge'', PrintOr ''code_challenge''),
      (''code_challenge_method'', PrintOr ''code_challenge_method'')]"

definition signup_hidden :: "(string \<times> template_expr) list" where
  "signup_hidden =
     [(''client_id'', PrintOr ''client_id''), (''redirect_uri'', PrintOr ''redirect_uri''),
      (''invitation_token'', PrintOr ''invitation_token'')]"

definition hidden_fields :: "(string \<times> template_expr) list \<Rightarrow> page \<Rightarrow> string dict" where
  "hidden_fields ins p = map (\<lambda>(n, e). (n, printed (snd p) e)) ins"

text \<open>What the user enters, or the button that is pressed.\<close>

definition login_fields :: "page \<Rightarrow> string \<Rightarrow> string \<Rightarrow> string dict" where
  "login_fields p email password = hidden_fields hidden_inputs p @ [(''email'', email), (''password'', password)]"

definition consent_fields :: "page \<Rightarrow> string \<Rightarrow> string dict" where
  "consent_fields p action = hidden_fields hidden_inputs p @ [(''action'', action)]"

text \<open>The address of an invitation is shown read-only.\<close>

definition signup_fields :: "page \<Rightarrow> signup_form \<Rightarrow> string dict" where
  "signup_fields p f =
     hidden_fields signup_hidden p @
     [(''first_name'', sf_first f), (''last_name'', sf_last f),
      (''email'', let e = printed (snd p) (PrintOr ''invitation_email'') in if e \<noteq> [] then e else sf_email f),
      (''password'', sf_password f), (''confirm_password'', sf_confirm f)]"

text \<open>An empty form value counts as absent; a required one that is absent is answered by the framework.\<close>

definition form_value :: "string dict \<Rightarrow> string \<Rightarrow> string option" where
  "form_value d k = (case query_value d k of None \<Rightarrow> None | Some s \<Rightarrow> none_if_empty s)"

definition form_or :: "string dict \<Rightarrow> string \<Rightarrow> string \<Rightarrow> string" where
  "form_or d k default_value = (case form_value d k of None \<Rightarrow> default_value | Some s \<Rightarrow> s)"

definition params_of_form :: "string dict \<Rightarrow> authz_params option" where
  "params_of_form d =
     (case (form_value d ''client_id'', form_value d ''redirect_uri'') of
        (Some cid, Some uri) \<Rightarrow>
          Some \<lparr>ap_client = cid, ap_redirect = uri, ap_response_type = form_or d ''response_type'' ''code'',
                ap_scope = form_or d ''scope'' ''openid'', ap_state = Some (form_or d ''state'' []),
                ap_nonce = Some (form_or d ''nonce'' []), ap_challenge = Some (form_or d ''code_challenge'' []),
                ap_method = Some (form_or d ''code_challenge_method'' [])\<rparr>
      | _ \<Rightarrow> None)"

definition login_form :: "string \<Rightarrow> (string \<times> string \<times> authz_params) option" where
  "login_form text =
     (let d = parse_qsl text in
      case (form_value d ''email'', form_value d ''password'', params_of_form d) of
        (Some e, Some p, Some a) \<Rightarrow> Some (e, p, a)
      | _ \<Rightarrow> None)"

definition consent_form :: "string \<Rightarrow> (string \<times> authz_params) option" where
  "consent_form text =
     (let d = parse_qsl text in
      case (form_value d ''action'', params_of_form d) of (Some act, Some a) \<Rightarrow> Some (act, a) | _ \<Rightarrow> None)"

definition read_signup_form :: "string \<Rightarrow> signup_form option" where
  "read_signup_form text =
     (let d = parse_qsl text in
      case (form_value d ''email'', form_value d ''password'', form_value d ''confirm_password'',
            form_value d ''first_name'', form_value d ''last_name'') of
        (Some e, Some p, Some c, Some f, Some l) \<Rightarrow>
          Some \<lparr>sf_email = e, sf_password = p, sf_confirm = c, sf_first = f, sf_last = l,
                sf_client = form_or d ''client_id'' [], sf_redirect_uri = form_or d ''redirect_uri'' [],
                sf_token = form_or d ''invitation_token'' []\<rparr>
      | _ \<Rightarrow> None)"

section \<open>The browser\<close>

text \<open>
  The browser shows what the template wrote, escaped, and posts the inputs of a form as they are shown;
  line breaks and NUL are what it changes. It is an argument, with this as its law.
\<close>

definition form_text :: "string \<Rightarrow> bool" where
  "form_text s = list_all (\<lambda>c. c \<notin> set [CHR 0x00, CHR 0x0A, CHR 0x0D]) s"

locale form_browser =
  fixes post :: "string dict \<Rightarrow> string"
  assumes posted: "list_all (\<lambda>(k, v). form_text k \<and> form_text v) fs \<Longrightarrow> parse_qsl (post fs) = fs"

interpretation urlencoded: form_browser urlencode
  by unfold_locales (simp add: parse_urlencode)

text \<open>A request as it comes out of a form: the absent is empty, the empty has its default.\<close>

definition filled :: "authz_params \<Rightarrow> authz_params" where
  "filled a = a\<lparr>ap_response_type := (if ap_response_type a = [] then ''code'' else ap_response_type a),
     ap_scope := (if ap_scope a = [] then ''openid'' else ap_scope a),
     ap_state := Some (case ap_state a of None \<Rightarrow> [] | Some s \<Rightarrow> s),
     ap_nonce := Some (case ap_nonce a of None \<Rightarrow> [] | Some s \<Rightarrow> s),
     ap_challenge := Some (case ap_challenge a of None \<Rightarrow> [] | Some s \<Rightarrow> s),
     ap_method := Some (case ap_method a of None \<Rightarrow> [] | Some s \<Rightarrow> s)\<rparr>"

definition form_params_ok :: "authz_params \<Rightarrow> bool" where
  "form_params_ok a \<longleftrightarrow> ap_client a \<noteq> [] \<and> ap_redirect a \<noteq> []
     \<and> list_all form_text [ap_client a, ap_redirect a, ap_response_type a, ap_scope a]
     \<and> list_all (\<lambda>v. case v of None \<Rightarrow> True | Some s \<Rightarrow> form_text s) [ap_state a, ap_nonce a, ap_challenge a, ap_method a]"

definition param_fields :: "authz_params \<Rightarrow> string dict" where
  "param_fields a =
     [(''client_id'', ap_client a), (''redirect_uri'', ap_redirect a), (''response_type'', ap_response_type a),
      (''scope'', ap_scope a), (''state'', case ap_state a of None \<Rightarrow> [] | Some s \<Rightarrow> s),
      (''nonce'', case ap_nonce a of None \<Rightarrow> [] | Some s \<Rightarrow> s),
      (''code_challenge'', case ap_challenge a of None \<Rightarrow> [] | Some s \<Rightarrow> s),
      (''code_challenge_method'', case ap_method a of None \<Rightarrow> [] | Some s \<Rightarrow> s)]"

lemma hidden_login: "hidden_fields hidden_inputs (render_login_page name a err) = param_fields a"
  by (simp add: hidden_fields_def hidden_inputs_def render_login_page_def dget_def param_fields_def split: option.split)

lemma hidden_consent: "hidden_fields hidden_inputs (render_consent_page name a email scopes) = param_fields a"
  by (simp add: hidden_fields_def hidden_inputs_def render_consent_page_def dget_def param_fields_def split: option.split)

lemma param_fields_text: "form_params_ok a \<Longrightarrow> list_all (\<lambda>(k, v). form_text k \<and> form_text v) (param_fields a)"
  by (simp add: form_params_ok_def param_fields_def form_text_def split: option.splits)

lemma form_value_Cons:
  "form_value ((k, v) # d) j = (case query_value d j of Some s \<Rightarrow> none_if_empty s | None \<Rightarrow> if j = k then none_if_empty v else None)"
  by (simp add: form_value_def query_value_Cons split: option.split)

lemmas form_lookup = form_value_Cons query_value_Cons query_value_Nil

lemma params_read:
  assumes "form_params_ok a" "fst ` set d \<inter> fst ` set (param_fields a) = {}"
  shows "params_of_form (param_fields a @ d) = Some (filled a)"
proof -
  have other: "query_value d k = None" if "k \<in> fst ` set (param_fields a)" for k
    using assms(2) that by (auto simp: query_value_def dget_def map_of_eq_None_iff)
  have keys: "fst ` set (param_fields a) = {''client_id'', ''redirect_uri'', ''response_type'', ''scope'', ''state'',
      ''nonce'', ''code_challenge'', ''code_challenge_method''}"
    by (simp add: param_fields_def)
  have none: "query_value d ''client_id'' = None" "query_value d ''redirect_uri'' = None"
    "query_value d ''response_type'' = None" "query_value d ''scope'' = None" "query_value d ''state'' = None"
    "query_value d ''nonce'' = None" "query_value d ''code_challenge'' = None" "query_value d ''code_challenge_method'' = None"
    by (simp_all add: other keys)
  have v: "form_value (param_fields a @ d) ''client_id'' = Some (ap_client a)"
    "form_value (param_fields a @ d) ''redirect_uri'' = Some (ap_redirect a)"
    "form_value (param_fields a @ d) ''response_type'' = none_if_empty (ap_response_type a)"
    "form_value (param_fields a @ d) ''scope'' = none_if_empty (ap_scope a)"
    "form_value (param_fields a @ d) ''state'' = none_if_empty (case ap_state a of None \<Rightarrow> [] | Some s \<Rightarrow> s)"
    "form_value (param_fields a @ d) ''nonce'' = none_if_empty (case ap_nonce a of None \<Rightarrow> [] | Some s \<Rightarrow> s)"
    "form_value (param_fields a @ d) ''code_challenge'' = none_if_empty (case ap_challenge a of None \<Rightarrow> [] | Some s \<Rightarrow> s)"
    "form_value (param_fields a @ d) ''code_challenge_method'' = none_if_empty (case ap_method a of None \<Rightarrow> [] | Some s \<Rightarrow> s)"
    using assms(1)
    by (simp_all add: param_fields_def form_value_Cons query_value_Cons none none_if_empty_def form_params_ok_def)
  show ?thesis
    unfolding params_of_form_def form_or_def v by (simp add: none_if_empty_def filled_def)
qed

context form_browser begin

lemma login_posted:
  assumes "form_params_ok a" "form_text email" "form_text password" "email \<noteq> []" "password \<noteq> []"
  shows "login_form (post (login_fields (render_login_page name a err) email password)) = Some (email, password, filled a)"
proof -
  let ?d = "[(''email'', email), (''password'', password)]"
  have t: "form_text ''email''" "form_text ''password''" by (simp_all add: form_text_def)
  have p: "parse_qsl (post (param_fields a @ ?d)) = param_fields a @ ?d"
    by (rule posted) (simp add: param_fields_text assms t)
  have a: "params_of_form (param_fields a @ ?d) = Some (filled a)"
    by (rule params_read [OF assms(1)]) (simp add: param_fields_def)
  have e: "form_value (param_fields a @ ?d) ''email'' = Some email" "form_value (param_fields a @ ?d) ''password'' = Some password"
    using assms(4,5) by (simp_all add: param_fields_def form_lookup none_if_empty_def)
  show ?thesis unfolding login_form_def login_fields_def hidden_login p Let_def a e by simp
qed

lemma consent_posted:
  assumes "form_params_ok a" "form_text act" "act \<noteq> []"
  shows "consent_form (post (consent_fields (render_consent_page name a email scopes) act)) = Some (act, filled a)"
proof -
  let ?d = "[(''action'', act)]"
  have t: "form_text ''action''" by (simp add: form_text_def)
  have p: "parse_qsl (post (param_fields a @ ?d)) = param_fields a @ ?d"
    by (rule posted) (simp add: param_fields_text assms t)
  have a: "params_of_form (param_fields a @ ?d) = Some (filled a)"
    by (rule params_read [OF assms(1)]) (simp add: param_fields_def)
  have e: "form_value (param_fields a @ ?d) ''action'' = Some act"
    using assms(3) by (simp add: param_fields_def form_lookup none_if_empty_def)
  show ?thesis unfolding consent_form_def consent_fields_def hidden_consent p Let_def a e by simp
qed

end

section \<open>From the request to the code\<close>

lemma filled_keeps [simp]: "ap_client (filled a) = ap_client a" "ap_redirect (filled a) = ap_redirect a"
  "ap_scope (filled a) = (if ap_scope a = [] then ''openid'' else ap_scope a)"
  by (simp_all add: filled_def)

lemma form_params_filled [simp]: "form_params (filled a) = (form_params a)
    \<lparr>ap_response_type := ap_response_type (filled a), ap_scope := ap_scope (filled a)\<rparr>"
  by (cases "ap_state a"; cases "ap_nonce a"; cases "ap_challenge a"; cases "ap_method a")
    (auto simp: form_params_def filled_def ostr_true_def)

lemma state_param_filled [simp]: "state_param (filled a) = state_param a"
  by (cases "ap_state a") (auto simp: state_param_def filled_def ostr_true_def)

lemma filled_again: "filled (form_params (filled a)) = filled a"
  by (cases "ap_state a"; cases "ap_nonce a"; cases "ap_challenge a"; cases "ap_method a")
    (auto simp: form_params_def filled_def ostr_true_def)

lemma filled_ok: "form_params_ok a \<Longrightarrow> form_params_ok (form_params (filled a))"
  by (cases "ap_state a"; cases "ap_nonce a"; cases "ap_challenge a"; cases "ap_method a")
    (auto simp: form_params_ok_def form_params_def filled_def ostr_true_def form_text_def)

text \<open>A login page of the authorization endpoint is about a registered address of an active client.\<close>

lemma authorize_shows_login:
  assumes "authorize_endpoint V N accept cookie auth a pid local w = (Inr (LoginPage name a' err), w')"
  shows "a' = a \<and> (\<exists>cl \<in> set (w_clients w). oc_is_active cl \<and> oc_id cl = ap_client a \<and> ap_redirect a \<in> set (oc_redirect_uris cl))"
proof -
  obtain y where y: "validate_client V (Some (ap_client a)) None w = (Inr y, w)" using validate_client_pure by blast
  with assms obtain cl where cl: "validate_client V (Some (ap_client a)) None w = (Inr (Some cl), w)"
    by (cases y) (auto simp: authorize_endpoint_def ebind_run Let_def split: if_splits)
  obtain ok where ok: "validate_redirect_uri (ap_client a) (ap_redirect a) w = (Inr ok, w)"
    by (simp add: validate_redirect_uri_def eget_def)
  with assms cl have "ok" by (auto simp: authorize_endpoint_def ebind_run Let_def split: if_splits)
  have row: "sql_row (\<lambda>c. oc_id c = ap_client a \<and> oc_is_active c) (w_clients w) = Some cl"
    using cl by (simp add: validate_client_Some)
  have "ap_redirect a \<in> set (oc_redirect_uris cl)"
    using ok \<open>ok\<close> row by (auto simp: validate_redirect_uri_def eget_def split: if_splits)
  moreover have "a' = a"
    using assms cl ok \<open>ok\<close>
    by (auto simp: authorize_endpoint_def authorize_api_def authorize_federated_def begin_federated_authorization_def
        ebind_run ethen_run Let_def split: if_splits sum.splits option.splits prod.splits)
  ultimately show ?thesis using sql_row_Some [OF row] by blast
qed

lemma consent_grants:
  assumes "consent_submit V N cookie auth act a w = (Inr (RedirectTo u), w')" "act \<noteq> ''deny''"
    and "get_session_user (oe_tokens V) cookie auth w = (Inr (Some p), w)" "p \<noteq> []"
    and "dget p ''user_id'' = Some (JStr uid)" "dget p ''tenant_id'' = Some (JStr tid)"
  shows "(\<forall>x \<in> set (w_codes w). ac_code x \<noteq> of_code N)
    \<and> w_codes w' = w_codes w @ [\<lparr>ac_id = of_code_id N, ac_code = of_code N, ac_client = ap_client a, ac_user = uid,
       ac_tenant = tid, ac_redirect_uri = ap_redirect a, ac_scope = ap_scope a, ac_challenge = ap_challenge (form_params a),
       ac_method = ap_method (form_params a), ac_nonce = ap_nonce (form_params a), ac_used = False,
       ac_expires = w_now w + 600\<rparr>]
    \<and> u = \<lparr>url_base = ap_redirect a, url_query = [(''code'', of_code N)] @ state_param a\<rparr>"
proof -
  let ?r = "\<lparr>ac_id = of_code_id N, ac_code = of_code N, ac_client = ap_client a, ac_user = uid,
       ac_tenant = tid, ac_redirect_uri = ap_redirect a, ac_scope = ap_scope a, ac_challenge = ap_challenge (form_params a),
       ac_method = ap_method (form_params a), ac_nonce = ap_nonce (form_params a), ac_used = False,
       ac_expires = w_now w + 600\<rparr>"
  have s: "signed_in (Some p) = Some p" using assms(4) by (simp add: signed_in_def)
  show ?thesis
    using assms(1,2,3,5,6) s
    by (cases "insert_code ?r w")
      (auto simp: consent_submit_def ebind_run ethen_run claim_column_def store_authorization_code_def log_audit_run
        insert_code_def split: if_splits sum.splits)
qed

text \<open>A session of the login form, as long as it lasts.\<close>

lemma session_lasts:
  assumes law: "env_law (oe_tokens V)"
    and t: "create_jwt_token (oe_tokens V) ns (build_session_payload V now u tenant cid) = Inr t" "t \<noteq> []"
    and soon: "w_now w < now + 3600"
  obtains p where "get_session_user (oe_tokens V) (Some t) auth w = (Inr (Some p), w)" "p \<noteq> []"
    "dget p ''user_id'' = Some (JStr (us_id u))" "dget p ''tenant_id'' = Some (JStr tenant)"
proof -
  let ?p = "build_session_payload V now u tenant cid"
  obtain j where j: "\<And>ve n. \<not> ve \<or> unexpired n (dset ''jti'' (JStr j) ?p) \<Longrightarrow>
      te_decode (oe_tokens V) t (plain_opts ve n) = Inr (dset ''jti'' (JStr j) ?p)"
    by (rule created_token [OF law t(1)]) (rule that)
  have "unexpired (w_now w) (dset ''jti'' (JStr j) ?p)"
    using soon by (simp add: unexpired_def claim_int_def build_session_payload_def dget_dset) (simp add: dget_def)
  then have "te_decode (oe_tokens V) t (plain_opts True (w_now w)) = Inr (dset ''jti'' (JStr j) ?p)" using j by blast
  then have "get_session_user (oe_tokens V) (Some t) auth w = (Inr (Some (dset ''jti'' (JStr j) ?p)), w)"
    using t(2) by (simp add: get_session_user_def ostr_true_def ebind_run try_decode_ok)
  moreover have "dset ''jti'' (JStr j) ?p \<noteq> []" by (simp add: dset_def build_session_payload_def)
  moreover have "dget (dset ''jti'' (JStr j) ?p) ''user_id'' = Some (JStr (us_id u))"
    "dget (dset ''jti'' (JStr j) ?p) ''tenant_id'' = Some (JStr tenant)"
    by (simp_all add: dget_dset) (simp_all add: dget_def build_session_payload_def)
  ultimately show thesis by (rule that)
qed

lemma login_shows_consent:
  assumes "login_submit V N c email password b w = (Inr (ConsentPage name a who scopes (Some ck)), w')"
  obtains u and cl :: client_row where "a = form_params b" "u \<in> set (users_of c w)" "us_email u = email" "us_tenant u = oc_tenant cl"
    "ae_checkpw (oe_auth V) password (us_password u)" "us_is_active u" "us_email_verified u"
    "create_jwt_token (oe_tokens V) (of_ns N) (build_session_payload V (w_now w) u (us_tenant u) (oc_id cl)) = Inr (ck_value ck)"
proof -
  obtain y where y: "validate_client V (Some (ap_client b)) None w = (Inr y, w)" using validate_client_pure by blast
  with assms obtain cl where cl: "validate_client V (Some (ap_client b)) None w = (Inr (Some cl), w)"
    by (cases y) (auto simp: login_submit_def eff_simps)
  obtain u where u: "sql_row (\<lambda>u. us_email u = email \<and> us_tenant u = oc_tenant cl) (users_of c w) = Some u"
    using assms cl by (cases "sql_row (\<lambda>u. us_email u = email \<and> us_tenant u = oc_tenant cl) (users_of c w)")
      (auto simp: login_submit_def login_user_def ebind_run)
  have id: "oc_id cl = ap_client b" using client_ident [OF cl] by simp
  have "a = form_params b \<and> ae_checkpw (oe_auth V) password (us_password u) \<and> us_is_active u \<and> us_email_verified u
      \<and> create_jwt_token (oe_tokens V) (of_ns N) (build_session_payload V (w_now w) u (oc_tenant cl) (ap_client b)) = Inr (ck_value ck)"
    using assms cl u
    by (auto simp: login_submit_def login_user_def ebind_run ethen_run log_audit_run set_session_cookie_def
          split: if_splits sum.splits)
  moreover have "u \<in> set (users_of c w)" "us_email u = email" "us_tenant u = oc_tenant cl" using sql_row_Some [OF u] by auto
  ultimately show thesis by (intro that [of u cl]) (simp_all add: id)
qed

lemma sign_in_code:
  assumes law: "env_law (oe_tokens V)" and browser: "form_browser post"
    and fields: "form_params_ok a" "form_text email" "form_text password" "email \<noteq> []" "password \<noteq> []"
    and shown: "authorize_endpoint V N1 accept cookie1 auth1 a pid local w1 = (Inr (LoginPage name a1 err), w2)"
    and form1: "login_form (post (login_fields (render_login_page name a1 err) email password)) = Some (e, pw, b1)"
    and signed: "login_submit V N2 c e pw b1 w3 = (Inr (ConsentPage name2 a2 who scopes (Some ck)), w4)" "ck_value ck \<noteq> []"
    and form2: "consent_form (post (consent_fields (render_consent_page name2 a2 who scopes) ''allow'')) = Some (act, b2)"
    and granted: "consent_submit V N3 (Some (ck_value ck)) auth3 act b2 w5 = (Inr (RedirectTo u), w6)"
    and soon: "w_now w5 < w_now w3 + 3600"
  shows "\<exists>r v. w_codes w6 = w_codes w5 @ [r] \<and> (\<forall>x \<in> set (w_codes w5). ac_code x \<noteq> of_code N3) \<and> v \<in> set (users_of c w3) \<and> us_email v = email
      \<and> ae_checkpw (oe_auth V) password (us_password v) \<and> us_is_active v \<and> us_email_verified v
      \<and> ac_user r = us_id v \<and> ac_tenant r = us_tenant v \<and> ac_code r = of_code N3 \<and> \<not> ac_used r
      \<and> ac_expires r = w_now w5 + 600
      \<and> ac_client r = ap_client a \<and> ac_redirect_uri r = ap_redirect a
      \<and> ac_scope r = (if ap_scope a = [] then ''openid'' else ap_scope a)
      \<and> ac_nonce r = ap_nonce (form_params a) \<and> ac_challenge r = ap_challenge (form_params a)
      \<and> ac_method r = ap_method (form_params a)
      \<and> u = \<lparr>url_base = ap_redirect a, url_query = [(''code'', of_code N3)] @ state_param a\<rparr>
      \<and> (\<exists>cl \<in> set (w_clients w1). oc_is_active cl \<and> oc_id cl = ap_client a \<and> ap_redirect a \<in> set (oc_redirect_uris cl))"
proof -
  note first = authorize_shows_login [OF shown]
  then have b1: "e = email" "pw = password" "b1 = filled a"
    using form1 form_browser.login_posted [OF browser fields] by auto
  obtain v and cl :: client_row where v: "a2 = form_params b1" "v \<in> set (users_of c w3)" "us_email v = e" "us_tenant v = oc_tenant cl"
    "ae_checkpw (oe_auth V) pw (us_password v)" "us_is_active v" "us_email_verified v"
    "create_jwt_token (oe_tokens V) (of_ns N2) (build_session_payload V (w_now w3) v (us_tenant v) (oc_id cl)) = Inr (ck_value ck)"
    by (rule login_shows_consent [OF signed(1)]) (rule that; assumption)
  have "form_params_ok a2" using filled_ok [OF fields(1)] v(1) b1(3) by simp
  moreover have "form_text ''allow''" by (simp add: form_text_def)
  ultimately have b2: "act = ''allow''" "b2 = filled a"
    using form2 form_browser.consent_posted [OF browser, of a2 "''allow''"] filled_again [of a] v(1) b1(3) by auto
  obtain p where p: "get_session_user (oe_tokens V) (Some (ck_value ck)) auth3 w5 = (Inr (Some p), w5)" "p \<noteq> []"
    "dget p ''user_id'' = Some (JStr (us_id v))" "dget p ''tenant_id'' = Some (JStr (us_tenant v))"
    by (rule session_lasts [OF law v(8) signed(2) soon, of auth3]) (rule that; assumption)
  have act: "act \<noteq> ''deny''" using b2(1) by simp
  note g = consent_grants [OF granted act p]
  have "ap_client b2 = ap_client a" "ap_redirect b2 = ap_redirect a" "ap_scope b2 = (if ap_scope a = [] then ''openid'' else ap_scope a)"
    "ap_nonce (form_params b2) = ap_nonce (form_params a)" "ap_challenge (form_params b2) = ap_challenge (form_params a)"
    "ap_method (form_params b2) = ap_method (form_params a)" "state_param b2 = state_param a"
    unfolding b2(2) by simp_all
  with g v b1(1,2) first show ?thesis
    by (intro exI [of _ "last (w_codes w6)"] exI [of _ v] conjI) auto
qed

text \<open>C7. A sign-in carries an authorization request from the authorization endpoint to the code: when the
  browser posts the login form and then the consent form of the pages it was shown, the code is for the
  user whose password was entered, and for exactly the client, address, scope, nonce and challenge of the
  request, the address was registered for the active client, and the browser is sent there with the state.\<close>

theorem sign_in_carries_request:
  assumes law: "env_law (oe_tokens V)" and browser: "form_browser post"
    and fields: "form_params_ok a" "form_text email" "form_text password" "email \<noteq> []" "password \<noteq> []"
    and shown: "authorize_endpoint V N1 accept cookie1 auth1 a pid local w1 = (Inr (LoginPage name a1 err), w2)"
    and form1: "login_form (post (login_fields (render_login_page name a1 err) email password)) = Some (e, pw, b1)"
    and signed: "login_submit V N2 c e pw b1 w3 = (Inr (ConsentPage name2 a2 who scopes (Some ck)), w4)" "ck_value ck \<noteq> []"
    and form2: "consent_form (post (consent_fields (render_consent_page name2 a2 who scopes) ''allow'')) = Some (act, b2)"
    and granted: "consent_submit V N3 (Some (ck_value ck)) auth3 act b2 w5 = (Inr (RedirectTo u), w6)"
    and soon: "w_now w5 < w_now w3 + 3600"
  shows "\<exists>r v. r \<in> set (w_codes w6) \<and> v \<in> set (users_of c w3) \<and> us_email v = email
      \<and> ae_checkpw (oe_auth V) password (us_password v) \<and> us_is_active v \<and> us_email_verified v
      \<and> ac_user r = us_id v \<and> ac_tenant r = us_tenant v \<and> ac_code r = of_code N3 \<and> \<not> ac_used r
      \<and> ac_expires r = w_now w5 + 600
      \<and> ac_client r = ap_client a \<and> ac_redirect_uri r = ap_redirect a
      \<and> ac_scope r = (if ap_scope a = [] then ''openid'' else ap_scope a)
      \<and> ac_nonce r = ap_nonce (form_params a) \<and> ac_challenge r = ap_challenge (form_params a)
      \<and> ac_method r = ap_method (form_params a)
      \<and> u = \<lparr>url_base = ap_redirect a, url_query = [(''code'', of_code N3)] @ state_param a\<rparr>
      \<and> (\<exists>cl \<in> set (w_clients w1). oc_is_active cl \<and> oc_id cl = ap_client a \<and> ap_redirect a \<in> set (oc_redirect_uris cl))"
  by (insert sign_in_code [OF assms], (erule ex_forward)+, simp)

text \<open>C2. The whole authorization code flow: when the code of a sign-in is redeemed with its first request, the
  access token names the user whose password was entered, for the client of the request and with the
  permissions in force; the request was for that client and address, and when it carried a challenge the
  verifier answers it.\<close>

theorem authorization_code_flow:
  assumes law: "env_law (oe_tokens V)" and browser: "form_browser post"
    and fields: "form_params_ok a" "form_text email" "form_text password" "email \<noteq> []" "password \<noteq> []"
    and shown: "authorize_endpoint V N1 accept cookie1 auth1 a pid local w1 = (Inr (LoginPage name a1 err), w2)"
    and form1: "login_form (post (login_fields (render_login_page name a1 err) email password)) = Some (e, pw, b1)"
    and signed: "login_submit V N2 c e pw b1 w3 = (Inr (ConsentPage name2 a2 who scopes (Some ck)), w4)" "ck_value ck \<noteq> []"
    and form2: "consent_form (post (consent_fields (render_consent_page name2 a2 who scopes) ''allow'')) = Some (act, b2)"
    and granted: "consent_submit V N3 (Some (ck_value ck)) auth3 act b2 w5 = (Inr (RedirectTo u), w6)"
    and soon: "w_now w5 < w_now w3 + 3600"
    and redeemed: "token_endpoint V N4 c auth4 data w6 = (Inr (JsonOut d 200), w7)"
    and code: "dget data ''grant_type'' = Some ''authorization_code''" "dget data ''code'' = Some (of_code N3)"
    and while: "w_now w6 \<le> now" "now < w_now w6 + 3600"
    and named: "\<forall>x \<in> set (w_users w6). us_email x \<noteq> [] \<and> us_id x \<noteq> []" "\<forall>r \<in> set (w_codes w6). ac_tenant r \<noteq> []"
  shows "\<exists>v t td pol. v \<in> set (users_of c w3) \<and> us_email v = email \<and> ae_checkpw (oe_auth V) password (us_password v)
     \<and> us_is_active v \<and> us_email_verified v
     \<and> fst (extract_client_credentials V auth4 data) = Some (ap_client a) \<and> dget data ''redirect_uri'' = Some (ap_redirect a)
     \<and> (ostr_true (ap_challenge a) \<longrightarrow> ostr_true (dget data ''code_verifier'')
          \<and> ap_challenge a = Some (if ap_method a = Some ''S256'' then rstrip_char (CHR ''='') (oe_s256 V (the (dget data ''code_verifier'')))
                               else the (dget data ''code_verifier'')))
     \<and> dget d ''access_token'' = Some (JStr t) \<and> verify_token (oe_tokens V) now t = Inr td
     \<and> td_user td = us_id v \<and> td_tenant td = us_tenant v \<and> td_aud td = Some (ap_client a) \<and> td_policy td = Some pol
     \<and> fst (fetch_user_policies (ae_cast (oe_auth V)) c (us_id v) (us_tenant v) w6) = Inr pol"
proof -
  obtain r v where rv: "w_codes w6 = w_codes w5 @ [r]" "\<forall>x \<in> set (w_codes w5). ac_code x \<noteq> of_code N3"
    "v \<in> set (users_of c w3)" "us_email v = email" "ae_checkpw (oe_auth V) password (us_password v)"
    "us_is_active v" "us_email_verified v" "ac_user r = us_id v" "ac_tenant r = us_tenant v" "ac_client r = ap_client a"
    "ac_redirect_uri r = ap_redirect a" "ac_challenge r = ap_challenge (form_params a)" "ac_method r = ap_method (form_params a)"
    using sign_in_code [OF law browser fields shown form1 signed form2 granted soon] by (elim exE conjE) (rule that; assumption)
  obtain cl :: client_row and r' t td pol where k: "r' \<in> set (w_codes w6)" "Some (oc_id cl) = fst (extract_client_credentials V auth4 data)"
    "Some (ac_code r') = dget data ''code''" "ac_client r' = oc_id cl" "Some (ac_redirect_uri r') = dget data ''redirect_uri''"
    "pkce_ok (oe_s256 V) r' (dget data ''code_verifier'')" "dget d ''access_token'' = Some (JStr t)"
    "verify_token (oe_tokens V) now t = Inr td" "td_user td = ac_user r'" "td_tenant td = ac_tenant r'"
    "td_aud td = Some (oc_id cl)" "td_policy td = Some pol"
    "fst (fetch_user_policies (ae_cast (oe_auth V)) c (ac_user r') (ac_tenant r') w6) = Inr pol"
    using code_grant_issues [OF law redeemed code(1) while named] by (elim bexE exE conjE) (rule that; assumption)
  have "r' = r" using k(1,3) rv(1,2) code(2) by auto
  then have pkce: "ostr_true (ap_challenge a) \<Longrightarrow> ostr_true (dget data ''code_verifier'')
      \<and> ap_challenge a = Some (if ap_method a = Some ''S256'' then rstrip_char (CHR ''='') (oe_s256 V (the (dget data ''code_verifier'')))
                           else the (dget data ''code_verifier''))"
    using k(6) rv(12,13) by (auto simp: pkce_ok_def form_params_def ostr_true_def split: if_splits)
  show ?thesis
    using k rv \<open>r' = r\<close> pkce by (intro exI [of _ v] exI [of _ t] exI [of _ td] exI [of _ pol]) auto
qed

section \<open>A session that has lapsed\<close>

text \<open>What a link carries as it is: no reserved character, no blank.\<close>

definition link_text :: "string \<Rightarrow> bool" where
  "link_text s = list_all (\<lambda>c. unreserved_char c \<or> c \<in> set ''/:'') s"

definition raw_pair :: "string \<times> string \<Rightarrow> string" where
  "raw_pair p = fst p @ CHR ''='' # snd p"

lemma link_char_plain: "unreserved_char c \<or> c \<in> set ''/:'' \<Longrightarrow> c \<notin> {CHR ''+'', CHR ''%'', CHR ''='', CHR ''&''}"
  using unreserved_plain [of c] by auto

lemma link_text_plain: "link_text s \<Longrightarrow> c \<in> {CHR ''+'', CHR ''%'', CHR ''='', CHR ''&''} \<Longrightarrow> c \<notin> set s"
  using link_char_plain by (fastforce simp: link_text_def list_all_iff)

lemma unquote_link: "link_text s \<Longrightarrow> unquote_plus s = s"
proof -
  assume s: "link_text s"
  have "map (\<lambda>c. if c = CHR ''+'' then CHR '' '' else c) s = s"
    using link_text_plain [OF s, of "CHR ''+''"] by (intro map_idI) auto
  then show ?thesis using link_text_plain [OF s, of "CHR ''%''"] by (simp add: unquote_plus_def unquote_plain)
qed

interpretation links: text_codec raw_pair parse_pair "\<lambda>p. p" "\<lambda>p. link_text (fst p) \<and> link_text (snd p)"
proof
  fix p :: "string \<times> string" assume p: "link_text (fst p) \<and> link_text (snd p)"
  then have "CHR ''='' \<notin> set (fst p)" using link_text_plain by blast
  then have "takeWhile (\<lambda>c. c \<noteq> CHR ''='') (fst p @ CHR ''='' # snd p) = fst p"
    "dropWhile (\<lambda>c. c \<noteq> CHR ''='') (fst p @ CHR ''='' # snd p) = CHR ''='' # snd p"
    by (auto simp: takeWhile_append dropWhile_append)
  with p show "parse_pair (raw_pair p) = p" by (simp add: parse_pair_def raw_pair_def unquote_link)
qed

lemma parse_links:
  assumes "\<forall>p \<in> set ps. link_text (fst p) \<and> link_text (snd p)"
  shows "parse_qsl (py_join ''&'' (map raw_pair ps)) = ps"
proof -
  have "map parse_pair (filter (\<lambda>s. s \<noteq> []) (split_all (CHR ''&'') (py_join [CHR ''&''] (map raw_pair ps)))) = map (\<lambda>p. p) ps"
    using assms link_text_plain by (intro links.joined_decodes) (auto simp: raw_pair_def)
  then show ?thesis by (simp add: parse_qsl_def)
qed

definition linkable :: "authz_params \<Rightarrow> bool" where
  "linkable a \<longleftrightarrow> link_text (ap_client a) \<and> link_text (ap_redirect a) \<and> link_text (ap_response_type a)
     \<and> link_text (ap_scope a) \<and> (case ap_state a of None \<Rightarrow> True | Some s \<Rightarrow> link_text s)"

text \<open>C24. When the session has lapsed before the consent form is posted, the user is sent back to the
  authorization endpoint with a request that has lost its nonce and its challenge: whatever the request
  was, a code that the resumed sign-in stores for it is redeemed without a verifier.\<close>

theorem lapsed_session_drops_challenge:
  assumes "get_session_user (oe_tokens V) cookie auth w = (Inr u0, w)" "signed_in u0 = None" "linkable a"
  shows "\<exists>q a'. fst (consent_submit V N cookie auth act a w)
        = Inr (RedirectTo \<lparr>url_base = ''/api/v1/oidc/authorize?'' @ q, url_query = []\<rparr>)
      \<and> authorize_query q = Some (a', None, False)
      \<and> ap_client a' = ap_client a \<and> ap_redirect a' = ap_redirect a \<and> ap_scope a' = ap_scope a
      \<and> state_param a' = state_param a \<and> ap_nonce a' = None \<and> ap_challenge a' = None
      \<and> (\<forall>r ver. ac_challenge r = ap_challenge (form_params a') \<longrightarrow> pkce_ok (oe_s256 V) r ver)"
proof -
  let ?s = "case ap_state a of None \<Rightarrow> [] | Some s \<Rightarrow> s"
  let ?ps = "[(''client_id'', ap_client a), (''redirect_uri'', ap_redirect a), (''response_type'', ap_response_type a),
    (''scope'', ap_scope a), (''state'', ?s)]"
  let ?q = "py_join ''&'' (map raw_pair ?ps)"
  let ?a = "a\<lparr>ap_state := Some ?s, ap_nonce := None, ap_challenge := None, ap_method := Some ''S256''\<rparr>"
  have names: "link_text ''client_id''" "link_text ''redirect_uri''" "link_text ''response_type''" "link_text ''scope''" "link_text ''state''"
    by (simp_all add: link_text_def unreserved_char_def alpha_char_def)
  have "link_text []" by (simp add: link_text_def)
  then have "\<forall>p \<in> set ?ps. link_text (fst p) \<and> link_text (snd p)"
    using assms(3) names by (simp add: linkable_def split: option.splits)
  from parse_links [OF this] have read: "parse_qsl ?q = ?ps" .
  have q: "authorize_query ?q = Some (?a, None, False)"
    unfolding authorize_query_def read by (simp add: query_value_Cons query_value_Nil)
  have sent: "fst (consent_submit V N cookie auth act a w)
      = Inr (RedirectTo \<lparr>url_base = ''/api/v1/oidc/authorize?'' @ ?q, url_query = []\<rparr>)"
    using assms(1,2) by (simp add: consent_submit_def ebind_run raw_pair_def)
  show ?thesis
    by (rule exI [of _ ?q], rule exI [of _ ?a], simp only: sent q)
      (auto simp: state_param_def pkce_ok_def form_params_def ostr_true_def split: option.splits)
qed

section \<open>A sign-up that is corrected\<close>

lemma signup_page_again:
  assumes "signup_submit A N f w = (Inr (SignupPage p, ms), w1)"
  shows "sp_client_id p = Some (sf_client f) \<and> sp_redirect_uri p = Some (sf_redirect_uri f)
    \<and> sp_inv_email p = None \<and> sp_inv_token p = None"
  using assms
  by (auto simp: signup_submit_def signup_register_def signup_again_def ebind_run ethen_run Let_def
      split: if_splits sum.splits option.splits prod.splits)

definition signup_text :: "signup_form \<Rightarrow> bool" where
  "signup_text g \<longleftrightarrow> list_all form_text [sf_email g, sf_password g, sf_confirm g, sf_first g, sf_last g]
     \<and> [] \<notin> set [sf_email g, sf_password g, sf_confirm g, sf_first g, sf_last g]"

context form_browser begin

lemma signup_posted:
  assumes "signup_text g" "form_text cid" "form_text uri"
    and "sp_client_id p = Some cid" "sp_redirect_uri p = Some uri" "sp_inv_email p = None" "sp_inv_token p = None"
  shows "read_signup_form (post (signup_fields (render_signup_page p) g))
    = Some (g\<lparr>sf_client := cid, sf_redirect_uri := uri, sf_token := []\<rparr>)"
proof -
  let ?d = "[(''client_id'', cid), (''redirect_uri'', uri), (''invitation_token'', []), (''first_name'', sf_first g),
    (''last_name'', sf_last g), (''email'', sf_email g), (''password'', sf_password g), (''confirm_password'', sf_confirm g)]"
  have d: "signup_fields (render_signup_page p) g = ?d"
    using assms(4-7) by (simp add: signup_fields_def hidden_fields_def signup_hidden_def render_signup_page_def dget_def)
  have "list_all (\<lambda>(k, v). form_text k \<and> form_text v) ?d"
    using assms(1-3) by (simp add: signup_text_def form_text_def)
  then have p: "parse_qsl (post ?d) = ?d" by (rule posted)
  show ?thesis
    unfolding d read_signup_form_def p Let_def
    using assms(1) by (auto simp: signup_text_def form_lookup form_or_def none_if_empty_def)
qed

end

text \<open>C35. A sign-up by invitation that is answered with an error forgets the invitation: the form of the page
  with the error carries no token, so when the user corrects it, whatever the browser posts is a sign-up
  without one, and an account it opens has the address entered, no role, and the tenant of the client.\<close>

theorem signup_retry_forgets_invitation:
  assumes browser: "form_browser post"
    and again: "signup_submit A N1 f w1 = (Inr (SignupPage p, ms), w2)"
    and texts: "signup_text g" "form_text (sf_client f)" "form_text (sf_redirect_uri f)"
    and form: "read_signup_form (post (signup_fields (render_signup_page p) g)) = Some h"
    and opened: "signup_submit A N2 h w3 = (Inr (VerificationSent e, ms2), w4)"
  shows "sf_token h = [] \<and> e = sf_email g \<and> (\<exists>u cl. w_users w4 = w_users w3 @ [u] \<and> us_email u = sf_email g \<and> us_role u = None
    \<and> cl \<in> set (w_clients w3) \<and> oc_id cl = sf_client f \<and> us_tenant u = oc_tenant cl)"
proof -
  have h: "h = g\<lparr>sf_client := sf_client f, sf_redirect_uri := sf_redirect_uri f, sf_token := []\<rparr>"
    using form_browser.signup_posted [OF browser texts] signup_page_again [OF again] form by simp
  then have token: "sf_token h = []" by simp
  show ?thesis
  proof (cases rule: signup_submit_cases [of A N2 h w3])
    case (page q)
    with opened show ?thesis by simp
  next
    case reg: (register client ivt)
    then have ivt: "ivt = None" using token by simp
    show ?thesis
    proof (cases rule: signup_register_cases [of A N2 h client ivt w3])
      case op: (opened r tenant hash l)
      from op(1) ivt obtain cl where cl: "client = Some cl" "tenant = oc_tenant cl" by (auto simp: tenant_of_signup_def)
      have "r = Inr (VerificationSent e, ms2)" using opened reg(5) op(3) by simp
      from op(4) [OF this] have "e = sf_email g" by (simp add: ivt signup_email_def h)
      moreover have "w_users w4 = w_users w3 @ [new_user_row (ar_id N2) (oc_tenant cl) (sf_email g) hash (sf_first h) (sf_last h) None (w_now w3)]"
        using opened reg(5) op(3) by (auto simp: ivt signup_email_def invited_role_def cl(2) h)
      ultimately show ?thesis using reg(4) [OF cl(1)] token by (auto simp: new_user_row_def h)
    qed (use opened reg(5) in auto)
  qed
qed

section \<open>Runs\<close>

definition flow_params :: authz_params where
  "flow_params = (demo_params ''https://app/cb'')\<lparr>ap_scope := ''api'', ap_challenge := Some ''v'', ap_method := Some ''S256''\<rparr>"

definition flow_request :: "string dict" where
  "flow_request = [(''grant_type'', ''authorization_code''), (''client_id'', ''app''), (''client_secret'', ''cs''), (''code'', ''c9''),
     (''redirect_uri'', ''https://app/cb''), (''code_verifier'', ''v'')]"

abbreviation flow_cookie :: session_cookie where
  "flow_cookie \<equiv> \<lparr>ck_value = ''cookie'', ck_secure = True\<rparr>"

abbreviation flow_grant :: "(exn + oidc_out) \<times> world" where
  "flow_grant \<equiv> consent_submit demo_oidc demo_fresh (Some (ck_value flow_cookie)) None ''allow'' (filled flow_params) oidc_demo"

lemma flow_fields:
  "form_params_ok flow_params" "form_text ''a@x''" "form_text ''h''" "''a@x'' \<noteq> []" "''h'' \<noteq> []" "form_text ''allow''"
  by code_simp+

text \<open>The steps of a sign-in: the page, the two forms, the consent page and the redirect.\<close>

lemma flow_steps:
  obtains w2 w4 w6 where
    "authorize_endpoint demo_oidc demo_fresh [] None None flow_params None True oidc_demo = (Inr (LoginPage ''App'' flow_params None), w2)"
    "login_form (urlencode (login_fields (render_login_page ''App'' flow_params None) ''a@x'' ''h'')) = Some (''a@x'', ''h'', filled flow_params)"
    "login_submit demo_oidc demo_fresh (TenantConn ''t1'') ''a@x'' ''h'' (filled flow_params) oidc_demo
       = (Inr (ConsentPage ''App'' (form_params (filled flow_params)) ''a@x'' [''api''] (Some flow_cookie)), w4)"
    "consent_form (urlencode (consent_fields (render_consent_page ''App'' (form_params (filled flow_params)) ''a@x'' [''api'']) ''allow''))
       = Some (''allow'', filled flow_params)"
    "flow_grant = (Inr (RedirectTo \<lparr>url_base = ''https://app/cb'', url_query = [(''code'', ''c9''), (''state'', ''xyz'')]\<rparr>), w6)"
proof -
  have runs: "fst (authorize_endpoint demo_oidc demo_fresh [] None None flow_params None True oidc_demo) = Inr (LoginPage ''App'' flow_params None)"
    "fst (login_submit demo_oidc demo_fresh (TenantConn ''t1'') ''a@x'' ''h'' (filled flow_params) oidc_demo)
       = Inr (ConsentPage ''App'' (form_params (filled flow_params)) ''a@x'' [''api''] (Some flow_cookie))"
    "fst flow_grant = Inr (RedirectTo \<lparr>url_base = ''https://app/cb'', url_query = [(''code'', ''c9''), (''state'', ''xyz'')]\<rparr>)"
    by code_simp+
  have "consent_form (urlencode (consent_fields (render_consent_page ''App'' (form_params (filled flow_params)) ''a@x'' [''api'']) ''allow''))
      = Some (''allow'', filled flow_params)"
    using urlencoded.consent_posted [OF filled_ok [OF flow_fields(1)] flow_fields(6)] filled_again [of flow_params] by simp
  with runs show thesis
    by (intro that urlencoded.login_posted [OF flow_fields(1-5)]) (simp_all only: prod_eq_iff fst_conv snd_conv simp_thms)
qed

lemma flow_user: "v \<in> set (users_of (TenantConn ''t1'') oidc_demo) \<Longrightarrow> us_email v = ''a@x'' \<Longrightarrow> us_id v = ''u1''"
proof -
  have "list_all (\<lambda>v. us_email v = ''a@x'' \<longrightarrow> us_id v = ''u1'') (users_of (TenantConn ''t1'') oidc_demo)" by code_simp
  then show "v \<in> set (users_of (TenantConn ''t1'') oidc_demo) \<Longrightarrow> us_email v = ''a@x'' \<Longrightarrow> us_id v = ''u1''"
    by (auto simp: list_all_iff)
qed

theorem sign_in_carries_request_witness:
  "\<exists>r \<in> set (w_codes (snd flow_grant)). ac_code r = ''c9'' \<and> ac_user r = ''u1'' \<and> ac_challenge r = Some ''v''"
proof -
  obtain w2 w4 w6 where steps:
    "authorize_endpoint demo_oidc demo_fresh [] None None flow_params None True oidc_demo = (Inr (LoginPage ''App'' flow_params None), w2)"
    "login_form (urlencode (login_fields (render_login_page ''App'' flow_params None) ''a@x'' ''h'')) = Some (''a@x'', ''h'', filled flow_params)"
    "login_submit demo_oidc demo_fresh (TenantConn ''t1'') ''a@x'' ''h'' (filled flow_params) oidc_demo
       = (Inr (ConsentPage ''App'' (form_params (filled flow_params)) ''a@x'' [''api''] (Some flow_cookie)), w4)"
    "consent_form (urlencode (consent_fields (render_consent_page ''App'' (form_params (filled flow_params)) ''a@x'' [''api'']) ''allow''))
       = Some (''allow'', filled flow_params)"
    "flow_grant = (Inr (RedirectTo \<lparr>url_base = ''https://app/cb'', url_query = [(''code'', ''c9''), (''state'', ''xyz'')]\<rparr>), w6)"
    by (rule flow_steps)
  have soon: "w_now oidc_demo < w_now oidc_demo + 3600" "ck_value flow_cookie \<noteq> []" by simp_all
  obtain r v where r: "r \<in> set (w_codes w6)" "v \<in> set (users_of (TenantConn ''t1'') oidc_demo)" "us_email v = ''a@x''"
    "ac_user r = us_id v" "ac_code r = of_code demo_fresh" "ac_challenge r = ap_challenge (form_params flow_params)"
    using sign_in_carries_request [OF demo_oidc_law urlencoded.form_browser_axioms flow_fields(1-5) steps(1-3) soon(2) steps(4,5) soon(1)]
    by blast
  with flow_user [OF r(2,3)] steps(5) show ?thesis
    by (intro bexI [of _ r]) (simp_all add: demo_fresh_def flow_params_def demo_params_def form_params_def ostr_true_def)
qed

theorem authorization_code_flow_witness:
  "\<exists>td. verify_token (oe_tokens demo_oidc) 200 ''code-at'' = Inr td \<and> td_user td = ''u1'' \<and> td_aud td = Some ''app''"
proof -
  obtain w2 w4 w6 where steps:
    "authorize_endpoint demo_oidc demo_fresh [] None None flow_params None True oidc_demo = (Inr (LoginPage ''App'' flow_params None), w2)"
    "login_form (urlencode (login_fields (render_login_page ''App'' flow_params None) ''a@x'' ''h'')) = Some (''a@x'', ''h'', filled flow_params)"
    "login_submit demo_oidc demo_fresh (TenantConn ''t1'') ''a@x'' ''h'' (filled flow_params) oidc_demo
       = (Inr (ConsentPage ''App'' (form_params (filled flow_params)) ''a@x'' [''api''] (Some flow_cookie)), w4)"
    "consent_form (urlencode (consent_fields (render_consent_page ''App'' (form_params (filled flow_params)) ''a@x'' [''api'']) ''allow''))
       = Some (''allow'', filled flow_params)"
    "flow_grant = (Inr (RedirectTo \<lparr>url_base = ''https://app/cb'', url_query = [(''code'', ''c9''), (''state'', ''xyz'')]\<rparr>), w6)"
    by (rule flow_steps)
  let ?d = "bearer_fields ''code-at'' @ [(''refresh_token'', JStr ''u1-refresh-h9''), (''scope'', JStr ''api'')]"
  let ?token = "token_endpoint demo_oidc demo_fresh (TenantConn ''t1'') None flow_request (snd flow_grant)"
  have w6: "snd flow_grant = w6" using steps(5) by simp
  have soon: "w_now oidc_demo < w_now oidc_demo + 3600" "ck_value flow_cookie \<noteq> []" by simp_all
  have "fst ?token = Inr (JsonOut ?d 200)" by code_simp
  then have redeemed: "token_endpoint demo_oidc demo_fresh (TenantConn ''t1'') None flow_request w6 = (Inr (JsonOut ?d 200), snd ?token)"
    unfolding w6 by (metis prod.collapse)
  have code: "dget flow_request ''grant_type'' = Some ''authorization_code''" "dget flow_request ''code'' = Some (of_code demo_fresh)"
    by code_simp+
  have "w_now (snd flow_grant) \<le> 200" "200 < w_now (snd flow_grant) + 3600"
    "\<forall>x \<in> set (w_users (snd flow_grant)). us_email x \<noteq> [] \<and> us_id x \<noteq> []" "\<forall>r \<in> set (w_codes (snd flow_grant)). ac_tenant r \<noteq> []"
    by code_simp+
  note facts = this [unfolded w6]
  obtain v t td where v: "v \<in> set (users_of (TenantConn ''t1'') oidc_demo)" "us_email v = ''a@x''" "dget ?d ''access_token'' = Some (JStr t)"
    "verify_token (oe_tokens demo_oidc) 200 t = Inr td" "td_user td = us_id v" "td_aud td = Some (ap_client flow_params)"
    using authorization_code_flow [OF demo_oidc_law urlencoded.form_browser_axioms flow_fields(1-5) steps(1-3) soon(2) steps(4,5)
        soon(1) redeemed code facts]
    by blast
  moreover have "t = ''code-at''" using v(3) by (simp add: bearer_fields_def dget_def)
  ultimately show ?thesis using flow_user [OF v(1,2)] by (intro exI [of _ td]) (simp add: flow_params_def demo_params_def)
qed

theorem lapsed_session_drops_challenge_witness:
  "\<exists>q a'. fst (consent_submit demo_oidc demo_fresh None None ''allow'' ((demo_params ''https://app/cb'')\<lparr>ap_challenge := Some ''ch''\<rparr>) oidc_demo)
      = Inr (RedirectTo \<lparr>url_base = ''/api/v1/oidc/authorize?'' @ q, url_query = []\<rparr>)
    \<and> authorize_query q = Some (a', None, False) \<and> ap_challenge a' = None"
proof -
  let ?a = "(demo_params ''https://app/cb'')\<lparr>ap_challenge := Some ''ch''\<rparr>"
  have "get_session_user (oe_tokens demo_oidc) None None oidc_demo = (Inr None, oidc_demo)"
    by (simp add: get_session_user_def ostr_true_def eret_def)
  moreover have "signed_in None = None" by (simp add: signed_in_def)
  moreover have "linkable ?a" by code_simp
  ultimately show ?thesis using lapsed_session_drops_challenge [of demo_oidc None None oidc_demo None ?a demo_fresh "''allow''"] by blast
qed

theorem signup_retry_forgets_invitation_witness:
  "\<exists>u. w_users (snd (signup_submit demo_accounts demo_account_random (demo_form []) account_demo)) = w_users account_demo @ [u]
     \<and> us_email u = ''me@x'' \<and> us_role u = None"
proof -
  let ?f = "(demo_form ''it'')\<lparr>sf_confirm := ''x''\<rparr>" and ?g = "demo_form ''it''" and ?h = "demo_form []"
  let ?first = "signup_submit demo_accounts demo_account_random ?f account_demo"
  let ?p = "\<lparr>sp_client_name = Some ''App'', sp_client_id = Some ''app'', sp_redirect_uri = Some [], sp_inv_email = None,
    sp_inv_token = None, sp_error = Some ''Passwords do not match''\<rparr>"
  let ?second = "signup_submit demo_accounts demo_account_random ?h account_demo"
  have "fst ?first = Inr (SignupPage ?p, [])" by code_simp
  then have again: "?first = (Inr (SignupPage ?p, []), snd ?first)" by (metis prod.collapse)
  have texts: "signup_text ?g" "form_text (sf_client ?f)" "form_text (sf_redirect_uri ?f)" by code_simp+
  have form: "read_signup_form (urlencode (signup_fields (render_signup_page ?p) ?g)) = Some ?h"
    using urlencoded.signup_posted [OF texts, of ?p] by (simp add: demo_form_def)
  have "\<exists>ms. fst ?second = Inr (VerificationSent ''me@x'', ms)" by (rule exI) code_simp
  then obtain ms where opened: "?second = (Inr (VerificationSent ''me@x'', ms), snd ?second)" by (metis prod.collapse)
  from signup_retry_forgets_invitation [OF urlencoded.form_browser_axioms again texts form opened]
  show ?thesis by (auto simp: demo_form_def)
qed

end
