(* ===== verification/Audit_Trail.thy ===== *)
theory Audit_Trail
  imports Authz "HOL-Library.Multiset"
begin

text \<open>
  The way of a log entry: \<open>AuditLogger\<close> builds it, \<open>RedisLogBuffer\<close> collects entries and sends them
  to a Redis stream (app/audit_logs/redis_logger.py), the consumer reads the stream and writes the
  table \<open>audit_logs\<close> (app/audit_logs/consumer.py). The interleaving of requests, flushes and the
  consumer, and the failures of Redis and PostgreSQL, are a step relation.
\<close>

section \<open>The entry of a call\<close>

text \<open>
  \<open>ad_dumps\<close> is \<open>orjson.dumps\<close>, \<open>ad_str\<close> is \<open>str\<close> of a value that is neither a string nor an integer,
  \<open>ad_iso\<close> and \<open>ad_parse\<close> are \<open>isoformat\<close> of a time in UTC and \<open>datetime.fromisoformat\<close>; \<open>ad_jsonb\<close> says
  which texts PostgreSQL takes as JSONB.
\<close>

record audit_env =
  ad_dumps :: "json dict \<Rightarrow> string"
  ad_str :: "json \<Rightarrow> string"
  ad_iso :: "int \<Rightarrow> string"
  ad_parse :: "string \<Rightarrow> int option"
  ad_jsonb :: "string \<Rightarrow> bool"

text \<open>Where a call was made: time, name of the logger, frame, thread and process.\<close>

record log_site =
  ls_now :: int
  ls_logger :: string
  ls_function :: string
  ls_line :: nat
  ls_thread :: nat
  ls_process :: nat

text \<open>\<open>kwargs.pop(key, None) or fallback\<close>.\<close>

definition pop_or :: "string \<Rightarrow> json \<Rightarrow> json dict \<Rightarrow> json" where
  "pop_or k fallback kwargs = (case dget kwargs k of None \<Rightarrow> fallback | Some v \<Rightarrow> if json_true v then v else fallback)"

definition frame_keys :: "string list" where
  "frame_keys = [''module'', ''function'', ''line'']"

definition build_log_entry :: "audit_env \<Rightarrow> log_site \<Rightarrow> string \<Rightarrow> string \<Rightarrow> json dict \<Rightarrow> json dict" where
  "build_log_entry D l level message kwargs =
     (let rest = filter (\<lambda>(k, _). k \<notin> set frame_keys) kwargs in
      [(''timestamp'', JStr (ad_iso D (ls_now l))), (''level'', JStr (py_upper level)), (''logger'', JStr (ls_logger l)),
       (''message'', JStr message), (''module'', pop_or ''module'' (JStr ''app.audit_logs.redis_logger'') kwargs),
       (''function'', pop_or ''function'' (JStr (ls_function l)) kwargs), (''line'', pop_or ''line'' (JInt (int (ls_line l))) kwargs),
       (''thread_id'', JInt (int (ls_thread l))), (''process_id'', JInt (int (ls_process l))),
       (''extra'', if rest = [] then JNull else JStr (ad_dumps D rest))])"

text \<open>The entry of a call of the logger as the rest of the development records it.\<close>

definition entry_of_call :: "audit_env \<Rightarrow> log_site \<Rightarrow> log_entry \<Rightarrow> json dict" where
  "entry_of_call D l e = build_log_entry D l (le_level e) (le_message e) (le_extra e)"

text \<open>
  A method of the logger builds the entry and hands it to the buffer: from a coroutine as a task of
  the running loop, from a worker thread to the loop that was captured at start, if there is one; the
  \<open>force_\<close> methods wait for the stream. Without a buffer nothing is logged.
\<close>

record logger =
  lo_buffer :: bool
  lo_loop :: bool

datatype dispatch = NotLogged | Scheduled "json dict" | Awaited "json dict"

definition schedule :: "bool \<Rightarrow> logger \<Rightarrow> json dict \<Rightarrow> dispatch" where
  "schedule in_loop lg e = (if in_loop \<or> lo_loop lg then Scheduled e else NotLogged)"

definition log_buffered :: "audit_env \<Rightarrow> log_site \<Rightarrow> bool \<Rightarrow> logger \<Rightarrow> string \<Rightarrow> string \<Rightarrow> json dict \<Rightarrow> dispatch" where
  "log_buffered D l in_loop lg level message kwargs =
     (if lo_buffer lg then schedule in_loop lg (build_log_entry D l level message kwargs) else NotLogged)"

definition logger_info where "logger_info D l in_loop lg = log_buffered D l in_loop lg ''INFO''"

definition logger_warning where "logger_warning D l in_loop lg = log_buffered D l in_loop lg ''WARNING''"

definition logger_debug where "logger_debug D l in_loop lg = log_buffered D l in_loop lg ''DEBUG''"

definition logger_error where "logger_error D l in_loop lg = log_buffered D l in_loop lg ''ERROR''"

definition force_log :: "audit_env \<Rightarrow> log_site \<Rightarrow> logger \<Rightarrow> string \<Rightarrow> string \<Rightarrow> json dict \<Rightarrow> dispatch" where
  "force_log D l lg level message kwargs =
     (if lo_buffer lg then Awaited (build_log_entry D l level message kwargs) else NotLogged)"

definition logger_audit ::
    "audit_env \<Rightarrow> log_site \<Rightarrow> bool \<Rightarrow> logger \<Rightarrow> string \<Rightarrow> (string \<times> json option) list \<Rightarrow> dispatch" where
  "logger_audit D l in_loop lg action items =
     logger_info D l in_loop lg (''AUDIT: '' @ action) (some_items ((''action'', Some (JStr action)) # items))"

text \<open>Keywords that \<open>log_exception\<close> passes on must not repeat its own.\<close>

definition log_exception ::
    "audit_env \<Rightarrow> log_site \<Rightarrow> logger \<Rightarrow> string \<Rightarrow> string \<Rightarrow> string \<Rightarrow> string \<Rightarrow> json dict \<Rightarrow> exn + dispatch" where
  "log_exception D l lg context func_name text_of type_of kwargs =
     (if list_ex (\<lambda>k. dget kwargs k \<noteq> None) [''message'', ''context'', ''function'', ''error_type'']
      then Inl (PyErr TypeError)
      else Inr (force_log D l lg ''ERROR'' text_of
                  ([(''context'', JStr context), (''function'', JStr func_name), (''error_type'', JStr type_of)] @ kwargs)))"

text \<open>What \<open>log_audit\<close> of the store records is what the method publishes.\<close>

lemma logger_audit_entry:
  assumes "lo_buffer lg" "in_loop \<or> lo_loop lg"
  shows "logger_audit D l in_loop lg action items
     = Scheduled (entry_of_call D l (log_entry_of ''INFO'' (''AUDIT: '' @ action)
         (some_items ((''action'', Some (JStr action)) # items)) False))"
  using assms by (simp add: logger_audit_def logger_info_def log_buffered_def schedule_def entry_of_call_def log_entry_of_def)

section \<open>Serialization\<close>

definition int_text :: "int \<Rightarrow> string" where
  "int_text n = (if n < 0 then CHR ''-'' # digits_of (nat (- n)) else digits_of (nat n))"

definition py_str :: "audit_env \<Rightarrow> json \<Rightarrow> string" where
  "py_str D v = (case v of JStr s \<Rightarrow> s | JInt n \<Rightarrow> int_text n | _ \<Rightarrow> ad_str D v)"

definition serialize :: "audit_env \<Rightarrow> json dict \<Rightarrow> string dict" where
  "serialize D e = map (\<lambda>(k, v). (k, py_str D v)) (filter (\<lambda>(_, v). v \<noteq> JNull) e)"

section \<open>Rows of the table\<close>

record audit_row =
  au_timestamp :: int
  au_level :: string
  au_logger :: string
  au_message :: string
  au_module :: "string option"
  au_function :: "string option"
  au_line :: "int option"
  au_thread :: "int option"
  au_process :: "int option"
  au_extra :: "string option"

definition digit_char :: "char \<Rightarrow> bool" where
  "digit_char c \<longleftrightarrow> 48 \<le> (of_char c :: nat) \<and> (of_char c :: nat) \<le> 57"

text \<open>\<open>int\<close> of an ASCII text: surrounding spaces, a sign, digits with single underscores in between.\<close>

fun digits_value :: "nat \<Rightarrow> string \<Rightarrow> nat option" where
  "digits_value acc [] = None"
| "digits_value acc (c # cs) =
     (if \<not> digit_char c then None
      else let n = 10 * acc + (of_char c - 48) in
           case cs of [] \<Rightarrow> Some n
           | d # ds \<Rightarrow> if d = CHR ''_'' then digits_value n ds else digits_value n (d # ds))"

definition py_int :: "string \<Rightarrow> exn + int" where
  "py_int s =
     (let t = py_strip s;
          (sgn, ds) = (case t of [] \<Rightarrow> (1, []) | c # cs \<Rightarrow>
             if c = CHR ''-'' then (- 1, cs) else if c = CHR ''+'' then (1, cs) else (1, t)) in
      case digits_value 0 ds of None \<Rightarrow> Inl (PyErr (ValueError ''invalid literal for int()'')) | Some n \<Rightarrow> Inr (sgn * int n))"

text \<open>\<open>timestamp_str.replace("Z", "+00:00")\<close>.\<close>

definition replace_z :: "string \<Rightarrow> string" where
  "replace_z s = concat (map (\<lambda>c. if c = CHR ''Z'' then ''+00:00'' else [c]) s)"

text \<open>\<open>x if x != "None" else None\<close> on a value read from the stream.\<close>

definition not_none :: "string option \<Rightarrow> string option" where
  "not_none v = (if v = Some ''None'' then None else v)"

definition int_field :: "string dict \<Rightarrow> string \<Rightarrow> exn + int option" where
  "int_field fs k =
     (case dget fs k of
        None \<Rightarrow> Inr None
      | Some s \<Rightarrow> if s = [] \<or> s = ''None'' then Inr None
                  else case py_int s of Inl e \<Rightarrow> Inl e | Inr n \<Rightarrow> Inr (Some n))"

definition field_or :: "string dict \<Rightarrow> string \<Rightarrow> string \<Rightarrow> string" where
  "field_or fs k d = (case dget fs k of None \<Rightarrow> d | Some s \<Rightarrow> s)"

text \<open>The record of a message; \<open>now\<close> stands in for a time that is missing or does not parse.\<close>

definition parse_record :: "audit_env \<Rightarrow> int \<Rightarrow> string dict \<Rightarrow> exn + audit_row" where
  "parse_record D now fs =
     (let ts = (case dget fs ''timestamp'' of None \<Rightarrow> now
                | Some s \<Rightarrow> (case ad_parse D (replace_z s) of None \<Rightarrow> now | Some t \<Rightarrow> t));
          extra = dget fs ''extra'' in
      case (int_field fs ''line'', int_field fs ''thread_id'', int_field fs ''process_id'') of
        (Inr ln, Inr th, Inr pr) \<Rightarrow>
          Inr \<lparr>au_timestamp = ts, au_level = field_or fs ''level'' ''INFO'', au_logger = field_or fs ''logger'' ''audit'',
               au_message = field_or fs ''message'' [], au_module = not_none (dget fs ''module''),
               au_function = not_none (dget fs ''function''), au_line = ln, au_thread = th, au_process = pr,
               au_extra = (if extra = Some ''None'' \<or> extra = Some ''null'' then None else extra)\<rparr>
      | (Inl e, _, _) \<Rightarrow> Inl e
      | (Inr _, Inl e, _) \<Rightarrow> Inl e
      | (Inr _, Inr _, Inl e) \<Rightarrow> Inl e)"

text \<open>
  What the columns of \<open>audit_logs\<close> (migration 0005) take: their lengths, the ranges of INTEGER and
  BIGINT, no NUL character in a text, JSONB.
\<close>

definition text_ok :: "nat \<Rightarrow> string \<Rightarrow> bool" where
  "text_ok n s \<longleftrightarrow> length s \<le> n \<and> CHR 0x00 \<notin> set s"

definition int_ok :: "nat \<Rightarrow> int option \<Rightarrow> bool" where
  "int_ok b v \<longleftrightarrow> (case v of None \<Rightarrow> True | Some n \<Rightarrow> - (2 ^ b) \<le> n \<and> n < 2 ^ b)"

definition row_ok :: "audit_env \<Rightarrow> audit_row \<Rightarrow> bool" where
  "row_ok D r \<longleftrightarrow>
     text_ok 20 (au_level r) \<and> text_ok 100 (au_logger r) \<and> CHR 0x00 \<notin> set (au_message r)
     \<and> (case au_module r of None \<Rightarrow> True | Some s \<Rightarrow> text_ok 100 s)
     \<and> (case au_function r of None \<Rightarrow> True | Some s \<Rightarrow> text_ok 100 s)
     \<and> int_ok 31 (au_line r) \<and> int_ok 63 (au_thread r) \<and> int_ok 31 (au_process r)
     \<and> (case au_extra r of None \<Rightarrow> True | Some s \<Rightarrow> ad_jsonb D s)"

section \<open>The buffer and the stream\<close>

text \<open>
  \<open>lg_flights\<close>: the batches a flush has taken from the buffer and whose pipeline has not returned;
  \<open>lg_stream\<close>: the entries with their ids, which grow; \<open>lg_cursor\<close>: the first id the consumer group
  has not been given; \<open>lg_reading\<close>: the batch the consumer works on, empty between two reads;
  \<open>lg_pending\<close>: the ids that were given and not acknowledged.
\<close>

record log_state =
  lg_buffer :: "json dict list"
  lg_flights :: "json dict list list"
  lg_stream :: "(nat \<times> string dict) list"
  lg_next :: nat
  lg_cursor :: nat
  lg_reading :: "(nat \<times> string dict) list"
  lg_pending :: "nat list"
  lg_rows :: "(nat \<times> audit_row) list"

definition log_init :: log_state where
  "log_init = \<lparr>lg_buffer = [], lg_flights = [], lg_stream = [], lg_next = 0, lg_cursor = 0, lg_reading = [],
     lg_pending = [], lg_rows = []\<rparr>"

text \<open>The new state and whether the caller has to flush.\<close>

definition publish :: "json dict \<Rightarrow> log_state \<Rightarrow> log_state \<times> bool" where
  "publish e s = (let b = lg_buffer s @ [e] in (s\<lparr>lg_buffer := b\<rparr>, 50 \<le> length b))"

text \<open>A flush: the locked part that takes the batch, and the two outcomes of the pipeline.\<close>

definition take_batch :: "log_state \<Rightarrow> log_state" where
  "take_batch s = (if lg_buffer s = [] then s else s\<lparr>lg_flights := lg_flights s @ [lg_buffer s], lg_buffer := []\<rparr>)"

definition xadd :: "audit_env \<Rightarrow> json dict list \<Rightarrow> log_state \<Rightarrow> log_state" where
  "xadd D es s =
     s\<lparr>lg_stream := lg_stream s @ zip [lg_next s..<lg_next s + length es] (map (serialize D) es),
       lg_next := lg_next s + length es\<rparr>"

definition flush_sent :: "audit_env \<Rightarrow> json dict list \<Rightarrow> log_state \<Rightarrow> log_state" where
  "flush_sent D b s = xadd D b (s\<lparr>lg_flights := remove1 b (lg_flights s)\<rparr>)"

definition flush_failed :: "json dict list \<Rightarrow> log_state \<Rightarrow> log_state" where
  "flush_failed b s =
     s\<lparr>lg_flights := remove1 b (lg_flights s), lg_buffer := take 100 b @ take 100 (lg_buffer s)\<rparr>"

text \<open>Cancellation is not an \<open>Exception\<close>: the batch of a cancelled flush is not put back.\<close>

definition flush_cancelled :: "json dict list \<Rightarrow> log_state \<Rightarrow> log_state" where
  "flush_cancelled b s = s\<lparr>lg_flights := remove1 b (lg_flights s)\<rparr>"

text \<open>\<open>stop\<close>: the periodic task, whose flush has the batch \<open>b\<close> under way if it is in one, is cancelled, and
  what the buffer holds is flushed; \<open>up\<close> says whether Redis answers.\<close>

definition stop_buffer :: "audit_env \<Rightarrow> json dict list option \<Rightarrow> bool \<Rightarrow> log_state \<Rightarrow> log_state" where
  "stop_buffer D under_way up s =
     (let s1 = (case under_way of None \<Rightarrow> s | Some b \<Rightarrow> flush_cancelled b s);
          b = lg_buffer s1; s2 = take_batch s1 in
      if b = [] then s1 else if up then flush_sent D b s2 else flush_failed b s2)"

text \<open>Trimming of the stream, which Redis does in its own time, keeps at least the newest million.\<close>

definition max_stream_len :: nat where
  "max_stream_len = 1000000"

definition xtrim :: "nat \<Rightarrow> log_state \<Rightarrow> log_state" where
  "xtrim k s = s\<lparr>lg_stream := drop k (lg_stream s)\<rparr>"

section \<open>The consumer\<close>

text \<open>\<open>XREADGROUP ... >\<close>: up to a hundred entries the group was never given.\<close>

definition read_group :: "log_state \<Rightarrow> (nat \<times> string dict) list \<times> log_state" where
  "read_group s =
     (let ms = take 100 (filter (\<lambda>(i, _). lg_cursor s \<le> i) (lg_stream s)) in
      (ms, if ms = [] then s
           else s\<lparr>lg_cursor := Suc (fst (last ms)), lg_pending := lg_pending s @ map fst ms\<rparr>))"

fun batch_records :: "audit_env \<Rightarrow> int \<Rightarrow> (nat \<times> string dict) list \<Rightarrow> exn + audit_row list" where
  "batch_records D now [] = Inr []"
| "batch_records D now (m # ms) =
     (case parse_record D now (snd m) of
        Inl e \<Rightarrow> Inl e
      | Inr r \<Rightarrow> (case batch_records D now ms of Inl e \<Rightarrow> Inl e | Inr rs \<Rightarrow> Inr (r # rs)))"

text \<open>\<open>executemany\<close> is one transaction; \<open>up\<close> says whether the database can be reached.\<close>

definition process_batch ::
    "audit_env \<Rightarrow> int \<Rightarrow> bool \<Rightarrow> (nat \<times> string dict) list \<Rightarrow> (exn, (nat \<times> audit_row) list, unit) eff" where
  "process_batch D now up ms = (\<lambda>rows.
     if ms = [] then (Inr (), rows)
     else case batch_records D now ms of
            Inl e \<Rightarrow> (Inl e, rows)
          | Inr rs \<Rightarrow> if \<not> up then (Inl (DbErr OtherPostgresError), rows)
                      else if list_all (row_ok D) rs then (Inr (), rows @ zip (map fst ms) rs)
                      else (Inl (DbErr DataError), rows))"

section \<open>Runs\<close>

datatype log_event =
    Publish "json dict" | TakeBatch | Sent "json dict list" | Failed "json dict list" | SentNoReply "json dict list"
  | Cancelled "json dict list"
  | Immediate "json dict" | Swallowed "json dict" | Trim nat
  | ReadBatch | ReadLost | Stored bool | Rejected

text \<open>
  \<open>SentNoReply\<close>: the pipeline was executed but its reply is lost, so the batch is queued again;
  \<open>Cancelled\<close>: the flush was cancelled before its pipeline ran, as \<open>stop\<close> does to the periodic one, and no
  handler takes the batch back; \<open>ReadLost\<close>: a read whose reply is lost. \<open>Stored b\<close>: the batch is in the table, acknowledged or not;
  \<open>Rejected\<close>: an exception of the batch, which the loop prints.
\<close>

inductive log_step :: "audit_env \<Rightarrow> log_state \<Rightarrow> log_event \<Rightarrow> log_state \<Rightarrow> bool" for D where
  publish: "log_step D s (Publish e) (fst (publish e s))"
| take_batch: "log_step D s TakeBatch (take_batch s)"
| sent: "b \<in> set (lg_flights s) \<Longrightarrow> log_step D s (Sent b) (flush_sent D b s)"
| failed: "b \<in> set (lg_flights s) \<Longrightarrow> log_step D s (Failed b) (flush_failed b s)"
| sent_no_reply: "b \<in> set (lg_flights s) \<Longrightarrow> log_step D s (SentNoReply b) (flush_failed b (xadd D b s))"
| cancelled: "b \<in> set (lg_flights s) \<Longrightarrow> log_step D s (Cancelled b) (flush_cancelled b s)"
| immediate: "log_step D s (Immediate e) (xadd D [e] s)"
| swallowed: "log_step D s (Swallowed e) s"
| trim: "max_stream_len + k \<le> length (lg_stream s) \<Longrightarrow> log_step D s (Trim k) (xtrim k s)"
| read: "lg_reading s = [] \<Longrightarrow> read_group s = (ms, s') \<Longrightarrow> log_step D s ReadBatch (s'\<lparr>lg_reading := ms\<rparr>)"
| read_lost: "lg_reading s = [] \<Longrightarrow> read_group s = (ms, s') \<Longrightarrow> log_step D s ReadLost s'"
| stored: "lg_reading s \<noteq> [] \<Longrightarrow> process_batch D now True (lg_reading s) (lg_rows s) = (Inr (), rows) \<Longrightarrow>
    log_step D s (Stored acked)
      (s\<lparr>lg_rows := rows, lg_reading := [],
         lg_pending := (if acked then filter (\<lambda>i. i \<notin> fst ` set (lg_reading s)) (lg_pending s) else lg_pending s)\<rparr>)"
| rejected: "lg_reading s \<noteq> [] \<Longrightarrow> process_batch D now up (lg_reading s) (lg_rows s) = (Inl e, rows) \<Longrightarrow>
    log_step D s Rejected (s\<lparr>lg_rows := rows, lg_reading := []\<rparr>)"

inductive_cases log_stepE: "log_step D s ev s'"

text \<open>What an event does to the entries: which are handed to the logger, which reach the stream, which
  are queued again although they reached it, and which are given up.\<close>

fun handed :: "log_event \<Rightarrow> json dict list" where
  "handed (Publish e) = [e]"
| "handed (Immediate e) = [e]"
| "handed (Swallowed e) = [e]"
| "handed _ = []"

fun sent_by :: "log_event \<Rightarrow> json dict list" where
  "sent_by (Sent b) = b"
| "sent_by (SentNoReply b) = b"
| "sent_by (Immediate e) = [e]"
| "sent_by _ = []"

fun repeated_by :: "log_event \<Rightarrow> json dict list" where
  "repeated_by (SentNoReply b) = b"
| "repeated_by _ = []"

fun dropped_by :: "log_state \<Rightarrow> log_event \<Rightarrow> json dict list" where
  "dropped_by s (Failed b) = drop 100 b @ drop 100 (lg_buffer s)"
| "dropped_by s (SentNoReply b) = drop 100 b @ drop 100 (lg_buffer s)"
| "dropped_by s (Cancelled b) = b"
| "dropped_by s (Swallowed e) = [e]"
| "dropped_by s _ = []"

fun trouble :: "log_event \<Rightarrow> bool" where
  "trouble (Failed b) = True"
| "trouble (SentNoReply b) = True"
| "trouble (Cancelled b) = True"
| "trouble (Swallowed e) = True"
| "trouble _ = False"

abbreviation all_by :: "(log_event \<Rightarrow> json dict list) \<Rightarrow> log_event list \<Rightarrow> json dict list" where
  "all_by f es \<equiv> concat (map f es)"

text \<open>\<open>log_run D s es ds s'\<close>: the events \<open>es\<close> lead from \<open>s\<close> to \<open>s'\<close> and give up the entries \<open>ds\<close>.\<close>

inductive log_run :: "audit_env \<Rightarrow> log_state \<Rightarrow> log_event list \<Rightarrow> json dict list \<Rightarrow> log_state \<Rightarrow> bool" for D where
  start: "log_run D s [] [] s"
| step: "log_run D s es ds s1 \<Longrightarrow> log_step D s1 e s2 \<Longrightarrow> log_run D s (es @ [e]) (ds @ dropped_by s1 e) s2"

section \<open>Nothing appears or disappears unnoticed\<close>

lemma concat_remove1: "b \<in> set bs \<Longrightarrow> mset (concat bs) = mset b + mset (concat (remove1 b bs))"
  by (induction bs) (auto simp: ac_simps)

lemma take_drop_mset: "mset xs = mset (take n xs) + mset (drop n xs)"
  by (metis append_take_drop_id mset_append)

definition balanced :: "log_event list \<Rightarrow> json dict list \<Rightarrow> log_state \<Rightarrow> bool" where
  "balanced es ds s \<longleftrightarrow>
     mset (all_by handed es) + mset (all_by repeated_by es)
       = mset (lg_buffer s) + mset (concat (lg_flights s)) + mset (all_by sent_by es) + mset ds"

lemma balanced_step:
  assumes "balanced es ds s" "log_step D s e s'"
  shows "balanced (es @ [e]) (ds @ dropped_by s e) s'"
  using assms(2)
proof cases
  case (sent b)
  with assms(1) show ?thesis
    by (simp add: balanced_def flush_sent_def xadd_def concat_remove1 [OF sent(3)] ac_simps)
next
  case (failed b)
  with assms(1) show ?thesis
    by (simp add: balanced_def flush_failed_def concat_remove1 [OF failed(3)] take_drop_mset [of b 100]
        take_drop_mset [of "lg_buffer s" 100] ac_simps)
next
  case (cancelled b)
  with assms(1) show ?thesis
    by (simp add: balanced_def flush_cancelled_def concat_remove1 [OF cancelled(3)] ac_simps)
next
  case (sent_no_reply b)
  with assms(1) show ?thesis
    by (simp add: balanced_def flush_failed_def xadd_def concat_remove1 [OF sent_no_reply(3)] take_drop_mset [of b 100]
        take_drop_mset [of "lg_buffer s" 100] ac_simps)
qed (insert assms(1), auto simp: balanced_def publish_def take_batch_def xadd_def xtrim_def
      read_group_def Let_def ac_simps split: if_splits)

text \<open>The stream is what was sent, numbered in order, less a trimmed beginning.\<close>

definition numbered :: "audit_env \<Rightarrow> json dict list \<Rightarrow> (nat \<times> string dict) list" where
  "numbered D es = zip [0..<length es] (map (serialize D) es)"

lemma numbered_append:
  "numbered D (xs @ ys) = numbered D xs @ zip [length xs..<length xs + length ys] (map (serialize D) ys)"
  unfolding numbered_def length_append map_append upt_add_eq_append [OF le0] by (rule zip_append) simp

lemma length_numbered [simp]: "length (numbered D es) = length es"
  by (simp add: numbered_def)

definition stream_is :: "audit_env \<Rightarrow> json dict list \<Rightarrow> log_state \<Rightarrow> bool" where
  "stream_is D sent s \<longleftrightarrow> lg_next s = length sent \<and> (\<exists>k. lg_stream s = drop k (numbered D sent))"

lemma stream_is_xadd:
  assumes "stream_is D es s"
  shows "stream_is D (es @ b) (xadd D b s)"
proof -
  from assms obtain k where k: "lg_next s = length es" "lg_stream s = drop k (numbered D es)" by (auto simp: stream_is_def)
  let ?k = "min k (length es)"
  have "lg_stream s = drop ?k (numbered D es)" using k by (simp add: min_def)
  then have "lg_stream (xadd D b s) = drop ?k (numbered D (es @ b))"
    using k(1) by (simp add: xadd_def numbered_append)
  then show ?thesis unfolding stream_is_def using k by (auto simp: xadd_def)
qed

lemma stream_is_cong:
  "lg_next s' = lg_next s \<Longrightarrow> lg_stream s' = lg_stream s \<Longrightarrow> stream_is D es s' = stream_is D es s"
  by (simp add: stream_is_def)

lemma stream_is_step:
  assumes "stream_is D (all_by sent_by es) s" "log_step D s e s'"
  shows "stream_is D (all_by sent_by (es @ [e])) s'"
  using assms(2)
proof cases
  case (sent b)
  have "stream_is D (all_by sent_by es) (s\<lparr>lg_flights := remove1 b (lg_flights s)\<rparr>)"
    using assms(1) by (simp add: stream_is_def)
  with sent show ?thesis by (simp add: flush_sent_def stream_is_xadd)
next
  case (sent_no_reply b)
  with stream_is_xadd [OF assms(1), of b] show ?thesis by (simp add: stream_is_def flush_failed_def)
next
  case (immediate e)
  with stream_is_xadd [OF assms(1), of "[e]"] show ?thesis by simp
next
  case (trim k)
  with assms(1) show ?thesis by (auto simp: stream_is_def xtrim_def)
qed (insert assms(1), auto simp: stream_is_def publish_def take_batch_def flush_failed_def flush_cancelled_def
      read_group_def Let_def split: if_splits)

lemma log_run_balanced: "log_run D log_init es ds s \<Longrightarrow> balanced es ds s"
proof (induction log_init es ds s rule: log_run.induct)
  case start
  show ?case by (simp add: balanced_def log_init_def)
next
  case step
  then show ?case by (blast intro: balanced_step)
qed

lemma log_run_stream: "log_run D log_init es ds s \<Longrightarrow> stream_is D (all_by sent_by es) s"
proof (induction log_init es ds s rule: log_run.induct)
  case start
  show ?case by (simp add: stream_is_def numbered_def log_init_def)
next
  case step
  then show ?case by (blast intro: stream_is_step)
qed

section \<open>What the consumer writes\<close>

lemma batch_records_zip:
  assumes "batch_records D now ms = Inr rs"
  shows "length rs = length ms" "\<forall>(m, r) \<in> set (zip ms rs). parse_record D now (snd m) = Inr r"
proof -
  have "length rs = length ms \<and> (\<forall>(m, r) \<in> set (zip ms rs). parse_record D now (snd m) = Inr r)"
    using assms by (induction ms arbitrary: rs) (fastforce split: sum.splits)+
  then show "length rs = length ms" "\<forall>(m, r) \<in> set (zip ms rs). parse_record D now (snd m) = Inr r" by auto
qed

lemma process_batch_ok:
  assumes "process_batch D now up ms rows = (Inr u, rows')" "ms \<noteq> []"
  obtains rs where "batch_records D now ms = Inr rs" "list_all (row_ok D) rs" "rows' = rows @ zip (map fst ms) rs"
  using assms by (auto simp: process_batch_def split: sum.splits if_splits)

lemma process_batch_failed: "process_batch D now up ms rows = (Inl e, rows') \<Longrightarrow> rows' = rows"
  by (auto simp: process_batch_def split: sum.splits if_splits)

lemma numbered_sorted: "sorted_wrt (<) (map fst (numbered D es))"
  by (simp add: numbered_def sorted_wrt_upt)

lemma sorted_le_last: "sorted_wrt (<) xs \<Longrightarrow> x \<in> set xs \<Longrightarrow> x \<le> last xs" for xs :: "nat list"
  by (induction xs) (auto split: if_splits intro: less_imp_le)

text \<open>A read: entries that were sent, none of them given before, none given again.\<close>

lemma read_group_run:
  assumes "stream_is D sent s" "read_group s = (ms, s')"
  shows "set ms \<subseteq> set (numbered D sent)" "distinct (map fst ms)" "\<forall>i \<in> fst ` set ms. lg_cursor s \<le> i \<and> i < lg_cursor s'"
    "lg_cursor s \<le> lg_cursor s'" "lg_rows s' = lg_rows s" "lg_reading s' = lg_reading s"
proof -
  from assms obtain k where k: "ms = take 100 (filter (\<lambda>(i, _). lg_cursor s \<le> i) (drop k (numbered D sent)))"
    by (auto simp: stream_is_def read_group_def Let_def)
  show sub: "set ms \<subseteq> set (numbered D sent)"
    unfolding k by (auto dest!: in_set_takeD in_set_dropD)
  have "sorted_wrt (<) (map fst (filter (\<lambda>(i, _). lg_cursor s \<le> i) (drop k (numbered D sent))))"
    using numbered_sorted [of D sent]
    by (auto simp: sorted_wrt_map intro!: sorted_wrt_filter sorted_wrt_drop)
  then have sorted: "sorted_wrt (<) (map fst ms)" unfolding k by (simp add: take_map [symmetric] sorted_wrt_take)
  then show "distinct (map fst ms)" by (simp add: strict_sorted_iff)
  have low: "\<forall>i \<in> fst ` set ms. lg_cursor s \<le> i" unfolding k by (auto dest!: in_set_takeD)
  have s': "s' = (if ms = [] then s else s\<lparr>lg_cursor := Suc (fst (last ms)), lg_pending := lg_pending s @ map fst ms\<rparr>)"
    using assms(2) by (auto simp: read_group_def Let_def)
  have high: "\<forall>i \<in> fst ` set ms. i < lg_cursor s'"
  proof
    fix i assume i: "i \<in> fst ` set ms"
    then have "i \<le> last (map fst ms)" using sorted_le_last [OF sorted, of i] by simp
    with i show "i < lg_cursor s'" by (cases "ms = []") (auto simp: s' last_map)
  qed
  show "\<forall>i \<in> fst ` set ms. lg_cursor s \<le> i \<and> i < lg_cursor s'" using low high by blast
  show "lg_cursor s \<le> lg_cursor s'"
  proof (cases "ms = []")
    case False
    then have "lg_cursor s \<le> fst (last ms)" using low by simp
    with False show ?thesis by (simp add: s')
  qed (simp add: s')
  show "lg_rows s' = lg_rows s" "lg_reading s' = lg_reading s" by (simp_all add: s')
qed

definition rows_from :: "audit_env \<Rightarrow> json dict list \<Rightarrow> (nat \<times> audit_row) list \<Rightarrow> bool" where
  "rows_from D sent rows \<longleftrightarrow>
     (\<forall>(i, r) \<in> set rows. \<exists>fs now. (i, fs) \<in> set (numbered D sent) \<and> parse_record D now fs = Inr r \<and> row_ok D r)"

lemma numbered_mono: "set (numbered D sent) \<subseteq> set (numbered D (sent @ later))"
  by (simp add: numbered_append)

lemma rows_from_mono: "rows_from D sent rows \<Longrightarrow> rows_from D (sent @ later) rows"
  unfolding rows_from_def using numbered_mono [of D sent later] by blast

lemma rows_from_append: "rows_from D sent (xs @ ys) \<longleftrightarrow> rows_from D sent xs \<and> rows_from D sent ys"
  by (simp add: rows_from_def ball_Un)

definition consumer_ok :: "audit_env \<Rightarrow> json dict list \<Rightarrow> log_state \<Rightarrow> bool" where
  "consumer_ok D sent s \<longleftrightarrow>
     distinct (map fst (lg_reading s)) \<and> fst ` set (lg_reading s) \<subseteq> {..<lg_cursor s}
     \<and> fst ` set (lg_rows s) \<inter> fst ` set (lg_reading s) = {} \<and> fst ` set (lg_rows s) \<subseteq> {..<lg_cursor s}
     \<and> distinct (map fst (lg_rows s)) \<and> set (lg_reading s) \<subseteq> set (numbered D sent)
     \<and> rows_from D sent (lg_rows s)"

lemma consumer_ok_more:
  assumes "consumer_ok D sent s"
    "lg_reading s' = lg_reading s" "lg_cursor s' = lg_cursor s" "lg_rows s' = lg_rows s"
  shows "consumer_ok D (sent @ later) s'"
  using assms(1) by (simp add: consumer_ok_def assms(2-4) rows_from_mono subset_trans [OF _ numbered_mono])

lemma consumer_ok_stored:
  assumes ok: "consumer_ok D sent s" and ne: "lg_reading s \<noteq> []"
    and run: "process_batch D now True (lg_reading s) (lg_rows s) = (Inr (), rows)"
  shows "consumer_ok D sent (s\<lparr>lg_rows := rows, lg_reading := [], lg_pending := p\<rparr>)"
proof -
  let ?ms = "lg_reading s"
  obtain rs where rs: "batch_records D now ?ms = Inr rs" "list_all (row_ok D) rs" "rows = lg_rows s @ zip (map fst ?ms) rs"
    by (rule process_batch_ok [OF run ne])
  note len = batch_records_zip(1) [OF rs(1)] and recs = batch_records_zip(2) [OF rs(1)]
  have ids: "map fst (zip (map fst ?ms) rs) = map fst ?ms" using len by simp
  then have ids': "fst ` set (zip (map fst ?ms) rs) = fst ` set ?ms" by (metis list.set_map)
  have new: "\<exists>fs now. (i, fs) \<in> set (numbered D sent) \<and> parse_record D now fs = Inr r \<and> row_ok D r"
    if "(i, r) \<in> set (zip (map fst ?ms) rs)" for i r
  proof -
    from that obtain n where n: "n < length ?ms" "i = fst (?ms ! n)" "r = rs ! n" using len by (auto simp: set_zip)
    have "(?ms ! n, rs ! n) \<in> set (zip ?ms rs)" using n(1) len by (auto simp: set_zip)
    with recs have "parse_record D now (snd (?ms ! n)) = Inr r" using n by auto
    moreover have "?ms ! n \<in> set (numbered D sent)" using ok n(1) by (auto simp: consumer_ok_def)
    moreover have "row_ok D r" using rs(2) n len by (simp add: list_all_length)
    ultimately show ?thesis using n(2) by (metis prod.collapse)
  qed
  then have new': "rows_from D sent (zip (map fst ?ms) rs)" by (auto simp: rows_from_def)
  show ?thesis
    using ok ids' new' unfolding consumer_ok_def by (auto simp: rs(3) ids image_Un rows_from_append)
qed

lemma consumer_ok_read:
  assumes ok: "consumer_ok D sent s" and str: "stream_is D sent s" and run: "read_group s = (ms, s')"
  shows "consumer_ok D sent (s'\<lparr>lg_reading := ms\<rparr>)" "lg_reading s = [] \<Longrightarrow> consumer_ok D sent s'"
proof -
  note r = read_group_run [OF str run]
  have old: "fst ` set (lg_rows s) \<subseteq> {..<lg_cursor s}" "distinct (map fst (lg_rows s))" "rows_from D sent (lg_rows s)"
    using ok by (simp_all add: consumer_ok_def)
  have apart: "fst ` set (lg_rows s) \<inter> fst ` set ms = {}" using old(1) r(3) by force
  have new: "fst ` set ms \<subseteq> {..<lg_cursor s'}" using r(3) by auto
  have wide: "fst ` set (lg_rows s) \<subseteq> {..<lg_cursor s'}" using old(1) r(4) by auto
  show "consumer_ok D sent (s'\<lparr>lg_reading := ms\<rparr>)"
    using old(2, 3) r(1, 2) apart new wide by (simp add: consumer_ok_def r(5))
  show "consumer_ok D sent s'" if "lg_reading s = []"
    using old(2, 3) wide that by (simp add: consumer_ok_def r(5, 6))
qed

lemma consumer_ok_step:
  assumes "consumer_ok D (all_by sent_by es) s" "stream_is D (all_by sent_by es) s" "log_step D s e s'"
  shows "consumer_ok D (all_by sent_by (es @ [e])) s'"
  using assms(3)
proof cases
  case (read ms t)
  then show ?thesis using consumer_ok_read(1) [OF assms(1, 2) read(4)] by simp
next
  case (read_lost ms)
  then show ?thesis using consumer_ok_read(2) [OF assms(1, 2) read_lost(3)] by simp
next
  case (stored now rows acked)
  then show ?thesis using consumer_ok_stored [OF assms(1) stored(3, 4)] by simp
next
  case (rejected now up ex rows)
  have "consumer_ok D (all_by sent_by es) s'"
    using assms(1) process_batch_failed [OF rejected(4)] unfolding consumer_ok_def by (simp add: rejected(2))
  with rejected show ?thesis by simp
qed (insert consumer_ok_more [OF assms(1)] consumer_ok_more [OF assms(1), of _ "[]", simplified], auto simp: publish_def take_batch_def flush_sent_def flush_failed_def flush_cancelled_def xadd_def
      xtrim_def Let_def)

lemma log_run_consumer: "log_run D log_init es ds s \<Longrightarrow> consumer_ok D (all_by sent_by es) s"
proof (induction log_init es ds s rule: log_run.induct)
  case start
  show ?case by (simp add: consumer_ok_def rows_from_def log_init_def)
next
  case step
  then show ?case by (blast intro: consumer_ok_step log_run_stream)
qed

section \<open>The properties of the audit trail\<close>

lemma log_run_lossless:
  assumes "log_run D s0 es ds s"
    "\<forall>e \<in> set es. \<not> trouble e"
  shows "ds = [] \<and> all_by repeated_by es = []"
  using assms
proof induction
  case (step s es ds s1 e s2)
  then show ?case by (cases e) auto
qed simp

text \<open>C32. No log entry appears or disappears unnoticed, however requests, flushes, the consumer and the
  failures of Redis interleave: what was handed to the logger, and what a lost reply made it send
  again, is what waits in the buffer, what a flush holds, what was sent and what was given up; the
  stream is what was sent, in that order, less a trimmed beginning; and without a failure nothing is
  given up or sent twice.\<close>

theorem audit_trail_conserved:
  assumes "log_run D log_init es ds s"
  shows "mset (all_by handed es) + mset (all_by repeated_by es)
       = mset (lg_buffer s) + mset (concat (lg_flights s)) + mset (all_by sent_by es) + mset ds
    \<and> (\<exists>k. lg_stream s = drop k (zip [0..<length (all_by sent_by es)] (map (serialize D) (all_by sent_by es))))
    \<and> ((\<forall>e \<in> set es. \<not> trouble e)
        \<longrightarrow> ds = [] \<and> all_by repeated_by es = [])"
  using log_run_balanced [OF assms] log_run_stream [OF assms] log_run_lossless [OF assms]
  by (simp add: balanced_def stream_is_def numbered_def)


definition refused :: "audit_env \<Rightarrow> string dict \<Rightarrow> bool" where
  "refused D fs \<longleftrightarrow> (\<forall>now r. parse_record D now fs = Inr r \<longrightarrow> \<not> row_ok D r)"

lemma refused_batch:
  assumes "m \<in> set ms" "refused D (snd m)"
  shows "process_batch D now up ms rows \<noteq> (Inr u, rows')"
proof
  assume run: "process_batch D now up ms rows = (Inr u, rows')"
  from assms(1) have "ms \<noteq> []" by auto
  then obtain rs where rs: "batch_records D now ms = Inr rs" "list_all (row_ok D) rs"
    by (rule process_batch_ok [OF run])
  note b = batch_records_zip [OF rs(1)]
  from assms(1) obtain n where n: "n < length ms" "ms ! n = m" by (auto simp: in_set_conv_nth)
  then have "(m, rs ! n) \<in> set (zip ms rs)" using b(1) by (auto simp: set_zip)
  with b(2) have "parse_record D now (snd m) = Inr (rs ! n)" by auto
  moreover have "row_ok D (rs ! n)" using rs(2) n(1) b(1) by (simp add: list_all_length)
  ultimately show False using assms(2) by (simp add: refused_def)
qed

text \<open>Once given to the consumer, an entry is in the table now or never, unless its batch is being worked on.\<close>

definition doomed :: "(nat \<times> string dict) list \<Rightarrow> nat \<Rightarrow> log_state \<Rightarrow> bool" where
  "doomed ms j s \<longleftrightarrow>
     j < lg_cursor s \<and> j \<notin> fst ` set (lg_rows s) \<and> (lg_reading s = ms \<or> j \<notin> fst ` set (lg_reading s))"

lemma doomed_step:
  assumes bad: "m \<in> set ms" "refused D (snd m)" and d: "doomed ms j s" and str: "stream_is D sent s"
    and stp: "log_step D s e s'"
  shows "doomed ms j s'"
  using stp
proof cases
  case (read ms' t)
  note r = read_group_run [OF str read(4)]
  have "j \<notin> fst ` set ms'" using d r(3) by (force simp: doomed_def)
  with d r(4, 5) show ?thesis by (simp add: doomed_def read(2))
next
  case (read_lost ms')
  note r = read_group_run [OF str read_lost(3)]
  show ?thesis using d r(4-6) by (simp add: doomed_def)
next
  case (stored now rows acked)
  have "lg_reading s \<noteq> ms" using refused_batch [OF bad] stored(4) by metis
  with d have j: "j \<notin> fst ` set (lg_reading s)" "j \<notin> fst ` set (lg_rows s)" "j < lg_cursor s" by (auto simp: doomed_def)
  obtain rs where "rows = lg_rows s @ zip (map fst (lg_reading s)) rs"
    by (rule process_batch_ok [OF stored(4, 3)])
  with j show ?thesis by (auto simp: doomed_def stored(2) dest: set_zip_leftD)
next
  case (rejected now up ex rows)
  then show ?thesis using d process_batch_failed [OF rejected(4)] by (simp add: doomed_def)
qed (insert d, auto simp: doomed_def publish_def take_batch_def flush_sent_def flush_failed_def flush_cancelled_def xadd_def xtrim_def Let_def)

text \<open>One entry the table refuses, a NUL character in its message for one, takes its whole batch with
  it: none of the up to a hundred entries read together is in the table, and none ever gets there,
  whatever happens next.\<close>

theorem poisoned_batch_lost:
  assumes run: "log_run D log_init es ds s"
    and bad: "m \<in> set (lg_reading s)" "refused D (snd m)"
    and later: "log_run D s es' ds' s'"
    and same: "m' \<in> set (lg_reading s)"
  shows "fst m' \<notin> fst ` set (lg_rows s')"
proof -
  have "doomed (lg_reading s) (fst m') s" using log_run_consumer [OF run] same by (fastforce simp: consumer_ok_def doomed_def)
  with later run have "doomed (lg_reading s) (fst m') s' \<and> (\<exists>sent. stream_is D (all_by sent_by sent) s')"
    using bad
  proof (induction s es' ds' s' rule: log_run.induct)
    case (start s)
    then show ?case using log_run_stream by blast
  next
    case (step s es' ds' s1 e s2)
    then show ?case by (blast intro: doomed_step stream_is_step)
  qed
  then show ?thesis by (simp add: doomed_def)
qed

section \<open>From a call to its row\<close>

lemma digits_of_digit: "c \<in> set (digits_of n) \<Longrightarrow> digit_char c"
proof (induction n rule: digits_of.induct)
  case (1 n)
  have "digit_char (char_of (48 + k))" if "k < 10" for k :: nat
    using that by (simp add: digit_char_def)
  with 1 show ?case by (subst (asm) digits_of.simps) (auto split: if_splits)
qed

lemma digits_of_Nil [simp]: "digits_of n \<noteq> []"
  by (subst digits_of.simps) simp

lemma digits_value_fold:
  assumes "\<forall>c \<in> set s. digit_char c" "s \<noteq> []"
  shows "digits_value acc s = Some (foldl (\<lambda>a c. 10 * a + (of_char c - 48)) acc s)"
  using assms
proof (induction acc s rule: digits_value.induct)
  case (2 acc c cs)
  have "\<not> digit_char (CHR ''_'')" by (simp add: digit_char_def)
  with 2 show ?case by (cases cs) (auto simp: Let_def)
qed simp

lemma digits_of_fold: "foldl (\<lambda>a c. 10 * a + (of_char c - 48)) 0 (digits_of n) = n"
proof (induction n rule: digits_of.induct)
  case (1 n)
  have k: "of_char (char_of (48 + k) :: char) - 48 = k" if "k < 10" for k :: nat using that by simp
  show ?case
  proof (cases "n < 10")
    case True
    then show ?thesis using k by (subst digits_of.simps) simp
  next
    case False
    with 1 k [of "n mod 10"] show ?thesis by (subst digits_of.simps) simp
  qed
qed

lemma py_int_digits: "py_int (digits_of n) = Inr (int n)"
proof -
  have dig: "\<forall>c \<in> set (digits_of n). digit_char c" using digits_of_digit by blast
  have nosp: "\<forall>c \<in> set (digits_of n). \<not> space_char c" using dig by (auto simp: digit_char_def space_char_def)
  have keep: "dropWhile space_char xs = xs" if "\<forall>c \<in> set xs. \<not> space_char c" for xs
    using that by (cases xs) auto
  have strip: "py_strip (digits_of n) = digits_of n" using nosp by (simp add: py_strip_def keep)
  obtain c cs where c: "digits_of n = c # cs" by (cases "digits_of n") auto
  have "c \<noteq> CHR ''-''" "c \<noteq> CHR ''+''" using dig c by (auto simp: digit_char_def)
  then show ?thesis
    using digits_value_fold [OF dig, of 0] digits_of_fold [of n]
    by (simp add: py_int_def strip [unfolded c] c Let_def del: digits_value.simps)
qed

definition row_of_call :: "audit_env \<Rightarrow> log_site \<Rightarrow> log_entry \<Rightarrow> audit_row" where
  "row_of_call D l e =
     \<lparr>au_timestamp = ls_now l, au_level = py_upper (le_level e), au_logger = ls_logger l, au_message = le_message e,
      au_module = Some ''app.audit_logs.redis_logger'', au_function = Some (ls_function l), au_line = Some (int (ls_line l)),
      au_thread = Some (int (ls_thread l)), au_process = Some (int (ls_process l)),
      au_extra = (if le_extra e = [] then None else Some (ad_dumps D (le_extra e)))\<rparr>"

lemma record_of_entry:
  assumes iso: "\<And>t. ad_parse D (replace_z (ad_iso D t)) = Some t"
    and dumps: "\<And>d. ad_dumps D d \<notin> {''None'', ''null''}"
    and fn: "ls_function l \<noteq> ''None''"
    and keys: "\<forall>k \<in> set frame_keys. dget (le_extra e) k = None"
  shows "parse_record D now (serialize D (entry_of_call D l e)) = Inr (row_of_call D l e)"
proof -
  have rest: "filter (\<lambda>(k, _). k \<notin> set frame_keys) (le_extra e) = le_extra e"
    using keys by (intro filter_True) (auto simp: dget_def map_of_eq_None_iff)
  have pops: "pop_or k v (le_extra e) = v" if "k \<in> set frame_keys" for k v
    using keys that by (simp add: pop_or_def)
  have int: "int_text (int n) = digits_of n" for n by (simp add: int_text_def)
  have ints: "int_field fs k = Inr (Some (int n))" if "dget fs k = Some (digits_of n)" for fs k n
  proof -
    have "digits_of n \<noteq> ''None''" using digits_of_digit [of "CHR ''N''" n] by (auto simp: digit_char_def)
    with that show ?thesis by (simp add: int_field_def py_int_digits)
  qed
  have mem: "''module'' \<in> set frame_keys" "''function'' \<in> set frame_keys" "''line'' \<in> set frame_keys"
    by (simp_all add: frame_keys_def)
  have entry: "entry_of_call D l e =
      [(''timestamp'', JStr (ad_iso D (ls_now l))), (''level'', JStr (py_upper (le_level e))), (''logger'', JStr (ls_logger l)),
       (''message'', JStr (le_message e)), (''module'', JStr ''app.audit_logs.redis_logger''),
       (''function'', JStr (ls_function l)), (''line'', JInt (int (ls_line l))),
       (''thread_id'', JInt (int (ls_thread l))), (''process_id'', JInt (int (ls_process l))),
       (''extra'', if le_extra e = [] then JNull else JStr (ad_dumps D (le_extra e)))]"
    by (simp only: entry_of_call_def build_log_entry_def Let_def rest pops [OF mem(1)] pops [OF mem(2)] pops [OF mem(3)])
  define fs where "fs = serialize D (entry_of_call D l e)"
  have get: "dget fs ''timestamp'' = Some (ad_iso D (ls_now l))" "dget fs ''level'' = Some (py_upper (le_level e))"
    "dget fs ''logger'' = Some (ls_logger l)" "dget fs ''message'' = Some (le_message e)"
    "dget fs ''module'' = Some ''app.audit_logs.redis_logger''" "dget fs ''function'' = Some (ls_function l)"
    "dget fs ''line'' = Some (digits_of (ls_line l))" "dget fs ''thread_id'' = Some (digits_of (ls_thread l))"
    "dget fs ''process_id'' = Some (digits_of (ls_process l))"
    "dget fs ''extra'' = (if le_extra e = [] then None else Some (ad_dumps D (le_extra e)))"
    by (simp_all add: fs_def serialize_def entry py_str_def int dget_def)
  show ?thesis
    unfolding fs_def [symmetric]
    using iso dumps fn by (simp add: parse_record_def get ints field_or_def not_none_def row_of_call_def)
qed

text \<open>C34. What is read from the stream is what was logged: the record the consumer builds from a
  serialized entry has the time, level, message, place and arguments of the call.\<close>

theorem entry_roundtrip:
  assumes iso: "\<And>t. ad_parse D (replace_z (ad_iso D t)) = Some t"
    and dumps: "\<And>d. ad_dumps D d \<notin> {''None'', ''null''}"
    and fn: "ls_function l \<noteq> ''None''"
    and keys: "\<forall>k \<in> set frame_keys. dget (le_extra e) k = None"
  shows "parse_record D now (serialize D (entry_of_call D l e)) = Inr (row_of_call D l e)"
  by (rule record_of_entry [OF assms])

section \<open>A run\<close>

definition demo_audit :: audit_env where
  "demo_audit =
     \<lparr>ad_dumps = (\<lambda>_. ''{}''), ad_str = (\<lambda>_. ''True''), ad_iso = (\<lambda>t. if t < 0 then ''-'' else digits_of (nat t)),
      ad_parse = (\<lambda>s. case py_int s of Inl _ \<Rightarrow> None | Inr n \<Rightarrow> Some n), ad_jsonb = (\<lambda>s. s = ''{}'')\<rparr>"

definition demo_site :: log_site where
  "demo_site = \<lparr>ls_now = 100, ls_logger = ''audit'', ls_function = ''login'', ls_line = 12, ls_thread = 7, ls_process = 3\<rparr>"

definition demo_line :: "string \<Rightarrow> json dict" where
  "demo_line msg = entry_of_call demo_audit demo_site (log_entry_of ''INFO'' msg [] False)"

abbreviation nul_line :: "json dict" where
  "nul_line \<equiv> demo_line [CHR ''a'', CHR 0x00]"

definition demo_lines :: "string list \<Rightarrow> log_state" where
  "demo_lines msgs = fold (\<lambda>m. xadd demo_audit [demo_line m]) msgs log_init"

text \<open>Two entries are sent at once and read together.\<close>

definition demo_read :: "string list \<Rightarrow> log_state" where
  "demo_read msgs = (let (ms, s) = read_group (demo_lines msgs) in s\<lparr>lg_reading := ms\<rparr>)"

lemma demo_read_run:
  "log_run demo_audit log_init (map (\<lambda>m. Immediate (demo_line m)) [m1, m2] @ [ReadBatch]) [] (demo_read [m1, m2])"
proof -
  have a: "log_run demo_audit log_init [] [] log_init" by (rule log_run.start)
  have b: "log_run demo_audit log_init [Immediate (demo_line m1)] [] (demo_lines [m1])"
    using log_run.step [OF a log_step.immediate [of _ _ "demo_line m1"]] by (simp add: demo_lines_def)
  have c: "log_run demo_audit log_init [Immediate (demo_line m1), Immediate (demo_line m2)] [] (demo_lines [m1, m2])"
    using log_run.step [OF b log_step.immediate [of _ _ "demo_line m2"]] by (simp add: demo_lines_def)
  have idle: "lg_reading (demo_lines [m1, m2]) = []" by (simp add: demo_lines_def xadd_def log_init_def)
  obtain ms s where r: "read_group (demo_lines [m1, m2]) = (ms, s)" by fastforce
  from log_run.step [OF c log_step.read [OF idle r]] show ?thesis by (simp add: demo_read_def r)
qed

theorem audit_trail_conserved_witness:
  "mset (all_by handed [Immediate (demo_line ''a''), Immediate (demo_line ''b''), ReadBatch])
     = mset (lg_buffer (demo_read [''a'', ''b''])) + {#demo_line ''a'', demo_line ''b''#}"
  using audit_trail_conserved [OF demo_read_run [of "''a''" "''b''"]]
  by (auto simp: demo_read_def demo_lines_def read_group_def Let_def xadd_def log_init_def)


definition tally :: "int \<Rightarrow> string" where
  "tally t = (if t < 0 then CHR ''-'' # replicate (nat (- t)) CHR ''I'' else replicate (nat t) CHR ''I'')"

definition read_tally :: "string \<Rightarrow> int option" where
  "read_tally s = (case s of [] \<Rightarrow> Some 0 | c # cs \<Rightarrow> Some (if c = CHR ''-'' then - int (length cs) else int (length s)))"

lemma read_tally: "read_tally (replace_z (tally t)) = Some t"
proof -
  have z: "replace_z (replicate n CHR ''I'') = replicate n CHR ''I''" for n by (induction n) (auto simp: replace_z_def)
  have m: "replace_z (CHR ''-'' # s) = CHR ''-'' # replace_z s" for s by (simp add: replace_z_def)
  have r: "read_tally (replicate n CHR ''I'') = Some (int n)" for n by (cases n) (simp_all add: read_tally_def)
  have n: "read_tally (CHR ''-'' # s) = Some (- int (length s))" for s by (simp add: read_tally_def)
  show ?thesis by (cases "t < 0") (simp_all add: tally_def m z r n)
qed

theorem entry_roundtrip_witness:
  "parse_record (demo_audit\<lparr>ad_iso := tally, ad_parse := read_tally\<rparr>) 5
     (serialize (demo_audit\<lparr>ad_iso := tally, ad_parse := read_tally\<rparr>)
        (entry_of_call (demo_audit\<lparr>ad_iso := tally, ad_parse := read_tally\<rparr>) demo_site
           (log_entry_of ''INFO'' ''hi'' [(''user_id'', JStr ''u1'')] False)))
   = Inr \<lparr>au_timestamp = 100, au_level = ''INFO'', au_logger = ''audit'', au_message = ''hi'',
       au_module = Some ''app.audit_logs.redis_logger'', au_function = Some ''login'', au_line = Some 12, au_thread = Some 7,
       au_process = Some 3, au_extra = Some ''{}''\<rparr>"
proof -
  let ?e = "log_entry_of ''INFO'' ''hi'' [(''user_id'', JStr ''u1'')] False"
  have keys: "\<forall>k \<in> set frame_keys. dget (le_extra ?e) k = None" by code_simp
  have up: "py_upper ''INFO'' = ''INFO''" by code_simp
  show ?thesis
    by (subst entry_roundtrip) (use keys in \<open>simp_all add: read_tally demo_audit_def demo_site_def row_of_call_def
          log_entry_of_def up\<close>)
qed

theorem poisoned_batch_lost_witness:
  "fst (1 :: nat, serialize demo_audit (demo_line ''b'')) \<notin> fst ` set (lg_rows ((demo_read [[CHR ''a'', CHR 0x00], ''b''])\<lparr>lg_reading := []\<rparr>))"
proof (rule poisoned_batch_lost [OF demo_read_run [of "[CHR ''a'', CHR 0x00]" "''b''"]])
  let ?s = "demo_read [[CHR ''a'', CHR 0x00], ''b'']"
  have rd: "lg_reading ?s = [(0, serialize demo_audit nul_line), (1, serialize demo_audit (demo_line ''b''))]" by code_simp
  show "(0, serialize demo_audit nul_line) \<in> set (lg_reading ?s)" by (simp add: rd)
  show "(1, serialize demo_audit (demo_line ''b'')) \<in> set (lg_reading ?s)" by (simp add: rd)
  have s: "serialize demo_audit nul_line = [(''timestamp'', ''100''), (''level'', ''INFO''), (''logger'', ''audit''),
      (''message'', [CHR ''a'', CHR 0x00]), (''module'', ''app.audit_logs.redis_logger''), (''function'', ''login''),
      (''line'', ''12''), (''thread_id'', ''7''), (''process_id'', ''3'')]" by code_simp
  show "refused demo_audit (snd (0, serialize demo_audit nul_line))"
    by (auto simp: refused_def s parse_record_def Let_def row_ok_def field_or_def dget_def split: sum.splits)
  have p: "process_batch demo_audit 5 True (lg_reading ?s) (lg_rows ?s) = (Inl (DbErr DataError), [])" by code_simp
  have ne: "lg_reading ?s \<noteq> []" by (simp add: rd)
  have rows: "lg_rows ?s = []" by code_simp
  have "log_step demo_audit ?s Rejected (?s\<lparr>lg_rows := [], lg_reading := []\<rparr>)" by (rule log_step.rejected [OF ne p])
  then have stp: "log_step demo_audit ?s Rejected (?s\<lparr>lg_reading := []\<rparr>)" by (simp add: rows [symmetric] del: rows)
  show "log_run demo_audit ?s ([] @ [Rejected]) ([] @ dropped_by ?s Rejected) (?s\<lparr>lg_reading := []\<rparr>)"
    by (rule log_run.step [OF log_run.start stp])
qed

section \<open>Stopping\<close>

text \<open>Stopping the logger flushes what waits in the buffer, and loses the batch of a periodic flush that
  is under way: the cancellation passes by the handler that would queue the batch again. What
  happens is a run of the trail that gives up exactly this batch, and the stream gets the buffer
  without it.\<close>

theorem stop_loses_batch_under_way:
  assumes "b \<in> set (lg_flights s)"
  shows "let s' = stop_buffer D (Some b) True s in
     lg_buffer s' = [] \<and> mset (lg_flights s) = mset (lg_flights s') + {#b#}
     \<and> lg_stream s' = lg_stream s
         @ zip [lg_next s..<lg_next s + length (lg_buffer s)] (map (serialize D) (lg_buffer s))
     \<and> (\<exists>es. log_run D s es b s')"
proof -
  let ?s1 = "flush_cancelled b s"
  have r1: "log_run D s [Cancelled b] b ?s1"
    using log_run.step [OF log_run.start log_step.cancelled [OF assms]] by simp
  show ?thesis
  proof (cases "lg_buffer s = []")
    case True
    with r1 assms show ?thesis by (auto simp: stop_buffer_def flush_cancelled_def Let_def)
  next
    case False
    let ?b = "lg_buffer s"
    let ?s2 = "take_batch ?s1"
    have buf: "lg_buffer ?s1 = ?b" by (simp add: flush_cancelled_def)
    have r2: "log_run D s ([Cancelled b] @ [TakeBatch]) b ?s2"
      using log_run.step [OF r1 log_step.take_batch] by simp
    have "?b \<in> set (lg_flights ?s2)" using False by (simp add: take_batch_def flush_cancelled_def)
    then have "log_run D s (([Cancelled b] @ [TakeBatch]) @ [Sent ?b]) b (flush_sent D ?b ?s2)"
      using log_run.step [OF r2 log_step.sent] by simp
    moreover have "stop_buffer D (Some b) True s = flush_sent D ?b ?s2"
      using False by (simp add: stop_buffer_def buf Let_def)
    ultimately show ?thesis
      using False assms
      by (auto simp: Let_def flush_sent_def xadd_def take_batch_def flush_cancelled_def intro!: exI)
  qed
qed

theorem stop_loses_batch_under_way_witness:
  "let s = log_init\<lparr>lg_flights := [[[(''message'', JStr ''lost'')]]], lg_buffer := [[(''message'', JStr ''kept'')]]\<rparr>;
       s' = stop_buffer demo_audit (Some [[(''message'', JStr ''lost'')]]) True s in
   lg_buffer s' = [] \<and> lg_stream s' = [(0, [(''message'', ''kept'')])] \<and> (\<exists>es. log_run demo_audit s es [[(''message'', JStr ''lost'')]] s')"
proof -
  let ?s = "log_init\<lparr>lg_flights := [[[(''message'', JStr ''lost'')]]], lg_buffer := [[(''message'', JStr ''kept'')]]\<rparr>"
  have "[[(''message'', JStr ''lost'')]] \<in> set (lg_flights ?s)" by simp
  from stop_loses_batch_under_way [OF this, of demo_audit] show ?thesis
    by (simp add: Let_def log_init_def serialize_def py_str_def)
qed

end
