(* ===== verification/Audit_Consumer.thy ===== *)
theory Audit_Consumer
  imports Audit_Trail
begin

text \<open>
  The consumer as a process (app/audit_logs/consumer.py): its connections, its loop and how it ends.
  One iteration of the loop is a function of what its calls answer; it is a run of the trail of
  \<open>Audit_Trail\<close>, and a loop whose calls are answered writes the whole stream.
\<close>

section \<open>The loop\<close>

text \<open>A call is answered, raises, or its task is cancelled while it waits.\<close>

datatype stream_reply = Answer | Fault | Cut

text \<open>
  What happens in one iteration: the clock, the replies of \<open>xreadgroup\<close>, \<open>executemany\<close>, \<open>xack\<close> and
  \<open>asyncio.sleep\<close>, whether Redis had given the entries or taken the acknowledgement although its answer
  did not arrive, and whether a signal called \<open>stop\<close>.
\<close>

record tick =
  tk_now :: int
  tk_read :: stream_reply
  tk_given :: bool
  tk_insert :: stream_reply
  tk_ack :: stream_reply
  tk_acked :: bool
  tk_pause :: stream_reply
  tk_stop :: bool

text \<open>The loop goes on, is left by \<open>break\<close>, or by an exception nothing handles: a cancellation during
  the pause, which is inside a handler.\<close>

datatype iteration = Again | Leave | Escapes

definition back_off :: "tick \<Rightarrow> iteration" where
  "back_off t = (if tk_pause t = Cut then Escapes else Again)"

definition after_reply :: "tick \<Rightarrow> stream_reply \<Rightarrow> iteration" where
  "after_reply t r = (case r of Answer \<Rightarrow> Again | Fault \<Rightarrow> back_off t | Cut \<Rightarrow> Leave)"

definition acknowledge :: "(nat \<times> string dict) list \<Rightarrow> log_state \<Rightarrow> log_state" where
  "acknowledge ms s = s\<lparr>lg_pending := filter (\<lambda>i. i \<notin> fst ` set ms) (lg_pending s)\<rparr>"

definition consumer_tick :: "audit_env \<Rightarrow> tick \<Rightarrow> log_state \<Rightarrow> iteration \<times> log_state" where
  "consumer_tick D t s =
     (let (ms, s1) = read_group s in
      if tk_read t \<noteq> Answer then (after_reply t (tk_read t), if tk_given t then s1 else s)
      else if ms = [] then (Again, s1)
      else case batch_records D (tk_now t) ms of
             Inl e \<Rightarrow> (back_off t, s1)
           | Inr _ \<Rightarrow>
               (case process_batch D (tk_now t) (tk_insert t = Answer) ms (lg_rows s1) of
                  (Inl e, rows) \<Rightarrow> (if tk_insert t = Cut then Leave else back_off t, s1\<lparr>lg_rows := rows\<rparr>)
                | (Inr _, rows) \<Rightarrow>
                    (after_reply t (tk_ack t),
                     (if tk_ack t = Answer \<or> tk_acked t then acknowledge ms else id) (s1\<lparr>lg_rows := rows\<rparr>))))"

datatype loop_end = Returned | Raised | Waiting

fun consumer_loop :: "audit_env \<Rightarrow> bool \<Rightarrow> tick list \<Rightarrow> log_state \<Rightarrow> loop_end \<times> log_state" where
  "consumer_loop D stopped [] s = (if stopped then Returned else Waiting, s)"
| "consumer_loop D stopped (t # ts) s =
     (if stopped then (Returned, s)
      else case consumer_tick D t s of
             (Again, s') \<Rightarrow> consumer_loop D (tk_stop t) ts s'
           | (Leave, s') \<Rightarrow> (Returned, s')
           | (Escapes, s') \<Rightarrow> (Raised, s'))"

section \<open>The process\<close>

text \<open>
  \<open>mn_group\<close> is what creating the group answers: a new group starts before the first entry, one that is
  there (\<open>BUSYGROUP\<close>) keeps its place. \<open>mn_close\<close> says whether closing the connection to Redis succeeds.
\<close>

datatype group_reply = Created | BusyGroup | GroupFault

record main_env =
  mn_pool :: bool
  mn_group :: group_reply
  mn_stopped :: bool
  mn_ticks :: "tick list"
  mn_close :: bool

record consumer_process =
  cp_redis :: bool
  cp_pool :: bool
  cp_end :: loop_end
  cp_log :: log_state

definition connect_consumer :: "main_env \<Rightarrow> log_state \<Rightarrow> consumer_process" where
  "connect_consumer E s =
     (if \<not> mn_pool E then \<lparr>cp_redis = True, cp_pool = False, cp_end = Raised, cp_log = s\<rparr>
      else case mn_group E of
             Created \<Rightarrow> \<lparr>cp_redis = True, cp_pool = True, cp_end = Waiting, cp_log = s\<lparr>lg_cursor := 0, lg_pending := []\<rparr>\<rparr>
           | BusyGroup \<Rightarrow> \<lparr>cp_redis = True, cp_pool = True, cp_end = Waiting, cp_log = s\<rparr>
           | GroupFault \<Rightarrow> \<lparr>cp_redis = True, cp_pool = True, cp_end = Raised, cp_log = s\<rparr>)"

definition close_consumer :: "main_env \<Rightarrow> consumer_process \<Rightarrow> consumer_process" where
  "close_consumer E p =
     (if cp_redis p \<and> \<not> mn_close E then p\<lparr>cp_end := Raised\<rparr> else p\<lparr>cp_redis := False, cp_pool := False\<rparr>)"

definition consumer_main :: "audit_env \<Rightarrow> main_env \<Rightarrow> log_state \<Rightarrow> consumer_process" where
  "consumer_main D E s =
     (let p = connect_consumer E s in
      if cp_end p = Raised then close_consumer E p
      else let (e, s') = consumer_loop D (mn_stopped E) (mn_ticks E) (cp_log p); p' = p\<lparr>cp_end := e, cp_log := s'\<rparr> in
           if e = Waiting then p' else close_consumer E p')"

section \<open>An iteration is a run of the trail\<close>

lemma log_run_append: "log_run D s1 es2 ds2 s2 \<Longrightarrow> log_run D s es1 ds1 s1 \<Longrightarrow> log_run D s (es1 @ es2) (ds1 @ ds2) s2"
proof (induction rule: log_run.induct)
  case (start s1)
  then show ?case by simp
next
  case (step s1 es ds s2 e s3)
  from log_run.step [OF step.IH [OF step.prems] step.hyps(2)] show ?case by simp
qed

text \<open>The events of the consumer.\<close>

definition consumer_event :: "log_event \<Rightarrow> bool" where
  "consumer_event e \<longleftrightarrow> (case e of ReadBatch \<Rightarrow> True | ReadLost \<Rightarrow> True | Stored _ \<Rightarrow> True | Rejected \<Rightarrow> True | _ \<Rightarrow> False)"

definition consumer_run :: "audit_env \<Rightarrow> log_state \<Rightarrow> log_state \<Rightarrow> bool" where
  "consumer_run D s s' \<longleftrightarrow> lg_reading s' = [] \<and> (\<exists>es. list_all consumer_event es \<and> log_run D s es [] s')"

lemma consumer_run_refl: "lg_reading s = [] \<Longrightarrow> consumer_run D s s"
  unfolding consumer_run_def by (intro conjI exI [of _ "[]"]) (simp_all add: log_run.start)

lemma consumer_run_trans: "consumer_run D s s1 \<Longrightarrow> consumer_run D s1 s2 \<Longrightarrow> consumer_run D s s2"
  unfolding consumer_run_def by (metis append_Nil list_all_append log_run_append)

lemma read_group_keeps:
  assumes "read_group s = (ms, s1)"
  shows "lg_rows s1 = lg_rows s" "lg_reading s1 = lg_reading s" "lg_stream s1 = lg_stream s" "ms = [] \<Longrightarrow> s1 = s"
  using assms by (auto simp: read_group_def Let_def split: if_splits)

lemma idle_reading:
  assumes "lg_reading s = []"
  shows "s\<lparr>lg_rows := r, lg_reading := []\<rparr> = s\<lparr>lg_rows := r\<rparr>"
    "s\<lparr>lg_rows := r, lg_reading := [], lg_pending := p\<rparr> = s\<lparr>lg_rows := r, lg_pending := p\<rparr>"
    "s\<lparr>lg_rows := r, lg_pending := lg_pending s\<rparr> = s\<lparr>lg_rows := r\<rparr>"
  using assms by (cases s; simp)+

lemma read_lost_run: "lg_reading s = [] \<Longrightarrow> read_group s = (ms, s1) \<Longrightarrow> consumer_run D s s1"
  using log_run.step [OF log_run.start log_step.read_lost, of s ms s1 D] read_group_keeps(2) [of s ms s1]
  unfolding consumer_run_def by (intro conjI exI [of _ "[ReadLost]"]) (simp_all add: consumer_event_def)

lemma read_run:
  assumes "lg_reading s = []" "read_group s = (ms, s1)" "log_step D (s1\<lparr>lg_reading := ms\<rparr>) e s2" "lg_reading s2 = []"
    "consumer_event e" "dropped_by (s1\<lparr>lg_reading := ms\<rparr>) e = []"
  shows "consumer_run D s s2"
proof -
  have "log_run D s ([] @ [ReadBatch]) ([] @ dropped_by s ReadBatch) (s1\<lparr>lg_reading := ms\<rparr>)"
    by (rule log_run.step [OF log_run.start log_step.read [OF assms(1,2)]])
  from log_run.step [OF this assms(3)] assms(4-6) show ?thesis
    unfolding consumer_run_def by (intro conjI exI [of _ "[ReadBatch, e]"]) (simp_all add: consumer_event_def)
qed

lemma rejected_run:
  assumes "lg_reading s = []" "read_group s = (ms, s1)" "ms \<noteq> []"
    and "process_batch D now up ms (lg_rows s1) = (Inl e, rows)"
  shows "consumer_run D s (s1\<lparr>lg_rows := rows\<rparr>)"
proof (rule read_run [OF assms(1,2)])
  have r: "lg_reading s1 = []" using read_group_keeps(2) [OF assms(2)] assms(1) by simp
  have "log_step D (s1\<lparr>lg_reading := ms\<rparr>) Rejected ((s1\<lparr>lg_reading := ms\<rparr>)\<lparr>lg_rows := rows, lg_reading := []\<rparr>)"
    by (rule log_step.rejected) (use assms(3,4) in simp_all)
  then show "log_step D (s1\<lparr>lg_reading := ms\<rparr>) Rejected (s1\<lparr>lg_rows := rows\<rparr>)" using r by (simp add: idle_reading)
  show "lg_reading (s1\<lparr>lg_rows := rows\<rparr>) = []" using r by simp
qed (simp_all add: consumer_event_def)

lemma stored_run:
  assumes "lg_reading s = []" "read_group s = (ms, s1)" "ms \<noteq> []"
    and "process_batch D now True ms (lg_rows s1) = (Inr (), rows)"
  shows "consumer_run D s ((if acked then acknowledge ms else id) (s1\<lparr>lg_rows := rows\<rparr>))"
proof (rule read_run [OF assms(1,2)])
  have r: "lg_reading s1 = []" using read_group_keeps(2) [OF assms(2)] assms(1) by simp
  have "log_step D (s1\<lparr>lg_reading := ms\<rparr>) (Stored acked)
      ((s1\<lparr>lg_reading := ms\<rparr>)\<lparr>lg_rows := rows, lg_reading := [],
         lg_pending := (if acked then filter (\<lambda>i. i \<notin> fst ` set (lg_reading (s1\<lparr>lg_reading := ms\<rparr>))) (lg_pending (s1\<lparr>lg_reading := ms\<rparr>))
                        else lg_pending (s1\<lparr>lg_reading := ms\<rparr>))\<rparr>)"
    by (rule log_step.stored) (use assms(3,4) in simp_all)
  then show "log_step D (s1\<lparr>lg_reading := ms\<rparr>) (Stored acked) ((if acked then acknowledge ms else id) (s1\<lparr>lg_rows := rows\<rparr>))"
    using r by (cases acked) (simp_all add: acknowledge_def idle_reading)
  show "lg_reading ((if acked then acknowledge ms else id) (s1\<lparr>lg_rows := rows\<rparr>)) = []" using r by (simp add: acknowledge_def)
qed (simp_all add: consumer_event_def)

lemma process_batch_unparsed: "ms \<noteq> [] \<Longrightarrow> batch_records D now ms = Inl e \<Longrightarrow> process_batch D now up ms rows = (Inl e, rows)"
  by (simp add: process_batch_def)

lemma process_batch_down: "ms \<noteq> [] \<Longrightarrow> process_batch D now False ms rows = (Inr u, rows') \<Longrightarrow> False"
  by (auto simp: process_batch_def split: sum.splits)

lemma consumer_tick_run:
  assumes idle: "lg_reading s = []" and tick: "consumer_tick D t s = (it, s')"
  shows "consumer_run D s s'"
proof -
  obtain ms s1 where rd: "read_group s = (ms, s1)" by fastforce
  note lost = read_lost_run [OF idle rd, of D] and same = consumer_run_refl [OF idle, of D]
  show ?thesis
  proof (cases "tk_read t = Answer \<and> ms \<noteq> []")
    case False
    with tick rd lost same show ?thesis by (auto simp: consumer_tick_def Let_def split: if_splits)
  next
    case True
    show ?thesis
    proof (cases "batch_records D (tk_now t) ms")
      case (Inl e)
      have "consumer_run D s (s1\<lparr>lg_rows := lg_rows s1\<rparr>)"
        by (rule rejected_run [OF idle rd conjunct2 [OF True] process_batch_unparsed [OF conjunct2 [OF True] Inl, of True]])
      with tick rd True Inl show ?thesis by (simp add: consumer_tick_def)
    next
      case (Inr rs)
      obtain res rows where pb: "process_batch D (tk_now t) (tk_insert t = Answer) ms (lg_rows s1) = (res, rows)" by fastforce
      show ?thesis
      proof (cases res)
        case (Inl e)
        with tick rd True Inr pb rejected_run [OF idle rd conjunct2 [OF True] pb [unfolded Inl]] show ?thesis
          by (simp add: consumer_tick_def)
      next
        case (Inr u)
        have up: "tk_insert t = Answer"
          using pb process_batch_down True by (cases "tk_insert t = Answer") (auto simp: Inr)
        have "process_batch D (tk_now t) True ms (lg_rows s1) = (Inr (), rows)" using pb up by (simp add: Inr)
        from stored_run [OF idle rd conjunct2 [OF True] this, of "tk_ack t = Answer \<or> tk_acked t"]
        show ?thesis using tick rd True \<open>batch_records D (tk_now t) ms = Inr rs\<close> pb
          by (simp add: consumer_tick_def Inr)
      qed
    qed
  qed
qed

lemma consumer_loop_run:
  "lg_reading s = [] \<Longrightarrow> consumer_loop D stopped ts s = (en, s') \<Longrightarrow> consumer_run D s s'"
proof (induction D stopped ts s rule: consumer_loop.induct)
  case (1 D stopped s)
  then show ?case by (simp add: consumer_run_refl split: if_splits)
next
  case (2 D stopped t ts s)
  show ?case
  proof (cases stopped)
    case True
    with 2(2,3) show ?thesis by (simp add: consumer_run_refl)
  next
    case False
    obtain it s1 where t: "consumer_tick D t s = (it, s1)" by fastforce
    have first: "consumer_run D s s1" by (rule consumer_tick_run [OF 2(2) t])
    show ?thesis
    proof (cases it)
      case Again
      have "consumer_run D s1 s'"
        by (rule 2(1) [OF False t [symmetric] Again]) (use first 2(3) t Again False in \<open>simp_all add: consumer_run_def\<close>)
      with first show ?thesis by (rule consumer_run_trans)
    qed (use first 2(3) t False in simp_all)
  qed
qed

section \<open>A consumer that is answered\<close>

definition answered :: "tick \<Rightarrow> bool" where
  "answered t \<longleftrightarrow> tk_read t = Answer \<and> tk_insert t = Answer \<and> tk_ack t = Answer \<and> \<not> tk_stop t"

text \<open>The entries the group was not given yet, and what the table will say of one.\<close>

definition unread :: "log_state \<Rightarrow> (nat \<times> string dict) list" where
  "unread s = filter (\<lambda>(i, _). lg_cursor s \<le> i) (lg_stream s)"

definition readable :: "audit_env \<Rightarrow> tick list \<Rightarrow> (nat \<times> string dict) list \<Rightarrow> bool" where
  "readable D ts ms \<longleftrightarrow> (\<forall>m \<in> set ms. \<forall>t \<in> set ts. \<exists>r. parse_record D (tk_now t) (snd m) = Inr r \<and> row_ok D r)"

definition row_for :: "audit_env \<Rightarrow> tick list \<Rightarrow> nat \<times> string dict \<Rightarrow> nat \<times> audit_row \<Rightarrow> bool" where
  "row_for D ts m x \<longleftrightarrow> fst x = fst m \<and> (\<exists>t \<in> set ts. parse_record D (tk_now t) (snd m) = Inr (snd x))"

lemma readable_records:
  assumes "\<forall>m \<in> set ms. \<exists>r. parse_record D now (snd m) = Inr r \<and> row_ok D r"
  obtains rs where "batch_records D now ms = Inr rs" "list_all (row_ok D) rs"
proof -
  have "\<exists>rs. batch_records D now ms = Inr rs \<and> list_all (row_ok D) rs"
    using assms by (induction ms) auto
  with that show ?thesis by blast
qed

text \<open>A read gives out the first hundred of them.\<close>

lemma unread_read:
  assumes "sorted_wrt (<) (map fst (lg_stream s))" "read_group s = (ms, s1)"
  shows "ms = take 100 (unread s)" "unread s1 = drop 100 (unread s)"
proof -
  show ms: "ms = take 100 (unread s)" using assms(2) by (auto simp: read_group_def unread_def Let_def split: if_splits)
  let ?u = "unread s"
  have sorted: "sorted_wrt (<) (map fst ?u)"
    using assms(1) by (auto simp: unread_def sorted_wrt_map intro: sorted_wrt_filter)
  show "unread s1 = drop 100 ?u"
  proof (cases "ms = []")
    case True
    with assms(2) have "s1 = s" by (rule read_group_keeps(4))
    with True ms show ?thesis by simp
  next
    case False
    let ?c = "Suc (fst (last ms))"
    have s1: "lg_cursor s1 = ?c" "lg_stream s1 = lg_stream s"
      using False assms(2) by (auto simp: read_group_def Let_def split: if_splits)
    have all: "sorted_wrt (<) (map fst ms @ map fst (drop 100 ?u))"
      using sorted by (simp add: ms flip: map_append)
    have le: "i \<le> fst (last ms)" if "i \<in> set (map fst ms)" for i
      using sorted_le_last [of "map fst ms" i] all that False by (simp add: sorted_wrt_append last_map)
    have low: "filter (\<lambda>(i, _). ?c \<le> i) ms = []"
      using le by (fastforce simp: filter_empty_conv)
    have high: "filter (\<lambda>(i, _). ?c \<le> i) (drop 100 ?u) = drop 100 ?u"
      using all False by (intro filter_True) (fastforce simp: sorted_wrt_append Suc_le_eq)
    have cur: "lg_cursor s \<le> ?c"
    proof -
      have "last ms \<in> set ?u" using False ms by (metis in_set_takeD last_in_set)
      then show ?thesis by (auto simp: unread_def)
    qed
    then have "unread s1 = filter (\<lambda>(i, _). ?c \<le> i) ?u"
      by (auto simp: unread_def s1 intro!: filter_cong)
    also have "\<dots> = filter (\<lambda>(i, _). ?c \<le> i) (ms @ drop 100 ?u)" by (simp add: ms)
    finally show ?thesis by (simp only: filter_append low high append_Nil)
  qed
qed

lemma answered_tick:
  assumes sorted: "sorted_wrt (<) (map fst (lg_stream s))" and ok: "answered t"
    and good: "\<forall>m \<in> set (unread s). \<exists>r. parse_record D (tk_now t) (snd m) = Inr r \<and> row_ok D r"
  obtains new s' where "consumer_tick D t s = (Again, s')" "lg_rows s' = lg_rows s @ new"
    "list_all2 (row_for D [t]) (take 100 (unread s)) new" "unread s' = drop 100 (unread s)"
    "lg_stream s' = lg_stream s" "set (lg_pending s') \<subseteq> set (lg_pending s)"
proof -
  obtain ms s1 where rd: "read_group s = (ms, s1)" by fastforce
  note u = unread_read [OF sorted rd] and keep = read_group_keeps [OF rd]
  show ?thesis
  proof (cases "ms = []")
    case True
    with keep(4) have s1: "s1 = s" by simp
    have none: "unread s = []" using True u(1) by (cases "unread s") auto
    have "consumer_tick D t s = (Again, s)"
      using rd True ok s1 by (simp add: consumer_tick_def answered_def)
    then show ?thesis by (rule that [of s "[]"]) (simp_all add: none)
  next
    case False
    have "\<forall>m \<in> set ms. \<exists>r. parse_record D (tk_now t) (snd m) = Inr r \<and> row_ok D r"
      using good in_set_takeD [of _ 100 "unread s"] by (auto simp: u(1))
    then obtain rs where rs: "batch_records D (tk_now t) ms = Inr rs" "list_all (row_ok D) rs"
      by (rule readable_records)
    let ?new = "zip (map fst ms) rs" and ?s' = "acknowledge ms (s1\<lparr>lg_rows := lg_rows s @ zip (map fst ms) rs\<rparr>)"
    have "process_batch D (tk_now t) True ms (lg_rows s1) = (Inr (), lg_rows s @ ?new)"
      using False rs by (simp add: process_batch_def keep(1))
    then have tick: "consumer_tick D t s = (Again, ?s')"
      using rd False ok rs(1) by (simp add: consumer_tick_def answered_def after_reply_def)
    note len = batch_records_zip(1) [OF rs(1)] and recs = batch_records_zip(2) [OF rs(1)]
    have rows: "list_all2 (row_for D [t]) ms ?new"
      using len recs by (auto simp: list_all2_conv_all_nth row_for_def set_zip) (metis prod.collapse)
    have pend: "set (lg_pending ?s') \<subseteq> set (lg_pending s)"
      using rd False by (auto simp: acknowledge_def read_group_def Let_def split: if_splits)
    have "unread ?s' = unread s1" by (simp add: unread_def acknowledge_def)
    with tick u rows pend keep(3) show ?thesis by (intro that [of ?s' ?new]) (simp_all add: acknowledge_def)
  qed
qed

lemma row_for_mono: "set ts \<subseteq> set ts' \<Longrightarrow> list_all2 (row_for D ts) ms xs \<Longrightarrow> list_all2 (row_for D ts') ms xs"
  unfolding row_for_def by (erule list_all2_mono) blast

text \<open>Iterations that are answered write a hundred entries each, in the order of the stream.\<close>

lemma answered_loop:
  assumes "sorted_wrt (<) (map fst (lg_stream s))" "list_all answered ts" "readable D ts (unread s)"
  shows "\<exists>new s'. consumer_loop D False ts s = (Waiting, s') \<and> lg_rows s' = lg_rows s @ new
     \<and> list_all2 (row_for D ts) (take (100 * length ts) (unread s)) new
     \<and> unread s' = drop (100 * length ts) (unread s) \<and> set (lg_pending s') \<subseteq> set (lg_pending s)"
  using assms
proof (induction ts arbitrary: s)
  case Nil
  then show ?case by simp
next
  case (Cons t ts)
  have t: "answered t" "list_all answered ts" using Cons.prems(2) by simp_all
  have good: "\<forall>m \<in> set (unread s). \<exists>r. parse_record D (tk_now t) (snd m) = Inr r \<and> row_ok D r"
    using Cons.prems(3) by (simp add: readable_def)
  obtain new1 s1 where s1: "consumer_tick D t s = (Again, s1)" "lg_rows s1 = lg_rows s @ new1"
    "list_all2 (row_for D [t]) (take 100 (unread s)) new1" "unread s1 = drop 100 (unread s)"
    "lg_stream s1 = lg_stream s" "set (lg_pending s1) \<subseteq> set (lg_pending s)"
    by (rule answered_tick [OF Cons.prems(1) t(1) good])
  have "readable D ts (unread s1)"
    using Cons.prems(3) in_set_dropD [of _ 100 "unread s"] by (auto simp: readable_def s1(4))
  then obtain new2 s2 where s2: "consumer_loop D False ts s1 = (Waiting, s2)" "lg_rows s2 = lg_rows s1 @ new2"
    "list_all2 (row_for D ts) (take (100 * length ts) (unread s1)) new2"
    "unread s2 = drop (100 * length ts) (unread s1)" "set (lg_pending s2) \<subseteq> set (lg_pending s1)"
    using Cons.IH [of s1] Cons.prems(1) t(2) s1(5) by auto
  have split: "take (100 * length (t # ts)) (unread s) = take 100 (unread s) @ take (100 * length ts) (drop 100 (unread s))"
    by (simp add: take_add)
  have "list_all2 (row_for D (t # ts)) (take (100 * length (t # ts)) (unread s)) (new1 @ new2)"
    unfolding split using row_for_mono [OF _ s1(3), of "t # ts"] row_for_mono [OF _ s2(3), of "t # ts"]
    by (intro list_all2_appendI) (auto simp: s1(4))
  moreover have "consumer_loop D False (t # ts) s = (Waiting, s2)" using s1(1) s2(1) t(1) by (simp add: answered_def)
  moreover have "unread s2 = drop (100 * length (t # ts)) (unread s)" by (simp add: s2(4) s1(4) add.commute)
  ultimately show ?case using s1(2,6) s2(2,5) by (intro exI [of _ "new1 @ new2"] exI [of _ s2] conjI) auto
qed

section \<open>From the calls of the logger to the table\<close>

text \<open>C36. A consumer whose calls are answered writes the audit trail: started on a new group, it
  stores a row for every call of the logger whose entry is in the stream, in their order, once each, and
  with the content of the call; an iteration for every hundred entries is enough, and nothing is left
  unacknowledged.\<close>

theorem consumer_writes_every_call:
  fixes calls :: "(log_site \<times> log_entry) list"
  assumes iso: "\<And>t. ad_parse D (replace_z (ad_iso D t)) = Some t"
    and dumps: "\<And>d. ad_dumps D d \<notin> {''None'', ''null''}"
    and calls: "\<forall>(l, e) \<in> set calls. ls_function l \<noteq> ''None'' \<and> (\<forall>k \<in> set frame_keys. dget (le_extra e) k = None)
      \<and> row_ok D (row_of_call D l e)"
    and stream: "lg_stream s = numbered D (map (\<lambda>(l, e). entry_of_call D l e) calls)"
    and up: "mn_pool E" "mn_group E = Created" "\<not> mn_stopped E" "list_all answered (mn_ticks E)"
    and enough: "length calls \<le> 100 * length (mn_ticks E)"
  shows "cp_end (consumer_main D E s) = Waiting
     \<and> lg_rows (cp_log (consumer_main D E s))
         = lg_rows s @ zip [0..<length calls] (map (\<lambda>(l, e). row_of_call D l e) calls)
     \<and> lg_pending (cp_log (consumer_main D E s)) = []"
proof -
  let ?s = "s\<lparr>lg_cursor := 0, lg_pending := []\<rparr>" and ?ts = "mn_ticks E"
  let ?es = "map (\<lambda>(l, e). entry_of_call D l e) calls" and ?rows = "map (\<lambda>(l, e). row_of_call D l e) calls"
  have unread: "unread ?s = numbered D ?es" by (simp add: unread_def stream)
  have nth: "numbered D ?es ! i = (i, serialize D (entry_of_call D (fst (calls ! i)) (snd (calls ! i))))" if "i < length calls" for i
    using that by (simp add: numbered_def case_prod_beta)
  have len: "length (numbered D ?es) = length calls" by (simp add: numbered_def)
  have rec: "parse_record D now (snd (numbered D ?es ! i)) = Inr (?rows ! i) \<and> row_ok D (?rows ! i)" if "i < length calls" for i now
  proof -
    obtain l e where c: "calls ! i = (l, e)" by fastforce
    then have "(l, e) \<in> set calls" using that by (metis nth_mem)
    with calls have ok: "ls_function l \<noteq> ''None''" "\<forall>k \<in> set frame_keys. dget (le_extra e) k = None" "row_ok D (row_of_call D l e)"
      by auto
    from record_of_entry [OF iso dumps ok(1,2)] ok(3) c that show ?thesis by (simp add: nth)
  qed
  have readable: "readable D ?ts (unread ?s)"
    unfolding readable_def unread using rec by (metis in_set_conv_nth len)
  have sorted: "sorted_wrt (<) (map fst (lg_stream ?s))" by (simp add: stream numbered_sorted)
  obtain new s' where run: "consumer_loop D False ?ts ?s = (Waiting, s')" "lg_rows s' = lg_rows s @ new"
    "list_all2 (row_for D ?ts) (take (100 * length ?ts) (numbered D ?es)) new" "set (lg_pending s') \<subseteq> {}"
    using answered_loop [OF sorted up(4) readable] by (auto simp: unread)
  have all: "list_all2 (row_for D ?ts) (numbered D ?es) new" using run(3) enough len by simp
  then have new_len: "length new = length calls" by (metis list_all2_lengthD len)
  have "new ! i = zip [0..<length calls] ?rows ! i" if "i < length calls" for i
  proof -
    have "row_for D ?ts (numbered D ?es ! i) (new ! i)" using all that len by (auto dest: list_all2_nthD)
    then show ?thesis using rec [OF that] nth [OF that] that by (auto simp: row_for_def prod_eq_iff)
  qed
  then have "new = zip [0..<length calls] ?rows" using new_len by (intro nth_equalityI) simp_all
  with run(1,2,4) up(1,2,3) show ?thesis by (simp add: consumer_main_def connect_consumer_def)
qed

text \<open>Whatever is answered, refused or interrupted, the consumer does what the trail allows: the
  state it ends in is reached from the state it started in by events of the consumer, so the laws of the
  trail hold of it. When it ends, its connections are closed, unless closing the one to Redis fails: then
  the pool of the database is left open.\<close>

theorem consumer_refines_trail:
  assumes "lg_reading s = []"
  shows "consumer_run D (cp_log (connect_consumer E s)) (cp_log (consumer_main D E s))
    \<and> (cp_end (consumer_main D E s) \<noteq> Waiting \<longrightarrow>
         (cp_redis (consumer_main D E s) \<longleftrightarrow> \<not> mn_close E)
         \<and> (cp_pool (consumer_main D E s) \<longleftrightarrow> mn_pool E \<and> \<not> mn_close E))"
proof -
  let ?p = "connect_consumer E s"
  have idle: "lg_reading (cp_log ?p) = []" and opened: "cp_redis ?p" "cp_pool ?p \<longleftrightarrow> mn_pool E"
    using assms by (simp_all add: connect_consumer_def split: group_reply.split)
  obtain en s' where loop: "consumer_loop D (mn_stopped E) (mn_ticks E) (cp_log ?p) = (en, s')" by fastforce
  note run = consumer_loop_run [OF idle loop] consumer_run_refl [OF idle, of D]
  have "cp_log (consumer_main D E s) = (if cp_end ?p = Raised then cp_log ?p else s')"
    by (simp add: consumer_main_def loop close_consumer_def Let_def)
  moreover have "cp_end (consumer_main D E s) \<noteq> Waiting \<longrightarrow>
      (cp_redis (consumer_main D E s) \<longleftrightarrow> \<not> mn_close E) \<and> (cp_pool (consumer_main D E s) \<longleftrightarrow> mn_pool E \<and> \<not> mn_close E)"
    using opened by (auto simp: consumer_main_def loop close_consumer_def Let_def)
  ultimately show ?thesis using run by simp
qed

text \<open>C37. A signal ends the consumer: the loop returns with the iteration in which \<open>stop\<close> is called, or
  before, and what the outside would have done later does not matter.\<close>

theorem consumer_stops:
  assumes "tk_stop t"
  shows "fst (consumer_loop D stopped (before @ t # later) s) \<noteq> Waiting
    \<and> consumer_loop D stopped (before @ t # later) s = consumer_loop D stopped (before @ [t]) s"
proof (induction "before" arbitrary: stopped s)
  case Nil
  have stop: "consumer_loop D True ts x = (Returned, x)" for ts x by (cases ts) simp_all
  show ?case using assms by (auto simp: stop split: iteration.splits prod.splits)
next
  case (Cons u us)
  then have same: "consumer_loop D b (us @ t # later) x = consumer_loop D b (us @ [t]) x"
    and fin: "fst (consumer_loop D b (us @ [t]) x) \<noteq> Waiting" for b x by (blast, metis)
  show ?case by (simp add: same fin split: iteration.split prod.split)
qed

section \<open>A process\<close>

definition good_tick :: tick where
  "good_tick = \<lparr>tk_now = 500, tk_read = Answer, tk_given = True, tk_insert = Answer, tk_ack = Answer, tk_acked = True,
     tk_pause = Answer, tk_stop = False\<rparr>"

definition demo_main :: "tick list \<Rightarrow> main_env" where
  "demo_main ts = \<lparr>mn_pool = True, mn_group = Created, mn_stopped = False, mn_ticks = ts, mn_close = True\<rparr>"

definition tally_audit :: audit_env where
  "tally_audit = demo_audit\<lparr>ad_iso := tally, ad_parse := read_tally\<rparr>"

theorem consumer_writes_every_call_witness:
  "let e = log_entry_of ''INFO'' ''hi'' [(''user_id'', JStr ''u1'')] False;
       s = log_init\<lparr>lg_stream := numbered tally_audit [entry_of_call tally_audit demo_site e, entry_of_call tally_audit demo_site e]\<rparr>;
       p = consumer_main tally_audit (demo_main [good_tick]) s in
   lg_rows (cp_log p) = [(0, row_of_call tally_audit demo_site e), (1, row_of_call tally_audit demo_site e)]
   \<and> lg_pending (cp_log p) = []"
proof -
  let ?e = "log_entry_of ''INFO'' ''hi'' [(''user_id'', JStr ''u1'')] False"
  let ?calls = "[(demo_site, ?e), (demo_site, ?e)]"
  let ?s = "log_init\<lparr>lg_stream := numbered tally_audit (map (\<lambda>(l, e). entry_of_call tally_audit l e) ?calls)\<rparr>"
  have iso: "ad_parse tally_audit (replace_z (ad_iso tally_audit t)) = Some t" for t
    by (simp add: tally_audit_def read_tally)
  have dumps: "ad_dumps tally_audit d \<notin> {''None'', ''null''}" for d by (simp add: tally_audit_def demo_audit_def)
  have calls: "\<forall>(l, e) \<in> set ?calls. ls_function l \<noteq> ''None'' \<and> (\<forall>k \<in> set frame_keys. dget (le_extra e) k = None)
      \<and> row_ok tally_audit (row_of_call tally_audit l e)"
    by code_simp
  have stream: "lg_stream ?s = numbered tally_audit (map (\<lambda>(l, e). entry_of_call tally_audit l e) ?calls)" by simp
  have up: "mn_pool (demo_main [good_tick])" "mn_group (demo_main [good_tick]) = Created"
    "\<not> mn_stopped (demo_main [good_tick])" "list_all answered (mn_ticks (demo_main [good_tick]))"
    by (simp_all add: demo_main_def good_tick_def answered_def)
  have enough: "length ?calls \<le> 100 * length (mn_ticks (demo_main [good_tick]))" by (simp add: demo_main_def)
  from consumer_writes_every_call [OF iso dumps calls stream up enough] show ?thesis
    by (simp add: Let_def log_init_def upt_rec)
qed

theorem consumer_refines_trail_witness:
  "consumer_run demo_audit log_init (cp_log (consumer_main demo_audit (demo_main [good_tick\<lparr>tk_stop := True\<rparr>]) log_init))
   \<and> \<not> cp_redis (consumer_main demo_audit (demo_main [good_tick\<lparr>tk_stop := True\<rparr>]) log_init)"
proof -
  let ?E = "demo_main [good_tick\<lparr>tk_stop := True\<rparr>]"
  have idle: "lg_reading log_init = []" by (simp add: log_init_def)
  have start: "cp_log (connect_consumer ?E log_init) = log_init" by (simp add: connect_consumer_def demo_main_def log_init_def)
  have "cp_end (consumer_main demo_audit ?E log_init) \<noteq> Waiting" by code_simp
  moreover have "mn_close ?E" by (simp add: demo_main_def)
  ultimately show ?thesis using consumer_refines_trail [OF idle, of demo_audit ?E] by (simp add: start)
qed

theorem consumer_stops_witness:
  "fst (consumer_loop demo_audit False [good_tick, good_tick\<lparr>tk_stop := True\<rparr>, good_tick] log_init) \<noteq> Waiting"
proof -
  have "tk_stop (good_tick\<lparr>tk_stop := True\<rparr>)" by simp
  from consumer_stops [OF this, THEN conjunct1, of demo_audit False "[good_tick]" "[good_tick]" log_init]
  show ?thesis by (simp only: append.simps not_False_eq_True)
qed

end
