(* ===== verification/Audit_Logger.thy ===== *)
theory Audit_Logger
  imports Audit_Trail
begin

text \<open>
  The life of the audit logger (app/audit_logs/redis_logger.py): the one instance of the class and the
  module's \<open>global_logger\<close>, the functions that hand it out, start it and stop it, its flush loops, and
  the middleware that puts it into the context of a request. What it logs is in \<open>Audit_Trail\<close>.
\<close>

section \<open>The module\<close>

text \<open>
  Connections and application states are told apart by numbers. \<open>bf_task\<close> is the flush loop the buffer
  has a handle of, \<open>lm_tasks\<close> the loops that have not ended. \<open>__new__\<close> returns the one instance to
  everybody, so \<open>global_logger\<close> is either unset or that instance: a flag.
\<close>

record app_state =
  ap_id :: nat
  ap_redis :: "nat option"

record log_buffer =
  bf_redis :: nat
  bf_running :: bool
  bf_loop :: bool
  bf_task :: "nat option"

record audit_logger =
  al_app :: "app_state option"
  al_buffer :: "log_buffer option"
  al_name :: string

record log_module =
  lm_instance :: "audit_logger option"
  lm_global :: bool
  lm_tasks :: "nat list"
  lm_next :: nat

definition new_buffer :: "nat \<Rightarrow> log_buffer" where
  "new_buffer r = \<lparr>bf_redis = r, bf_running = False, bf_loop = False, bf_task = None\<rparr>"

definition new_logger :: audit_logger where
  "new_logger = \<lparr>al_app = None, al_buffer = None, al_name = ''audit''\<rparr>"

definition module_init :: log_module where
  "module_init = \<lparr>lm_instance = None, lm_global = False, lm_tasks = [], lm_next = 0\<rparr>"

definition init_logger :: "app_state \<Rightarrow> string \<Rightarrow> audit_logger \<Rightarrow> audit_logger" where
  "init_logger a name lg =
     lg\<lparr>al_app := Some a, al_name := name,
        al_buffer := (case ap_redis a of None \<Rightarrow> al_buffer lg | Some r \<Rightarrow> Some (new_buffer r))\<rparr>"

definition get_instance :: "app_state option \<Rightarrow> log_module \<Rightarrow> log_module" where
  "get_instance app m =
     (let lg = (case lm_instance m of None \<Rightarrow> new_logger | Some lg \<Rightarrow> lg) in
      m\<lparr>lm_instance := Some
          (case app of None \<Rightarrow> lg | Some a \<Rightarrow> if al_app lg = None then init_logger a ''audit'' lg else lg)\<rparr>)"

definition the_buffer :: "log_module \<Rightarrow> log_buffer option" where
  "the_buffer m = (case lm_instance m of None \<Rightarrow> None | Some lg \<Rightarrow> al_buffer lg)"

definition set_buffer :: "log_buffer \<Rightarrow> log_module \<Rightarrow> log_module" where
  "set_buffer b m = m\<lparr>lm_instance := map_option (\<lambda>lg. lg\<lparr>al_buffer := Some b\<rparr>) (lm_instance m)\<rparr>"

text \<open>\<open>start\<close> of the buffer: a new task, whatever became of the one before.\<close>

definition start_logger :: "log_module \<Rightarrow> log_module" where
  "start_logger m =
     (case the_buffer m of None \<Rightarrow> m
      | Some b \<Rightarrow> (set_buffer (b\<lparr>bf_running := True, bf_loop := True, bf_task := Some (lm_next m)\<rparr>) m)
                    \<lparr>lm_tasks := lm_tasks m @ [lm_next m], lm_next := Suc (lm_next m)\<rparr>)"

text \<open>\<open>stop\<close>: the loop of the handle is cancelled and waited for; the flush that follows is \<open>stop_buffer\<close>.\<close>

definition stop_logger :: "log_module \<Rightarrow> log_module" where
  "stop_logger m =
     (case the_buffer m of None \<Rightarrow> m
      | Some b \<Rightarrow> (set_buffer (b\<lparr>bf_running := False\<rparr>) m)
                    \<lparr>lm_tasks := filter (\<lambda>t. Some t \<noteq> bf_task b) (lm_tasks m)\<rparr>)"

text \<open>A loop that comes back from its sleep and its flush looks at the flag of the buffer.\<close>

definition loop_wakes :: "nat \<Rightarrow> log_module \<Rightarrow> log_module" where
  "loop_wakes t m =
     (case the_buffer m of None \<Rightarrow> m
      | Some b \<Rightarrow> if bf_running b then m else m\<lparr>lm_tasks := filter (\<lambda>x. x \<noteq> t) (lm_tasks m)\<rparr>)"

definition get_audit_logger :: "app_state \<Rightarrow> log_module \<Rightarrow> log_module" where
  "get_audit_logger a m = (if lm_global m then m else (get_instance (Some a) m)\<lparr>lm_global := True\<rparr>)"

definition init_audit_logger :: "app_state \<Rightarrow> log_module \<Rightarrow> log_module" where
  "init_audit_logger a m = start_logger ((get_instance (Some a) m)\<lparr>lm_global := True\<rparr>)"

definition shutdown_audit_logger :: "log_module \<Rightarrow> log_module" where
  "shutdown_audit_logger m = (if lm_global m then stop_logger m else m)"

definition background_logger :: "log_module \<Rightarrow> log_module" where
  "background_logger m = (if lm_global m then m else (get_instance None m)\<lparr>lm_global := True\<rparr>)"

text \<open>The logger as a call finds it: whether there is a buffer and whether a loop was captured.\<close>

definition logger_of :: "log_module \<Rightarrow> logger" where
  "logger_of m =
     (case the_buffer m of None \<Rightarrow> \<lparr>lo_buffer = False, lo_loop = False\<rparr>
      | Some b \<Rightarrow> \<lparr>lo_buffer = True, lo_loop = bf_loop b\<rparr>)"

section \<open>The context of a request\<close>

text \<open>
  The state is the module and the context variable, unset or the instance; the inner application is an
  argument. \<open>reset\<close> puts the value back that \<open>set\<close> found.
\<close>

definition audit_middleware ::
    "string \<Rightarrow> app_state \<Rightarrow> ('e, log_module \<times> bool, 'a) eff \<Rightarrow> ('e, log_module \<times> bool, 'a) eff" where
  "audit_middleware scope_type a app = (\<lambda>(m, current).
     if scope_type = ''http''
     then (case app (get_instance (Some a) m, True) of (r, (m', _)) \<Rightarrow> (r, (m', current)))
     else app (m, current))"

section \<open>Runs\<close>

datatype module_event =
    Asked app_state | Begun app_state | Ended | Background | Request app_state | Wakes nat

fun module_step :: "module_event \<Rightarrow> log_module \<Rightarrow> log_module" where
  "module_step (Asked a) = get_audit_logger a"
| "module_step (Begun a) = init_audit_logger a"
| "module_step Ended = shutdown_audit_logger"
| "module_step Background = background_logger"
| "module_step (Request a) = get_instance (Some a)"
| "module_step (Wakes t) = loop_wakes t"

lemmas module_defs =
  get_audit_logger_def init_audit_logger_def shutdown_audit_logger_def background_logger_def get_instance_def
  start_logger_def stop_logger_def loop_wakes_def the_buffer_def set_buffer_def init_logger_def new_buffer_def
  new_logger_def Let_def

text \<open>A logger that has an application state keeps it, and its buffer the connection of that state.\<close>

definition bound_to :: "app_state \<Rightarrow> log_module \<Rightarrow> bool" where
  "bound_to a m \<longleftrightarrow>
     (case lm_instance m of None \<Rightarrow> False
      | Some lg \<Rightarrow> al_app lg = Some a \<and> map_option bf_redis (al_buffer lg) = ap_redis a)"

lemma module_step_bound: "bound_to a m \<Longrightarrow> bound_to a (module_step ev m)"
  by (cases ev) (auto simp: module_defs bound_to_def split: option.splits if_splits)

lemma run_bound: "bound_to a m \<Longrightarrow> bound_to a (fold module_step evs m)"
  by (induction evs arbitrary: m) (simp_all add: module_step_bound)

text \<open>Before that, it has no buffer and nothing of it runs.\<close>

definition unbound :: "log_module \<Rightarrow> bool" where
  "unbound m \<longleftrightarrow>
     lm_tasks m = [] \<and> (case lm_instance m of None \<Rightarrow> True | Some lg \<Rightarrow> al_app lg = None \<and> al_buffer lg = None)"

fun brings :: "module_event \<Rightarrow> bool" where
  "brings (Asked _) = True"
| "brings (Begun _) = True"
| "brings (Request _) = True"
| "brings _ = False"

lemma unbound_init: "unbound module_init"
  by (simp add: unbound_def module_init_def)

lemma module_step_unbound: "unbound m \<Longrightarrow> \<not> brings ev \<Longrightarrow> unbound (module_step ev m)"
  by (cases ev) (auto simp: module_defs unbound_def split: option.splits if_splits)

lemma begin_binds: "unbound m \<Longrightarrow> bound_to a (init_audit_logger a m)"
  by (auto simp: module_defs unbound_def bound_to_def split: option.splits)

text \<open>A process that starts its logger a second time, with a new application state, goes on writing to the
  connection of the first: whatever happens in between, the buffer keeps that connection.\<close>

theorem restart_keeps_connection:
  assumes "ap_redis a = Some r" "unbound m"
  shows "map_option bf_redis (the_buffer (init_audit_logger b (fold module_step evs (init_audit_logger a m)))) = Some r"
proof -
  have "bound_to a (init_audit_logger b (fold module_step evs (init_audit_logger a m)))"
    using module_step_bound [of a _ "Begun b"] run_bound [OF begin_binds [OF assms(2)]] by simp
  with assms(1) show ?thesis by (auto simp: bound_to_def the_buffer_def split: option.splits)
qed

theorem restart_keeps_connection_witness:
  "map_option bf_redis (the_buffer (init_audit_logger \<lparr>ap_id = 2, ap_redis = Some 8\<rparr>
     (fold module_step [Ended] (init_audit_logger \<lparr>ap_id = 1, ap_redis = Some 7\<rparr> module_init)))) = Some 7"
  using restart_keeps_connection [of "\<lparr>ap_id = 1, ap_redis = Some 7\<rparr>" 7 module_init _ "[Ended]", OF _ unbound_init] by simp

text \<open>Calls are logged exactly from the start on: without an application state that has a connection every
  method of the logger drops what it is given; after the start, whatever happens, a call reaches the buffer
  from the loop and from the worker threads alike.\<close>

lemma fold_unbound: "unbound m \<Longrightarrow> \<forall>ev \<in> set evs. \<not> brings ev \<Longrightarrow> unbound (fold module_step evs m)"
  by (induction evs arbitrary: m) (simp_all add: module_step_unbound)

definition listening :: "log_module \<Rightarrow> bool" where
  "listening m \<longleftrightarrow> (case the_buffer m of None \<Rightarrow> False | Some b \<Rightarrow> bf_loop b) \<and>
     (case lm_instance m of None \<Rightarrow> False | Some lg \<Rightarrow> al_app lg \<noteq> None)"

lemma module_step_listening: "listening m \<Longrightarrow> listening (module_step ev m)"
  by (cases ev) (auto simp: module_defs listening_def split: option.splits if_splits)

lemma fold_listening: "listening m \<Longrightarrow> listening (fold module_step evs m)"
  by (induction evs arbitrary: m) (simp_all add: module_step_listening)

lemma begin_listens: "unbound m \<Longrightarrow> ap_redis a = Some r \<Longrightarrow> listening (init_audit_logger a m)"
  by (auto simp: module_defs unbound_def listening_def split: option.splits)

theorem logs_from_start_on:
  assumes "\<forall>ev \<in> set before_start. \<not> brings ev" "ap_redis a = Some r"
    and "m = fold module_step before_start module_init" "m' = fold module_step after_start (init_audit_logger a m)"
  shows "log_buffered D l in_loop (logger_of m) level message kwargs = NotLogged
    \<and> log_buffered D l in_loop (logger_of m') level message kwargs = Scheduled (build_log_entry D l level message kwargs)
    \<and> force_log D l (logger_of m') level message kwargs = Awaited (build_log_entry D l level message kwargs)"
proof -
  have m: "unbound m" using fold_unbound [OF unbound_init assms(1)] assms(3) by simp
  have "listening m'" using fold_listening [OF begin_listens [OF m assms(2)]] assms(4) by simp
  with m show ?thesis
    by (auto simp: listening_def unbound_def logger_of_def the_buffer_def log_buffered_def force_log_def schedule_def
        split: option.splits)
qed

theorem logs_from_start_on_witness:
  "log_buffered demo_audit demo_site False (logger_of (fold module_step [Ended] (init_audit_logger
     \<lparr>ap_id = 1, ap_redis = Some 7\<rparr> (fold module_step [Background] module_init)))) ''INFO'' ''x'' []
     = Scheduled (build_log_entry demo_audit demo_site ''INFO'' ''x'' [])"
  using logs_from_start_on [of "[Background]" "\<lparr>ap_id = 1, ap_redis = Some 7\<rparr>" 7 _ _ "[Ended]", OF _ _ refl refl] by simp

text \<open>After a stop every flush loop ends: the one of the handle at once, one that an earlier start left
  behind when it next wakes, provided nobody starts the logger before.\<close>

definition stopped :: "log_module \<Rightarrow> bool" where
  "stopped m \<longleftrightarrow> (case the_buffer m of None \<Rightarrow> lm_tasks m = [] | Some b \<Rightarrow> \<not> bf_running b)"

fun starts :: "module_event \<Rightarrow> bool" where
  "starts (Begun _) = True"
| "starts _ = False"

definition buffered :: "log_module \<Rightarrow> bool" where
  "buffered m \<longleftrightarrow> lm_global m \<and>
     (case lm_instance m of None \<Rightarrow> False | Some lg \<Rightarrow> al_app lg \<noteq> None \<and> al_buffer lg \<noteq> None)"

definition idle :: "log_module \<Rightarrow> bool" where
  "idle m \<longleftrightarrow> buffered m \<and> stopped m"

lemma idle_step:
  "idle m \<Longrightarrow> \<not> starts ev \<Longrightarrow> idle (module_step ev m) \<and> set (lm_tasks (module_step ev m)) \<subseteq> set (lm_tasks m)"
  by (cases ev) (auto simp: idle_def buffered_def stopped_def module_defs split: option.splits if_splits)

lemma idle_wakes: "idle m \<Longrightarrow> lm_tasks (loop_wakes t m) = filter (\<lambda>x. x \<noteq> t) (lm_tasks m)"
  by (auto simp: idle_def buffered_def stopped_def module_defs split: option.splits)

theorem loops_end:
  assumes "idle m" "\<forall>ev \<in> set evs. \<not> starts ev" "\<forall>t \<in> set (lm_tasks m). Wakes t \<in> set evs"
  shows "lm_tasks (fold module_step evs m) = []"
  using assms
proof (induction evs arbitrary: m)
  case Nil
  then show ?case by (cases "lm_tasks m") auto
next
  case (Cons ev evs)
  have s: "idle (module_step ev m)" "set (lm_tasks (module_step ev m)) \<subseteq> set (lm_tasks m)"
    using idle_step [OF Cons.prems(1)] Cons.prems(2) by auto
  have "\<forall>t \<in> set (lm_tasks (module_step ev m)). Wakes t \<in> set evs"
  proof
    fix t assume t: "t \<in> set (lm_tasks (module_step ev m))"
    then have "ev \<noteq> Wakes t" using idle_wakes [OF Cons.prems(1)] by auto
    with t s(2) Cons.prems(3) show "Wakes t \<in> set evs" by fastforce
  qed
  with Cons.IH [OF s(1)] Cons.prems(2) show ?case by simp
qed

theorem loops_end_witness:
  "lm_tasks (fold module_step [Wakes 0] (shutdown_audit_logger (init_audit_logger \<lparr>ap_id = 1, ap_redis = Some 7\<rparr>
     (init_audit_logger \<lparr>ap_id = 1, ap_redis = Some 7\<rparr> module_init)))) = []"
proof -
  let ?m = "shutdown_audit_logger (init_audit_logger \<lparr>ap_id = 1, ap_redis = Some 7\<rparr>
     (init_audit_logger \<lparr>ap_id = 1, ap_redis = Some 7\<rparr> module_init))"
  have "idle ?m" "lm_tasks ?m = [0]"
    by (simp_all add: idle_def buffered_def stopped_def module_defs module_init_def)
  then show ?thesis using loops_end [of ?m "[Wakes 0]"] by simp
qed

text \<open>The middleware leaves the context of its caller as it found it, also when the application raises.\<close>

theorem middleware_restores_context:
  "snd (snd (audit_middleware ''http'' a app (m, current))) = current
   \<and> fst (audit_middleware ''http'' a app (m, current)) = fst (app (get_instance (Some a) m, True))"
  by (simp add: audit_middleware_def split: prod.split)

end
