(* ===== verification/Mailing.thy ===== *)
theory Mailing
  imports Accounts Web_Pages
begin

text \<open>
  The mails of the service (app/services/email_service.py): what the verification and the invitation
  mail say, to whom they go, and the links they carry, which lead back to \<open>verify_email\<close> and to the
  sign-up page of \<open>Accounts\<close>. The text of the verification template is a parameter and is filled by
  \<open>str.format\<close>; the invitation page is what it is rendered from. Delivery is the provider's.
\<close>

section \<open>\<open>str.format\<close> with named fields\<close>

text \<open>
  \<open>{name}\<close> is replaced, \<open>{{\<close> and \<open>}}\<close> stand for braces; a field without a value raises \<open>KeyError\<close>, a
  brace out of place \<open>ValueError\<close>. The second argument is the name being read, backwards.
\<close>

definition prepend :: "string \<Rightarrow> exn + string \<Rightarrow> exn + string" where
  "prepend v r = (case r of Inl e \<Rightarrow> Inl e | Inr s \<Rightarrow> Inr (v @ s))"

fun py_format :: "(string \<Rightarrow> string option) \<Rightarrow> string option \<Rightarrow> string \<Rightarrow> exn + string" where
  "py_format env None [] = Inr []"
| "py_format env (Some n) [] = Inl (PyErr (ValueError ''expected '}' before end of string''))"
| "py_format env (Some n) (c # s) =
     (if c = CHR ''}''
      then (case env (rev n) of None \<Rightarrow> Inl (PyErr KeyError) | Some v \<Rightarrow> prepend v (py_format env None s))
      else py_format env (Some (c # n)) s)"
| "py_format env None (c # s) =
     (if c = CHR ''{''
      then (if s \<noteq> [] \<and> hd s = CHR ''{'' then prepend [c] (py_format env None (tl s)) else py_format env (Some []) s)
      else if c = CHR ''}''
      then (if s \<noteq> [] \<and> hd s = CHR ''}'' then prepend [c] (py_format env None (tl s))
            else Inl (PyErr (ValueError ''Single '}' encountered in format string'')))
      else prepend [c] (py_format env None s))"

text \<open>The fields a template names.\<close>

fun format_fields :: "string option \<Rightarrow> string \<Rightarrow> string list" where
  "format_fields n [] = []"
| "format_fields (Some n) (c # s) =
     (if c = CHR ''}'' then rev n # format_fields None s else format_fields (Some (c # n)) s)"
| "format_fields None (c # s) =
     (if c = CHR ''{''
      then (if s \<noteq> [] \<and> hd s = CHR ''{'' then format_fields None (tl s) else format_fields (Some []) s)
      else if c = CHR ''}'' \<and> s \<noteq> [] \<and> hd s = CHR ''}'' then format_fields None (tl s)
      else format_fields None s)"

lemma contains_append: "contains_sub v b \<Longrightarrow> contains_sub v (a @ b)"
  by (induction a) (auto simp: prefix_def)

lemma contains_prefix: "contains_sub v (v @ b)"
proof (cases "v @ b")
  case (Cons c s)
  then have "prefix v (c # s)" by (metis prefixI)
  with Cons show ?thesis by simp
qed simp

lemma format_contains:
  "py_format env n s = Inr b \<Longrightarrow> f \<in> set (format_fields n s) \<Longrightarrow> \<exists>v. env f = Some v \<and> contains_sub v b"
  by (induction n s arbitrary: b rule: format_fields.induct)
    (auto simp: prepend_def contains_append contains_prefix split: if_splits sum.splits option.splits)

section \<open>Messages\<close>

record mail_env =
  ml_base_url :: string
  ml_app_name :: string
  ml_verification_template :: string
  ml_year :: "int \<Rightarrow> string"
  ml_strftime :: "int \<Rightarrow> string"

record invitation_context =
  ix_recipient_name :: string
  ix_inviter_name :: string
  ix_organization_name :: string
  ix_role :: string
  ix_accept_url :: string
  ix_expires_at :: string
  ix_client_name :: "string option"
  ix_app_name :: string
  ix_year :: string

datatype mail_body = HtmlText string | InvitationHtml invitation_context

record email_message =
  em_subject :: string
  em_recipients :: "(string \<times> string) list"
  em_body :: mail_body

definition verify_url :: "mail_env \<Rightarrow> string \<Rightarrow> string" where
  "verify_url E t = ml_base_url E @ ''/api/v1/onboarding/email/verify?token='' @ t"

definition accept_url :: "mail_env \<Rightarrow> string \<Rightarrow> string" where
  "accept_url E t = rstrip_char (CHR ''/'') (ml_base_url E) @ ''/api/v1/oidc/signup?invitation='' @ t"

definition load_verification_template :: "mail_env \<Rightarrow> int \<Rightarrow> string \<Rightarrow> string \<Rightarrow> exn + string" where
  "load_verification_template E now first_name url =
     py_format (map_of [(''app_name'', ml_app_name E), (''year'', ml_year E now), (''first_name'', first_name),
       (''verify_url'', url)]) None (ml_verification_template E)"

definition send_verification_email ::
    "mail_env \<Rightarrow> tok_env \<Rightarrow> int \<Rightarrow> string \<Rightarrow> string \<Rightarrow> string \<Rightarrow> string \<Rightarrow> string \<Rightarrow> string option
      \<Rightarrow> exn + email_message" where
  "send_verification_email E T now first_name last_nm email user_id tenant token =
     (case (if ostr_true token then Inr (the token) else create_verification_token T now user_id tenant) of
        Inl e \<Rightarrow> Inl e
      | Inr t \<Rightarrow>
          (case load_verification_template E now first_name (verify_url E t) of
             Inl e \<Rightarrow> Inl e
           | Inr html \<Rightarrow>
               Inr \<lparr>em_subject = ''Verify your '' @ ml_app_name E @ '' account'',
                    em_recipients = [(first_name @ '' '' @ last_nm, email)], em_body = HtmlText html\<rparr>))"

definition send_invitation_email ::
    "mail_env \<Rightarrow> int \<Rightarrow> string \<Rightarrow> string \<Rightarrow> string \<Rightarrow> string \<Rightarrow> string \<Rightarrow> string \<Rightarrow> int \<Rightarrow> string option
      \<Rightarrow> email_message" where
  "send_invitation_email E now email recipient inviter organization role token expires_at client_name =
     \<lparr>em_subject = ''Invitation to join '' @ organization @ '' on '' @ ml_app_name E,
      em_recipients = [(recipient, email)],
      em_body = InvitationHtml
        \<lparr>ix_recipient_name = recipient, ix_inviter_name = inviter, ix_organization_name = organization,
         ix_role = (if role = [] then ''member'' else role), ix_accept_url = accept_url E token,
         ix_expires_at = ml_strftime E expires_at, ix_client_name = client_name, ix_app_name = ml_app_name E,
         ix_year = ml_year E now\<rparr>\<rparr>"

text \<open>The background task a request leaves behind: an invitation is addressed by its address alone.\<close>

fun send_mail :: "mail_env \<Rightarrow> tok_env \<Rightarrow> int \<Rightarrow> mail \<Rightarrow> exn + email_message" where
  "send_mail E T now (VerificationMail first_name last_nm email user_id tenant token) =
     send_verification_email E T now first_name last_nm email user_id tenant token"
| "send_mail E T now (InvitationMail email inviter organization role token expires_at client_name) =
     Inr (send_invitation_email E now email email inviter organization role token expires_at client_name)"

text \<open>What following a link gives the endpoint for a query parameter.\<close>

definition link_param :: "string \<Rightarrow> string \<Rightarrow> string option" where
  "link_param k url =
     (case split1 (CHR ''?'') url of
        None \<Rightarrow> None
      | Some (_, q) \<Rightarrow> query_value (parse_qsl (takeWhile (\<lambda>c. c \<noteq> CHR ''#'') q)) k)"

lemma quote_plus_unreserved: "\<forall>c \<in> set t. unreserved_char c \<Longrightarrow> quote_plus t = t"
  by (induction t) (simp_all add: quote_plus_def quote_char_def)

lemma split1_found: "c \<notin> set a \<Longrightarrow> split1 c (a @ c # b) = Some (a, b)"
  by (induction a) auto

lemma unreserved_no_hash: "\<forall>c \<in> set t. unreserved_char c \<Longrightarrow> CHR ''#'' \<notin> set t"
  by (auto simp: unreserved_char_def alpha_char_def decimal_char_def Let_def)

text \<open>A token of unreserved characters comes back from a link as it went in.\<close>

lemma link_param_token:
  assumes "CHR ''?'' \<notin> set base" "\<forall>c \<in> set t. unreserved_char c" "\<forall>c \<in> set k. unreserved_char c"
  shows "link_param k (base @ CHR ''?'' # k @ CHR ''='' # t) = Some t"
proof -
  have q: "k @ CHR ''='' # t = urlencode [(k, t)]"
    using assms(2,3) by (simp add: urlencode_def quote_pair_def quote_plus_unreserved)
  have "takeWhile (\<lambda>c. c \<noteq> CHR ''#'') (k @ CHR ''='' # t) = k @ CHR ''='' # t"
    using unreserved_no_hash [OF assms(2)] unreserved_no_hash [OF assms(3)] by (auto simp: takeWhile_eq_all_conv)
  moreover have "link_param k (base @ CHR ''?'' # k @ CHR ''='' # t)
      = query_value (parse_qsl (takeWhile (\<lambda>c. c \<noteq> CHR ''#'') (k @ CHR ''='' # t))) k"
    using assms(1) by (simp add: link_param_def split1_found)
  ultimately have "link_param k (base @ CHR ''?'' # k @ CHR ''='' # t) = query_value [(k, t)] k"
    by (simp only: q parse_urlencode)
  then show ?thesis by (simp add: query_value_def dget_def)
qed

lemma rstrip_same: "rstrip_char c s = s \<longleftrightarrow> \<not> ends_with s [c]"
proof (cases s rule: rev_cases)
  case (snoc ys x)
  have "length (rev (dropWhile (\<lambda>y. y = c) (rev ys))) \<le> length ys"
    using length_dropWhile_le [of "\<lambda>y. y = c" "rev ys"] by simp
  then have "rev (dropWhile (\<lambda>y. y = c) (rev ys)) \<noteq> ys @ [x]" by (auto dest: arg_cong [of _ _ length])
  with snoc show ?thesis by (auto simp: rstrip_char_def ends_with_def)
qed (simp add: rstrip_char_def ends_with_def)

lemma verify_url_token:
  assumes "CHR ''?'' \<notin> set (ml_base_url E)" "\<forall>c \<in> set t. unreserved_char c"
  shows "link_param ''token'' (verify_url E t) = Some t"
  using link_param_token [of "ml_base_url E @ ''/api/v1/onboarding/email/verify''" t "''token''"] assms
  by (simp add: verify_url_def unreserved_char_def alpha_char_def)

section \<open>Properties\<close>

text \<open>C27. The mail that a sign-up leaves behind goes to the address that signed up and carries the link
  that verifies it: following it within 24 hours of the token's issue hands \<open>verify_email\<close> the token
  as it was issued, and that marks the address of exactly this user as verified, whether the
  request made the token or, as in tenant onboarding, the mail task does.\<close>

theorem mailed_link_verifies:
  assumes law: "env_law (ac_tokens A)" and base: "CHR ''?'' \<notin> set (ml_base_url E)"
    and token: "create_verification_token (ac_tokens A) now0 user tenant = Inr t" "t \<noteq> []" "\<forall>c \<in> set t. unreserved_char c"
    and sent: "send_mail E (ac_tokens A) now0 (VerificationMail first_name last_nm email user tenant tok) = Inr msg"
    and tok: "tok = Some t \<or> tok = None"
    and fields: "''verify_url'' \<in> set (format_fields None (ml_verification_template E))"
    and soon: "w_now w < now0 + 24 * 3600"
  shows "em_recipients msg = [(first_name @ '' '' @ last_nm, email)]
     \<and> (\<exists>html link. em_body msg = HtmlText html \<and> contains_sub link html \<and> link_param ''token'' link = Some t)
     \<and> fst (verify_email A b t w) = Inr (if b then VerifiedPage else VerifiedReply)
     \<and> verified_only (Some user) w (snd (verify_email A b t w))"
proof -
  have resolved: "(if ostr_true tok then Inr (the tok) else create_verification_token (ac_tokens A) now0 user tenant) = Inr t"
    using tok token(1,2) by (auto simp: ostr_true_def)
  obtain html where html: "load_verification_template E now0 first_name (verify_url E t) = Inr html"
    "em_recipients msg = [(first_name @ '' '' @ last_nm, email)]" "em_body msg = HtmlText html"
    using sent by (auto simp: send_verification_email_def resolved split: sum.splits)
  have "contains_sub (verify_url E t) html"
    using format_contains [OF html(1) [unfolded load_verification_template_def] fields] by simp
  with html verify_url_token [OF base token(3)] issued_token_verifies [OF law token(1) soon, of b]
  show ?thesis by blast
qed

text \<open>What a user gives as a first name reaches the HTML of the verification mail as it is, markup
  included: the template is filled by \<open>str.format\<close>, which escapes nothing, so whoever signs up with
  somebody else's address writes into a mail of the service to that address.\<close>

theorem verification_mail_unescaped:
  assumes "send_mail E T now (VerificationMail first_name last_nm email user tenant tok) = Inr msg"
    and "''first_name'' \<in> set (format_fields None (ml_verification_template E))"
  shows "\<exists>html. em_body msg = HtmlText html \<and> contains_sub first_name html \<and> (\<exists>name. em_recipients msg = [(name, email)])"
proof -
  obtain t html where html: "load_verification_template E now first_name (verify_url E t) = Inr html"
    "em_recipients msg = [(first_name @ '' '' @ last_nm, email)]" "em_body msg = HtmlText html"
    using assms(1) by (auto simp: send_verification_email_def split: sum.splits)
  have "contains_sub first_name html"
    using format_contains [OF html(1) [unfolded load_verification_template_def] assms(2)] by simp
  with html show ?thesis by blast
qed

text \<open>An invitation goes to the invited address, names a role, and its link opens the sign-up page with
  the token of the invitation. The link in the reply to the administrator is the mailed one only
  when the configured base URL has no slash at its end.\<close>

theorem invitation_mail_link:
  assumes "create_invitation A N c q auth w = (Inr (Success (Some reply) msg st, mails), w')"
    and "ml_base_url E = ac_base_url A" "CHR ''?'' \<notin> set (ml_base_url E)"
  shows "\<exists>jwt ctx. map (send_mail E T now) mails = [Inr ctx] \<and> em_recipients ctx = [(iq_email q, iq_email q)]
     \<and> (\<exists>x. em_body ctx = InvitationHtml x \<and> ix_role x \<noteq> [] \<and> ix_accept_url x = accept_url E jwt
         \<and> ((\<forall>ch \<in> set jwt. unreserved_char ch) \<longrightarrow> link_param ''invitation'' (ix_accept_url x) = Some jwt)
         \<and> (il_link reply = ix_accept_url x \<longleftrightarrow> \<not> ends_with (ac_base_url A) ''/''))"
proof -
  have "\<exists>tn cl jwt expires. mails = [invitation_mail q auth tn cl jwt expires]
      \<and> il_link reply = ac_base_url A @ ''/api/v1/oidc/signup?invitation='' @ jwt"
    using assms(1) by (auto simp: create_invitation_def created_response_def eff_simps split: if_splits sum.splits prod.splits)
      blast+
  then obtain tn cl jwt expires where m: "mails = [invitation_mail q auth tn cl jwt expires]"
    "il_link reply = ac_base_url A @ ''/api/v1/oidc/signup?invitation='' @ jwt" by blast
  let ?base = "rstrip_char (CHR ''/'') (ml_base_url E)"
  have same: "?base = ml_base_url E \<longleftrightarrow> \<not> ends_with (ml_base_url E) ''/''" by (rule rstrip_same)
  have "set ?base \<subseteq> set (ml_base_url E)" by (auto simp: rstrip_char_def dest: set_dropWhileD)
  then have "CHR ''?'' \<notin> set ?base" using assms(3) by blast
  then have link: "link_param ''invitation'' (accept_url E jwt) = Some jwt" if "\<forall>ch \<in> set jwt. unreserved_char ch"
    using link_param_token [of "?base @ ''/api/v1/oidc/signup''" jwt "''invitation''"] that
    by (simp add: accept_url_def unreserved_char_def alpha_char_def)
  have "il_link reply = accept_url E jwt \<longleftrightarrow> ?base = ml_base_url E"
    using m(2) assms(2) by (auto simp: accept_url_def)
  with m(1) same link assms(2) show ?thesis
    by (auto simp: invitation_mail_def send_invitation_email_def ostr_true_def)
qed

text \<open>A deployment, its template, and an account to verify.\<close>

definition demo_mail :: mail_env where
  "demo_mail = \<lparr>ml_base_url = ''https://iam.example/'', ml_app_name = ''IAM'',
     ml_verification_template = ''<p>Hi {first_name}</p><a href={verify_url}>{app_name}</a>'',
     ml_year = (\<lambda>_. ''2025''), ml_strftime = (\<lambda>_. ''soon'')\<rparr>"

lemma demo_accounts_law: "env_law (ac_tokens demo_accounts)"
  by (simp add: demo_accounts_def hs_tokens_law plain_entry_def)

definition mail_world :: world where
  "mail_world = account_demo\<lparr>w_now := 2000, w_users := map (\<lambda>u. u\<lparr>us_id := ''n9'', us_email_verified := False\<rparr>) (w_users account_demo)\<rparr>"

theorem mailed_link_verifies_witness:
  "fst (verify_email demo_accounts True ''vt'' mail_world) = Inr VerifiedPage
   \<and> map us_email_verified (w_users (snd (verify_email demo_accounts True ''vt'' mail_world))) = [True]"
proof -
  have base: "CHR ''?'' \<notin> set (ml_base_url demo_mail)" and fields: "''verify_url'' \<in> set (format_fields None (ml_verification_template demo_mail))"
    and soon: "w_now mail_world < 100 + 24 * 3600"
    by code_simp+
  have token: "create_verification_token (ac_tokens demo_accounts) 100 ''n9'' ''t1'' = Inr ''vt''" "''vt'' \<noteq> []"
    "\<forall>c \<in> set ''vt''. unreserved_char c"
    by code_simp+
  have sent: "send_mail demo_mail (ac_tokens demo_accounts) 100 (VerificationMail ''Ann'' ''Lee'' ''ann@x'' ''n9'' ''t1'' None)
     = Inr \<lparr>em_subject = ''Verify your IAM account'', em_recipients = [(''Ann Lee'', ''ann@x'')],
         em_body = HtmlText ''<p>Hi Ann</p><a href=https://iam.example//api/v1/onboarding/email/verify?token=vt>IAM</a>''\<rparr>"
    by code_simp
  from mailed_link_verifies [OF demo_accounts_law base token sent _ fields soon, of True]
  have "fst (verify_email demo_accounts True ''vt'' mail_world) = Inr VerifiedPage"
    "verified_only (Some ''n9'') mail_world (snd (verify_email demo_accounts True ''vt'' mail_world))" by simp_all
  then show ?thesis
    by (simp add: verified_only_def tenant_of_user_def mail_world_def account_demo_def oidc_demo_def policy_demo_def sql_row_def)
qed

theorem verification_mail_unescaped_witness:
  "\<exists>html. contains_sub ''<b>Win</b>'' html
     \<and> map_sum id em_body (send_mail demo_mail (ac_tokens demo_accounts) 100 (VerificationMail ''<b>Win</b>'' ''x'' ''victim@x'' ''n9'' ''t1'' None))
       = Inr (HtmlText html)"
proof -
  let ?m = "VerificationMail ''<b>Win</b>'' ''x'' ''victim@x'' ''n9'' ''t1'' None"
  have fields: "''first_name'' \<in> set (format_fields None (ml_verification_template demo_mail))" by code_simp
  have "\<not> isl (send_mail demo_mail (ac_tokens demo_accounts) 100 ?m)" by code_simp
  then obtain msg where sent: "send_mail demo_mail (ac_tokens demo_accounts) 100 ?m = Inr msg"
    by (cases "send_mail demo_mail (ac_tokens demo_accounts) 100 ?m") simp_all
  from verification_mail_unescaped [OF sent fields] sent show ?thesis by auto
qed

theorem invitation_mail_link_witness:
  "\<exists>x. map (map_sum id em_body \<circ> send_mail (demo_mail\<lparr>ml_base_url := ''https://iam''\<rparr>) (ac_tokens demo_accounts) 100)
       [InvitationMail ''nobody@x'' ''a@a'' ''T'' ''superadmin'' ''it2'' 604900 None] = [Inr (InvitationHtml x)]
     \<and> ix_role x \<noteq> [] \<and> ix_accept_url x = ''https://iam/api/v1/oidc/signup?invitation=it2''"
proof -
  let ?E = "demo_mail\<lparr>ml_base_url := ''https://iam''\<rparr>"
  let ?c = "create_invitation demo_accounts demo_account_random (TenantConn ''t1'') demo_invitation (client_admin ''t1'') account_demo"
  have run: "?c = (Inr (Success (Some \<lparr>il_id = ''n9'', il_email = ''nobody@x'', il_expires = 604900,
        il_link = ''https://iam/api/v1/oidc/signup?invitation=it2''\<rparr>) (Some ''Invitation created successfully'') 201,
      [InvitationMail ''nobody@x'' ''a@a'' ''T'' ''superadmin'' ''it2'' 604900 None]), snd ?c)"
    using demo_invitation_run by (metis created_response_def prod.collapse)
  have base: "ml_base_url ?E = ac_base_url demo_accounts" "CHR ''?'' \<notin> set (ml_base_url ?E)"
    "\<not> ends_with (ac_base_url demo_accounts) ''/''"
    by code_simp+
  from invitation_mail_link [OF run base(1,2), of "ac_tokens demo_accounts" 100] base(3) show ?thesis by auto
qed

end
