(* ===== verification/Row_Security.thy ===== *)
theory Row_Security
  imports Iam_Store
begin

text \<open>
  Where the row level security of \<open>Iam_Store\<close> comes from: the statements of the migrations 0006, 0012,
  0013 and 0016 (app/database/migrations), run against the catalog that PostgreSQL keeps of policies,
  enabled and forced tables, and PostgreSQL's rule for which rows a role may read, change, remove or
  insert under such a catalog. The theorems show that the four migrations lead to exactly the
  predicates that the rest of the model filters rows with, and what rolling one of them back does.
\<close>

section \<open>The catalog\<close>

datatype rls_command = ForAll | ForSelect | ForInsert | ForUpdate | ForDelete

text \<open>
  The two conditions the migrations write: the tenant column equals \<open>app.tenant_id\<close>, or that and
  besides the setting may be null or empty.
\<close>

datatype tenant_check = TenantMatches | TenantMatchesOrUnset

record rls_policy =
  rp_name :: string
  rp_table :: string
  rp_command :: rls_command
  rp_using :: "tenant_check option"
  rp_check :: "tenant_check option"

record rls_catalog =
  rc_enabled :: "string list"
  rc_forced :: "string list"
  rc_policies :: "rls_policy list"

definition empty_catalog :: rls_catalog where
  "empty_catalog = \<lparr>rc_enabled = [], rc_forced = [], rc_policies = []\<rparr>"

datatype rls_statement =
    EnableRls string | DisableRls string | ForceRls string | NoForceRls string
  | CreatePolicy rls_policy
  | CreateIfMissing rls_policy
  | DropIfExists string string

definition policy_named :: "string \<Rightarrow> string \<Rightarrow> rls_policy \<Rightarrow> bool" where
  "policy_named name tbl p \<longleftrightarrow> rp_name p = name \<and> rp_table p = tbl"

text \<open>\<open>CREATE POLICY\<close> of a policy that is there raises; the guarded form looks in \<open>pg_policies\<close> first.\<close>

fun run_statement :: "rls_statement \<Rightarrow> rls_catalog \<Rightarrow> exn + rls_catalog" where
  "run_statement (EnableRls t) c = Inr (c\<lparr>rc_enabled := t # filter (\<lambda>x. x \<noteq> t) (rc_enabled c)\<rparr>)"
| "run_statement (DisableRls t) c = Inr (c\<lparr>rc_enabled := filter (\<lambda>x. x \<noteq> t) (rc_enabled c)\<rparr>)"
| "run_statement (ForceRls t) c = Inr (c\<lparr>rc_forced := t # filter (\<lambda>x. x \<noteq> t) (rc_forced c)\<rparr>)"
| "run_statement (NoForceRls t) c = Inr (c\<lparr>rc_forced := filter (\<lambda>x. x \<noteq> t) (rc_forced c)\<rparr>)"
| "run_statement (CreatePolicy p) c =
     (if list_ex (policy_named (rp_name p) (rp_table p)) (rc_policies c) then Inl (DbErr OtherPostgresError)
      else Inr (c\<lparr>rc_policies := rc_policies c @ [p]\<rparr>))"
| "run_statement (CreateIfMissing p) c =
     Inr (if list_ex (policy_named (rp_name p) (rp_table p)) (rc_policies c) then c
          else c\<lparr>rc_policies := rc_policies c @ [p]\<rparr>)"
| "run_statement (DropIfExists n t) c =
     Inr (c\<lparr>rc_policies := filter (\<lambda>p. \<not> policy_named n t p) (rc_policies c)\<rparr>)"

fun run_statements :: "rls_statement list \<Rightarrow> rls_catalog \<Rightarrow> exn + rls_catalog" where
  "run_statements [] c = Inr c"
| "run_statements (s # ss) c = (case run_statement s c of Inl e \<Rightarrow> Inl e | Inr c' \<Rightarrow> run_statements ss c')"

text \<open>A migration file: steps, each with the statements that apply it and those that undo it.\<close>

type_synonym rls_step = "rls_statement list \<times> rls_statement list"

definition apply_steps :: "rls_step list \<Rightarrow> rls_catalog \<Rightarrow> exn + rls_catalog" where
  "apply_steps steps = run_statements (concat (map fst steps))"

definition rollback_steps :: "rls_step list \<Rightarrow> rls_catalog \<Rightarrow> exn + rls_catalog" where
  "rollback_steps steps = run_statements (concat (map snd (rev steps)))"

section \<open>The migrations\<close>

definition reads :: "string \<Rightarrow> string \<Rightarrow> rls_command \<Rightarrow> rls_policy" where
  "reads name tbl cmd = \<lparr>rp_name = name, rp_table = tbl, rp_command = cmd, rp_using = Some TenantMatches, rp_check = None\<rparr>"

definition inserts :: "string \<Rightarrow> string \<Rightarrow> rls_policy" where
  "inserts name tbl =
     \<lparr>rp_name = name, rp_table = tbl, rp_command = ForInsert, rp_using = None, rp_check = Some TenantMatchesOrUnset\<rparr>"

definition users_policies :: "rls_policy list" where
  "users_policies =
     [reads ''tenant_isolation_users_read'' ''users'' ForSelect, inserts ''tenant_users_insert'' ''users'',
      reads ''tenant_isolation_users_update'' ''users'' ForUpdate, reads ''tenant_isolation_users_delete'' ''users'' ForDelete]"

definition user_policies_policies :: "rls_policy list" where
  "user_policies_policies =
     [reads ''tenant_isolation_user_policies_read'' ''user_policies'' ForSelect,
      inserts ''tenant_user_policies_insert'' ''user_policies'',
      reads ''tenant_isolation_user_policies_update'' ''user_policies'' ForUpdate,
      reads ''tenant_isolation_user_policies_delete'' ''user_policies'' ForDelete]"

definition tenants_policies :: "rls_policy list" where
  "tenants_policies =
     [reads ''tenant_isolation_tenants_read'' ''tenants'' ForSelect, inserts ''tenant_allow_insert'' ''tenants'',
      reads ''tenant_isolation_tenants_modify'' ''tenants'' ForUpdate,
      reads ''tenant_isolation_tenants_delete'' ''tenants'' ForDelete]"

definition drops :: "rls_policy list \<Rightarrow> rls_statement list" where
  "drops ps = map (\<lambda>p. DropIfExists (rp_name p) (rp_table p)) ps"

definition users_all :: rls_policy where
  "users_all = reads ''tenant_isolation_users'' ''users'' ForAll"

definition user_policies_all :: rls_policy where
  "user_policies_all = reads ''tenant_isolation_user_policies'' ''user_policies'' ForAll"

definition tenants_all :: rls_policy where
  "tenants_all = reads ''tenant_isolation_tenant_policies'' ''tenants'' ForAll"

definition enable_row_level_security :: "rls_step list" where
  "enable_row_level_security =
     [([EnableRls ''users''], [DisableRls ''users'']),
      ([EnableRls ''user_policies''], [DisableRls ''user_policies'']),
      ([EnableRls ''tenants''], [DisableRls ''tenants'']),
      (drops [users_all] @ map CreateIfMissing users_policies, drops users_policies),
      (drops [user_policies_all] @ map CreateIfMissing user_policies_policies, drops user_policies_policies),
      (drops [tenants_all] @ map CreateIfMissing tenants_policies, drops tenants_policies)]"

definition enable_rls_tenant_policies :: "rls_step list" where
  "enable_rls_tenant_policies =
     [([EnableRls ''tenant_policies''], [DisableRls ''tenant_policies'']),
      ([CreateIfMissing \<lparr>rp_name = ''tenant_isolation_on_tenant_policies'', rp_table = ''tenant_policies'',
          rp_command = ForAll, rp_using = Some TenantMatches, rp_check = Some TenantMatches\<rparr>],
       [DropIfExists ''tenant_isolation_on_tenant_policies'' ''tenant_policies''])]"

definition force_rls_on_tables :: "rls_step list" where
  "force_rls_on_tables =
     map (\<lambda>t. ([ForceRls t], [NoForceRls t])) [''users'', ''user_policies'', ''tenants'', ''tenant_policies'']"

text \<open>Replacing the policies of a table; undoing it leaves the one policy for all commands.\<close>

definition replace_policies :: "rls_policy \<Rightarrow> rls_policy list \<Rightarrow> rls_step" where
  "replace_policies all ps = (drops (all # ps) @ map CreatePolicy ps, drops ps @ [CreatePolicy all])"

definition fix_rls_for_onboarding :: "rls_step list" where
  "fix_rls_for_onboarding =
     [replace_policies users_all users_policies,
      replace_policies user_policies_all user_policies_policies,
      replace_policies tenants_all tenants_policies]"

definition rls_migrations :: "rls_step list list" where
  "rls_migrations = [enable_row_level_security, enable_rls_tenant_policies, force_rls_on_tables, fix_rls_for_onboarding]"

fun apply_all :: "rls_step list list \<Rightarrow> rls_catalog \<Rightarrow> exn + rls_catalog" where
  "apply_all [] c = Inr c"
| "apply_all (m # ms) c = (case apply_steps m c of Inl e \<Rightarrow> Inl e | Inr c' \<Rightarrow> apply_all ms c')"

section \<open>What a role may do with a row\<close>

text \<open>
  A superuser passes over row security; the owner of a table passes unless it is forced; for the
  others, and on a table with row security, some policy for the command must hold. A policy without
  \<open>WITH CHECK\<close> checks new rows with its \<open>USING\<close> condition. The setting is null when it was never set.
\<close>

datatype db_role = Superuser | TableOwner | OtherRole

fun check_holds :: "tenant_check \<Rightarrow> string option \<Rightarrow> string \<Rightarrow> bool" where
  "check_holds TenantMatches setting t = (setting = Some t)"
| "check_holds TenantMatchesOrUnset setting t = (setting = None \<or> setting = Some [] \<or> setting = Some t)"

definition applies_to :: "rls_command \<Rightarrow> string \<Rightarrow> rls_policy \<Rightarrow> bool" where
  "applies_to cmd tbl p \<longleftrightarrow> rp_table p = tbl \<and> (rp_command p = ForAll \<or> rp_command p = cmd)"

definition policy_check :: "rls_command \<Rightarrow> rls_policy \<Rightarrow> tenant_check option" where
  "policy_check cmd p =
     (if cmd = ForInsert then (case rp_check p of None \<Rightarrow> rp_using p | Some k \<Rightarrow> Some k) else rp_using p)"

definition policy_allows :: "rls_command \<Rightarrow> string option \<Rightarrow> string \<Rightarrow> rls_policy \<Rightarrow> bool" where
  "policy_allows cmd setting t p = (case policy_check cmd p of None \<Rightarrow> True | Some k \<Rightarrow> check_holds k setting t)"

definition may :: "rls_catalog \<Rightarrow> db_role \<Rightarrow> string option \<Rightarrow> rls_command \<Rightarrow> string \<Rightarrow> string \<Rightarrow> bool" where
  "may c role setting cmd tbl t \<longleftrightarrow>
     role = Superuser \<or> tbl \<notin> set (rc_enabled c) \<or> (role = TableOwner \<and> tbl \<notin> set (rc_forced c))
     \<or> list_ex (\<lambda>p. applies_to cmd tbl p \<and> policy_allows cmd setting t p) (rc_policies c)"

text \<open>The role and the setting of a connection: the owner pool logs in as the superuser.\<close>

fun conn_role :: "conn \<Rightarrow> db_role" where
  "conn_role OwnerConn = Superuser"
| "conn_role (TenantConn t) = TableOwner"

fun conn_setting :: "conn \<Rightarrow> string option" where
  "conn_setting OwnerConn = None"
| "conn_setting (TenantConn t) = Some t"

abbreviation conn_may :: "rls_catalog \<Rightarrow> conn \<Rightarrow> rls_command \<Rightarrow> string \<Rightarrow> string \<Rightarrow> bool" where
  "conn_may c cn \<equiv> may c (conn_role cn) (conn_setting cn)"

section \<open>The catalog after the migrations\<close>

definition migrated :: rls_catalog where
  "migrated = \<lparr>rc_enabled = [''tenant_policies'', ''tenants'', ''user_policies'', ''users''],
     rc_forced = [''tenant_policies'', ''tenants'', ''user_policies'', ''users''],
     rc_policies =
       \<lparr>rp_name = ''tenant_isolation_on_tenant_policies'', rp_table = ''tenant_policies'',
          rp_command = ForAll, rp_using = Some TenantMatches, rp_check = Some TenantMatches\<rparr>
       # users_policies @ user_policies_policies @ tenants_policies\<rparr>"

lemma all_migrations_applied: "apply_all rls_migrations empty_catalog = Inr migrated"
  by code_simp

lemmas policy_defs = users_policies_def user_policies_policies_def tenants_policies_def reads_def inserts_def

lemma may_migrated:
  assumes "cmd \<noteq> ForAll" "role \<noteq> Superuser"
  shows "may migrated role s cmd ''users'' t = (if cmd = ForInsert then check_holds TenantMatchesOrUnset s t else s = Some t)"
    "may migrated role s cmd ''user_policies'' t = (if cmd = ForInsert then check_holds TenantMatchesOrUnset s t else s = Some t)"
    "may migrated role s cmd ''tenants'' t = (if cmd = ForInsert then check_holds TenantMatchesOrUnset s t else s = Some t)"
    "may migrated role s cmd ''tenant_policies'' t = (s = Some t)"
  using assms
  by (cases cmd; simp add: may_def migrated_def policy_defs applies_to_def policy_allows_def policy_check_def)+

lemma may_other: "tbl \<notin> {''users'', ''user_policies'', ''tenants'', ''tenant_policies''} \<Longrightarrow> may migrated role s cmd tbl t"
  by (simp add: may_def migrated_def)

section \<open>Properties\<close>

text \<open>C5. The migrations, run on an empty catalog, succeed, and the catalog they leave lets a connection do
  exactly what the rest of the model assumes, whether or not the role of the tenant pool owns the
  tables: on \<open>users\<close>, \<open>user_policies\<close>, \<open>tenants\<close> and \<open>tenant_policies\<close> rows are read, changed and
  removed within the tenant of the connection, inserted there or, on the first three, also without
  a tenant context; the superuser and all other tables are unrestricted.\<close>

theorem migrations_give_row_security:
  assumes "role = Superuser \<longleftrightarrow> cn = OwnerConn"
  shows "\<exists>c. apply_all rls_migrations empty_catalog = Inr c
     \<and> (\<forall>cmd \<in> {ForSelect, ForUpdate, ForDelete}. \<forall>tbl \<in> {''users'', ''user_policies'', ''tenants'', ''tenant_policies''}.
          may c role (conn_setting cn) cmd tbl t = rls_visible cn t)
     \<and> (\<forall>tbl \<in> {''users'', ''user_policies'', ''tenants''}. may c role (conn_setting cn) ForInsert tbl t = rls_insert_ok cn t)
     \<and> may c role (conn_setting cn) ForInsert ''tenant_policies'' t = rls_insert_strict cn t
     \<and> (\<forall>tbl cmd. tbl \<notin> {''users'', ''user_policies'', ''tenants'', ''tenant_policies''} \<longrightarrow> may c role (conn_setting cn) cmd tbl t)"
proof (rule exI [of _ migrated], intro conjI)
  show "apply_all rls_migrations empty_catalog = Inr migrated" by (rule all_migrations_applied)
  show "\<forall>tbl cmd. tbl \<notin> {''users'', ''user_policies'', ''tenants'', ''tenant_policies''} \<longrightarrow> may migrated role (conn_setting cn) cmd tbl t"
    using may_other by blast
qed (use assms may_migrated [of _ role "conn_setting cn" t] in \<open>cases cn; auto simp: may_def\<close>)+

theorem migrations_give_row_security_witness:
  "\<exists>c. apply_all rls_migrations empty_catalog = Inr c
     \<and> \<not> may c TableOwner (Some ''acme'') ForSelect ''users'' ''globex''
     \<and> may c TableOwner (Some ''acme'') ForSelect ''users'' ''acme''
     \<and> may c TableOwner (Some []) ForInsert ''users'' ''globex''"
proof -
  have m: "apply_all rls_migrations empty_catalog = Inr c \<Longrightarrow> c = migrated" for c using all_migrations_applied by simp
  from migrations_give_row_security [of TableOwner "TenantConn ''acme''" "''globex''"]
    migrations_give_row_security [of TableOwner "TenantConn ''acme''" "''acme''"]
    migrations_give_row_security [of TableOwner "TenantConn []" "''globex''"]
  show ?thesis using all_migrations_applied by (auto dest!: m)
qed

text \<open>Migration 0016 says that the policies of 0006 block inserts without a tenant context and that
  undoing it restores them. Neither is so: applied after 0006 it changes what no role may do, and
  undoing it leaves policies that 0006 never made, under which nothing can be inserted without a
  tenant context: onboarding over a tenant connection stops.\<close>

theorem onboarding_fix_is_not_undone:
  "\<exists>c0 c c'. apply_all (take 3 rls_migrations) empty_catalog = Inr c0
     \<and> apply_steps fix_rls_for_onboarding c0 = Inr c \<and> rollback_steps fix_rls_for_onboarding c = Inr c'
     \<and> (\<forall>role s cmd tbl t. may c role s cmd tbl t = may c0 role s cmd tbl t)
     \<and> (\<forall>t. may c0 TableOwner (Some []) ForInsert ''users'' t)
     \<and> (\<forall>a t. \<not> may c' TableOwner (Some []) ForInsert ''users'' (a # t) \<and> \<not> may c' TableOwner None ForInsert ''users'' (a # t))"
proof -
  let ?ps = "users_policies @ user_policies_policies @ tenants_policies"
  let ?t = "\<lparr>rp_name = ''tenant_isolation_on_tenant_policies'', rp_table = ''tenant_policies'',
     rp_command = ForAll, rp_using = Some TenantMatches, rp_check = Some TenantMatches\<rparr>"
  let ?c0 = "migrated\<lparr>rc_policies := ?ps @ [?t]\<rparr>"
  let ?c' = "migrated\<lparr>rc_policies := [?t, tenants_all, user_policies_all, users_all]\<rparr>"
  have runs: "apply_all (take 3 rls_migrations) empty_catalog = Inr ?c0"
    "apply_steps fix_rls_for_onboarding ?c0 = Inr migrated" "rollback_steps fix_rls_for_onboarding migrated = Inr ?c'"
    by code_simp+
  have same: "may migrated role s cmd tbl t = may ?c0 role s cmd tbl t" for role s cmd tbl t
    by (auto simp: may_def migrated_def list_ex_iff)
  have "may ?c0 TableOwner (Some []) ForInsert ''users'' t" for t
    using same [of TableOwner "Some []" ForInsert "''users''" t] may_migrated(1) [of ForInsert TableOwner "Some []" t] by simp
  moreover have "\<not> may ?c' TableOwner (Some []) ForInsert ''users'' (a # t) \<and> \<not> may ?c' TableOwner None ForInsert ''users'' (a # t)" for a t
    by (simp add: may_def migrated_def tenants_all_def user_policies_all_def users_all_def reads_def applies_to_def
        policy_allows_def policy_check_def)
  ultimately show ?thesis using runs same by blast
qed

fun rollback_all :: "rls_step list list \<Rightarrow> rls_catalog \<Rightarrow> exn + rls_catalog" where
  "rollback_all [] c = Inr c"
| "rollback_all (m # ms) c = (case rollback_steps m c of Inl e \<Rightarrow> Inl e | Inr c' \<Rightarrow> rollback_all ms c')"

text \<open>Going down and up again: undoing the four migrations in reverse order succeeds and lifts row
  security, and applying them again succeeds and restores it, although undoing 0016 has left
  policies behind.\<close>

theorem row_security_down_and_up:
  "\<exists>c c' d. apply_all rls_migrations empty_catalog = Inr c \<and> rollback_all (rev rls_migrations) c = Inr c'
     \<and> (\<forall>role s cmd tbl t. may c' role s cmd tbl t) \<and> rc_policies c' \<noteq> []
     \<and> apply_all rls_migrations c' = Inr d \<and> (\<forall>role s cmd tbl t. may d role s cmd tbl t = may c role s cmd tbl t)"
proof -
  let ?c' = "empty_catalog\<lparr>rc_policies := [tenants_all, user_policies_all, users_all]\<rparr>"
  have "rollback_all (rev rls_migrations) migrated = Inr ?c'" "apply_all rls_migrations ?c' = Inr migrated"
    by code_simp+
  moreover have "may ?c' role s cmd tbl t" for role s cmd tbl t by (simp add: may_def empty_catalog_def)
  moreover have "rc_policies ?c' \<noteq> []" by simp
  ultimately show ?thesis using all_migrations_applied by blast
qed

end
