(* ===== verification/Key_Lock.thy ===== *)
theory Key_Lock
  imports Signing_Keys
begin

text \<open>
  The lock file of the keyset (app/core/signing_keys.py, \<open>_file_lock\<close>): the workers of a deployment,
  each at a point of the protocol, one step per file operation. \<open>Signing_Keys\<close> treats what happens
  under the lock as one step; here the steps of several workers interleave. While no worker dies
  and no lock grows older than the 30 seconds after which it is broken, the lock excludes, and the
  interleaved sections leave the keyset that the atomic ones leave. The theory also shows what the
  protocol loses: a lock broken twice, the other worker's lock removed, a key overwritten, a call
  that fails on a lock that was just released.

  All times are in milliseconds; the wall clock of the modification times and the monotonic clock of
  the deadline are one clock.
\<close>

section \<open>The section under the lock\<close>

datatype lock_job = CreateKeyset | RotateKeys

text \<open>
  The two uses of the lock. Each begins by reading the file and either ends there or goes on to
  generate a key and write; between the two other processes run.
\<close>

definition section_read :: "lock_job \<Rightarrow> bool keys" where
  "section_read j = (case j of
     RotateKeys \<Rightarrow> ethen load_state_from_disk (eret True)
   | CreateKeyset \<Rightarrow> ebind (eget snd) (\<lambda>f.
       if f \<noteq> None then ethen load_state_from_disk (eret False) else eret True))"

definition rotate_rest :: "instant \<Rightarrow> unit keys" where
  "rotate_rest i =
     ebind (eget fst) (\<lambda>m.
     ebind (elift (active_key_of m)) (\<lambda>k.
     if in_wall i - kr_created k < km_rotation_interval m then eret ()
     else (case km_state m of None \<Rightarrow> eraise (PyErr TypeError)
           | Some st \<Rightarrow> write_state (in_wall i) (rotated_state i m st))))"

definition section_write :: "instant \<Rightarrow> lock_job \<Rightarrow> unit keys" where
  "section_write i j = (case j of
     RotateKeys \<Rightarrow> rotate_rest i
   | CreateKeyset \<Rightarrow> ebind (eget fst) (\<lambda>m. write_state (in_wall i) (build_initial_state i (km_algorithm m))))"

definition key_section :: "instant \<Rightarrow> lock_job \<Rightarrow> unit keys" where
  "key_section i j = ebind (section_read j) (\<lambda>go. if go then section_write i j else eret ())"

lemma key_section_rotate: "key_section i RotateKeys = rotate_locked i"
  by (rule ext) (simp add: key_section_def section_read_def section_write_def rotate_rest_def rotate_locked_def
      ebind_def ethen_def eret_def split: prod.splits sum.splits)

lemma key_section_create: "key_section i CreateKeyset (m, None) = ensure_state_loaded i (m, None)"
  by (simp add: key_section_def section_read_def section_write_def ensure_state_loaded_def eff_simps)

section \<open>Workers and the lock file\<close>

datatype lock_error = LockTimeout | LockVanished | BodyError exn

text \<open>
  The points of \<open>_file_lock\<close>: \<open>os.open\<close> with \<open>O_EXCL\<close>; the \<open>exists\<close> test after it was refused;
  \<open>stat\<close>; \<open>unlink\<close> of a stale lock; the deadline; the sleep; the process id to write; the two halves
  of the section; the \<open>unlink\<close> of the \<open>finally\<close> with what the section raised.
\<close>

datatype lock_pc =
    Away "lock_error option"
  | Opening int
  | Refused int
  | Stating int
  | Breaking int
  | Late int
  | Sleeping int int
  | Created nat
  | Inside
  | Loaded
  | Leaving "lock_error option"

record lock_worker =
  lw_pc :: lock_pc
  lw_job :: lock_job
  lw_manager :: manager

record lock_sys =
  lk_now :: int
  lk_file :: "(nat \<times> int) option"
  lk_next :: nat
  lk_keyset :: keyfile
  lk_worker :: "nat \<Rightarrow> lock_worker"

abbreviation pc_of :: "lock_sys \<Rightarrow> nat \<Rightarrow> lock_pc" where
  "pc_of s w \<equiv> lw_pc (lk_worker s w)"

definition goto :: "nat \<Rightarrow> lock_pc \<Rightarrow> lock_sys \<Rightarrow> lock_sys" where
  "goto w p s = s\<lparr>lk_worker := (lk_worker s)(w := (lk_worker s w)\<lparr>lw_pc := p\<rparr>)\<rparr>"

text \<open>Writing the process id through the descriptor dates the file it was opened on, if it is still the lock.\<close>

definition write_pid :: "nat \<Rightarrow> lock_sys \<Rightarrow> lock_sys" where
  "write_pid n s = (case lk_file s of
     Some (n', t) \<Rightarrow> if n' = n then s\<lparr>lk_file := Some (n, lk_now s)\<rparr> else s
   | None \<Rightarrow> s)"

definition lock_instant :: "lock_sys \<Rightarrow> key_record \<Rightarrow> instant" where
  "lock_instant s k = \<lparr>in_wall = lk_now s, in_mono = lk_now s, in_fresh = k\<rparr>"

text \<open>Half a section of a worker: its manager and the keyset file change, and it moves on.\<close>

definition run_body :: "nat \<Rightarrow> 'a keys \<Rightarrow> ('a \<Rightarrow> lock_pc) \<Rightarrow> lock_sys \<Rightarrow> lock_sys" where
  "run_body w body next_pc s =
     (let (r, m, f) = body (lw_manager (lk_worker s w), lk_keyset s);
          p = (case r of Inr x \<Rightarrow> next_pc x | Inl e \<Rightarrow> Leaving (Some (BodyError e))) in
      s\<lparr>lk_keyset := f,
        lk_worker := (lk_worker s)(w := (lk_worker s w)\<lparr>lw_pc := p, lw_manager := m\<rparr>)\<rparr>)"

definition lock_work :: "nat \<Rightarrow> key_record \<Rightarrow> lock_sys \<Rightarrow> lock_sys" where
  "lock_work w k s = (case pc_of s w of
     Away r \<Rightarrow> s
   | Opening dl \<Rightarrow> (case lk_file s of
       None \<Rightarrow> goto w (Created (lk_next s)) (s\<lparr>lk_file := Some (lk_next s, lk_now s), lk_next := Suc (lk_next s)\<rparr>)
     | Some _ \<Rightarrow> goto w (Refused dl) s)
   | Refused dl \<Rightarrow> goto w (if lk_file s \<noteq> None then Stating dl else Late dl) s
   | Stating dl \<Rightarrow> (case lk_file s of
       None \<Rightarrow> goto w (Away (Some LockVanished)) s
     | Some (n, t) \<Rightarrow> goto w (if 30000 < lk_now s - t then Breaking dl else Late dl) s)
   | Breaking dl \<Rightarrow> goto w (Opening dl) (s\<lparr>lk_file := None\<rparr>)
   | Late dl \<Rightarrow> goto w (if dl \<le> lk_now s then Away (Some LockTimeout) else Sleeping dl (lk_now s + 50)) s
   | Sleeping dl t \<Rightarrow> if t \<le> lk_now s then goto w (Opening dl) s else s
   | Created n \<Rightarrow> goto w Inside (write_pid n s)
   | Inside \<Rightarrow> run_body w (section_read (lw_job (lk_worker s w))) (\<lambda>go. if go then Loaded else Leaving None) s
   | Loaded \<Rightarrow> run_body w (section_write (lock_instant s k) (lw_job (lk_worker s w))) (\<lambda>_. Leaving None) s
   | Leaving r \<Rightarrow> goto w (Away r) (s\<lparr>lk_file := None\<rparr>))"

text \<open>
  What can happen: a worker calls for the lock, with its deadline ten seconds ahead; a worker takes
  its next step, with the key it would generate; time passes; a worker dies wherever it is and is
  restarted with an empty memory, the lock file staying as it is.
\<close>

datatype lock_event = Begin nat lock_job | Work nat key_record | Tick int | Crash nat

fun lock_event_step :: "lock_event \<Rightarrow> lock_sys \<Rightarrow> lock_sys" where
  "lock_event_step (Begin w j) s = (case pc_of s w of
     Away _ \<Rightarrow> s\<lparr>lk_worker := (lk_worker s)(w := (lk_worker s w)\<lparr>lw_pc := Opening (lk_now s + 10000), lw_job := j\<rparr>)\<rparr>
   | _ \<Rightarrow> s)"
| "lock_event_step (Work w k) s = lock_work w k s"
| "lock_event_step (Tick d) s = s\<lparr>lk_now := lk_now s + max d 0\<rparr>"
| "lock_event_step (Crash w) s = s\<lparr>lk_worker := (lk_worker s)(w :=
     (lk_worker s w)\<lparr>lw_pc := Away None, lw_manager := restarted (lw_manager (lk_worker s w))\<rparr>)\<rparr>"

definition lock_run :: "lock_event list \<Rightarrow> lock_sys \<Rightarrow> lock_sys" where
  "lock_run es s = fold lock_event_step es s"

fun holding :: "lock_pc \<Rightarrow> bool" where
  "holding (Created n) = True"
| "holding Inside = True"
| "holding Loaded = True"
| "holding (Leaving r) = True"
| "holding _ = False"

text \<open>
  A calm run: nobody dies, and a lock is given back before it counts as stale.
\<close>

definition lock_young :: "lock_sys \<Rightarrow> bool" where
  "lock_young s = (case lk_file s of None \<Rightarrow> True | Some (n, t) \<Rightarrow> lk_now s - t \<le> 30000)"

fun is_crash :: "lock_event \<Rightarrow> bool" where
  "is_crash (Crash w) = True"
| "is_crash _ = False"

fun calm :: "lock_event list \<Rightarrow> lock_sys \<Rightarrow> bool" where
  "calm [] s = lock_young s"
| "calm (e # es) s = (lock_young s \<and> \<not> is_crash e \<and> calm es (lock_event_step e s))"

definition lock_start :: "lock_sys \<Rightarrow> bool" where
  "lock_start s \<longleftrightarrow> lk_file s = None \<and> (\<forall>w. pc_of s w = Away None)"

lemma lock_run_simps [simp]: "lock_run [] s = s" "lock_run (e # es) s = lock_run es (lock_event_step e s)"
  by (simp_all add: lock_run_def)

section \<open>Exclusion\<close>

text \<open>A worker that has read the keyset would read the same again.\<close>

definition read_current :: "lock_sys \<Rightarrow> nat \<Rightarrow> bool" where
  "read_current s w \<longleftrightarrow>
     (let x = (lw_manager (lk_worker s w), lk_keyset s) in section_read (lw_job (lk_worker s w)) x = (Inr True, x))"

definition lock_inv :: "lock_sys \<Rightarrow> bool" where
  "lock_inv s \<longleftrightarrow> (\<forall>w dl. pc_of s w \<noteq> Breaking dl)
     \<and> (\<forall>w w'. holding (pc_of s w) \<longrightarrow> holding (pc_of s w') \<longrightarrow> w = w')
     \<and> (\<forall>w. holding (pc_of s w) \<longrightarrow> lk_file s \<noteq> None)
     \<and> (\<forall>w. pc_of s w = Loaded \<longrightarrow> read_current s w)"

lemma section_read_again:
  "section_read j x = (Inr True, x') \<Longrightarrow> section_read j x' = (Inr True, x') \<and> snd x' = snd x"
  by (cases x) (auto simp: section_read_def load_state_from_disk_def eff_simps
      split: lock_job.splits option.splits if_splits)

lemma section_read_keyset: "snd (snd (section_read j x)) = snd x"
  by (cases x) (auto simp: section_read_def load_state_from_disk_def eff_simps split: lock_job.splits option.splits)

lemma section_current:
  "section_read j x = (Inr True, x) \<Longrightarrow> key_section i j x = section_write i j x"
  by (simp add: key_section_def ebind_def)

lemma lock_start_inv: "lock_start s \<Longrightarrow> lock_inv s"
  by (simp add: lock_start_def lock_inv_def)

lemma goto_simps [simp]:
  "lk_now (goto w p s) = lk_now s" "lk_file (goto w p s) = lk_file s" "lk_next (goto w p s) = lk_next s"
  "lk_keyset (goto w p s) = lk_keyset s" "pc_of (goto w p s) w' = (if w' = w then p else pc_of s w')"
  "lw_manager (lk_worker (goto w p s) w') = lw_manager (lk_worker s w')"
  "lw_job (lk_worker (goto w p s) w') = lw_job (lk_worker s w')"
  by (simp_all add: goto_def)

lemma write_pid_simps [simp]:
  "lk_worker (write_pid n s) = lk_worker s" "lk_keyset (write_pid n s) = lk_keyset s"
  "lk_now (write_pid n s) = lk_now s" "lk_file (write_pid n s) = None \<longleftrightarrow> lk_file s = None"
  by (auto simp: write_pid_def split: option.splits)

lemma read_current_cong:
  "lk_worker s' w = lk_worker s w \<or> (lw_manager (lk_worker s' w) = lw_manager (lk_worker s w)
     \<and> lw_job (lk_worker s' w) = lw_job (lk_worker s w)) \<Longrightarrow> lk_keyset s' = lk_keyset s
   \<Longrightarrow> read_current s' w = read_current s w"
  by (auto simp: read_current_def)

lemma inv_goto:
  assumes "lock_inv s" "\<And>dl. p \<noteq> Breaking dl" "p \<noteq> Loaded" "holding p \<Longrightarrow> holding (pc_of s w)"
  shows "lock_inv (goto w p s)"
  using assms unfolding lock_inv_def by (auto simp: read_current_cong [of "goto w p s" _ s] split: if_splits)

lemma inv_wait [simp]:
  "lock_inv s \<Longrightarrow> lock_inv (goto w (Away r) s)" "lock_inv s \<Longrightarrow> lock_inv (goto w (Opening d) s)"
  "lock_inv s \<Longrightarrow> lock_inv (goto w (Refused d) s)" "lock_inv s \<Longrightarrow> lock_inv (goto w (Stating d) s)"
  "lock_inv s \<Longrightarrow> lock_inv (goto w (Late d) s)" "lock_inv s \<Longrightarrow> lock_inv (goto w (Sleeping d t) s)"
  by (rule inv_goto; simp)+

lemma inv_release:
  assumes "lock_inv s" "holding (pc_of s w)"
  shows "lock_inv (goto w (Away r) (s\<lparr>lk_file := None\<rparr>))"
proof -
  have "\<not> holding (pc_of s w')" if "w' \<noteq> w" for w' using assms that unfolding lock_inv_def by blast
  then have "pc_of s w' \<noteq> Loaded" if "w' \<noteq> w" for w' using that by fastforce
  with assms \<open>\<And>w'. w' \<noteq> w \<Longrightarrow> \<not> holding (pc_of s w')\<close> show ?thesis
    unfolding lock_inv_def by (auto split: if_splits)
qed

lemma inv_acquire:
  assumes "lock_inv s" "lk_file s = None"
  shows "lock_inv (goto w (Created n) (s\<lparr>lk_file := Some x, lk_next := n'\<rparr>))"
proof -
  have none: "\<not> holding (pc_of s w')" for w' using assms unfolding lock_inv_def by blast
  then have "pc_of s w' \<noteq> Loaded" for w' by (metis holding.simps(3))
  with assms none show ?thesis unfolding lock_inv_def by (auto split: if_splits)
qed

lemma inv_write_pid:
  assumes "lock_inv s" "holding (pc_of s w)"
  shows "lock_inv (goto w Inside (write_pid n s))"
proof -
  have "lock_inv (write_pid n s)"
    using assms(1) unfolding lock_inv_def by (auto simp: read_current_cong [of "write_pid n s" _ s])
  then show ?thesis by (rule inv_goto) (use assms(2) in simp_all)
qed

lemma run_body_simps [simp]:
  "lk_file (run_body w body nx s) = lk_file s" "lk_now (run_body w body nx s) = lk_now s"
  "w' \<noteq> w \<Longrightarrow> lk_worker (run_body w body nx s) w' = lk_worker s w'"
  "lw_job (lk_worker (run_body w body nx s) w') = lw_job (lk_worker s w')"
  "lk_keyset (run_body w body nx s) = snd (snd (body (lw_manager (lk_worker s w), lk_keyset s)))"
  by (simp_all add: run_body_def Let_def split: prod.splits)

lemma inv_body:
  assumes "lock_inv s" "holding (pc_of s w)" "holding (pc_of (run_body w body nx s) w)"
    and "pc_of (run_body w body nx s) w = Loaded \<Longrightarrow> read_current (run_body w body nx s) w"
  shows "lock_inv (run_body w body nx s)"
proof -
  let ?s = "run_body w body nx s"
  have others: "\<not> holding (pc_of s w')" "pc_of ?s w' = pc_of s w'" if "w' \<noteq> w" for w'
    using assms(1,2) that unfolding lock_inv_def by auto
  have "pc_of ?s w' \<noteq> Breaking dl" for w' dl
    using assms(1,3) others(2) unfolding lock_inv_def by (cases "w' = w") auto
  moreover have "w1 = w2" if "holding (pc_of ?s w1)" "holding (pc_of ?s w2)" for w1 w2
    using others that by metis
  moreover have "lk_file ?s \<noteq> None" using assms(1,2) unfolding lock_inv_def by auto
  moreover have "read_current ?s w'" if "pc_of ?s w' = Loaded" for w'
    using others [of w'] that assms(4) by (cases "w' = w") auto
  ultimately show ?thesis unfolding lock_inv_def by blast
qed

lemma inv_work:
  assumes "lock_inv s" "lock_young s"
  shows "lock_inv (lock_work w k s)"
proof (cases "pc_of s w")
  case (Opening dl)
  show ?thesis
  proof (cases "lk_file s")
    case None
    with Opening assms(1) show ?thesis by (simp add: lock_work_def inv_acquire)
  next
    case (Some nt)
    with Opening assms(1) show ?thesis by (simp add: lock_work_def)
  qed
next
  case (Stating dl)
  with assms show ?thesis
    by (auto simp: lock_work_def lock_young_def split: option.splits)
next
  case (Breaking dl)
  with assms(1) show ?thesis unfolding lock_inv_def by blast
next
  case Inside
  let ?j = "lw_job (lk_worker s w)" and ?m = "lw_manager (lk_worker s w)" and ?f = "lk_keyset s"
  obtain r m f where b: "section_read ?j (?m, ?f) = (r, m, f)" by (cases "section_read ?j (?m, ?f)") auto
  let ?s = "run_body w (section_read ?j) (\<lambda>go. if go then Loaded else Leaving None) s"
  have pc: "pc_of ?s w = (case r of Inr go \<Rightarrow> if go then Loaded else Leaving None | Inl e \<Rightarrow> Leaving (Some (BodyError e)))"
    and w: "lw_manager (lk_worker ?s w) = m" "lk_keyset ?s = f"
    using b by (simp_all add: run_body_def)
  have "lock_inv ?s"
  proof (rule inv_body [OF assms(1)])
    show "holding (pc_of s w)" using Inside by simp
    show "holding (pc_of ?s w)" using pc by (simp split: sum.splits)
    assume "pc_of ?s w = Loaded"
    then have "r = Inr True" using pc by (simp split: sum.splits if_splits)
    then show "read_current ?s w"
      using section_read_again [of ?j "(?m, ?f)" "(m, f)"] b w by (auto simp: read_current_def Let_def)
  qed
  with Inside show ?thesis by (simp add: lock_work_def)
next
  case Loaded
  have "lock_inv (run_body w (section_write i j) (\<lambda>_. Leaving None) s)" for i j
    by (rule inv_body [OF assms(1)]) (use Loaded in \<open>auto simp: run_body_def Let_def split: prod.splits sum.splits\<close>)
  with Loaded show ?thesis by (simp add: lock_work_def)
qed (use assms in \<open>auto simp: lock_work_def inv_release inv_write_pid\<close>)

lemma inv_event:
  assumes "lock_inv s" "lock_young s" "\<not> is_crash e"
  shows "lock_inv (lock_event_step e s)"
proof (cases e)
  case (Begin w j)
  show ?thesis
  proof (cases "\<exists>r. pc_of s w = Away r")
    case True
    let ?s = "s\<lparr>lk_worker := (lk_worker s)(w := (lk_worker s w)\<lparr>lw_pc := Opening (lk_now s + 10000), lw_job := j\<rparr>)\<rparr>"
    have "lock_inv ?s"
      using assms(1) True unfolding lock_inv_def by (auto simp: read_current_def split: if_splits)
    with True Begin show ?thesis by auto
  next
    case False
    with assms(1) Begin show ?thesis by (auto split: lock_pc.splits)
  qed
next
  case (Tick d)
  with assms(1) show ?thesis by (simp add: lock_inv_def read_current_def)
qed (use assms inv_work in auto)

lemma calm_inv: "calm es s \<Longrightarrow> lock_inv s \<Longrightarrow> lock_inv (lock_run es s)"
  by (induction es arbitrary: s) (auto simp: inv_event)

section \<open>Properties\<close>

text \<open>The sections that a run writes, in order, with their time, their job and the manager that runs them.\<close>

fun sections_of :: "lock_event list \<Rightarrow> lock_sys \<Rightarrow> (instant \<times> lock_job \<times> manager) list" where
  "sections_of [] s = []"
| "sections_of (e # es) s =
     (case e of
        Work w k \<Rightarrow> (if pc_of s w = Loaded
                     then [(lock_instant s k, lw_job (lk_worker s w), lw_manager (lk_worker s w))] else [])
      | _ \<Rightarrow> []) @ sections_of es (lock_event_step e s)"

text \<open>The same sections, each in one step.\<close>

definition atomic_section :: "instant \<times> lock_job \<times> manager \<Rightarrow> keyfile \<Rightarrow> keyfile" where
  "atomic_section = (\<lambda>(i, j, m) f. snd (snd (key_section i j (m, f))))"

lemma lock_work_keyset:
  assumes "lock_inv s"
  shows "lk_keyset (lock_work w k s) =
     (if pc_of s w = Loaded
      then atomic_section (lock_instant s k, lw_job (lk_worker s w), lw_manager (lk_worker s w)) (lk_keyset s)
      else lk_keyset s)"
proof (cases "pc_of s w = Loaded")
  case True
  then have "read_current s w" using assms unfolding lock_inv_def by blast
  then have "key_section i (lw_job (lk_worker s w)) (lw_manager (lk_worker s w), lk_keyset s)
      = section_write i (lw_job (lk_worker s w)) (lw_manager (lk_worker s w), lk_keyset s)" for i
    by (simp add: read_current_def Let_def section_current)
  with True show ?thesis by (simp add: lock_work_def atomic_section_def)
next
  case False
  then show ?thesis
    by (simp add: lock_work_def section_read_keyset split: lock_pc.splits option.splits)
qed

lemma begin_keyset [simp]: "lk_keyset (lock_event_step (Begin w j) s) = lk_keyset s"
  by (simp split: lock_pc.splits)

lemma sections_replay:
  "calm es s \<Longrightarrow> lock_inv s \<Longrightarrow> lk_keyset (lock_run es s) = fold atomic_section (sections_of es s) (lk_keyset s)"
proof (induction es arbitrary: s)
  case (Cons e es)
  have calm: "calm es (lock_event_step e s)" and young: "lock_young s" "\<not> is_crash e"
    using Cons.prems(1) by simp_all
  have IH: "lk_keyset (lock_run es (lock_event_step e s))
      = fold atomic_section (sections_of es (lock_event_step e s)) (lk_keyset (lock_event_step e s))"
    by (rule Cons.IH [OF calm inv_event [OF Cons.prems(2) young]])
  show ?case
    using IH young lock_work_keyset [OF Cons.prems(2)] by (cases e) (simp_all del: lock_event_step.simps(1))
qed simp



definition lock_demo :: lock_sys where
  "lock_demo = \<lparr>lk_now = 1000, lk_file = None, lk_next = 0, lk_keyset = Some (demo_keyset, 7),
     lk_worker = (\<lambda>_. \<lparr>lw_pc = Away None, lw_job = RotateKeys, lw_manager = demo_ready\<rparr>)\<rparr>"

definition fresh_key :: "string \<Rightarrow> key_record" where
  "fresh_key kid = \<lparr>kr_kid = kid, kr_created = 0, kr_private = ''sk-'' @ kid, kr_public = ''pk-'' @ kid\<rparr>"

abbreviation work_n :: "nat \<Rightarrow> string \<Rightarrow> nat \<Rightarrow> lock_event list" where
  "work_n w kid n \<equiv> replicate n (Work w (fresh_key kid))"

text \<open>Two workers want to rotate: the second is refused, sleeps, comes back and finds the work done.\<close>

definition calm_demo :: "lock_event list" where
  "calm_demo = [Begin 0 RotateKeys, Begin 1 RotateKeys] @ work_n 0 ''k2'' 3 @ work_n 1 ''k3'' 4 @ work_n 0 ''k2'' 2
     @ [Tick 60] @ work_n 1 ''k3'' 6"

lemma lock_demo_start: "lock_start lock_demo"
  by (simp add: lock_start_def lock_demo_def)

lemma calm_demo_calm: "calm calm_demo lock_demo"
  by code_simp



section \<open>What the protocol loses\<close>

lemma lock_run_append: "lock_run (xs @ ys) s = lock_run ys (lock_run xs s)"
  by (simp add: lock_run_def)

text \<open>A worker about to break a lock: it removes whatever lock there is, takes its own and reads the keyset.\<close>

lemma break_and_read:
  assumes "pc_of s w = Breaking d" "lw_job (lk_worker s w) = RotateKeys" "lk_keyset s = Some (st, mt)"
    and "ks_algorithm st = km_algorithm (lw_manager (lk_worker s w))"
  shows "\<exists>l n. lock_run (replicate 4 (Work w k)) s =
     s\<lparr>lk_file := l, lk_next := n, lk_keyset := Some (st, mt),
       lk_worker := (lk_worker s)(w := (lk_worker s w)\<lparr>lw_pc := Loaded,
         lw_manager := (lw_manager (lk_worker s w))\<lparr>km_state := Some st, km_mtime := Some mt\<rparr>\<rparr>)\<rparr>"
proof -
  let ?s1 = "lock_work w k s"
  let ?s2 = "lock_work w k ?s1"
  let ?s3 = "lock_work w k ?s2"
  have "?s1 = goto w (Opening d) (s\<lparr>lk_file := None\<rparr>)" using assms(1) by (simp add: lock_work_def)
  then have s2: "?s2 = s\<lparr>lk_file := Some (lk_next s, lk_now s), lk_next := Suc (lk_next s),
      lk_worker := (lk_worker s)(w := (lk_worker s w)\<lparr>lw_pc := Created (lk_next s)\<rparr>)\<rparr>"
    by (simp add: lock_work_def goto_def)
  then have s3: "?s3 = s\<lparr>lk_file := Some (lk_next s, lk_now s), lk_next := Suc (lk_next s),
      lk_worker := (lk_worker s)(w := (lk_worker s w)\<lparr>lw_pc := Inside\<rparr>)\<rparr>"
    by (simp add: lock_work_def goto_def write_pid_def)
  have "lock_work w k ?s3 = s\<lparr>lk_file := Some (lk_next s, lk_now s), lk_next := Suc (lk_next s),
      lk_keyset := Some (st, mt), lk_worker := (lk_worker s)(w := (lk_worker s w)\<lparr>lw_pc := Loaded,
        lw_manager := (lw_manager (lk_worker s w))\<lparr>km_state := Some st, km_mtime := Some mt\<rparr>\<rparr>)\<rparr>"
    unfolding s3 using assms(2-4)
    by (simp add: lock_work_def run_body_def section_read_def ethen_def ebind_def eret_def load_run)
  then show ?thesis by (intro exI) (simp add: numeral_eq_Suc)
qed

text \<open>A worker that has read the keyset and finds the key too old: it writes its rotation and leaves.\<close>

lemma write_and_leave:
  assumes "pc_of s w = Loaded" "lw_job (lk_worker s w) = RotateKeys"
    and "km_state (lw_manager (lk_worker s w)) = Some st" "active_key st = Inr k0"
    and "km_rotation_interval (lw_manager (lk_worker s w)) \<le> lk_now s - kr_created k0"
  shows "let st' = rotated_state (lock_instant s k) (lw_manager (lk_worker s w)) st in
     lock_run (replicate 2 (Work w k)) s =
     s\<lparr>lk_keyset := Some (st', lk_now s), lk_file := None,
       lk_worker := (lk_worker s)(w := (lk_worker s w)\<lparr>
         lw_manager := (lw_manager (lk_worker s w))\<lparr>km_state := Some st', km_mtime := Some (lk_now s)\<rparr>, lw_pc := Away None\<rparr>)\<rparr>"
proof -
  let ?st = "rotated_state (lock_instant s k) (lw_manager (lk_worker s w)) st"
  have e: "lock_work w k s = s\<lparr>lk_keyset := Some (?st, lk_now s),
      lk_worker := (lk_worker s)(w := (lk_worker s w)\<lparr>lw_pc := Leaving None,
         lw_manager := (lw_manager (lk_worker s w))\<lparr>km_state := Some ?st, km_mtime := Some (lk_now s)\<rparr>\<rparr>)\<rparr>"
    using assms
    by (simp add: lock_work_def run_body_def section_write_def rotate_rest_def eff_simps active_key_of_def
        write_state_def lock_instant_def)
  show ?thesis by (simp add: numeral_eq_Suc e Let_def) (simp add: lock_work_def goto_def)
qed

text \<open>A lock left behind by a dead worker can be broken twice: when two workers have found it stale,
  the second removes the lock that the first has taken in the meantime, and both are inside. Both
  rotate from the same keyset, the second write drops the first worker's new key, and that worker
  goes on signing with a key that is not in the keyset any more.\<close>

theorem stale_lock_loses_key:
  assumes "a \<noteq> b" "pc_of s a = Breaking da" "pc_of s b = Breaking db"
    and "lw_job (lk_worker s a) = RotateKeys" "lw_job (lk_worker s b) = RotateKeys"
    and "lk_keyset s = Some (st, mt)" "active_key st = Inr k0"
    and "\<forall>w \<in> {a, b}. ks_algorithm st = km_algorithm (lw_manager (lk_worker s w))
       \<and> km_rotation_interval (lw_manager (lk_worker s w)) \<le> lk_now s - kr_created k0"
    and "fresh_for (lock_instant s ka) st" "kr_kid ka \<noteq> kr_kid kb"
  shows "let s1 = lock_run (replicate 4 (Work a ka) @ replicate 4 (Work b kb)) s;
             s2 = lock_run (replicate 2 (Work a ka) @ replicate 2 (Work b kb)) s1 in
     holding (pc_of s1 a) \<and> holding (pc_of s1 b)
     \<and> pc_of s2 a = Away None \<and> pc_of s2 b = Away None
     \<and> active_key_of (lw_manager (lk_worker s2 a)) = Inr (generate_key (lock_instant s ka))
     \<and> kr_kid ka \<notin> kr_kid ` set (file_keys (lk_keyset s2))"
proof -
  let ?ma = "(lw_manager (lk_worker s a))\<lparr>km_state := Some st, km_mtime := Some mt\<rparr>"
  let ?mb = "(lw_manager (lk_worker s b))\<lparr>km_state := Some st, km_mtime := Some mt\<rparr>"
  let ?sta = "rotated_state (lock_instant s ka) ?ma st" and ?stb = "rotated_state (lock_instant s kb) ?mb st"
  have alg_b: "ks_algorithm st = km_algorithm (lw_manager (lk_worker s b))" using assms(8) by blast
  obtain l n where a: "lock_run (replicate 4 (Work a ka)) s = s\<lparr>lk_file := l, lk_next := n,
      lk_keyset := Some (st, mt), lk_worker := (lk_worker s)(a := (lk_worker s a)\<lparr>lw_pc := Loaded, lw_manager := ?ma\<rparr>)\<rparr>"
    (is "_ = ?sa") using break_and_read [OF assms(2,4,6)] assms(8) by blast
  have "\<exists>l n. lock_run (replicate 4 (Work b kb)) ?sa = ?sa\<lparr>lk_file := l, lk_next := n,
      lk_keyset := Some (st, mt), lk_worker := (lk_worker ?sa)(b := (lk_worker ?sa b)\<lparr>lw_pc := Loaded,
        lw_manager := (lw_manager (lk_worker ?sa b))\<lparr>km_state := Some st, km_mtime := Some mt\<rparr>\<rparr>)\<rparr>"
    by (rule break_and_read) (use assms(1,3,5) alg_b in simp_all)
  then obtain l' n' where s1: "lock_run (replicate 4 (Work a ka) @ replicate 4 (Work b kb)) s =
      s\<lparr>lk_file := l', lk_next := n', lk_keyset := Some (st, mt), lk_worker := (lk_worker s)
        (a := (lk_worker s a)\<lparr>lw_pc := Loaded, lw_manager := ?ma\<rparr>, b := (lk_worker s b)\<lparr>lw_pc := Loaded, lw_manager := ?mb\<rparr>)\<rparr>"
    (is "_ = ?s1") using a assms(1) by (auto simp: lock_run_append)
  have wa: "lock_run (replicate 2 (Work a ka)) ?s1 = ?s1\<lparr>lk_keyset := Some (?sta, lk_now s), lk_file := None,
      lk_worker := (lk_worker ?s1)(a := (lk_worker ?s1 a)\<lparr>
        lw_manager := ?ma\<lparr>km_state := Some ?sta, km_mtime := Some (lk_now s)\<rparr>, lw_pc := Away None\<rparr>)\<rparr>" (is "_ = ?s2")
    using write_and_leave [of ?s1 a st k0 ka] assms(1,4,7,8) by (simp add: Let_def lock_instant_def)
  have wb: "lock_run (replicate 2 (Work b kb)) ?s2 = ?s2\<lparr>lk_keyset := Some (?stb, lk_now s), lk_file := None,
      lk_worker := (lk_worker ?s2)(b := (lk_worker ?s2 b)\<lparr>
        lw_manager := ?mb\<lparr>km_state := Some ?stb, km_mtime := Some (lk_now s)\<rparr>, lw_pc := Away None\<rparr>)\<rparr>"
    using write_and_leave [of ?s2 b st k0 kb] assms(1,5,7,8) by (simp add: Let_def lock_instant_def)
  have act: "active_key ?sta = Inr (generate_key (lock_instant s ka))" by (rule active_rotated [OF assms(9)])
  have "kr_kid ka \<notin> kr_kid ` set (ks_keys ?stb)"
    using assms(9,10) by (auto simp: rotated_state_def prune_keys_def Let_def fresh_for_def lock_instant_def
        generate_key_def image_iff)
  with s1 wa wb act assms(1) show ?thesis
    by (simp add: lock_run_append Let_def active_key_of_def file_keys_def)
qed

text \<open>A worker dies with the lock; half a minute later two others find it stale.\<close>

definition stale_demo :: lock_sys where
  "stale_demo = lock_run ([Begin 0 RotateKeys] @ work_n 0 ''k2'' 2 @ [Crash 0, Tick 30001, Begin 1 RotateKeys, Begin 2 RotateKeys]
     @ work_n 1 ''k3'' 3 @ work_n 2 ''k4'' 3) lock_demo"

theorem stale_lock_loses_key_witness:
  "let s1 = lock_run (work_n 1 ''k3'' 4 @ work_n 2 ''k4'' 4) stale_demo;
       s2 = lock_run (work_n 1 ''k3'' 2 @ work_n 2 ''k4'' 2) s1 in
   holding (pc_of s1 1) \<and> holding (pc_of s1 2) \<and> pc_of s2 1 = Away None \<and> pc_of s2 2 = Away None
   \<and> ''k3'' \<notin> kr_kid ` set (file_keys (lk_keyset s2))"
proof -
  have at: "pc_of stale_demo 1 = Breaking 41001" "pc_of stale_demo 2 = Breaking 41001"
    "lw_job (lk_worker stale_demo 1) = RotateKeys" "lw_job (lk_worker stale_demo 2) = RotateKeys"
    by code_simp+
  have keys: "lk_keyset stale_demo = Some (demo_keyset, 7)" "active_key demo_keyset = Inr demo_key"
    "fresh_for (lock_instant stale_demo (fresh_key ''k3'')) demo_keyset"
    by code_simp+
  have cfg: "\<forall>w \<in> {1, 2}. ks_algorithm demo_keyset = km_algorithm (lw_manager (lk_worker stale_demo w))
     \<and> km_rotation_interval (lw_manager (lk_worker stale_demo w)) \<le> lk_now stale_demo - kr_created demo_key"
    by code_simp
  have kids: "kr_kid (fresh_key ''k3'') \<noteq> kr_kid (fresh_key ''k4'')" "(1::nat) \<noteq> 2" by code_simp+
  have kid: "kr_kid (fresh_key ''k3'') = ''k3''" by (simp add: fresh_key_def)
  from stale_lock_loses_key [OF kids(2) at keys(1,2) cfg keys(3) kids(1)] show ?thesis
    unfolding Let_def kid by blast
qed

text \<open>A worker that has seen the lock file exists and asks for its age fails when the holder gives
  the lock back in between: \<open>stat\<close> raises \<open>FileNotFoundError\<close>, which nothing catches, although the lock
  is free. What the worker was doing, signing or verifying a token, fails with it.\<close>

theorem released_lock_fails_waiter:
  assumes "pc_of s a = Leaving r" "pc_of s b = Stating d"
  shows "let s' = lock_run [Work a ka, Work b kb] s in
     pc_of s' b = Away (Some LockVanished) \<and> lk_file s' = None
     \<and> lw_manager (lk_worker s' b) = lw_manager (lk_worker s b)"
proof -
  have "b \<noteq> a" using assms by auto
  with assms show ?thesis by (simp add: lock_work_def Let_def)
qed

theorem released_lock_fails_waiter_witness:
  "let s = lock_run ([Begin 0 RotateKeys, Begin 1 RotateKeys] @ work_n 0 ''k2'' 4 @ work_n 1 ''k3'' 2) lock_demo;
       s' = lock_run [Work 0 (fresh_key ''k2''), Work 1 (fresh_key ''k3'')] s in
   pc_of s' 1 = Away (Some LockVanished) \<and> lk_file s' = None"
proof -
  let ?s = "lock_run ([Begin 0 RotateKeys, Begin 1 RotateKeys] @ work_n 0 ''k2'' 4 @ work_n 1 ''k3'' 2) lock_demo"
  have pcs: "pc_of ?s 0 = Leaving None" "pc_of ?s 1 = Stating 11000" by code_simp+
  show ?thesis
    using released_lock_fails_waiter [OF pcs, of "fresh_key ''k2''" "fresh_key ''k3''"] unfolding Let_def by blast
qed

end
