(* ===== verification/Key_Encoding.thy ===== *)
theory Key_Encoding
  imports Signing_Keys "HOL-Library.Word" "HOL-Library.Log_Nat"
begin

text \<open>
  The published form of the keys (app/core/signing_keys.py: \<open>_base64url_encode\<close>, \<open>_int_to_bytes\<close>,
  \<open>_build_kid\<close> and the key records of \<open>_generate_key_record_locked\<close>): numbers as big-endian bytes,
  bytes as unpadded url-safe base64, key ids as a truncated hash. A reader that decodes the way RFC
  4648 says recovers the numbers of the key; the digest and the PEM writers are parameters.
\<close>

section \<open>Numbers as bytes\<close>

text \<open>\<open>int.to_bytes\<close> with \<open>byteorder="big"\<close>: \<open>OverflowError\<close> when the number does not fit.\<close>

fun be_bytes :: "nat \<Rightarrow> nat \<Rightarrow> 8 word list" where
  "be_bytes 0 v = []"
| "be_bytes (Suc n) v = be_bytes n (v div 256) @ [of_nat (v mod 256)]"

definition to_bytes :: "int \<Rightarrow> nat \<Rightarrow> exn + 8 word list" where
  "to_bytes v n = (if v < 0 \<or> 256 ^ n \<le> v then Inl (PyErr OtherError) else Inr (be_bytes n (nat v)))"

definition int_to_bytes :: "int \<Rightarrow> nat option \<Rightarrow> exn + 8 word list" where
  "int_to_bytes v n =
     to_bytes v (case n of None \<Rightarrow> max 1 (nat ((bitlen v + 7) div 8)) | Some n \<Rightarrow> n)"

text \<open>Reading the bytes back.\<close>

definition bytes_value :: "8 word list \<Rightarrow> nat" where
  "bytes_value bs = foldl (\<lambda>a b. a * 256 + unat b) 0 bs"

lemma be_bytes_length [simp]: "length (be_bytes n v) = n"
  by (induction n arbitrary: v) simp_all

lemma unat_byte: "unat (of_nat (v mod 256) :: 8 word) = v mod 256"
  by (simp add: unat_of_nat)

lemma bytes_value_be: "v < 256 ^ n \<Longrightarrow> bytes_value (be_bytes n v) = v"
proof (induction n arbitrary: v)
  case (Suc n)
  then have "v div 256 < 256 ^ n" by (simp add: less_mult_imp_div_less mult.commute)
  with Suc.IH [of "v div 256"] show ?case
    by (simp add: bytes_value_def unat_byte del: of_nat_mod)
qed (simp add: bytes_value_def)

lemma bitlen_fits:
  assumes "0 \<le> v"
  shows "v < 256 ^ max 1 (nat ((bitlen v + 7) div 8))"
proof (cases "v = 0")
  case False
  then have "v < 2 ^ nat (bitlen v)" using assms bitlen_bounds [of v] by simp
  also have "nat (bitlen v) \<le> 8 * max 1 (nat ((bitlen v + 7) div 8))" by simp
  then have "(2::int) ^ nat (bitlen v) \<le> 2 ^ (8 * max 1 (nat ((bitlen v + 7) div 8)))"
    by (rule power_increasing) simp
  also have "(2::int) ^ (8 * max 1 (nat ((bitlen v + 7) div 8))) = 256 ^ max 1 (nat ((bitlen v + 7) div 8))"
    by (simp add: power_mult)
  finally show ?thesis .
qed simp

section \<open>Bytes as url-safe base64\<close>

definition b64_alphabet :: string where
  "b64_alphabet = ''ABCDEFGHIJKLMNOPQRSTUVWXYZabcdefghijklmnopqrstuvwxyz0123456789-_''"

definition b64_char :: "nat \<Rightarrow> char" where
  "b64_char n = b64_alphabet ! n"

definition b64_index :: "char \<Rightarrow> nat" where
  "b64_index c = length (takeWhile (\<lambda>x. x \<noteq> c) b64_alphabet)"

fun urlsafe_b64encode :: "8 word list \<Rightarrow> string" where
  "urlsafe_b64encode [] = []"
| "urlsafe_b64encode [a] = [b64_char (unat a div 4), b64_char (unat a mod 4 * 16), CHR ''='', CHR ''='']"
| "urlsafe_b64encode [a, b] =
     [b64_char (unat a div 4), b64_char (unat a mod 4 * 16 + unat b div 16), b64_char (unat b mod 16 * 4), CHR ''='']"
| "urlsafe_b64encode (a # b # c # bs) =
     [b64_char (unat a div 4), b64_char (unat a mod 4 * 16 + unat b div 16),
      b64_char (unat b mod 16 * 4 + unat c div 64), b64_char (unat c mod 64)] @ urlsafe_b64encode bs"

definition base64url_encode :: "8 word list \<Rightarrow> string" where
  "base64url_encode raw = rstrip_char (CHR ''='') (urlsafe_b64encode raw)"

text \<open>A reader of unpadded base64: the three bytes of four six-bit digits.\<close>

definition byte1 :: "nat \<Rightarrow> nat \<Rightarrow> 8 word" where
  "byte1 p q = of_nat (p * 4 + q div 16)"

definition byte2 :: "nat \<Rightarrow> nat \<Rightarrow> 8 word" where
  "byte2 q r = of_nat (q mod 16 * 16 + r div 4)"

definition byte3 :: "nat \<Rightarrow> nat \<Rightarrow> 8 word" where
  "byte3 r s = of_nat (r mod 4 * 64 + s)"

fun digits_bytes :: "nat list \<Rightarrow> 8 word list" where
  "digits_bytes (p # q # r # s # ds) = [byte1 p q, byte2 q r, byte3 r s] @ digits_bytes ds"
| "digits_bytes [p, q, r] = [byte1 p q, byte2 q r]"
| "digits_bytes [p, q] = [byte1 p q]"
| "digits_bytes _ = []"

definition base64url_decode :: "string \<Rightarrow> 8 word list" where
  "base64url_decode cs = digits_bytes (map b64_index cs)"

lemma b64_all: "list_all (\<lambda>n. b64_index (b64_char n) = n \<and> b64_char n \<in> set b64_alphabet) [0..<64]"
  by code_simp

lemma b64_index_char: "n < 64 \<Longrightarrow> b64_index (b64_char n) = n"
  using b64_all by (simp add: list_all_iff)

lemma b64_char_in: "n < 64 \<Longrightarrow> b64_char n \<in> set b64_alphabet"
  using b64_all by (simp add: list_all_iff)

lemma b64_no_pad: "c \<in> set b64_alphabet \<Longrightarrow> c \<noteq> CHR ''=''"
  by (auto simp: b64_alphabet_def)

lemma byte_less: "unat (a :: 8 word) < 256"
  using unsigned_less [of a] by simp

text \<open>The four six-bit digits of three bytes.\<close>

lemma six_bits:
  fixes a b c :: "8 word"
  shows "unat a div 4 < 64" "unat a mod 4 * 16 < 64" "unat a mod 4 * 16 + unat b div 16 < 64"
    "unat b mod 16 * 4 < 64" "unat b mod 16 * 4 + unat c div 64 < 64" "unat c mod 64 < 64"
  using byte_less [of a] byte_less [of b] byte_less [of c] by auto

text \<open>The encoding without its padding.\<close>

fun b64_digits :: "8 word list \<Rightarrow> nat list" where
  "b64_digits [] = []"
| "b64_digits [a] = [unat a div 4, unat a mod 4 * 16]"
| "b64_digits [a, b] = [unat a div 4, unat a mod 4 * 16 + unat b div 16, unat b mod 16 * 4]"
| "b64_digits (a # b # c # bs) =
     [unat a div 4, unat a mod 4 * 16 + unat b div 16, unat b mod 16 * 4 + unat c div 64, unat c mod 64] @ b64_digits bs"

lemma b64_digits_less: "\<forall>n \<in> set (b64_digits bs). n < 64"
  by (induction bs rule: b64_digits.induct) (simp_all only: b64_digits.simps set_simps set_append ball_Un ball_simps six_bits)

lemma urlsafe_digits: "\<exists>k. urlsafe_b64encode bs = map b64_char (b64_digits bs) @ replicate k (CHR ''='')"
proof (induction bs rule: b64_digits.induct)
  case (2 a)
  show ?case by (rule exI [of _ "Suc (Suc 0)"]) simp
next
  case (3 a b)
  show ?case by (rule exI [of _ 1]) simp
qed auto

lemma rstrip_pad:
  assumes "c \<notin> set xs"
  shows "rstrip_char c (xs @ replicate k c) = xs"
proof -
  have "dropWhile (\<lambda>x. x = c) (replicate k c @ rev xs) = rev xs"
    using assms by (induction k) (auto simp: dropWhile_eq_self_iff hd_rev)
  then show ?thesis by (simp add: rstrip_char_def)
qed

lemma base64url_digits: "base64url_encode bs = map b64_char (b64_digits bs)"
proof -
  have "CHR ''='' \<notin> set (map b64_char (b64_digits bs))"
    using b64_digits_less [of bs] b64_char_in b64_no_pad [of "CHR ''=''"] by (auto simp del: in_set_replicate)
  moreover obtain k where "urlsafe_b64encode bs = map b64_char (b64_digits bs) @ replicate k (CHR ''='')"
    using urlsafe_digits [of bs] by (rule exE)
  ultimately show ?thesis by (simp add: base64url_encode_def rstrip_pad)
qed

lemma base64url_alphabet: "set (base64url_encode bs) \<subseteq> set b64_alphabet"
  using b64_digits_less b64_char_in by (auto simp: base64url_digits)

lemma base64url_length: "length (base64url_encode bs) = (8 * length bs + 5) div 6"
  unfolding base64url_digits by (induction bs rule: b64_digits.induct) auto

lemma three_bytes_nat:
  fixes x y z :: nat
  assumes "y < 256" "z < 256"
  shows "x div 4 * 4 + (x mod 4 * 16 + y div 16) div 16 = x"
    "(x mod 4 * 16 + y div 16) mod 16 * 16 + (y mod 16 * 4 + z div 64) div 4 = y"
    "(y mod 16 * 4 + z div 64) mod 4 * 64 + z mod 64 = z"
proof -
  have y: "y div 16 < 16" "z div 64 < 4" using assms by auto
  have "(x mod 4 * 16 + y div 16) div 16 = x mod 4" "(x mod 4 * 16 + y div 16) mod 16 = y div 16"
    "(y mod 16 * 4 + z div 64) div 4 = y mod 16" "(y mod 16 * 4 + z div 64) mod 4 = z div 64"
    using y by (simp_all add: mult.commute [of _ 16] mult.commute [of _ 4])
  then show "x div 4 * 4 + (x mod 4 * 16 + y div 16) div 16 = x"
    "(x mod 4 * 16 + y div 16) mod 16 * 16 + (y mod 16 * 4 + z div 64) div 4 = y"
    "(y mod 16 * 4 + z div 64) mod 4 * 64 + z mod 64 = z"
    by simp_all
qed

lemma three_bytes:
  fixes a b c :: "8 word"
  shows "byte1 (unat a div 4) (unat a mod 4 * 16 + unat b div 16) = a"
    "byte2 (unat a mod 4 * 16 + unat b div 16) (unat b mod 16 * 4 + unat c div 64) = b"
    "byte3 (unat b mod 16 * 4 + unat c div 64) (unat c mod 64) = c"
  unfolding byte1_def byte2_def byte3_def three_bytes_nat [OF byte_less byte_less] by simp_all

lemma last_bytes:
  fixes a b :: "8 word"
  shows "byte1 (unat a div 4) (unat a mod 4 * 16) = a"
    "byte2 (unat a mod 4 * 16 + unat b div 16) (unat b mod 16 * 4) = b"
  using three_bytes(1) [of a 0] three_bytes(2) [of a b 0] by simp_all

lemma digits_roundtrip: "digits_bytes (b64_digits bs) = bs"
  by (induction bs rule: b64_digits.induct) (simp_all only: b64_digits.simps digits_bytes.simps append.simps three_bytes last_bytes)

lemma base64url_roundtrip: "base64url_decode (base64url_encode bs) = bs"
proof -
  have "map b64_index (map b64_char (b64_digits bs)) = b64_digits bs"
    using b64_digits_less [of bs] by (simp add: b64_index_char map_idI)
  then show ?thesis by (simp only: base64url_decode_def base64url_digits digits_roundtrip)
qed

interpretation base64: text_codec base64url_encode base64url_decode id "\<lambda>_. True"
  by unfold_locales (simp add: base64url_roundtrip)

section \<open>Key records\<close>

text \<open>What the key generators of the cryptography library give: the PEM texts and the public numbers.\<close>

datatype public_numbers = RsaNumbers (rsa_n: int) (rsa_e: int) | EcNumbers (ec_x: int) (ec_y: int)

record key_material =
  mat_private :: string
  mat_public :: string
  mat_numbers :: public_numbers

definition encoded_int :: "int \<Rightarrow> nat option \<Rightarrow> exn + string" where
  "encoded_int v n = (case int_to_bytes v n of Inl e \<Rightarrow> Inl e | Inr bs \<Rightarrow> Inr (base64url_encode bs))"

fun public_jwk :: "public_numbers \<Rightarrow> exn + json dict" where
  "public_jwk (RsaNumbers n e) =
     (case (encoded_int n None, encoded_int e None) of
        (Inl x, _) \<Rightarrow> Inl x
      | (_, Inl x) \<Rightarrow> Inl x
      | (Inr n', Inr e') \<Rightarrow> Inr [(''kty'', JStr ''RSA''), (''use'', JStr ''sig''), (''alg'', JStr ''RS256''),
          (''n'', JStr n'), (''e'', JStr e')])"
| "public_jwk (EcNumbers x y) =
     (case (encoded_int x (Some 32), encoded_int y (Some 32)) of
        (Inl z, _) \<Rightarrow> Inl z
      | (_, Inl z) \<Rightarrow> Inl z
      | (Inr x', Inr y') \<Rightarrow> Inr [(''kty'', JStr ''EC''), (''use'', JStr ''sig''), (''alg'', JStr ''ES256''),
          (''crv'', JStr ''P-256''), (''x'', JStr x'), (''y'', JStr y')])"

definition build_kid :: "(string \<Rightarrow> 8 word list) \<Rightarrow> string \<Rightarrow> string" where
  "build_kid sha256 public_pem = base64url_encode (take 12 (sha256 public_pem))"

definition generate_key_record ::
    "(string \<Rightarrow> 8 word list) \<Rightarrow> key_material \<Rightarrow> int \<Rightarrow> exn + key_record \<times> json dict" where
  "generate_key_record sha256 mat created_at =
     (case public_jwk (mat_numbers mat) of
        Inl e \<Rightarrow> Inl e
      | Inr jwk \<Rightarrow>
          (let kid = build_kid sha256 (mat_public mat) in
           Inr (\<lparr>kr_kid = kid, kr_created = created_at, kr_private = mat_private mat, kr_public = mat_public mat\<rparr>,
                dset ''kid'' (JStr kid) jwk)))"

text \<open>What a reader of the published key set makes of a member.\<close>

definition jwk_number :: "json dict \<Rightarrow> string \<Rightarrow> int option" where
  "jwk_number d k = (case dget d k of Some (JStr s) \<Rightarrow> Some (int (bytes_value (base64url_decode s))) | _ \<Rightarrow> None)"

lemma encoded_int_reads:
  assumes "0 \<le> v" "case n of None \<Rightarrow> True | Some k \<Rightarrow> v < 256 ^ k"
  shows "\<exists>s. encoded_int v n = Inr s \<and> int (bytes_value (base64url_decode s)) = v
     \<and> set s \<subseteq> set b64_alphabet \<and> (n = Some 32 \<longrightarrow> length s = 43)"
proof -
  let ?k = "case n of None \<Rightarrow> max 1 (nat ((bitlen v + 7) div 8)) | Some k \<Rightarrow> k"
  have fits: "v < 256 ^ ?k" using assms bitlen_fits [of v] by (cases n) simp_all
  then have "nat v < 256 ^ ?k" using assms(1) by (simp add: nat_less_iff)
  then have "bytes_value (be_bytes ?k (nat v)) = nat v" by (rule bytes_value_be)
  moreover have "encoded_int v n = Inr (base64url_encode (be_bytes ?k (nat v)))"
    using assms(1) fits by (simp add: encoded_int_def int_to_bytes_def to_bytes_def)
  ultimately show ?thesis
    using assms(1) base64url_alphabet base64url_length [of "be_bytes ?k (nat v)"]
    by (auto simp: base64url_roundtrip)
qed

section \<open>Properties\<close>

text \<open>C25. The published key says what the key is: whatever key the generator made, the record is built, a
  reader of its JWK recovers exactly the public numbers, the coordinates of an elliptic-curve key
  always take 43 characters, and the JWK and the record carry the same 16-character url-safe id.\<close>

theorem published_key_recovered:
  assumes "length (sha256 (mat_public mat)) = 32"
    and "case mat_numbers mat of RsaNumbers n e \<Rightarrow> 0 \<le> n \<and> 0 \<le> e
         | EcNumbers x y \<Rightarrow> x \<in> {0..<2 ^ 256} \<and> y \<in> {0..<2 ^ 256}"
  shows "\<exists>r d. generate_key_record sha256 mat t = Inr (r, d)
     \<and> dget d ''kid'' = Some (JStr (kr_kid r)) \<and> length (kr_kid r) = 16 \<and> set (kr_kid r) \<subseteq> set b64_alphabet
     \<and> (case mat_numbers mat of
          RsaNumbers n e \<Rightarrow> jwk_number d ''n'' = Some n \<and> jwk_number d ''e'' = Some e
        | EcNumbers x y \<Rightarrow> jwk_number d ''x'' = Some x \<and> jwk_number d ''y'' = Some y
            \<and> (\<exists>s s'. dget d ''x'' = Some (JStr s) \<and> dget d ''y'' = Some (JStr s') \<and> length s = 43 \<and> length s' = 43))"
proof -
  have kid: "length (build_kid sha256 (mat_public mat)) = 16" "set (build_kid sha256 (mat_public mat)) \<subseteq> set b64_alphabet"
    using assms(1) base64url_alphabet by (auto simp: build_kid_def base64url_length)
  show ?thesis
  proof (cases "mat_numbers mat")
    case (RsaNumbers n e)
    obtain n' where n: "encoded_int n None = Inr n'" "int (bytes_value (base64url_decode n')) = n"
      using encoded_int_reads [of n None] assms(2) RsaNumbers by auto
    obtain e' where e: "encoded_int e None = Inr e'" "int (bytes_value (base64url_decode e')) = e"
      using encoded_int_reads [of e None] assms(2) RsaNumbers by auto
    show ?thesis
      using RsaNumbers n e kid by (simp add: generate_key_record_def Let_def dset_def dget_def jwk_number_def)
  next
    case (EcNumbers x y)
    have two: "(256::int) ^ 32 = 2 ^ 256" by simp
    obtain x' where x: "encoded_int x (Some 32) = Inr x'" "int (bytes_value (base64url_decode x')) = x" "length x' = 43"
      using encoded_int_reads [of x "Some 32"] assms(2) EcNumbers by (auto simp: two)
    obtain y' where y: "encoded_int y (Some 32) = Inr y'" "int (bytes_value (base64url_decode y')) = y" "length y' = 43"
      using encoded_int_reads [of y "Some 32"] assms(2) EcNumbers by (auto simp: two)
    show ?thesis
      using EcNumbers x y kid by (simp add: generate_key_record_def Let_def dset_def dget_def jwk_number_def)
  qed
qed

definition demo_material :: key_material where
  "demo_material = \<lparr>mat_private = ''sk'', mat_public = ''pk'', mat_numbers = RsaNumbers 3233 17\<rparr>"

theorem published_key_recovered_witness:
  "\<exists>r d. generate_key_record (\<lambda>_. replicate 32 7) demo_material 5 = Inr (r, d)
     \<and> dget d ''e'' = Some (JStr ''EQ'') \<and> jwk_number d ''n'' = Some 3233 \<and> jwk_number d ''e'' = Some 17"
proof -
  have "length (replicate 32 7 :: 8 word list) = 32" by simp
  from published_key_recovered [of "\<lambda>_. replicate 32 7" demo_material 5, OF this]
  obtain r d where g: "generate_key_record (\<lambda>_. replicate 32 7) demo_material 5 = Inr (r, d)"
    and j: "jwk_number d ''n'' = Some 3233" "jwk_number d ''e'' = Some 17"
    by (auto simp: demo_material_def)
  have "(case generate_key_record (\<lambda>_. replicate 32 7) demo_material 5 of
      Inl _ \<Rightarrow> None | Inr (r, d) \<Rightarrow> dget d ''e'') = Some (JStr ''EQ'')"
    by code_simp
  with g j show ?thesis by simp
qed

end
