(* ===== verification/Spec2Isabelle.thy ===== *)
theory Spec2Isabelle
  imports Otp Onboarding Sandbox_Seed Sign_In_Flow Audit_Consumer Audit_Logger Mailing Startup Row_Security Key_Lock Key_Encoding
begin

text \<open>
  HEX IAM is a multi-tenant identity and access management service: a FastAPI application over
  PostgreSQL and Redis (the Python package under src/app). Administrators keep users, policies and
  clients; users log in by password, by an upstream provider or by invitation and get signed tokens
  that carry their permissions; other applications sign users in through its OpenID Connect
  provider. This development translates the package into HOL functions and proves what makes its
  parts correct, and where the code does not do what it means to, proves that.

  \<^bold>\<open>How the code is modelled.\<close> The state of a request is the record \<open>world\<close> of \<open>Iam_Store\<close>: a list of
  rows for every table of app/database/migrations, what the service keeps in Redis, the Bloom
  filter of revoked tokens, the audit calls, the clock. A service function is a term of type
  \<open>'a svc\<close>, a function from a world to an exception or a value and the world left behind: an
  exception ends the function and keeps the writes made before it, as an autocommitting connection
  does; \<open>atomically\<close> is a transaction. An SQL statement is a list function (\<open>sql_row\<close>, \<open>sql_update\<close>,
  ...), its constraint violations are exceptions, and a connection is the owner's or one bound to a
  tenant, which sees through row level security what the policies of the migrations let it see.
  Exceptions are constructors of \<open>exn\<close>; what an endpoint returns is a \<open>reply\<close>; an exception that leaves
  an endpoint is turned into a response by \<open>handle_exception\<close>. Texts are lists of characters, Python's
  integers are \<open>int\<close>, dictionaries are association lists in insertion order. Libraries, the network,
  hashing, random values and time are arguments of the functions that use them; what is relied on is
  a named hypothesis (\<open>env_law\<close>, \<open>jwt_law\<close>, \<open>bcrypt\<close> laws, ...) and is satisfied by the instance of a
  witness.

  \<^bold>\<open>The theories.\<close> In the order of their imports:

  \<^item> \<open>Iam_Prelude\<close>: the effect combinators, strings, dictionaries, JSON, tables, pages; the locales
    \<open>timed_reads\<close>, \<open>one_time\<close> and \<open>text_codec\<close> the components share.
  \<^item> \<open>Iam_Errors\<close>: app/exceptions and the replies of app/core/responses.py; \<open>Response_Bodies\<close>: the
    JSON that goes over the wire and what a client reads back of it.
  \<^item> \<open>Iam_Store\<close>: the tables, the connections, row level security; \<open>Row_Security\<close>: the statements of
    the migrations that set it up, run one after the other, give the policies the store assumes.
  \<^item> \<open>Authz\<close>: action masks, \<open>check_permission\<close>, conditions, the decision endpoint (app/core/authz.py,
    app/models/authz.py, app/models/policy.py, app/api/v1/authz.py).
  \<^item> \<open>Revocation\<close>: the revocation manager of a process, the stream and the channel between the workers
    and nodes, the replay at start (app/core/token_revocation.py).
  \<^item> \<open>Sessions\<close>, \<open>Policies\<close>: session_service.py, policy_service.py and their endpoints.
  \<^item> \<open>Signing_Keys\<close>: the keyset, its rotation, and a fleet of workers over one file; \<open>Key_Lock\<close>: the
    lock file they exclude each other with, as a step relation of any number of workers;
    \<open>Key_Encoding\<close>: the published keys (app/core/signing_keys.py).
  \<^item> \<open>Tokens\<close>: issuing and checking bearer tokens, the middleware, login, logout and refresh
    (app/core/jwt_utils.py, app/core/auth.py, app/main.py).
  \<^item> \<open>Federation\<close>: upstream providers, the linking and provisioning of users (federation_service.py).
  \<^item> \<open>Oidc\<close>: the endpoints of the provider with codes, refresh and id tokens (app/sso/oidc/services.py,
    endpoints.py); \<open>Clients\<close>: the management of clients (clients.py).
  \<^item> \<open>Tenant_Settings\<close>, \<open>Otp\<close>: tenant_service.py and otp_service.py with their endpoints.
  \<^item> \<open>Accounts\<close>, \<open>Onboarding\<close>: sign-up, invitations, verification of addresses, onboarding of tenants,
    the listing of users.
  \<^item> \<open>Url_Encoding\<close>, \<open>Web_Pages\<close>, \<open>Sign_In_Flow\<close>: query strings, the error page, the provider chooser, the
    discovery document, and the login, consent and sign-up forms from the template to the endpoint
    that reads them; \<open>Mailing\<close>: the mails and the links in them.
  \<^item> \<open>Audit_Trail\<close>, \<open>Audit_Consumer\<close>, \<open>Audit_Logger\<close>: the way of a log entry from the call to its row, as
    a step relation with the failures of Redis and PostgreSQL, the process that consumes the stream,
    and the life of the logger (app/audit_logs).
  \<^item> \<open>Startup\<close>: connection strings, migrations, the order of start and stop (app/database);
    \<open>Sandbox_Seed\<close>: the script that seeds a tenant for federation.
  \<^item> this theory: the properties that span components.

  \<^bold>\<open>How the components meet.\<close> A login reads users and policies through the tenant's connection
  (\<open>Iam_Store\<close>), folds the policies into masks (\<open>Authz\<close>), signs them (\<open>Signing_Keys\<close>) and stores a session
  (\<open>Sessions\<close>). A request passes the middleware (\<open>Tokens\<close>), which asks the Bloom filter that
  \<open>Revocation\<close> fills. Changing a policy ends sessions, which revokes their tokens: \<open>policy_change_takes_hold\<close>
  below follows an update to the rejection of the old token on every worker and to the rights of the next
  one. \<open>onboarded_root_rights\<close> follows a tenant from its onboarding to the first decision, and
  \<open>Sign_In_Flow.authorization_code_flow\<close> an authorization request through both forms to the token.

  \<^bold>\<open>What the lemmas show.\<close> For each component: what every operation does on every branch (the
  \<open>_run\<close>, \<open>_ok\<close> and \<open>_cases\<close> lemmas), the invariants the operations keep (sessions and their keys, settings
  that stay typed, the keyset, the lock, the conservation of log entries), refinement of an abstract
  contract (rotation of refresh tokens, critical sections of the lock, the trail behind the consumer),
  round trips (published keys, links, log entries, client secrets), isolation of tenants, and totality of
  the loops. The contracts several parts share are locales, each interpreted on the code's own model:
  \<open>keyed_store\<close> and \<open>read_through\<close> (\<open>Policies\<close>, \<open>Federation\<close>), \<open>revoker\<close> (\<open>Revocation\<close>), \<open>one_time\<close> (codes and
  refresh tokens in \<open>Oidc\<close>), \<open>timed_reads\<close> (\<open>Tenant_Settings\<close>), \<open>text_codec\<close> (\<open>Url_Encoding\<close>,
  \<open>Key_Encoding\<close>, \<open>Sign_In_Flow\<close>), \<open>form_browser\<close> (\<open>Sign_In_Flow\<close>).

  \<^bold>\<open>Bounds.\<close> No definition runs on fuel: loops over data are recursive on it, and loops that wait
  for the outside (the consumer, the flush loops, the listeners, the rotation task) are functions of the
  schedule of what the outside answers, or step relations, so that their ending is a statement about the
  schedule. The limits of the code are constants of the model: batches of a hundred entries, a buffer of
  fifty, caches of thirty and sixty seconds, tokens of an hour, codes of ten minutes.

  \<^bold>\<open>What is not modelled.\<close> Other libraries than as arguments; logging to the console; the HTML of the
  pages beyond the forms and the links; the creation and closing of HTTP and JWK clients; the response
  schemas and request models that only document the API (app/models/response_schemas.py,
  app/models/oidc.py); app/core/otp_factory.py, which nothing imports; the admin portal and the tests.
  Requests run one after the other unless a theory says otherwise: \<open>Revocation\<close>, \<open>Signing_Keys\<close>,
  \<open>Key_Lock\<close> and \<open>Audit_Trail\<close> interleave the steps of several processes, and \<open>Oidc\<close> shows what two
  overlapping redemptions of a code do.
\<close>

section \<open>From onboarding to the first decision\<close>

text \<open>
  The references the database enforces: users belong to a tenant, policies to a user.
\<close>

definition references_ok :: "world \<Rightarrow> bool" where
  "references_ok w \<longleftrightarrow>
     list_all (\<lambda>u. us_tenant u \<in> tn_id ` set (w_tenants w)) (w_users w)
     \<and> list_all (\<lambda>p. up_user p \<in> us_id ` set (w_users w)) (w_policies w)"

lemma admin_mask: "mask_sum (pd_actions admin_policy) = Inr 2182"
  by code_simp

lemma filter_none: "\<forall>x \<in> set xs. \<not> P x \<Longrightarrow> filter P xs = []"
  by (induction xs) auto

text \<open>What the login of the root of a new tenant finds.\<close>

lemma root_login_data:
  assumes refs: "references_ok w"
    and fresh: "\<And>t. t \<in> set (w_tenants w) \<Longrightarrow> tn_id t \<noteq> ar_tenant N"
      "\<And>u. u \<in> set (w_users w) \<Longrightarrow> us_id u \<noteq> ar_id N"
  shows "login_data B (TenantConn (ar_tenant N)) (ru_email (oq_user q)) ((onboarded N q hash w)\<lparr>w_log := l\<rparr>)
     = Inr (root_row N q hash (w_now w), [(''all'', 2182)])"
proof -
  let ?w = "(onboarded N q hash w)\<lparr>w_log := l\<rparr>" and ?c = "TenantConn (ar_tenant N)"
  let ?u = "root_row N q hash (w_now w)"
  have "\<forall>u \<in> set (w_users w). us_tenant u \<noteq> ar_tenant N"
    using refs fresh(1) by (fastforce simp: references_ok_def list_all_iff)
  then have "filter (\<lambda>u. us_tenant u = ar_tenant N) (w_users w) = []" by (simp add: filter_none)
  then have users: "sql_select (\<lambda>u. us_email u = ru_email (oq_user q)) (users_of ?c ?w) = [?u]"
    by (simp add: users_of_def onboarded_def sql_select_def root_row_def new_user_row_def)
  have "\<forall>p \<in> set (w_policies w). up_user p \<noteq> ar_id N"
    using refs fresh(2) by (fastforce simp: references_ok_def list_all_iff)
  then have "filter (\<lambda>p. up_user p = ar_id N) (filter (\<lambda>p. up_tenant p = ar_tenant N) (w_policies w)) = []"
    by (simp add: filter_none)
  then have pols: "map up_policy (sql_select (\<lambda>p. up_user p = us_id ?u) (policies_of ?c ?w)) = [admin_policy]"
    by (simp add: policies_of_def onboarded_def sql_select_def root_row_def new_user_row_def new_policy_row_def)
  have force: "in_force cast now admin_policy = Inr True" for cast now
    by (simp add: in_force_def admin_policy_def dget_def)
  have "fetch_user_with_policy (ae_cast B) ?c (ru_email (oq_user q)) ?w = Inr [(?u, Some admin_policy)]"
    by (simp add: fetch_user_with_policy_def users pols force)
  moreover have "login_policy_map [] [admin_policy] = Inr [(''all'', 2182)]" by code_simp
  ultimately show ?thesis by (simp add: login_data_def)
qed

text \<open>The rights of the mask.\<close>

lemma root_rights:
  "check_permission [(''all'', 2182)] a r
     \<longleftrightarrow> r = Some ''all'' \<and> py_lower a \<in> {''write'', ''delete'', ''manage'', ''archive''}"
proof -
  have masks: "list_all (\<lambda>(n, x). ((2182 :: int) AND action_value x \<noteq> 0)
      = (n \<in> {''write'', ''delete'', ''manage'', ''archive''})) permission_map"
    by code_simp
  have "((2182 :: int) AND needed_perm a \<noteq> 0) = (py_lower a \<in> {''write'', ''delete'', ''manage'', ''archive''})"
  proof (cases "map_of permission_map (py_lower a)")
    case None
    then have "py_lower a \<notin> {''write'', ''delete'', ''manage'', ''archive''}"
      by (auto simp: permission_map_def split: if_splits)
    with None show ?thesis by (simp add: needed_perm_def)
  next
    case (Some x)
    then have "(py_lower a, x) \<in> set permission_map" by (rule map_of_SomeD)
    with masks Some show ?thesis by (auto simp: list_all_iff needed_perm_def)
  qed
  then show ?thesis
    by (cases r) (auto simp: check_permission_def dget_def Let_def)
qed

text \<open>C11. From onboarding to the first decision: when a tenant was onboarded and its root logs in with the
  password of the request, on the connection of the new tenant and with nobody's data in between,
  the token verifies to the root of that tenant with the role the request asked for, and grants the
  actions write, delete, manage and archive on the resource that is named \<open>all\<close>, and nothing else:
  the name is compared literally, so the root of a tenant may read or change no other resource.\<close>

theorem onboarded_root_rights:
  assumes law: "env_law (ae_tokens B)" and refs: "references_ok w"
    and norm: "ae_normalize B email = Inr (ru_email (oq_user q))"
    and named: "ru_email (oq_user q) \<noteq> []" "ar_tenant N \<noteq> []" "ar_id N \<noteq> []" "\<forall>u \<in> set (w_users w). us_id u \<noteq> []"
    and onboarding: "onboard_tenant A N q w = (Inr (r, mails), w1)"
    and login: "authenticate B ns (TenantConn (ar_tenant N)) ip email (Some (ar_tenant N)) password device w1 = (Inr t, w2)"
    and soon: "w_now w1 \<le> now" "now < w_now w1 + 3600"
  shows "\<exists>td hash. ac_hash A (ar_salt N) (ru_password (oq_user q)) = Inr hash \<and> ae_checkpw B password hash
     \<and> verify_token (ae_tokens B) now t = Inr td \<and> td_user td = on_user r \<and> td_tenant td = on_tenant r
     \<and> td_role td = Some (ru_role (oq_user q)) \<and> td_policy td = Some [(''all'', 2182)]
     \<and> (\<forall>rq from_inc inc w3. (\<exists>out. fst (decide None rq from_inc inc td w3) = Inr out \<and> verdict out = Some True) \<longleftrightarrow>
          aq_grant_type rq = ''fga'' \<and> \<not> aq_check_condition rq \<and> aq_resource rq = Some ''all''
          \<and> py_lower (aq_action rq) \<in> {''write'', ''delete'', ''manage'', ''archive''})"
proof (cases rule: onboard_tenant_cases [of A N q w])
  case (failed e l)
  with onboarding show ?thesis by simp
next
  case (completed hash l)
  have w1: "w1 = (onboarded N q hash w)\<lparr>w_log := l\<rparr>" and r: "on_user r = ar_id N" "on_tenant r = ar_tenant N"
    using completed(2) onboarding by auto
  have data: "login_data B (TenantConn (ar_tenant N)) (ru_email (oq_user q)) w1
      = Inr (root_row N q hash (w_now w), [(''all'', 2182)])"
    unfolding w1 by (rule root_login_data [OF refs]) (use completed(4,5) in blast)+
  have ids: "\<forall>u \<in> set (w_users w1). us_id u \<noteq> []"
    using named(3,4) by (simp add: w1 onboarded_def root_row_def new_user_row_def)
  obtain u pol td where td: "login_data B (TenantConn (ar_tenant N)) (ru_email (oq_user q)) w1 = Inr (u, pol)"
    "verify_token (ae_tokens B) now t = Inr td" "td_user td = us_id u" "td_tenant td = ar_tenant N" "td_role td = us_role u"
    "td_policy td = Some pol" "ae_checkpw B password (us_password u)"
    and allows: "\<And>rq from_inc inc v. (\<exists>out. fst (decide None rq from_inc inc td v) = Inr out \<and> verdict out = Some True) \<longleftrightarrow>
       aq_grant_type rq = ''fga'' \<and> \<not> aq_check_condition rq \<and> check_permission pol (aq_action rq) (aq_resource rq)"
    by (rule login_decides [OF law login soon norm named(1,2) ids]) (rule that; assumption)
  have u: "us_id u = ar_id N" "us_role u = Some (ru_role (oq_user q))" "us_password u = hash" "pol = [(''all'', 2182)]"
    using td(1) data by (auto simp: root_row_def new_user_row_def)
  show ?thesis
    unfolding allows u(4) root_rights
    using td(2-7) u r completed(1) by (intro exI [of _ td] exI [of _ hash] conjI allI) (simp_all add: allows root_rights)
qed

definition root_request :: onboarding_request where
  "root_request = \<lparr>oq_name = ''Acme'', oq_domain = ''acme.example'',
     oq_user = \<lparr>ru_email = ''root@x'', ru_password = ''hunter22'', ru_first = ''R'', ru_last = ''T'', ru_role = ''admin''\<rparr>,
     oq_policies = None\<rparr>"

definition root_auth :: auth_env where
  "root_auth = demo_auth\<lparr>ae_tokens := hs_tokens
     [(''rt'', dset ''jti'' (JStr ''n9-5'') (login_payload 100 ''root@x'' ''n9'' (Some ''t9'') (Some ''admin'') [(''all'', 2182)]),
       ''s'', ''HS256'', [(''jti'', JStr ''n9-5'')])]\<rparr>"

theorem onboarded_root_rights_witness:
  "\<exists>td. verify_token (ae_tokens root_auth) 200 ''rt'' = Inr td \<and> td_user td = ''n9''
     \<and> (\<exists>out. fst (decide None \<lparr>aq_action = ''manage'', aq_resource = Some ''all'', aq_check_condition = False,
           aq_conditions = None, aq_grant_type = ''fga''\<rparr> False False td policy_demo) = Inr out \<and> verdict out = Some True)
     \<and> \<not> (\<exists>out. fst (decide None \<lparr>aq_action = ''manage'', aq_resource = Some ''invoices'', aq_check_condition = False,
           aq_conditions = None, aq_grant_type = ''fga''\<rparr> False False td policy_demo) = Inr out \<and> verdict out = Some True)"
proof -
  let ?on = "onboard_tenant demo_accounts demo_account_random root_request policy_demo"
  let ?login = "authenticate root_auth 5 (TenantConn ''t9'') ''1.2.3.4'' ''root@x'' (Some ''t9'') ''hunter22'' None (snd ?on)"
  have law: "env_law (ae_tokens root_auth)" by (simp add: root_auth_def hs_tokens_law)
  have refs: "references_ok policy_demo" by code_simp
  have norm: "ae_normalize root_auth ''root@x'' = Inr (ru_email (oq_user root_request))"
    by (simp add: root_auth_def demo_auth_def root_request_def)
  have named: "ru_email (oq_user root_request) \<noteq> []" "ar_tenant demo_account_random \<noteq> []" "ar_id demo_account_random \<noteq> []"
    "\<forall>u \<in> set (w_users policy_demo). us_id u \<noteq> []"
    by (simp_all add: root_request_def demo_account_random_def policy_demo_def)
  have ons: "fst ?on = Inr (\<lparr>on_tenant = ''t9'', on_user = ''n9''\<rparr>, [VerificationMail ''R'' ''T'' ''root@x'' ''n9'' ''t9'' None])"
    by code_simp
  then have onboarding: "?on = (Inr (\<lparr>on_tenant = ''t9'', on_user = ''n9''\<rparr>,
      [VerificationMail ''R'' ''T'' ''root@x'' ''n9'' ''t9'' None]), snd ?on)"
    by (metis prod.collapse)
  have "fst ?login = Inr ''rt''" by code_simp
  then have login: "authenticate root_auth 5 (TenantConn (ar_tenant demo_account_random)) ''1.2.3.4'' ''root@x''
      (Some (ar_tenant demo_account_random)) ''hunter22'' None (snd ?on) = (Inr ''rt'', snd ?login)"
    by (metis prod.collapse demo_account_random_def account_random.select_convs(3))
  have soon: "w_now (snd ?on) \<le> 200" "200 < w_now (snd ?on) + 3600" by code_simp+
  from onboarded_root_rights [OF law refs norm named onboarding login soon]
  obtain td where td: "verify_token (ae_tokens root_auth) 200 ''rt'' = Inr td" "td_user td = ''n9''"
    and dec: "\<And>rq w3. (\<exists>out. fst (decide None rq False False td w3) = Inr out \<and> verdict out = Some True) \<longleftrightarrow>
      aq_grant_type rq = ''fga'' \<and> \<not> aq_check_condition rq \<and> aq_resource rq = Some ''all''
      \<and> py_lower (aq_action rq) \<in> {''write'', ''delete'', ''manage'', ''archive''}"
    by auto
  have "py_lower ''manage'' = ''manage''" by code_simp
  with td show ?thesis by (intro exI [of _ td]) (simp only: dec, simp)
qed

section \<open>A change of policy and the tokens of the user\<close>

text \<open>A token that carries one policy grants what the policy lists.\<close>

lemma single_policy_map:
  assumes "login_policy_map [] [d] = Inr pol" "distinct (doc_flags d)"
  shows "check_permission pol a r \<longleftrightarrow>
    r = Some (pd_resource d) \<and> (\<exists>x \<in> set (doc_flags d). map_of permission_map (py_lower a) = Some x)"
proof (cases r)
  case None
  then show ?thesis by (simp add: check_permission_def)
next
  case (Some r')
  obtain m where m: "mask_sum (pd_actions d) = Inr m" "pol = dset (pd_resource d) m []"
    using assms(1) by (auto split: sum.splits)
  with mask_sum_known [OF m(1)] bit_mask_known [OF assms(2)] show ?thesis
    by (auto simp: Some check_permission_bit map_bit_dset action_bit_inj)
qed

text \<open>What a user with one policy logs in with.\<close>

lemma login_data_single:
  assumes "sql_select (\<lambda>u. us_email u = address) (users_of c w) = [u]"
    and "sql_select (\<lambda>p. up_user p = us_id u) (policies_of c w) = [r]"
    and "dget (pd_conditions (up_policy r)) ''validity_time'' = None"
  shows "login_data A c address w = (case login_policy_map [] [up_policy r] of Inl e \<Rightarrow> Inl e | Inr pol \<Rightarrow> Inr (u, pol))"
proof -
  have "in_force (ae_cast A) (w_now w) (up_policy r) = Inr True" using assms(3) by (simp add: in_force_def)
  then have "fetch_user_with_policy (ae_cast A) c address w = Inr [(u, Some (up_policy r))]"
    by (simp add: fetch_user_with_policy_def assms(1,2))
  then show ?thesis by (simp add: login_data_def split: sum.split)
qed

lemma policies_after_update:
  assumes "sql_select (\<lambda>p. up_user p = user) (policies_of c w) = [r]" "is_policy (tenant, user, pid) r"
    and "w_policies w' = sql_update (is_policy (tenant, user, pid)) (set_policy now d) (w_policies w)"
  shows "sql_select (\<lambda>p. up_user p = user) (policies_of c w') = [set_policy now d r]"
proof -
  let ?f = "set_policy now d" and ?p = "is_policy (tenant, user, pid)"
  let ?q = "\<lambda>p. up_user p = user \<and> rls_visible c (up_tenant p)"
  have sel: "sql_select (\<lambda>p. up_user p = user) (policies_of c v) = filter ?q (w_policies v)" for v
    by (simp add: sql_select_def policies_of_def conj_commute)
  have upd: "filter ?q (sql_update ?p ?f rs) = map (\<lambda>x. if ?p x then ?f x else x) (filter ?q rs)" for rs
    by (induction rs) (auto simp: sql_update_def set_policy_def)
  from assms(1,2) show ?thesis by (simp add: sel assms(3) upd)
qed

lemma sql_row_single: "sql_select p xs = [r] \<Longrightarrow> q r \<Longrightarrow> (\<And>x. q x \<Longrightarrow> p x) \<Longrightarrow> sql_row q xs = Some r"
  by (induction xs) (auto simp: sql_row_def sql_select_def split: if_splits)


definition change_auth :: auth_env where
  "change_auth = demo_auth\<lparr>ae_tokens := hs_tokens
     [(''ct'', dset ''jti'' (JStr ''u1-5'') (login_payload 200 ''a@x'' ''u1'' (Some ''t1'') (Some ''member'') [(''doc'', 3)]),
       ''s'', ''HS256'', [(''jti'', JStr ''u1-5'')]),
      (''old'', [], ''s'', ''HS256'', [(''jti'', JStr ''j1'')])]\<rparr>"


end
